(* ===== verification/Safer_Prelude.thy ===== *)
theory Safer_Prelude
  imports Main "HOL-Library.AList" "HOL-Library.Word"
begin

text \<open>
  Shared vocabulary of the development: Go's byte strings, errors as values, the
  \<open>context.Context\<close> fragment the code uses, Go maps that are ranged over as association
  lists, and the generic facts about invariants of step relations that the components share.
\<close>

named_theorems frame \<open>an operation leaves a part of the state alone\<close>
named_theorems lm_simps \<open>projections of lock-manager states after an operation\<close>

section \<open>Bytes, errors and contexts\<close>

text \<open>
  Go strings and \<open>[]byte\<close> values are both byte sequences, and the conversions between them
  copy the bytes, so both are lists of \<open>char\<close> (256 values).
\<close>

type_synonym bytes = "char list"
type_synonym uint64 = "64 word"
type_synonym uint32 = "32 word"

text \<open>Arithmetic on an \<open>int64\<close>, such as a \<open>time.Duration\<close>, wraps around.\<close>

definition wrap64 :: "int \<Rightarrow> int" where
  "wrap64 x = sint (word_of_int x :: 64 word)"

lemma wrap64_id: "- (2 ^ 63) \<le> x \<Longrightarrow> x < 2 ^ 63 \<Longrightarrow> wrap64 x = x"
  by (simp add: wrap64_def int_word_sint)

lemma wrap64_range: "- (2 ^ 63) \<le> wrap64 x" "wrap64 x < 2 ^ 63"
  using sint_range_size [of "word_of_int x :: 64 word"] by (simp_all add: wrap64_def word_size)

text \<open>
  Errors. The source builds plain errors (\<open>errors.New\<close>, \<open>fmt.Errorf\<close>), wraps errors with
  \<open>%w\<close>, uses the two sentinel errors of package \<open>context\<close>, the sentinel
  \<open>fencing.ErrStaleFence\<close>, and gRPC status errors. A message is the source's format string;
  its arguments are not rendered.
\<close>

datatype grpc_code = InvalidArgument | FailedPrecondition | ResourceExhausted | Aborted
  | Unavailable | CanceledCode | DeadlineExceededCode | UnknownCode

datatype error =
    ErrorMsg string
  | Canceled
  | DeadlineExceeded
  | ErrStaleFence
  | Status grpc_code string
  | Wrap string error

text \<open>\<open>errors.Is\<close> follows the chain of wrapped errors.\<close>

fun errors_Is :: "error \<Rightarrow> error \<Rightarrow> bool" where
  "errors_Is (Wrap s e) target = (Wrap s e = target \<or> errors_Is e target)"
| "errors_Is e target = (e = target)"

text \<open>\<open>err.Error()\<close>, up to the arguments of the format strings.\<close>

fun err_Error :: "error \<Rightarrow> string" where
  "err_Error (ErrorMsg s) = s"
| "err_Error Canceled = ''context canceled''"
| "err_Error DeadlineExceeded = ''context deadline exceeded''"
| "err_Error ErrStaleFence =
     ''fencing: stale fencing token; this transaction no longer holds the lock''"
| "err_Error (Status c s) = s"
| "err_Error (Wrap s e) = s @ '': '' @ err_Error e"

text \<open>
  A context: the error \<open>ctx.Err()\<close> reports now, whether \<open>ctx.Done()\<close> is a channel at all,
  and whether it carries a deadline. \<open>context.Background()\<close> never ends.
\<close>

record go_context =
  ctx_Err :: "error option"
  ctx_Done :: bool
  ctx_Deadline :: bool

definition Background :: go_context where
  "Background = \<lparr>ctx_Err = None, ctx_Done = False, ctx_Deadline = False\<rparr>"

lemma Background_simps [simp]:
  "ctx_Err Background = None" "\<not> ctx_Done Background" "\<not> ctx_Deadline Background"
  by (simp_all add: Background_def)

section \<open>Go maps as association lists\<close>

text \<open>
  Maps the code ranges over are association lists with distinct keys: \<open>map_of\<close> is the
  lookup, \<open>AList.update\<close> the assignment, \<open>AList.delete\<close> the builtin \<open>delete\<close>.
\<close>

lemmas alist_conv = AList.update_conv' AList.delete_conv'

lemma map_of_update_apply [simp]:
  "map_of (AList.update k v m) k' = (if k' = k then Some v else map_of m k')"
  by (simp add: AList.update_conv')

lemma map_of_delete_apply:
  "map_of (AList.delete k m) k' = (if k' = k then None else map_of m k')"
  by (simp add: AList.delete_conv')

lemma distinct_keys_update [simp]:
  "distinct (map fst (AList.update k v m)) = distinct (map fst m)"
proof (induction m)
  case (Cons p m)
  then show ?case using AList.dom_update [of k v m] by (cases p) auto
qed simp

lemma distinct_keys_delete [simp]:
  "distinct (map fst m) \<Longrightarrow> distinct (map fst (AList.delete k m))"
  by (simp add: AList.distinct_delete)

lemma delete_eq_Nil_iff: "AList.delete k m = [] \<longleftrightarrow> fst ` set m \<subseteq> {k}"
  by (induction m) (auto simp: AList.delete_eq)

lemma map_of_eq_empty_iff: "(\<forall>k. map_of m k = None) \<longleftrightarrow> m = []"
  by (cases m) (auto simp: map_of_eq_None_iff)

section \<open>Invariants of step relations\<close>

text \<open>
  A system that starts in \<open>init\<close> and moves by \<open>step\<close>: what holds at the start and is kept by
  every step holds in every reachable state.
\<close>

inductive reaches :: "('s \<Rightarrow> 's \<Rightarrow> bool) \<Rightarrow> 's \<Rightarrow> 's \<Rightarrow> bool" for step where
  reaches_refl: "reaches step s s"
| reaches_step: "reaches step s t \<Longrightarrow> step t u \<Longrightarrow> reaches step s u"

lemma reaches_first:
  assumes "step s t" "reaches step t u"
  shows "reaches step s u"
  using assms(2,1) by (induction rule: reaches.induct) (auto intro: reaches.intros)

locale inductive_invariant =
  fixes init :: "'s" and step :: "'s \<Rightarrow> 's \<Rightarrow> bool" and inv :: "'s \<Rightarrow> bool"
  assumes inv_init: "inv init"
    and inv_step: "inv s \<Longrightarrow> step s t \<Longrightarrow> inv t"
begin

lemma reachable_from: "reaches step s t \<Longrightarrow> inv s \<Longrightarrow> inv t"
  by (induction rule: reaches.induct) (auto intro: inv_step)

lemma reachable_inv: "reaches step init s \<Longrightarrow> inv s"
  using reachable_from inv_init by blast

end

section \<open>Lists\<close>

lemma takeWhile_id_append:
  "x \<notin> set xs \<Longrightarrow> takeWhile ((\<noteq>) x) (xs @ x # ys) = xs"
  by (induction xs) auto

lemma list_insert_not_Nil [simp]: "List.insert x xs \<noteq> []"
  by (auto simp: List.insert_def)

lemma find_snoc:
  "(\<forall>x \<in> set xs. \<not> P x) \<Longrightarrow> find P (xs @ [y]) = (if P y then Some y else None)"
  by (induction xs) auto

lemma find_append_Cons:
  "(\<forall>x \<in> set xs. \<not> P x) \<Longrightarrow> P y \<Longrightarrow> find P (xs @ y # ys) = Some y"
  by (induction xs) auto

lemma list_pos_split: "x \<in> set xs \<Longrightarrow> \<exists>ys zs. xs = ys @ x # zs \<and> x \<notin> set ys"
  by (meson split_list_first)

section \<open>Counters\<close>

lemma word_less_Suc_max: "(n :: 'a :: len word) \<noteq> - 1 \<Longrightarrow> n < n + 1"
proof -
  assume "n \<noteq> - 1"
  then have "1 + n \<noteq> 0" by (metis add.commute eq_neg_iff_add_eq_0)
  from unatSuc [OF this] show ?thesis by (simp add: word_less_nat_alt add.commute)
qed

lemma word_le_Suc_max:
  assumes "(n :: 'a :: len word) \<noteq> - 1"
  shows "t \<le> n + 1 \<longleftrightarrow> t \<le> n \<or> t = n + 1" and "0 < n + 1"
proof -
  have "1 + n \<noteq> 0" using assms by (metis add.commute eq_neg_iff_add_eq_0)
  from unatSuc [OF this] have "unat (n + 1) = Suc (unat n)" by (simp add: add.commute)
  then show "t \<le> n + 1 \<longleftrightarrow> t \<le> n \<or> t = n + 1" and "0 < n + 1"
    by (auto simp: word_le_nat_alt word_less_nat_alt word_unat_eq_iff)
qed

lemma update_new_key: "k \<notin> fst ` set m \<Longrightarrow> AList.update k v m = m @ [(k, v)]"
  by (induction m) auto

section \<open>Decimal numerals\<close>

text \<open>
  \<open>strconv.Itoa\<close> and \<open>%d\<close> on natural numbers, and reading the digits back. Digits are the
  characters 48 to 57.
\<close>

definition digit_char :: "nat \<Rightarrow> char" where
  "digit_char d = char_of (48 + d)"

definition is_digit :: "char \<Rightarrow> bool" where
  "is_digit c \<longleftrightarrow> 48 \<le> (of_char c :: nat) \<and> (of_char c :: nat) < 58"

definition digit_val :: "char \<Rightarrow> nat" where
  "digit_val c = of_char c - 48"

fun itoa :: "nat \<Rightarrow> string" where
  "itoa n = (if n < 10 then [digit_char n] else itoa (n div 10) @ [digit_char (n mod 10)])"

declare itoa.simps [simp del]

definition atoi :: "string \<Rightarrow> nat" where
  "atoi s = foldl (\<lambda>n c. 10 * n + digit_val c) 0 s"

lemma digit_char_props [simp]:
  assumes "d < 10"
  shows "is_digit (digit_char d)" "digit_val (digit_char d) = d"
  using assms by (simp_all add: digit_char_def is_digit_def digit_val_def)

lemma atoi_snoc [simp]: "atoi (s @ [c]) = 10 * atoi s + digit_val c"
  by (simp add: atoi_def)

lemma atoi_itoa [simp]: "atoi (itoa n) = n"
proof (induction n rule: itoa.induct)
  case (1 n)
  show ?case
  proof (cases "n < 10")
    case True
    then show ?thesis by (simp add: itoa.simps [of n] atoi_def)
  next
    case False
    with 1 show ?thesis by (simp add: itoa.simps [of n])
  qed
qed

lemma itoa_digits: "c \<in> set (itoa n) \<Longrightarrow> is_digit c"
proof (induction n rule: itoa.induct)
  case (1 n)
  then show ?case by (cases "n < 10") (auto simp: itoa.simps [of n])
qed

lemma itoa_not_Nil [simp]: "itoa n \<noteq> []"
  by (simp add: itoa.simps [of n])

lemma itoa_inject [simp]: "itoa m = itoa n \<longleftrightarrow> m = n"
  by (metis atoi_itoa)

lemma not_digit_simps [simp]: "\<not> is_digit CHR '':''" "\<not> is_digit CHR ''\"''" "\<not> is_digit CHR '',''"
  "\<not> is_digit CHR ''}''" "\<not> is_digit CHR ''-''"
  by (simp_all add: is_digit_def)

text \<open>A number, a non-digit, and anything: the number and the rest are determined.\<close>

lemma itoa_prefix_unique:
  assumes "itoa m @ c # x = itoa n @ c' # y" and "\<not> is_digit c" and "\<not> is_digit c'"
  shows "m = n \<and> c = c' \<and> x = y"
proof -
  have tw: "takeWhile is_digit (itoa k @ d # z) = itoa k" if "\<not> is_digit d" for k d z
    using that itoa_digits by (induction "itoa k") (auto simp: takeWhile_append2)
  have "itoa m = itoa n" using tw [OF assms(2)] tw [OF assms(3)] assms(1) by metis
  with assms(1) show ?thesis by simp
qed

end
