(* ===== verification/Lock_Manager.thy ===== *)
theory Lock_Manager
  imports Safer_Prelude
begin

text \<open>
  The shared/exclusive lock manager of \<open>client/lockmanager/lockmanager.go\<close>.

  Every method runs under \<open>lm.mu\<close>, which is given up only inside \<open>ls.cond.Wait()\<close>. The model
  therefore has one function per critical section: \<open>AcquireContext\<close> up to its first wait,
  \<open>acquire_recheck\<close> for one turn of its wait loop, \<open>watch_cancel\<close> for the watcher
  goroutine, \<open>Release\<close> and \<open>ReleaseAll\<close>. A condition variable is the list of requests
  parked on it: \<open>Wait\<close> adds the request, \<open>Broadcast\<close> empties the list. Pointer identity of a
  \<open>*lockRequest\<close> is a number that is never used twice.
\<close>

section \<open>Data\<close>

datatype ResourceType = NamespaceResource | FileResource | UnknownResource "8 word"

record ResourceID =
  RType :: ResourceType
  RKey :: string

text \<open>\<open>LockMode\<close> is a \<open>uint8\<close>; values other than the two constants are \<open>UnknownMode\<close>.\<close>

datatype LockMode = SharedLock | ExclusiveLock | UnknownMode "8 word"

fun LockMode_String :: "LockMode \<Rightarrow> string" where
  "LockMode_String SharedLock = ''S''"
| "LockMode_String ExclusiveLock = ''X''"
| "LockMode_String (UnknownMode _) = ''?''"

type_synonym TxnID = uint64

record lockRequest =
  rq_id :: nat
  rq_txn :: TxnID
  rq_mode :: LockMode
  rq_cancelled :: bool

record lockState =
  cond_parked :: "nat list"
  sharedHolders :: "TxnID list"
  hasExclusive :: bool
  exclusiveHolder :: TxnID
  queue :: "lockRequest list"

type_synonym txn_locks = "(ResourceID \<times> LockMode) list"

record LockManager =
  resources :: "ResourceID \<Rightarrow> lockState option"
  held :: "(TxnID \<times> txn_locks) list"
  next_request :: nat

definition NewLockManager :: LockManager where
  "NewLockManager = \<lparr>resources = Map.empty, held = [], next_request = 0\<rparr>"

section \<open>Operations\<close>

definition cond_Broadcast :: "lockState \<Rightarrow> lockState" where
  "cond_Broadcast ls = ls\<lparr>cond_parked := []\<rparr>"

definition cond_Wait :: "nat \<Rightarrow> lockState \<Rightarrow> lockState" where
  "cond_Wait rid ls = ls\<lparr>cond_parked := rid # cond_parked ls\<rparr>"

text \<open>The loop of \<open>canGrant\<close> over the requests still ahead of \<open>req\<close>.\<close>

fun ahead_compatible :: "lockRequest list \<Rightarrow> lockRequest \<Rightarrow> bool" where
  "ahead_compatible [] req = True"
| "ahead_compatible (other # rest) req =
     (if rq_id other = rq_id req then True
      else if \<not> (rq_mode other = SharedLock \<and> rq_mode req = SharedLock) then False
      else ahead_compatible rest req)"

definition canGrant :: "lockState \<Rightarrow> lockRequest \<Rightarrow> bool" where
  "canGrant ls req =
     (if rq_mode req = ExclusiveLock \<and> (hasExclusive ls \<or> length (sharedHolders ls) > 0) then False
      else if rq_mode req \<noteq> ExclusiveLock \<and> hasExclusive ls then False
      else ahead_compatible (queue ls) req)"

fun remove_request :: "nat \<Rightarrow> lockRequest list \<Rightarrow> lockRequest list" where
  "remove_request rid [] = []"
| "remove_request rid (other # rest) =
     (if rq_id other = rid then rest else other # remove_request rid rest)"

definition removeFromQueue :: "nat \<Rightarrow> lockState \<Rightarrow> lockState" where
  "removeFromQueue rid ls = ls\<lparr>queue := remove_request rid (queue ls)\<rparr>"

definition sweepIfIdle :: "ResourceID \<Rightarrow> lockState \<Rightarrow> LockManager \<Rightarrow> LockManager" where
  "sweepIfIdle resource ls lm =
     (if \<not> hasExclusive ls \<and> length (sharedHolders ls) = 0 \<and> length (queue ls) = 0
      then lm\<lparr>resources := (resources lm)(resource := None)\<rparr>
      else lm)"

definition put_state :: "ResourceID \<Rightarrow> lockState \<Rightarrow> LockManager \<Rightarrow> LockManager" where
  "put_state resource ls lm = lm\<lparr>resources := (resources lm)(resource \<mapsto> ls)\<rparr>"

definition txn_locks_of :: "LockManager \<Rightarrow> TxnID \<Rightarrow> txn_locks" where
  "txn_locks_of lm txn = (case map_of (held lm) txn of None \<Rightarrow> [] | Some l \<Rightarrow> l)"

definition held_mode :: "LockManager \<Rightarrow> TxnID \<Rightarrow> ResourceID \<Rightarrow> LockMode option" where
  "held_mode lm txn resource = map_of (txn_locks_of lm txn) resource"

definition record_held :: "TxnID \<Rightarrow> ResourceID \<Rightarrow> LockMode \<Rightarrow> LockManager \<Rightarrow> LockManager" where
  "record_held txn resource mode lm =
     lm\<lparr>held := AList.update txn (AList.update resource mode (txn_locks_of lm txn)) (held lm)\<rparr>"

definition forget_held :: "TxnID \<Rightarrow> ResourceID \<Rightarrow> LockManager \<Rightarrow> LockManager" where
  "forget_held txn resource lm =
     (let txnLocks = AList.delete resource (txn_locks_of lm txn)
      in if length txnLocks = 0 then lm\<lparr>held := AList.delete txn (held lm)\<rparr>
         else lm\<lparr>held := AList.update txn txnLocks (held lm)\<rparr>)"

datatype acquire_result = Granted | Waiting nat | Refused error

definition find_request :: "nat \<Rightarrow> lockState \<Rightarrow> lockRequest option" where
  "find_request rid ls = find (\<lambda>r. rq_id r = rid) (queue ls)"

text \<open>The holder sets of a lock record after \<open>txn\<close> has been given \<open>mode\<close>.\<close>

definition add_holder :: "TxnID \<Rightarrow> LockMode \<Rightarrow> lockState \<Rightarrow> lockState" where
  "add_holder txn mode ls =
     (if mode = ExclusiveLock then ls\<lparr>hasExclusive := True, exclusiveHolder := txn\<rparr>
      else ls\<lparr>sharedHolders := List.insert txn (sharedHolders ls)\<rparr>)"

text \<open>
  One turn of the wait loop, for the request \<open>rid\<close> on \<open>resource\<close>: a cancelled request leaves
  the queue, a grantable one becomes a holder, any other parks again. The goroutine owns a
  queued request here; a record or request that is missing leaves the state alone.
\<close>

definition acquire_recheck ::
  "go_context \<Rightarrow> ResourceID \<Rightarrow> nat \<Rightarrow> LockManager \<Rightarrow> acquire_result \<times> LockManager" where
  "acquire_recheck ctx resource rid lm =
     (case resources lm resource of
        None \<Rightarrow> (Waiting rid, lm)
      | Some ls \<Rightarrow>
         (case find_request rid ls of
            None \<Rightarrow> (Waiting rid, lm)
          | Some req \<Rightarrow>
             if rq_cancelled req then
               (let ls' = cond_Broadcast (removeFromQueue rid ls);
                    lm' = sweepIfIdle resource ls' (put_state resource ls' lm)
                in (case ctx_Err ctx of
                      Some e \<Rightarrow> (Refused e, lm')
                    | None \<Rightarrow> (Refused Canceled, lm')))
             else if canGrant ls req then
               (let ls' = cond_Broadcast
                            (add_holder (rq_txn req) (rq_mode req) (removeFromQueue rid ls))
                in (Granted,
                    record_held (rq_txn req) resource (rq_mode req) (put_state resource ls' lm)))
             else (Waiting rid, put_state resource (cond_Wait rid ls) lm)))"

definition fresh_lockState :: lockState where
  "fresh_lockState =
     \<lparr>cond_parked = [], sharedHolders = [], hasExclusive = False, exclusiveHolder = 0, queue = []\<rparr>"

definition enqueue ::
  "TxnID \<Rightarrow> ResourceID \<Rightarrow> LockMode \<Rightarrow> LockManager \<Rightarrow> LockManager" where
  "enqueue txn resource mode lm =
     (let ls = (case resources lm resource of None \<Rightarrow> fresh_lockState | Some ls \<Rightarrow> ls);
          req = \<lparr>rq_id = next_request lm, rq_txn = txn, rq_mode = mode, rq_cancelled = False\<rparr>
      in (put_state resource (ls\<lparr>queue := queue ls @ [req]\<rparr>) lm)
           \<lparr>next_request := Suc (next_request lm)\<rparr>)"

definition AcquireContext ::
  "go_context option \<Rightarrow> TxnID \<Rightarrow> ResourceID \<Rightarrow> LockMode \<Rightarrow> LockManager
   \<Rightarrow> acquire_result \<times> LockManager" where
  "AcquireContext ctx txn resource mode lm =
     (case ctx of
        None \<Rightarrow> (Refused (ErrorMsg ''lockmanager: nil context''), lm)
      | Some c \<Rightarrow>
         if mode \<noteq> SharedLock \<and> mode \<noteq> ExclusiveLock then
           (Refused (ErrorMsg ''lockmanager: invalid lock mode''), lm)
         else (case ctx_Err c of
            Some e \<Rightarrow> (Refused e, lm)
          | None \<Rightarrow>
             (case held_mode lm txn resource of
                Some _ \<Rightarrow> (Refused (ErrorMsg ''lockmanager: txn already holds resource''), lm)
              | None \<Rightarrow>
                 acquire_recheck c resource (next_request lm) (enqueue txn resource mode lm))))"

definition Acquire ::
  "TxnID \<Rightarrow> ResourceID \<Rightarrow> LockMode \<Rightarrow> LockManager \<Rightarrow> acquire_result \<times> LockManager" where
  "Acquire txn resource mode lm = AcquireContext (Some Background) txn resource mode lm"

text \<open>The watcher goroutine: its request is marked and every waiter of the resource is woken.\<close>

definition watch_cancel :: "ResourceID \<Rightarrow> nat \<Rightarrow> LockManager \<Rightarrow> LockManager" where
  "watch_cancel resource rid lm =
     (case resources lm resource of
        None \<Rightarrow> lm
      | Some ls \<Rightarrow> put_state resource
          (cond_Broadcast (ls\<lparr>queue :=
             map (\<lambda>r. if rq_id r = rid then r\<lparr>rq_cancelled := True\<rparr> else r) (queue ls)\<rparr>)) lm)"

definition drop_holder :: "TxnID \<Rightarrow> LockMode \<Rightarrow> lockState \<Rightarrow> lockState option" where
  "drop_holder txn mode ls =
     (case mode of
        ExclusiveLock \<Rightarrow>
          if \<not> hasExclusive ls \<or> exclusiveHolder ls \<noteq> txn then None
          else Some (ls\<lparr>hasExclusive := False, exclusiveHolder := 0\<rparr>)
      | SharedLock \<Rightarrow>
          if txn \<notin> set (sharedHolders ls) then None
          else Some (ls\<lparr>sharedHolders := removeAll txn (sharedHolders ls)\<rparr>)
      | UnknownMode _ \<Rightarrow> Some ls)"

definition releaseLocked ::
  "TxnID \<Rightarrow> ResourceID \<Rightarrow> LockManager \<Rightarrow> error option \<times> LockManager" where
  "releaseLocked txn resource lm =
     (case map_of (held lm) txn of
        None \<Rightarrow> (Some (ErrorMsg ''lockmanager: txn holds no locks''), lm)
      | Some txnLocks \<Rightarrow>
         (case map_of txnLocks resource of
            None \<Rightarrow> (Some (ErrorMsg ''lockmanager: txn does not hold a lock on resource''), lm)
          | Some mode \<Rightarrow>
             (case resources lm resource of
                None \<Rightarrow> (Some (ErrorMsg ''lockmanager: internal inconsistency: no lock state''), lm)
              | Some ls \<Rightarrow>
                 (case drop_holder txn mode ls of
                    None \<Rightarrow> (Some (ErrorMsg ''lockmanager: internal inconsistency releasing''), lm)
                  | Some ls1 \<Rightarrow>
                     (let ls2 = cond_Broadcast ls1
                      in (None, sweepIfIdle resource ls2
                                  (put_state resource ls2 (forget_held txn resource lm))))))))"

definition Release :: "TxnID \<Rightarrow> ResourceID \<Rightarrow> LockManager \<Rightarrow> error option \<times> LockManager" where
  "Release txn resource lm = releaseLocked txn resource lm"

fun release_each ::
  "TxnID \<Rightarrow> ResourceID list \<Rightarrow> error option \<Rightarrow> LockManager \<Rightarrow> error option \<times> LockManager" where
  "release_each txn [] firstErr lm = (firstErr, lm)"
| "release_each txn (resource # rest) firstErr lm =
     (case releaseLocked txn resource lm of
        (err, lm') \<Rightarrow>
          release_each txn rest
            (if err \<noteq> None \<and> firstErr = None then err else firstErr) lm')"

definition ReleaseAll :: "TxnID \<Rightarrow> LockManager \<Rightarrow> error option \<times> LockManager" where
  "ReleaseAll txn lm =
     (case map_of (held lm) txn of
        None \<Rightarrow> (None, lm)
      | Some txnLocks \<Rightarrow>
         if length txnLocks = 0 then (None, lm)
         else release_each txn (map fst txnLocks) None lm)"

definition HeldCount :: "TxnID \<Rightarrow> LockManager \<Rightarrow> nat" where
  "HeldCount txn lm = length (txn_locks_of lm txn)"

definition QueueLen :: "ResourceID \<Rightarrow> LockManager \<Rightarrow> nat" where
  "QueueLen resource lm =
     (case resources lm resource of None \<Rightarrow> 0 | Some ls \<Rightarrow> length (queue ls))"

definition TotalHeldCount :: "LockManager \<Rightarrow> nat" where
  "TotalHeldCount lm = sum_list (map (\<lambda>(txn, locks). length locks) (held lm))"

text \<open>\<open>LockGuard\<close>: the transaction it acts for and whether its \<open>ReleaseAll\<close> has run.\<close>

record LockGuard =
  guard_txn :: TxnID
  guard_done :: bool

definition NewLockGuard :: "TxnID \<Rightarrow> LockGuard" where
  "NewLockGuard txn = \<lparr>guard_txn = txn, guard_done = False\<rparr>"

definition guard_AcquireContext ::
  "go_context option \<Rightarrow> LockGuard \<Rightarrow> ResourceID \<Rightarrow> LockMode \<Rightarrow> LockManager
   \<Rightarrow> acquire_result \<times> LockManager" where
  "guard_AcquireContext ctx g resource mode lm = AcquireContext ctx (guard_txn g) resource mode lm"

definition guard_Acquire ::
  "LockGuard \<Rightarrow> ResourceID \<Rightarrow> LockMode \<Rightarrow> LockManager \<Rightarrow> acquire_result \<times> LockManager" where
  "guard_Acquire g resource mode lm = Acquire (guard_txn g) resource mode lm"

definition guard_ReleaseAll :: "LockGuard \<Rightarrow> LockManager \<Rightarrow> LockGuard \<times> LockManager" where
  "guard_ReleaseAll g lm =
     (if guard_done g then (g, lm)
      else (g\<lparr>guard_done := True\<rparr>, snd (ReleaseAll (guard_txn g) lm)))"

end
