(* ===== verification/Lock_Invariants.thy ===== *)
theory Lock_Invariants
  imports Lock_Manager
begin

text \<open>
  What the lock manager promises: the step relation of its critical sections, the invariant of
  its bookkeeping, mutual exclusion, fairness towards queued writers, no lost wake-ups, no
  leaked lock records, and what releasing does.
\<close>

section \<open>Invariant\<close>

text \<open>A resource with no record behaves like one with a fresh record.\<close>

definition state_of :: "LockManager \<Rightarrow> ResourceID \<Rightarrow> lockState" where
  "state_of lm r = (case resources lm r of None \<Rightarrow> fresh_lockState | Some ls \<Rightarrow> ls)"

definition idle :: "lockState \<Rightarrow> bool" where
  "idle ls \<longleftrightarrow> \<not> hasExclusive ls \<and> sharedHolders ls = [] \<and> queue ls = []"

definition valid_mode :: "LockMode \<Rightarrow> bool" where
  "valid_mode m \<longleftrightarrow> m = SharedLock \<or> m = ExclusiveLock"

definition queue_ids :: "lockState \<Rightarrow> nat list" where
  "queue_ids ls = map rq_id (queue ls)"

text \<open>
  Per record: an exclusive holder excludes shared ones, request identities are distinct and
  already issued, only queued requests are parked, and a parked request is neither cancelled
  nor grantable.
\<close>

definition ls_inv :: "nat \<Rightarrow> lockState \<Rightarrow> bool" where
  "ls_inv n ls \<longleftrightarrow>
     (hasExclusive ls \<longrightarrow> sharedHolders ls = []) \<and>
     distinct (sharedHolders ls) \<and>
     distinct (queue_ids ls) \<and>
     (\<forall>req \<in> set (queue ls). rq_id req < n \<and> valid_mode (rq_mode req)) \<and>
     set (cond_parked ls) \<subseteq> set (queue_ids ls) \<and>
     (\<forall>req \<in> set (queue ls). rq_id req \<in> set (cond_parked ls) \<longrightarrow>
        \<not> rq_cancelled req \<and> \<not> canGrant ls req)"

definition held_shape :: "LockManager \<Rightarrow> bool" where
  "held_shape lm \<longleftrightarrow> distinct (map fst (held lm)) \<and>
     (\<forall>t. map_of (held lm) t \<noteq> Some []) \<and> (\<forall>t. distinct (map fst (txn_locks_of lm t)))"

definition books_agree :: "(TxnID \<Rightarrow> LockMode option) \<Rightarrow> lockState \<Rightarrow> bool" where
  "books_agree holds ls \<longleftrightarrow> (\<forall>t.
     (holds t = Some SharedLock \<longleftrightarrow> t \<in> set (sharedHolders ls)) \<and>
     (holds t = Some ExclusiveLock \<longleftrightarrow> hasExclusive ls \<and> exclusiveHolder ls = t) \<and>
     (\<forall>w. holds t \<noteq> Some (UnknownMode w)))"

definition lm_inv :: "LockManager \<Rightarrow> bool" where
  "lm_inv lm \<longleftrightarrow>
     (\<forall>r. ls_inv (next_request lm) (state_of lm r)) \<and>
     (\<forall>r ls. resources lm r = Some ls \<longrightarrow> \<not> idle ls) \<and>
     held_shape lm \<and>
     (\<forall>r. books_agree (\<lambda>t. held_mode lm t r) (state_of lm r))"

section \<open>Projections\<close>

lemma fresh_lockState_simps [simp]:
  "cond_parked fresh_lockState = []" "sharedHolders fresh_lockState = []"
  "\<not> hasExclusive fresh_lockState" "queue fresh_lockState = []"
  by (simp_all add: fresh_lockState_def)

lemma put_state_simps [lm_simps]:
  "held (put_state r ls lm) = held lm"
  "next_request (put_state r ls lm) = next_request lm"
  "resources (put_state r ls lm) = (resources lm)(r \<mapsto> ls)"
  by (simp_all add: put_state_def)

lemma sweepIfIdle_simps [lm_simps]:
  "held (sweepIfIdle r ls lm) = held lm"
  "next_request (sweepIfIdle r ls lm) = next_request lm"
  by (simp_all add: sweepIfIdle_def)

lemma record_held_simps [lm_simps]:
  "resources (record_held t r m lm) = resources lm"
  "next_request (record_held t r m lm) = next_request lm"
  by (simp_all add: record_held_def)

lemma forget_held_simps [lm_simps]:
  "resources (forget_held t r lm) = resources lm"
  "next_request (forget_held t r lm) = next_request lm"
  by (simp_all add: forget_held_def Let_def)

lemma state_of_put [lm_simps]:
  "state_of (put_state r ls lm) r' = (if r' = r then ls else state_of lm r')"
  by (simp add: state_of_def put_state_def)

lemma state_of_record [lm_simps]: "state_of (record_held t r m lm) = state_of lm"
  by (simp add: state_of_def fun_eq_iff lm_simps)

lemma state_of_forget [lm_simps]: "state_of (forget_held t r lm) = state_of lm"
  by (simp add: state_of_def fun_eq_iff lm_simps)

lemma txn_locks_of_record [lm_simps]:
  "txn_locks_of (record_held t r m lm) t' =
     (if t' = t then AList.update r m (txn_locks_of lm t) else txn_locks_of lm t')"
  by (simp add: record_held_def txn_locks_of_def)

lemma txn_locks_of_forget [lm_simps]:
  "txn_locks_of (forget_held t r lm) t' =
     (if t' = t then AList.delete r (txn_locks_of lm t) else txn_locks_of lm t')"
  by (simp add: forget_held_def Let_def txn_locks_of_def map_of_delete_apply)

lemma held_mode_cong: "held lm = held lm' \<Longrightarrow> held_mode lm = held_mode lm'"
  by (simp add: held_mode_def txn_locks_of_def fun_eq_iff)

lemma held_mode_put [lm_simps]: "held_mode (put_state r ls lm) = held_mode lm"
  by (rule held_mode_cong) (simp add: lm_simps)

lemma held_mode_sweep [lm_simps]: "held_mode (sweepIfIdle r ls lm) = held_mode lm"
  by (rule held_mode_cong) (simp add: lm_simps)

lemma held_mode_record [lm_simps]:
  "held_mode (record_held t r m lm) t' r' =
     (if t' = t \<and> r' = r then Some m else held_mode lm t' r')"
  by (simp add: held_mode_def lm_simps)

lemma held_mode_forget [lm_simps]:
  "held_mode (forget_held t r lm) t' r' =
     (if t' = t \<and> r' = r then None else held_mode lm t' r')"
  by (simp add: held_mode_def lm_simps map_of_delete_apply)

lemma held_shape_cong: "held lm = held lm' \<Longrightarrow> held_shape lm = held_shape lm'"
  by (simp add: held_shape_def txn_locks_of_def)

lemma map_of_held_record:
  "map_of (held (record_held t r m lm)) t' =
     (if t' = t then Some (AList.update r m (txn_locks_of lm t)) else map_of (held lm) t')"
  by (simp add: record_held_def)

lemma map_of_held_forget:
  "map_of (held (forget_held t r lm)) t' =
     (if t' \<noteq> t then map_of (held lm) t'
      else if AList.delete r (txn_locks_of lm t) = [] then None
      else Some (AList.delete r (txn_locks_of lm t)))"
  by (simp add: forget_held_def Let_def map_of_delete_apply)

lemma held_shape_record: "held_shape lm \<Longrightarrow> held_shape (record_held t r m lm)"
  unfolding held_shape_def map_of_held_record
  by (simp add: lm_simps) (simp add: record_held_def)

lemma held_shape_forget: "held_shape lm \<Longrightarrow> held_shape (forget_held t r lm)"
  unfolding held_shape_def map_of_held_forget
  by (simp add: lm_simps) (simp add: forget_held_def Let_def)

section \<open>One lock record\<close>

lemma queue_ids_append [simp]:
  "queue_ids (ls\<lparr>queue := queue ls @ [req]\<rparr>) = queue_ids ls @ [rq_id req]"
  by (simp add: queue_ids_def)

lemma ahead_compatible_append:
  "rq_id req \<in> rq_id ` set q \<Longrightarrow> ahead_compatible (q @ q') req = ahead_compatible q req"
  by (induction q) auto

text \<open>What the loop of \<open>canGrant\<close> decides: everything ahead of the request, and itself, is shared.\<close>

lemma ahead_compatible_iff:
  assumes "q = pre @ req # post" and "rq_id req \<notin> rq_id ` set pre"
  shows "ahead_compatible q req \<longleftrightarrow>
     pre = [] \<or> (rq_mode req = SharedLock \<and> (\<forall>p \<in> set pre. rq_mode p = SharedLock))"
  using assms by (induction pre arbitrary: q) auto

lemma canGrant_parked [simp]: "canGrant (ls\<lparr>cond_parked := c\<rparr>) req = canGrant ls req"
  by (simp add: canGrant_def)

lemma canGrant_enqueue:
  "rq_id req \<in> set (queue_ids ls) \<Longrightarrow>
     canGrant (ls\<lparr>queue := queue ls @ [req']\<rparr>) req = canGrant ls req"
  by (auto simp: canGrant_def queue_ids_def ahead_compatible_append)

lemma remove_request_set: "set (remove_request rid q) \<subseteq> set q"
  by (induction q) auto

lemma remove_request_ids: "distinct (map rq_id q) \<Longrightarrow> distinct (map rq_id (remove_request rid q))"
proof (induction q)
  case (Cons a q)
  then show ?case using remove_request_set [of rid q] by auto
qed simp

lemma find_request_SomeD:
  assumes "find_request rid ls = Some req"
  shows "req \<in> set (queue ls)" "rq_id req = rid"
  using assms by (auto simp: find_request_def find_Some_iff)

lemma ls_inv_mono: "ls_inv n ls \<Longrightarrow> n \<le> n' \<Longrightarrow> ls_inv n' ls"
  unfolding ls_inv_def by (meson order_less_le_trans)

lemma ls_inv_fresh [simp]: "ls_inv n fresh_lockState"
  by (simp add: ls_inv_def queue_ids_def)

lemma ls_inv_enqueue:
  assumes inv: "ls_inv n ls" and mode: "valid_mode m"
  shows "ls_inv (Suc n) (ls\<lparr>queue := queue ls @
           [\<lparr>rq_id = n, rq_txn = t, rq_mode = m, rq_cancelled = False\<rparr>]\<rparr>)"
    (is "ls_inv _ ?ls")
proof -
  have new: "n \<notin> set (queue_ids ls)"
    using inv by (auto simp: ls_inv_def queue_ids_def)
  have "rq_id req \<in> set (cond_parked ls) \<Longrightarrow> canGrant ?ls req = canGrant ls req" for req
    using inv by (subst canGrant_enqueue) (auto simp: ls_inv_def)
  then show ?thesis
    using inv mode new by (auto simp: ls_inv_def less_Suc_eq)
qed

lemma ls_inv_wait:
  assumes "ls_inv n ls" "req \<in> set (queue ls)" "\<not> rq_cancelled req" "\<not> canGrant ls req"
  shows "ls_inv n (cond_Wait (rq_id req) ls)"
proof -
  have uniq: "req' = req" if "req' \<in> set (queue ls)" "rq_id req' = rq_id req" for req'
    using assms(1,2) that by (auto simp: ls_inv_def queue_ids_def distinct_map inj_on_def)
  show ?thesis
    using assms uniq by (auto simp: ls_inv_def cond_Wait_def queue_ids_def)
qed

lemma ls_inv_unpark:
  assumes "ls_inv n ls" "\<And>x. x \<in> set q \<Longrightarrow> rq_id x < n \<and> valid_mode (rq_mode x)"
    and "distinct (map rq_id q)"
  shows "ls_inv n (cond_Broadcast (ls\<lparr>queue := q\<rparr>))"
  using assms by (auto simp: ls_inv_def cond_Broadcast_def queue_ids_def)

lemma ls_inv_remove:
  assumes "ls_inv n ls"
  shows "ls_inv n (cond_Broadcast (removeFromQueue rid ls))"
  unfolding removeFromQueue_def
proof (rule ls_inv_unpark [OF assms])
  show "distinct (map rq_id (remove_request rid (queue ls)))"
    using assms by (intro remove_request_ids) (simp add: ls_inv_def queue_ids_def)
next
  fix x assume "x \<in> set (remove_request rid (queue ls))"
  then show "rq_id x < n \<and> valid_mode (rq_mode x)"
    using assms remove_request_set by (fastforce simp: ls_inv_def)
qed

lemma ls_inv_grant:
  assumes inv: "ls_inv n ls" and req: "req \<in> set (queue ls)" and "canGrant ls req"
  shows "ls_inv n (cond_Broadcast (add_holder (rq_txn req) (rq_mode req) (removeFromQueue rid ls)))"
proof -
  have "ls_inv n (cond_Broadcast (removeFromQueue rid ls))"
    by (rule ls_inv_remove [OF inv])
  moreover have "valid_mode (rq_mode req)"
    using inv req by (simp add: ls_inv_def)
  ultimately show ?thesis
    using assms(3)
    by (auto simp: ls_inv_def add_holder_def cond_Broadcast_def queue_ids_def removeFromQueue_def
        canGrant_def valid_mode_def split: if_splits)
qed

lemma ls_inv_mark:
  assumes "ls_inv n ls"
  shows "ls_inv n (cond_Broadcast (ls\<lparr>queue :=
           map (\<lambda>r. if rq_id r = rid then r\<lparr>rq_cancelled := True\<rparr> else r) (queue ls)\<rparr>))"
proof (rule ls_inv_unpark [OF assms])
  have "map rq_id (map (\<lambda>r. if rq_id r = rid then r\<lparr>rq_cancelled := True\<rparr> else r) (queue ls))
      = map rq_id (queue ls)"
    by (induction "queue ls") auto
  then show "distinct (map rq_id
      (map (\<lambda>r. if rq_id r = rid then r\<lparr>rq_cancelled := True\<rparr> else r) (queue ls)))"
    using assms by (simp only:) (simp add: ls_inv_def queue_ids_def)
qed (use assms in \<open>auto simp: ls_inv_def\<close>)

lemma ls_inv_drop:
  "ls_inv n ls \<Longrightarrow> drop_holder t m ls = Some ls' \<Longrightarrow> ls_inv n (cond_Broadcast ls')"
  by (auto simp: ls_inv_def drop_holder_def cond_Broadcast_def queue_ids_def distinct_removeAll
      split: LockMode.splits if_splits)

section \<open>The whole manager\<close>

text \<open>
  Every operation works on one resource: the invariant of the rest is inherited, and only the
  record of that resource has to be looked at.
\<close>

lemma lm_inv_at:
  assumes "lm_inv lm"
    and "\<And>r'. r' \<noteq> r \<Longrightarrow> resources lm' r' = resources lm r'"
    and "\<And>t r'. r' \<noteq> r \<Longrightarrow> held_mode lm' t r' = held_mode lm t r'"
    and "next_request lm \<le> next_request lm'" and "held_shape lm'"
    and "ls_inv (next_request lm') (state_of lm' r)"
    and "\<And>ls. resources lm' r = Some ls \<Longrightarrow> \<not> idle ls"
    and "books_agree (\<lambda>t. held_mode lm' t r) (state_of lm' r)"
  shows "lm_inv lm'"
proof -
  have st: "state_of lm' r' = state_of lm r'" if "r' \<noteq> r" for r'
    using assms(2) that by (simp add: state_of_def)
  show ?thesis
    unfolding lm_inv_def
  proof (intro conjI allI impI)
    fix r'
    show "ls_inv (next_request lm') (state_of lm' r')"
      using assms(1,4,6) st [of r'] ls_inv_mono by (cases "r' = r") (auto simp: lm_inv_def)
    show "books_agree (\<lambda>t. held_mode lm' t r') (state_of lm' r')"
      using assms(1,3,8) st [of r'] by (cases "r' = r") (auto simp: lm_inv_def)
    fix ls assume "resources lm' r' = Some ls"
    then show "\<not> idle ls"
      using assms(1,2,7) by (cases "r' = r") (auto simp: lm_inv_def)
  qed (rule assms(5))
qed

lemma lm_invD:
  assumes "lm_inv lm"
  shows "ls_inv (next_request lm) (state_of lm r)"
    and "resources lm r = Some ls \<Longrightarrow> \<not> idle ls"
    and "held_shape lm"
    and "books_agree (\<lambda>t. held_mode lm t r) (state_of lm r)"
  using assms by (auto simp: lm_inv_def)

lemma state_of_Some: "resources lm r = Some ls \<Longrightarrow> state_of lm r = ls"
  by (simp add: state_of_def)

lemma lm_inv_new: "lm_inv NewLockManager"
  by (simp add: lm_inv_def NewLockManager_def state_of_def held_shape_def books_agree_def
      held_mode_def txn_locks_of_def)

lemma books_agree_eqI:
  "books_agree h ls \<Longrightarrow> sharedHolders ls' = sharedHolders ls \<Longrightarrow> hasExclusive ls' = hasExclusive ls
   \<Longrightarrow> exclusiveHolder ls' = exclusiveHolder ls \<Longrightarrow> books_agree h ls'"
  by (simp add: books_agree_def)

text \<open>Replacing a record by one with the same holders, and dropping it when it became idle.\<close>

lemma sweep_put_simps [lm_simps]:
  "resources (sweepIfIdle r ls (put_state r ls lm)) r' =
     (if r' = r then (if idle ls then None else Some ls) else resources lm r')"
  by (auto simp: sweepIfIdle_def put_state_def idle_def)

lemma state_of_sweep_put [lm_simps]:
  "state_of (sweepIfIdle r ls (put_state r ls lm)) r' =
     (if r' = r then (if idle ls then fresh_lockState else ls) else state_of lm r')"
  by (simp add: state_of_def lm_simps)

lemma books_agree_fresh:
  "books_agree h ls \<Longrightarrow> idle ls \<Longrightarrow> books_agree h fresh_lockState"
  by (simp add: books_agree_def idle_def)

lemma lm_inv_sweep_put:
  assumes "lm_inv lm" and "ls_inv (next_request lm) ls" and "held_shape lm'"
    and "\<And>t r'. r' \<noteq> r \<Longrightarrow> held_mode lm' t r' = held_mode lm t r'"
    and "resources lm' = resources lm" and "next_request lm' = next_request lm"
    and "books_agree (\<lambda>t. held_mode lm' t r) ls"
  shows "lm_inv (sweepIfIdle r ls (put_state r ls lm'))"
proof (rule lm_inv_at [OF assms(1), where r = r])
  show "held_shape (sweepIfIdle r ls (put_state r ls lm'))"
    using assms(3) held_shape_cong by (simp add: lm_simps held_shape_def txn_locks_of_def)
  show "books_agree (\<lambda>t. held_mode (sweepIfIdle r ls (put_state r ls lm')) t r)
      (state_of (sweepIfIdle r ls (put_state r ls lm')) r)"
    using assms(7) by (auto simp: lm_simps intro: books_agree_fresh)
qed (use assms in \<open>auto simp: lm_simps split: if_splits\<close>)

lemma lm_inv_put:
  assumes "lm_inv lm" and "ls_inv (next_request lm) ls" and "\<not> idle ls"
    and "books_agree (\<lambda>t. held_mode lm t r) ls"
  shows "lm_inv (put_state r ls lm)"
proof (rule lm_inv_at [OF assms(1), where r = r])
  show "held_shape (put_state r ls lm)"
    using assms(1) held_shape_cong [of "put_state r ls lm" lm] by (simp add: lm_simps lm_inv_def)
qed (use assms in \<open>auto simp: lm_simps\<close>)

lemma in_queue_not_idle: "req \<in> set (queue ls) \<Longrightarrow> \<not> idle ls"
  by (auto simp: idle_def)

lemma enqueue_simps [lm_simps]:
  "held (enqueue t r m lm) = held lm"
  "next_request (enqueue t r m lm) = Suc (next_request lm)"
  "resources (enqueue t r m lm) r' =
     (if r' = r then Some ((state_of lm r)\<lparr>queue := queue (state_of lm r) @
        [\<lparr>rq_id = next_request lm, rq_txn = t, rq_mode = m, rq_cancelled = False\<rparr>]\<rparr>)
      else resources lm r')"
  by (simp_all add: enqueue_def Let_def put_state_def state_of_def)

lemma held_mode_enqueue [lm_simps]: "held_mode (enqueue t r m lm) = held_mode lm"
  by (rule held_mode_cong) (simp add: lm_simps)

lemma lm_inv_enqueue:
  assumes "lm_inv lm" and "valid_mode m"
  shows "lm_inv (enqueue t r m lm)"
proof (rule lm_inv_at [OF assms(1), where r = r])
  show "ls_inv (next_request (enqueue t r m lm)) (state_of (enqueue t r m lm) r)"
    using ls_inv_enqueue [OF lm_invD(1) [OF assms(1)] assms(2)]
    by (simp add: state_of_def [of "enqueue t r m lm"] lm_simps)
  show "held_shape (enqueue t r m lm)"
    using assms(1) held_shape_cong [of "enqueue t r m lm" lm] by (simp add: lm_simps lm_inv_def)
  show "books_agree (\<lambda>t'. held_mode (enqueue t r m lm) t' r) (state_of (enqueue t r m lm) r)"
    using lm_invD(4) [OF assms(1), of r]
    by (simp add: state_of_def [of "enqueue t r m lm"] lm_simps books_agree_def)
qed (auto simp: lm_simps idle_def)

lemma books_agree_grant:
  assumes "books_agree h ls" and "canGrant ls req" and "valid_mode (rq_mode req)"
  shows "books_agree (h(rq_txn req \<mapsto> rq_mode req))
           (add_holder (rq_txn req) (rq_mode req) ls)"
  using assms by (auto simp: books_agree_def add_holder_def canGrant_def valid_mode_def
      split: if_splits)

lemma lm_inv_recheck:
  assumes inv: "lm_inv lm"
  shows "lm_inv (snd (acquire_recheck ctx r rid lm))"
proof (cases "resources lm r")
  case None
  then show ?thesis using inv by (simp add: acquire_recheck_def)
next
  case (Some ls)
  note st = state_of_Some [OF Some]
  have ls: "ls_inv (next_request lm) ls" "books_agree (\<lambda>t. held_mode lm t r) ls"
    using lm_invD(1,4) [OF inv, of r] st by simp_all
  show ?thesis
  proof (cases "find_request rid ls")
    case None
    then show ?thesis using inv Some by (simp add: acquire_recheck_def)
  next
    case (Some req)
    note req = find_request_SomeD [OF Some]
    have mode: "valid_mode (rq_mode req)" using ls(1) req(1) by (simp add: ls_inv_def)
    consider (cancelled) "rq_cancelled req" | (grant) "\<not> rq_cancelled req" "canGrant ls req"
      | (wait) "\<not> rq_cancelled req" "\<not> canGrant ls req" by blast
    then show ?thesis
    proof cases
      case cancelled
      have "lm_inv (sweepIfIdle r (cond_Broadcast (removeFromQueue rid ls))
              (put_state r (cond_Broadcast (removeFromQueue rid ls)) lm))"
        using inv ls by (intro lm_inv_sweep_put ls_inv_remove books_agree_eqI [OF ls(2)])
          (auto simp: lm_inv_def cond_Broadcast_def removeFromQueue_def)
      with cancelled show ?thesis
        using \<open>resources lm r = Some ls\<close> Some
        by (simp add: acquire_recheck_def Let_def split: option.splits)
    next
      case grant
      let ?ls = "cond_Broadcast (add_holder (rq_txn req) (rq_mode req) (removeFromQueue rid ls))"
      have "lm_inv (record_held (rq_txn req) r (rq_mode req) (put_state r ?ls lm))"
      proof (rule lm_inv_at [OF inv, where r = r])
        show "held_shape (record_held (rq_txn req) r (rq_mode req) (put_state r ?ls lm))"
          using lm_invD(3) [OF inv] held_shape_cong [of "put_state r ?ls lm" lm]
          by (intro held_shape_record) (simp add: lm_simps)
        have "books_agree ((\<lambda>t. held_mode lm t r)(rq_txn req \<mapsto> rq_mode req)) ?ls"
          by (rule books_agree_eqI [OF books_agree_grant [OF ls(2) grant(2) mode]])
            (auto simp: add_holder_def cond_Broadcast_def removeFromQueue_def)
        then show "books_agree
            (\<lambda>t. held_mode (record_held (rq_txn req) r (rq_mode req) (put_state r ?ls lm)) t r)
            (state_of (record_held (rq_txn req) r (rq_mode req) (put_state r ?ls lm)) r)"
          by (simp add: lm_simps fun_upd_def if_distrib cong: if_cong)
      qed (use ls_inv_grant [OF ls(1) req(1) grant(2)] in
          \<open>auto simp: lm_simps idle_def add_holder_def cond_Broadcast_def\<close>)
      with grant show ?thesis
        using \<open>resources lm r = Some ls\<close> Some by (simp add: acquire_recheck_def Let_def)
    next
      case wait
      have "lm_inv (put_state r (cond_Wait rid ls) lm)"
        using inv ls ls_inv_wait [OF ls(1) req(1) wait] req in_queue_not_idle [OF req(1)]
        by (intro lm_inv_put books_agree_eqI [OF ls(2)]) (auto simp: cond_Wait_def idle_def)
      with wait show ?thesis
        using \<open>resources lm r = Some ls\<close> Some by (simp add: acquire_recheck_def)
    qed
  qed
qed

text \<open>The two outcomes of entering \<open>AcquireContext\<close> and of \<open>releaseLocked\<close>.\<close>

lemma AcquireContext_effect:
  obtains (refused) e where "AcquireContext ctx t r m lm = (Refused e, lm)"
  | (queued) c where "ctx = Some c" "valid_mode m" "ctx_Err c = None" "held_mode lm t r = None"
      "AcquireContext ctx t r m lm = acquire_recheck c r (next_request lm) (enqueue t r m lm)"
  unfolding AcquireContext_def valid_mode_def
  by (cases ctx; cases m; cases "held_mode lm t r"; cases "ctx_Err (the ctx)") auto

lemma releaseLocked_effect:
  obtains (refused) e where "releaseLocked t r lm = (Some e, lm)"
  | (released) m ls ls' where "held_mode lm t r = Some m" "resources lm r = Some ls"
      "drop_holder t m ls = Some ls'"
      "releaseLocked t r lm = (None, sweepIfIdle r (cond_Broadcast ls')
         (put_state r (cond_Broadcast ls') (forget_held t r lm)))"
  by (cases "map_of (held lm) t"; cases "map_of (the (map_of (held lm) t)) r";
      cases "resources lm r";
      cases "drop_holder t (the (map_of (the (map_of (held lm) t)) r)) (the (resources lm r))")
    (simp_all add: releaseLocked_def held_mode_def txn_locks_of_def Let_def)

lemma lm_inv_AcquireContext:
  "lm_inv lm \<Longrightarrow> lm_inv (snd (AcquireContext ctx t r m lm))"
  by (cases rule: AcquireContext_effect [of ctx t r m lm])
    (auto intro: lm_inv_recheck lm_inv_enqueue)

lemma lm_inv_watch_cancel:
  assumes "lm_inv lm"
  shows "lm_inv (watch_cancel r rid lm)"
proof (cases "resources lm r")
  case None
  then show ?thesis using assms by (simp add: watch_cancel_def)
next
  case (Some ls)
  note st = state_of_Some [OF Some]
  show ?thesis
    using Some lm_invD(1,4) [OF assms, of r] lm_invD(2) [OF assms Some] st
    by (auto simp: watch_cancel_def cond_Broadcast_def idle_def intro!: lm_inv_put [OF assms]
        ls_inv_mark [unfolded cond_Broadcast_def] elim: books_agree_eqI)
qed

lemma books_agree_drop:
  "books_agree h ls \<Longrightarrow> h t = Some m \<Longrightarrow> drop_holder t m ls = Some ls' \<Longrightarrow>
     (hasExclusive ls \<longrightarrow> sharedHolders ls = []) \<Longrightarrow> books_agree (h(t := None)) ls'"
  by (auto simp: books_agree_def drop_holder_def split: LockMode.splits if_splits)

lemma lm_inv_releaseLocked:
  assumes "lm_inv lm"
  shows "lm_inv (snd (releaseLocked t r lm))"
proof (cases rule: releaseLocked_effect [of t r lm])
  case (released m ls ls')
  let ?ls = "cond_Broadcast ls'"
  note st = state_of_Some [OF released(2)]
  have ls: "ls_inv (next_request lm) ls" "books_agree (\<lambda>t. held_mode lm t r) ls"
    using lm_invD(1,4) [OF assms, of r] st by simp_all
  have "books_agree ((\<lambda>t. held_mode lm t r)(t := None)) ?ls"
    using books_agree_drop [OF ls(2) released(1,3)] ls(1)
    by (auto simp: ls_inv_def cond_Broadcast_def intro: books_agree_eqI)
  then have "lm_inv (sweepIfIdle r ?ls (put_state r ?ls (forget_held t r lm)))"
    using assms ls_inv_drop [OF ls(1) released(3)] held_shape_forget [OF lm_invD(3) [OF assms]]
    by (intro lm_inv_sweep_put) (auto simp: lm_simps fun_upd_def if_distrib cong: if_cong)
  then show ?thesis using released by simp
qed (use assms in simp)

lemma lm_inv_release_each:
  "lm_inv lm \<Longrightarrow> lm_inv (snd (release_each t rs e lm))"
proof (induction rs arbitrary: e lm)
  case (Cons r rs)
  then show ?case
    using lm_inv_releaseLocked [OF Cons.prems, of t r] by (auto split: prod.splits)
qed simp

lemma lm_inv_ReleaseAll: "lm_inv lm \<Longrightarrow> lm_inv (snd (ReleaseAll t lm))"
  by (auto simp: ReleaseAll_def lm_inv_release_each split: option.splits)

section \<open>The step relation\<close>

text \<open>
  One step per critical section, in any order and by any goroutine. A waiting goroutine runs
  its loop again only after it has been woken, that is, when it is not parked.
\<close>

inductive lm_step :: "LockManager \<Rightarrow> LockManager \<Rightarrow> bool" where
  step_acquire: "lm_step lm (snd (AcquireContext ctx t r m lm))"
| step_recheck: "rid \<notin> set (cond_parked (state_of lm r)) \<Longrightarrow>
     lm_step lm (snd (acquire_recheck ctx r rid lm))"
| step_cancel: "lm_step lm (watch_cancel r rid lm)"
| step_release: "lm_step lm (snd (Release t r lm))"
| step_release_all: "lm_step lm (snd (ReleaseAll t lm))"

inductive_cases lm_stepE: "lm_step lm lm'"

lemma lm_step_inv: "lm_inv lm \<Longrightarrow> lm_step lm lm' \<Longrightarrow> lm_inv lm'"
  by (auto elim!: lm_stepE simp: Release_def intro: lm_inv_AcquireContext lm_inv_recheck
      lm_inv_watch_cancel lm_inv_releaseLocked lm_inv_ReleaseAll)

interpretation lmsys: inductive_invariant NewLockManager lm_step lm_inv
  by unfold_locales (rule lm_inv_new, rule lm_step_inv)

abbreviation lm_reachable :: "LockManager \<Rightarrow> bool" where
  "lm_reachable \<equiv> reaches lm_step NewLockManager"

section \<open>Facts about single operations\<close>

text \<open>\<open>acquire_recheck\<close>, case by case.\<close>

lemma acquire_recheck_cases:
  assumes "resources lm r = Some ls" and "find_request rid ls = Some req"
  shows "rq_cancelled req \<Longrightarrow> fst (acquire_recheck ctx r rid lm) =
           Refused (case ctx_Err ctx of Some e \<Rightarrow> e | None \<Rightarrow> Canceled)"
    and "\<not> rq_cancelled req \<Longrightarrow> canGrant ls req \<Longrightarrow> fst (acquire_recheck ctx r rid lm) = Granted"
    and "\<not> rq_cancelled req \<Longrightarrow> \<not> canGrant ls req \<Longrightarrow>
           fst (acquire_recheck ctx r rid lm) = Waiting rid"
  using assms by (auto simp: acquire_recheck_def Let_def split: option.splits)

lemma acquire_recheck_Granted:
  assumes "fst (acquire_recheck ctx r rid lm) = Granted"
  obtains ls req where "resources lm r = Some ls" "find_request rid ls = Some req"
    "\<not> rq_cancelled req" "canGrant ls req"
    "snd (acquire_recheck ctx r rid lm) = record_held (rq_txn req) r (rq_mode req)
       (put_state r (cond_Broadcast (add_holder (rq_txn req) (rq_mode req)
          (removeFromQueue rid ls))) lm)"
  using assms by (auto simp: acquire_recheck_def Let_def split: option.splits if_splits)

text \<open>The request just enqueued is found again, at the end of the queue.\<close>

lemma find_request_enqueue:
  assumes "lm_inv lm"
  shows "find_request (next_request lm) (state_of (enqueue t r m lm) r) =
    Some \<lparr>rq_id = next_request lm, rq_txn = t, rq_mode = m, rq_cancelled = False\<rparr>"
proof -
  have "\<forall>req \<in> set (queue (state_of lm r)). rq_id req \<noteq> next_request lm"
    using lm_invD(1) [OF assms, of r] by (auto simp: ls_inv_def)
  then show ?thesis
    by (simp add: find_request_def state_of_def [of "enqueue t r m lm"] lm_simps find_snoc)
qed

lemma releaseLocked_held:
  assumes inv: "lm_inv lm" and held: "held_mode lm t r = Some m"
  shows "fst (releaseLocked t r lm) = None"
    and "held (snd (releaseLocked t r lm)) = held (forget_held t r lm)"
proof -
  from held obtain l where l: "map_of (held lm) t = Some l" "map_of l r = Some m"
    by (auto simp: held_mode_def txn_locks_of_def split: option.splits)
  have "books_agree (\<lambda>t. held_mode lm t r) (state_of lm r)"
    using lm_invD(4) [OF inv] .
  then have drop: "\<exists>ls'. drop_holder t m (state_of lm r) = Some ls'"
    using held by (cases m) (auto simp: books_agree_def drop_holder_def)
  moreover have "resources lm r \<noteq> None"
  proof
    assume "resources lm r = None"
    then have "state_of lm r = fresh_lockState" by (simp add: state_of_def)
    with \<open>books_agree _ _\<close> held show False by (cases m) (auto simp: books_agree_def)
  qed
  ultimately obtain ls ls' where "resources lm r = Some ls" "drop_holder t m ls = Some ls'"
    using state_of_Some by fastforce
  with l show "fst (releaseLocked t r lm) = None"
    "held (snd (releaseLocked t r lm)) = held (forget_held t r lm)"
    by (simp_all add: releaseLocked_def Let_def lm_simps)
qed

lemma held_mode_releaseLocked:
  assumes "lm_inv lm"
  shows "held_mode (snd (releaseLocked t r lm)) t' r' =
    (if t' = t \<and> r' = r then None else held_mode lm t' r')"
proof (cases "held_mode lm t r")
  case None
  have "snd (releaseLocked t r lm) = lm"
  proof (cases "map_of (held lm) t")
    case (Some l)
    with None have "map_of l r = None" by (simp add: held_mode_def txn_locks_of_def)
    with Some show ?thesis by (simp add: releaseLocked_def)
  qed (simp add: releaseLocked_def)
  with None show ?thesis by auto
next
  case (Some m)
  then show ?thesis
    using held_mode_cong [OF releaseLocked_held(2) [OF assms Some]] by (simp add: lm_simps)
qed

lemma release_each_held:
  assumes "lm_inv lm" and "\<forall>r \<in> set rs. held_mode lm t r \<noteq> None" and "distinct rs"
  shows "fst (release_each t rs e lm) = e \<and>
    (\<forall>t' r'. held_mode (snd (release_each t rs e lm)) t' r' =
       (if t' = t \<and> r' \<in> set rs then None else held_mode lm t' r'))"
  using assms
proof (induction rs arbitrary: e lm)
  case (Cons r rs)
  obtain m where m: "held_mode lm t r = Some m" using Cons.prems(2) by auto
  let ?lm = "snd (releaseLocked t r lm)"
  have inv: "lm_inv ?lm" using Cons.prems(1) by (rule lm_inv_releaseLocked)
  have rel: "releaseLocked t r lm = (None, ?lm)"
    using releaseLocked_held(1) [OF Cons.prems(1) m] by (cases "releaseLocked t r lm") simp
  have "\<forall>r' \<in> set rs. held_mode ?lm t r' \<noteq> None"
    using Cons.prems by (auto simp: held_mode_releaseLocked)
  from Cons.IH [OF inv this] Cons.prems(3) show ?case
    by (subst (1 2) release_each.simps(2), subst (1 2) rel)
      (auto simp: held_mode_releaseLocked [OF Cons.prems(1)])
qed simp

lemma ReleaseAll_held:
  assumes "lm_inv lm"
  shows "fst (ReleaseAll t lm) = None"
    and "held_mode (snd (ReleaseAll t lm)) t' r = (if t' = t then None else held_mode lm t' r)"
proof -
  let ?rs = "map fst (txn_locks_of lm t)"
  have eq: "ReleaseAll t lm = (if map_of (held lm) t = None then (None, lm)
      else release_each t ?rs None lm)"
    using lm_invD(3) [OF assms]
    by (auto simp: ReleaseAll_def txn_locks_of_def held_shape_def split: option.splits)
  have "\<forall>r \<in> set ?rs. held_mode lm t r \<noteq> None"
    by (auto simp: held_mode_def map_of_eq_None_iff image_iff)
  moreover have "distinct ?rs" using lm_invD(3) [OF assms] by (simp add: held_shape_def)
  moreover have "r \<notin> set ?rs \<Longrightarrow> held_mode lm t r = None"
    by (auto simp: held_mode_def map_of_eq_None_iff)
  moreover have "map_of (held lm) t = None \<Longrightarrow> held_mode lm t r = None"
    by (simp add: held_mode_def txn_locks_of_def)
  ultimately show "fst (ReleaseAll t lm) = None"
    "held_mode (snd (ReleaseAll t lm)) t' r = (if t' = t then None else held_mode lm t' r)"
    using release_each_held [OF assms, of ?rs t None] by (auto simp: eq)
qed

section \<open>What the lock manager promises\<close>

lemma exclusive_excludes:
  assumes "lm_inv lm" and "held_mode lm t1 r = Some ExclusiveLock" and "held_mode lm t2 r = Some m"
  shows "t2 = t1 \<and> m = ExclusiveLock"
proof -
  have *: "books_agree (\<lambda>t. held_mode lm t r) (state_of lm r)"
    "ls_inv (next_request lm) (state_of lm r)"
    using lm_invD(1,4) [OF assms(1)] by blast+
  with assms(2) have "hasExclusive (state_of lm r)" "exclusiveHolder (state_of lm r) = t1"
    "sharedHolders (state_of lm r) = []"
    by (auto simp: books_agree_def ls_inv_def)
  with * assms(3) show ?thesis by (cases m) (auto simp: books_agree_def)
qed

text \<open>
  C1. Mutual exclusion. In every reachable state of the lock manager, whatever goroutines
  acquire, wait, are cancelled and release in whatever order, a transaction that holds a
  resource exclusively is its only holder.
\<close>

theorem lm_mutual_exclusion:
  assumes "lm_reachable lm"
    and "held_mode lm t1 r = Some ExclusiveLock" and "held_mode lm t2 r = Some m"
  shows "t2 = t1 \<and> m = ExclusiveLock"
  using exclusive_excludes [OF lmsys.reachable_inv [OF assms(1)] assms(2,3)] .

definition ex_file :: ResourceID where
  "ex_file = \<lparr>RType = FileResource, RKey = ''f''\<rparr>"

definition ex_locked :: LockManager where
  "ex_locked = snd (Acquire 1 ex_file ExclusiveLock NewLockManager)"

lemma ex_locked_reachable: "lm_reachable ex_locked"
  unfolding ex_locked_def Acquire_def by (rule reaches_step) (rule reaches_refl, rule step_acquire)

lemmas acquire_eval = Acquire_def AcquireContext_def acquire_recheck_def enqueue_def Let_def
  put_state_def find_request_def canGrant_def add_holder_def removeFromQueue_def cond_Broadcast_def
  cond_Wait_def record_held_def held_mode_def txn_locks_of_def fresh_lockState_def NewLockManager_def

lemma ex_locked_held: "held_mode ex_locked 1 ex_file = Some ExclusiveLock"
  by (simp add: ex_locked_def acquire_eval)

theorem lm_mutual_exclusion_witness:
  "lm_reachable ex_locked \<and> held_mode ex_locked 1 ex_file = Some ExclusiveLock \<and>
   (1 :: TxnID) = 1 \<and> ExclusiveLock = ExclusiveLock"
  using lm_mutual_exclusion [OF ex_locked_reachable ex_locked_held ex_locked_held]
    ex_locked_reachable ex_locked_held by simp

text \<open>
  C2. No lost wake-up. In every reachable state, a request whose goroutine is parked on the
  condition variable of its resource is neither cancelled nor grantable: whenever a request
  could proceed, its goroutine has been woken.
\<close>

theorem lm_no_lost_wakeup:
  assumes "lm_reachable lm" and "resources lm r = Some ls" and "req \<in> set (queue ls)"
    and "rq_id req \<in> set (cond_parked ls)"
  shows "\<not> rq_cancelled req \<and> \<not> canGrant ls req"
proof -
  have "ls_inv (next_request lm) (state_of lm r)"
    using lmsys.reachable_inv [OF assms(1)] by (rule lm_invD(1))
  with assms(2-4) show ?thesis by (auto simp: ls_inv_def state_of_def)
qed

definition ex_contended :: LockManager where
  "ex_contended = snd (Acquire 2 ex_file SharedLock ex_locked)"

definition ex_waiter :: lockRequest where
  "ex_waiter = \<lparr>rq_id = 1, rq_txn = 2, rq_mode = SharedLock, rq_cancelled = False\<rparr>"

definition ex_contended_state :: lockState where
  "ex_contended_state = \<lparr>cond_parked = [1], sharedHolders = [], hasExclusive = True,
     exclusiveHolder = 1, queue = [ex_waiter]\<rparr>"

lemma ex_contended_reachable: "lm_reachable ex_contended"
  unfolding ex_contended_def Acquire_def
  by (rule reaches_step) (rule ex_locked_reachable, rule step_acquire)

lemma ex_contended_state: "resources ex_contended ex_file = Some ex_contended_state"
  by (simp add: ex_contended_def ex_locked_def acquire_eval ex_contended_state_def ex_waiter_def)

theorem lm_no_lost_wakeup_witness:
  "rq_id ex_waiter \<in> set (cond_parked ex_contended_state) \<and>
   \<not> rq_cancelled ex_waiter \<and> \<not> canGrant ex_contended_state ex_waiter"
  using lm_no_lost_wakeup [OF ex_contended_reachable ex_contended_state, of ex_waiter]
  by (simp add: ex_contended_state_def ex_waiter_def)

text \<open>The number of requests still ahead of a queued one.\<close>

definition requests_ahead :: "LockManager \<Rightarrow> ResourceID \<Rightarrow> nat \<Rightarrow> nat" where
  "requests_ahead lm r rid = length (takeWhile (\<lambda>q. rq_id q \<noteq> rid) (queue (state_of lm r)))"

lemma remove_request_ahead:
  "length (takeWhile (\<lambda>q. rq_id q \<noteq> rid) (remove_request rid' q))
   \<le> length (takeWhile (\<lambda>q. rq_id q \<noteq> rid) q)"
  if "rid \<in> rq_id ` set (remove_request rid' q)" "distinct (map rq_id q)"
  using that
proof (induction q)
  case (Cons a q)
  then show ?case using remove_request_set [of rid' q] by (auto simp: image_iff split: if_splits)
qed simp

lemma queue_recheck:
  "queue (state_of (snd (acquire_recheck ctx r' rid' lm)) r) = queue (state_of lm r) \<or>
   queue (state_of (snd (acquire_recheck ctx r' rid' lm)) r) =
     remove_request rid' (queue (state_of lm r))"
proof (cases "resources lm r'")
  case (Some ls)
  then show ?thesis
    by (auto simp: acquire_recheck_def Let_def lm_simps cond_Broadcast_def removeFromQueue_def
        add_holder_def cond_Wait_def idle_def state_of_Some split: option.splits if_splits)
qed (simp add: acquire_recheck_def)

lemma queue_releaseLocked:
  "queue (state_of (snd (releaseLocked t r' lm)) r) = queue (state_of lm r)"
proof (cases rule: releaseLocked_effect [of t r' lm])
  case (released m ls ls')
  have "queue ls' = queue ls"
    using released(3) by (auto simp: drop_holder_def split: LockMode.splits if_splits)
  with released state_of_Some [OF released(2)] show ?thesis
    by (auto simp: lm_simps cond_Broadcast_def idle_def)
qed simp

lemma queue_release_each:
  "queue (state_of (snd (release_each t rs e lm)) r) = queue (state_of lm r)"
proof (induction rs arbitrary: e lm)
  case (Cons r' rs)
  show ?case
    using Cons.IH queue_releaseLocked [of t r' lm r]
    by (cases "releaseLocked t r' lm") simp
qed simp

lemma queue_ReleaseAll: "queue (state_of (snd (ReleaseAll t lm)) r) = queue (state_of lm r)"
  by (simp add: ReleaseAll_def queue_release_each split: option.splits)

lemma queue_watch_cancel:
  "queue (state_of (watch_cancel r' rid' lm) r) =
     (if r = r' then map (\<lambda>q. if rq_id q = rid' then q\<lparr>rq_cancelled := True\<rparr> else q)
                       (queue (state_of lm r))
      else queue (state_of lm r))"
  by (simp add: watch_cancel_def lm_simps cond_Broadcast_def state_of_def split: option.splits)

lemma requests_ahead_recheck:
  assumes "lm_inv lm" and "rid \<in> set (queue_ids (state_of (snd (acquire_recheck ctx r' rid' lm)) r))"
  shows "requests_ahead (snd (acquire_recheck ctx r' rid' lm)) r rid \<le> requests_ahead lm r rid"
  using queue_recheck [of ctx r' rid' lm r] assms(2) lm_invD(1) [OF assms(1), of r]
    remove_request_ahead [of rid rid' "queue (state_of lm r)"]
  by (auto simp: requests_ahead_def queue_ids_def ls_inv_def)

lemma requests_ahead_enqueue:
  "rid \<in> set (queue_ids (state_of lm r)) \<Longrightarrow>
     requests_ahead (enqueue t r' m lm) r rid = requests_ahead lm r rid"
  by (auto simp: requests_ahead_def queue_ids_def state_of_def [of "enqueue t r' m lm"] lm_simps
      takeWhile_append1) (simp add: state_of_def)

lemma requests_ahead_AcquireContext:
  assumes "lm_inv lm" and "rid \<in> set (queue_ids (state_of lm r))"
    and "rid \<in> set (queue_ids (state_of (snd (AcquireContext ctx t r' m lm)) r))"
  shows "requests_ahead (snd (AcquireContext ctx t r' m lm)) r rid \<le> requests_ahead lm r rid"
proof (cases rule: AcquireContext_effect [of ctx t r' m lm])
  case (queued c)
  have "requests_ahead (snd (acquire_recheck c r' (next_request lm) (enqueue t r' m lm))) r rid
      \<le> requests_ahead (enqueue t r' m lm) r rid"
    using assms queued by (intro requests_ahead_recheck lm_inv_enqueue) auto
  with queued assms(2) show ?thesis by (simp add: requests_ahead_enqueue)
qed simp

lemma requests_ahead_mark:
  "length (takeWhile (\<lambda>q. rq_id q \<noteq> rid)
      (map (\<lambda>q. if rq_id q = rid' then q\<lparr>rq_cancelled := True\<rparr> else q) qs)) =
   length (takeWhile (\<lambda>q. rq_id q \<noteq> rid) qs)"
  by (induction qs) auto

text \<open>
  First come, first served. No step of any goroutine moves a waiting request back in the
  queue of its resource: the number of requests ahead of it never grows while it waits.
\<close>

theorem lm_queue_position_monotone:
  assumes "lm_reachable lm" and "lm_step lm lm'"
    and "rid \<in> set (queue_ids (state_of lm r))" and "rid \<in> set (queue_ids (state_of lm' r))"
  shows "requests_ahead lm' r rid \<le> requests_ahead lm r rid"
proof -
  have inv: "lm_inv lm" using assms(1) by (rule lmsys.reachable_inv)
  show ?thesis using assms(2)
  proof cases
    case step_acquire
    then show ?thesis using requests_ahead_AcquireContext inv assms(3,4) by simp
  next
    case step_recheck
    then show ?thesis using requests_ahead_recheck inv assms(4) by simp
  next
    case step_cancel
    then show ?thesis by (simp add: requests_ahead_def queue_watch_cancel requests_ahead_mark)
  next
    case step_release
    then show ?thesis by (simp add: requests_ahead_def Release_def queue_releaseLocked)
  next
    case step_release_all
    then show ?thesis by (simp add: requests_ahead_def queue_ReleaseAll)
  qed
qed

theorem lm_queue_position_monotone_witness:
  "requests_ahead (snd (ReleaseAll 1 ex_contended)) ex_file 1 \<le> requests_ahead ex_contended ex_file 1"
proof -
  have q: "1 \<in> set (queue_ids (state_of ex_contended ex_file))"
    using ex_contended_state
    by (simp add: state_of_def queue_ids_def ex_contended_state_def ex_waiter_def)
  then have "1 \<in> set (queue_ids (state_of (snd (ReleaseAll 1 ex_contended)) ex_file))"
    by (simp add: queue_ids_def queue_ReleaseAll)
  with q show ?thesis
    by (rule lm_queue_position_monotone [OF ex_contended_reachable step_release_all])
qed

text \<open>
  C4. Writers are not starved. When a queued request is granted, every request that was ahead of
  it in the queue is shared and so is the granted one: nothing passes a queued writer, and a
  writer passes nobody.
\<close>

theorem lm_writer_not_bypassed:
  assumes "lm_reachable lm" and "resources lm r = Some ls" and "queue ls = pre @ req # post"
    and "p \<in> set pre" and "fst (acquire_recheck ctx r (rq_id req) lm) = Granted"
  shows "rq_mode p = SharedLock \<and> rq_mode req = SharedLock"
proof -
  have "ls_inv (next_request lm) ls"
    using lm_invD(1) [OF lmsys.reachable_inv [OF assms(1)]] state_of_Some [OF assms(2)] by metis
  then have d: "rq_id req \<notin> rq_id ` set pre"
    using assms(3) by (auto simp: ls_inv_def queue_ids_def)
  from assms(5) obtain req' where *: "find_request (rq_id req) ls = Some req'" "canGrant ls req'"
    using assms(2) by (auto elim!: acquire_recheck_Granted)
  then have "req' = req"
    using d assms(3) find_append_Cons [of pre "\<lambda>x. rq_id x = rq_id req" req post]
    by (simp add: find_request_def) (metis image_eqI)
  with * have "ahead_compatible (queue ls) req" by (auto simp: canGrant_def split: if_splits)
  then show ?thesis
    using ahead_compatible_iff [OF assms(3) d] assms(4) by auto
qed

definition ex_readers :: LockManager where
  "ex_readers = snd (ReleaseAll 1 (snd (Acquire 3 ex_file SharedLock ex_contended)))"

definition ex_waiter2 :: lockRequest where
  "ex_waiter2 = \<lparr>rq_id = 2, rq_txn = 3, rq_mode = SharedLock, rq_cancelled = False\<rparr>"

definition ex_readers_state :: lockState where
  "ex_readers_state = \<lparr>cond_parked = [], sharedHolders = [], hasExclusive = False,
     exclusiveHolder = 0, queue = [ex_waiter, ex_waiter2]\<rparr>"

lemmas release_eval = ReleaseAll_def releaseLocked_def drop_holder_def sweepIfIdle_def
  forget_held_def

lemma ex_readers_reachable: "lm_reachable ex_readers"
  unfolding ex_readers_def Acquire_def
  by (rule reaches_step, rule reaches_step) (rule ex_contended_reachable, rule step_acquire,
      rule step_release_all)

lemma ex_readers_state: "resources ex_readers ex_file = Some ex_readers_state"
  by (simp add: ex_readers_def ex_contended_def ex_locked_def acquire_eval release_eval
      ex_readers_state_def ex_waiter_def ex_waiter2_def)

theorem lm_writer_not_bypassed_witness:
  "fst (acquire_recheck Background ex_file 2 ex_readers) = Granted \<and>
   rq_mode ex_waiter = SharedLock \<and> rq_mode ex_waiter2 = SharedLock"
proof -
  have g: "fst (acquire_recheck Background ex_file (rq_id ex_waiter2) ex_readers) = Granted"
    by (simp add: acquire_recheck_def ex_readers_state)
      (simp add: ex_readers_state_def ex_waiter_def ex_waiter2_def acquire_eval)
  have "rq_mode ex_waiter = SharedLock \<and> rq_mode ex_waiter2 = SharedLock"
    by (rule lm_writer_not_bypassed [OF ex_readers_reachable ex_readers_state _ _ g,
          of "[ex_waiter]" "[]"])
      (simp_all add: ex_readers_state_def)
  with g show ?thesis by (simp add: ex_waiter2_def)
qed

text \<open>
  Progress at the head of the queue. In a reachable state, when the request at the head of
  a resource's queue is not cancelled and no current holder conflicts with it, its goroutine is
  awake and its next turn of the loop grants the lock and records it.
\<close>

theorem lm_head_progress:
  assumes "lm_reachable lm" and "resources lm r = Some ls" and "queue ls = req # rest"
    and "\<not> rq_cancelled req" and "\<not> hasExclusive ls"
    and "rq_mode req = SharedLock \<or> sharedHolders ls = []"
  shows "rq_id req \<notin> set (cond_parked ls) \<and>
    fst (acquire_recheck ctx r (rq_id req) lm) = Granted \<and>
    held_mode (snd (acquire_recheck ctx r (rq_id req) lm)) (rq_txn req) r = Some (rq_mode req)"
proof -
  have grant: "canGrant ls req" using assms(3,5,6) by (auto simp: canGrant_def)
  have find: "find_request (rq_id req) ls = Some req" using assms(3) by (simp add: find_request_def)
  have "ls_inv (next_request lm) ls"
    using lm_invD(1) [OF lmsys.reachable_inv [OF assms(1)]] state_of_Some [OF assms(2)] by metis
  with assms(3) grant have "rq_id req \<notin> set (cond_parked ls)" by (auto simp: ls_inv_def)
  moreover have "fst (acquire_recheck ctx r (rq_id req) lm) = Granted"
    using acquire_recheck_cases(2) [OF assms(2) find assms(4) grant] .
  moreover have "held_mode (snd (acquire_recheck ctx r (rq_id req) lm)) (rq_txn req) r =
      Some (rq_mode req)"
    using assms(2,4) find grant by (simp add: acquire_recheck_def Let_def lm_simps)
  ultimately show ?thesis by blast
qed

theorem lm_head_progress_witness:
  "fst (acquire_recheck Background ex_file 1 ex_readers) = Granted \<and>
   held_mode (snd (acquire_recheck Background ex_file 1 ex_readers)) 2 ex_file = Some SharedLock"
  using lm_head_progress [OF ex_readers_reachable ex_readers_state, of ex_waiter "[ex_waiter2]"
      Background]
  by (simp add: ex_readers_state_def ex_waiter_def)

text \<open>
  C6. Releasing is total. In a reachable state \<open>ReleaseAll\<close> reports no error, leaves the
  transaction holding nothing, and leaves every lock of every other transaction as it was.
\<close>

theorem lm_ReleaseAll_releases:
  assumes "lm_reachable lm"
  shows "fst (ReleaseAll t lm) = None \<and> HeldCount t (snd (ReleaseAll t lm)) = 0 \<and>
    held_mode (snd (ReleaseAll t lm)) t' r = (if t' = t then None else held_mode lm t' r)"
proof -
  have inv: "lm_inv lm" using assms by (rule lmsys.reachable_inv)
  have "\<forall>r. held_mode (snd (ReleaseAll t lm)) t r = None" using ReleaseAll_held(2) [OF inv] by simp
  then have "HeldCount t (snd (ReleaseAll t lm)) = 0"
    by (simp add: HeldCount_def held_mode_def map_of_eq_empty_iff)
  then show ?thesis using ReleaseAll_held [OF inv] by simp
qed

theorem lm_ReleaseAll_releases_witness:
  "HeldCount 1 ex_locked = 1 \<and> HeldCount 1 (snd (ReleaseAll 1 ex_locked)) = 0"
  using lm_ReleaseAll_releases [OF ex_locked_reachable, of 1 1 ex_file]
  by (simp add: HeldCount_def ex_locked_def acquire_eval)

text \<open>
  C7. Records are neither leaked nor reclaimed early. In a reachable state a resource has a lock
  record exactly when somebody holds it or waits for it, so a waiting goroutine's record (and
  its condition variable) is never replaced under it.
\<close>

theorem lm_record_iff_in_use:
  assumes "lm_reachable lm"
  shows "resources lm r = None \<longleftrightarrow>
    (\<forall>t. held_mode lm t r = None) \<and> QueueLen r lm = 0"
proof -
  have inv: "lm_inv lm" using assms by (rule lmsys.reachable_inv)
  have books: "books_agree (\<lambda>t. held_mode lm t r) (state_of lm r)" using lm_invD(4) [OF inv] .
  show ?thesis
  proof (cases "resources lm r")
    case None
    with books have "held_mode lm t r = None" for t
      by (cases "held_mode lm t r"; cases "the (held_mode lm t r)")
        (auto simp: books_agree_def state_of_def)
    with None show ?thesis by (simp add: QueueLen_def)
  next
    case (Some ls)
    then have "\<not> idle ls" using lm_invD(2) [OF inv] by blast
    with Some books show ?thesis
      by (auto simp: QueueLen_def idle_def books_agree_def state_of_def neq_Nil_conv) metis
  qed
qed

theorem lm_record_iff_in_use_witness:
  "resources ex_contended ex_file \<noteq> None \<and>
   \<not> ((\<forall>t. held_mode ex_contended t ex_file = None) \<and> QueueLen ex_file ex_contended = 0)"
  using lm_record_iff_in_use [OF ex_contended_reachable, of ex_file] ex_contended_state by simp



end
