(* ===== verification/Third_Party.thy ===== *)
theory Third_Party
  imports Safer_Prelude
begin

text \<open>
  Code outside the repository that the program calls: the UUID package and the MongoDB driver.
  Both are records of functions that the model takes as arguments. The predicates
  \<open>uuid_ok\<close> and \<open>mongo_ok\<close> state the documented behaviour the program relies on; nothing
  else about these packages is used. \<open>mem_driver\<close> and \<open>dec_uuid\<close> are concrete functions with
  that behaviour, for the concrete runs.
\<close>

section \<open>UUIDs\<close>

type_synonym uuid = "128 word"

record uuid_lib =
  uuid_String :: "uuid \<Rightarrow> string"
  uuid_Parse :: "string \<Rightarrow> uuid option"
  uuid_FromBytes :: "bytes \<Rightarrow> uuid option"

text \<open>
  Documented: \<open>Parse\<close> reads back what \<open>String\<close> prints (ASCII text), \<open>FromBytes\<close> fails exactly when the
  slice does not have 16 bytes, and it copies those bytes (so it is injective).
\<close>

definition uuid_ok :: "uuid_lib \<Rightarrow> bool" where
  "uuid_ok U \<longleftrightarrow>
     (\<forall>u. uuid_Parse U (uuid_String U u) = Some u) \<and>
     (\<forall>u. uuid_String U u \<noteq> []) \<and>
     (\<forall>bs. (uuid_FromBytes U bs = None) = (length bs \<noteq> 16)) \<and>
     (\<forall>as bs u. uuid_FromBytes U as = Some u \<longrightarrow> uuid_FromBytes U bs = Some u \<longrightarrow> as = bs) \<and>
     (\<forall>u. list_all (\<lambda>c. (of_char c :: nat) < 128) (uuid_String U u))"

lemma uuid_String_inject: "uuid_ok U \<Longrightarrow> uuid_String U a = uuid_String U b \<longleftrightarrow> a = b"
  unfolding uuid_ok_def by (metis option.inject)

section \<open>The MongoDB driver\<close>

datatype bson =
    BString string
  | BInt64 int
  | BBinary bytes
  | BNull
  | BTime int
  | BM "(string \<times> bson) list"

type_synonym bson_M = "(string \<times> bson) list"

text \<open>The stored documents: by collection and by the value of \<open>_id\<close>.\<close>

type_synonym mongo_db = "string \<Rightarrow> string \<Rightarrow> bson_M option"

text \<open>
  The calls the program makes. \<open>FindOne\<close> reports \<open>ErrNoDocuments\<close> as \<open>Inr None\<close>.
  \<open>ReplaceOne\<close> is called with upsert, \<open>FindOneAndUpdate\<close> with upsert and the document after
  the update; \<open>UpdateOne\<close> returns the matched count. \<open>WithTransaction\<close> gets the callback.
  \<open>'d\<close> is the state of the deployment.
\<close>

record 'd mongo_driver =
  FindOne :: "string \<Rightarrow> bson_M \<Rightarrow> 'd \<Rightarrow> (error + bson_M option) \<times> 'd"
  ReplaceOne :: "string \<Rightarrow> bson_M \<Rightarrow> bson_M \<Rightarrow> 'd \<Rightarrow> error option \<times> 'd"
  DeleteOne :: "string \<Rightarrow> bson_M \<Rightarrow> 'd \<Rightarrow> error option \<times> 'd"
  InsertOne :: "string \<Rightarrow> bson_M \<Rightarrow> 'd \<Rightarrow> error option \<times> 'd"
  IsDuplicateKeyError :: "error \<Rightarrow> bool"
  UpdateOne :: "string \<Rightarrow> bson_M \<Rightarrow> bson_M \<Rightarrow> 'd \<Rightarrow> (error + nat) \<times> 'd"
  FindOneAndUpdate :: "string \<Rightarrow> bson_M \<Rightarrow> bson_M \<Rightarrow> 'd \<Rightarrow> (error + bson_M) \<times> 'd"
  StartSession :: "'d \<Rightarrow> error option \<times> 'd"
  WithTransaction :: "('d \<Rightarrow> error option \<times> 'd) \<Rightarrow> 'd \<Rightarrow> error option \<times> 'd"

subsection \<open>What the calls are documented to do\<close>

definition bson_matches :: "bson_M \<Rightarrow> bson_M \<Rightarrow> bool" where
  "bson_matches f doc \<longleftrightarrow> list_all (\<lambda>(k, v). map_of doc k = Some v) f"

definition set_fields :: "bson_M \<Rightarrow> bson_M \<Rightarrow> bson_M" where
  "set_fields upd doc = foldl (\<lambda>d (k, v). AList.update k v d) doc upd"

definition inc_field :: "string \<times> bson \<Rightarrow> bson_M \<Rightarrow> bson_M" where
  "inc_field kv doc =
     (case (snd kv, map_of doc (fst kv)) of
        (BInt64 n, Some (BInt64 m)) \<Rightarrow> AList.update (fst kv) (BInt64 (m + n)) doc
      | (BInt64 n, None) \<Rightarrow> AList.update (fst kv) (BInt64 n) doc
      | _ \<Rightarrow> doc)"

definition apply_update :: "bson_M \<Rightarrow> bson_M \<Rightarrow> bson_M" where
  "apply_update u doc =
     set_fields (case map_of u ''$set'' of Some (BM s) \<Rightarrow> s | _ \<Rightarrow> [])
       (foldl (\<lambda>d kv. inc_field kv d) doc (case map_of u ''$inc'' of Some (BM s) \<Rightarrow> s | _ \<Rightarrow> []))"

definition put_doc :: "string \<Rightarrow> string \<Rightarrow> bson_M option \<Rightarrow> mongo_db \<Rightarrow> mongo_db" where
  "put_doc c i d db = db(c := (db c)(i := d))"

definition by_id :: "string \<Rightarrow> bson_M \<Rightarrow> bson_M" where
  "by_id i rest = (''_id'', BString i) # rest"

text \<open>The documents after an \<open>UpdateOne\<close> filtered by \<open>_id\<close>, and the matched count.\<close>

definition updated_one ::
  "string \<Rightarrow> string \<Rightarrow> bson_M \<Rightarrow> bson_M \<Rightarrow> mongo_db \<Rightarrow> nat \<times> mongo_db" where
  "updated_one c i rest u db =
     (case db c i of
        Some doc \<Rightarrow> if bson_matches rest doc then (1, put_doc c i (Some (apply_update u doc)) db)
                    else (0, db)
      | None \<Rightarrow> (0, db))"

definition upserted :: "string \<Rightarrow> string \<Rightarrow> bson_M \<Rightarrow> mongo_db \<Rightarrow> bson_M" where
  "upserted c i u db =
     apply_update u (case db c i of Some doc \<Rightarrow> doc | None \<Rightarrow> [(''_id'', BString i)])"

text \<open>An \<open>int64\<close> field holds an \<open>int64\<close>: an increment past the range is an error.\<close>

definition int64_fields :: "bson_M \<Rightarrow> bool" where
  "int64_fields doc \<longleftrightarrow>
     list_all (\<lambda>(k, v). case v of BInt64 n \<Rightarrow> - (2 ^ 63) \<le> n \<and> n < 2 ^ 63 | _ \<Rightarrow> True) doc"

text \<open>
  A call that reports an error has had its full effect or none: the error may concern the
  reply only.
\<close>

definition full_or_none :: "mongo_db \<Rightarrow> mongo_db \<Rightarrow> mongo_db \<Rightarrow> bool" where
  "full_or_none before target after \<longleftrightarrow> after = before \<or> after = target"

definition write_ok :: "('d \<Rightarrow> mongo_db) \<Rightarrow> error option \<times> 'd \<Rightarrow> mongo_db \<Rightarrow> mongo_db \<Rightarrow> bool" where
  "write_ok view out before target \<longleftrightarrow>
     (case fst out of
        None \<Rightarrow> view (snd out) = target
      | Some e \<Rightarrow> full_or_none before target (view (snd out)))"

definition reads_ok :: "'d mongo_driver \<Rightarrow> ('d \<Rightarrow> mongo_db) \<Rightarrow> bool" where
  "reads_ok D view \<longleftrightarrow>
     (\<forall>c i s. view (snd (FindOne D c (by_id i []) s)) = view s \<and>
        (case fst (FindOne D c (by_id i []) s) of Inr d \<Rightarrow> d = view s c i | Inl e \<Rightarrow> True)) \<and>
     (\<forall>s. view (snd (StartSession D s)) = view s)"

definition writes_ok :: "'d mongo_driver \<Rightarrow> ('d \<Rightarrow> mongo_db) \<Rightarrow> bool" where
  "writes_ok D view \<longleftrightarrow>
     (\<forall>c i doc s. map_of doc ''_id'' = Some (BString i) \<longrightarrow>
        write_ok view (ReplaceOne D c (by_id i []) doc s) (view s) (put_doc c i (Some doc) (view s))) \<and>
     (\<forall>c i s. write_ok view (DeleteOne D c (by_id i []) s) (view s) (put_doc c i None (view s))) \<and>
     (\<forall>c i doc s. map_of doc ''_id'' = Some (BString i) \<longrightarrow>
        (if view s c i = None
         then write_ok view (InsertOne D c doc s) (view s) (put_doc c i (Some doc) (view s))
         else fst (InsertOne D c doc s) \<noteq> None \<and> view (snd (InsertOne D c doc s)) = view s))"

definition updates_ok :: "'d mongo_driver \<Rightarrow> ('d \<Rightarrow> mongo_db) \<Rightarrow> bool" where
  "updates_ok D view \<longleftrightarrow>
     (\<forall>c i rest u s.
        (case UpdateOne D c (by_id i rest) u s of
           (Inr n, s') \<Rightarrow> (n, view s') = updated_one c i rest u (view s)
         | (Inl e, s') \<Rightarrow> full_or_none (view s) (snd (updated_one c i rest u (view s))) (view s'))) \<and>
     (\<forall>c i u s.
        (case FindOneAndUpdate D c (by_id i []) u s of
           (Inr doc, s') \<Rightarrow> doc = upserted c i u (view s) \<and> int64_fields doc
                           \<and> view s' = put_doc c i (Some doc) (view s)
         | (Inl e, s') \<Rightarrow> full_or_none (view s)
                           (put_doc c i (Some (upserted c i u (view s))) (view s)) (view s')))"

text \<open>
  A transaction commits all of one successful run of its callback, or nothing. The callback may
  have been run before on the same documents and rolled back; an error may hide a commit whose
  acknowledgement was lost.
\<close>

definition committed_run ::
  "('d \<Rightarrow> mongo_db) \<Rightarrow> ('d \<Rightarrow> error option \<times> 'd) \<Rightarrow> mongo_db \<Rightarrow> mongo_db \<Rightarrow> bool" where
  "committed_run view f before after \<longleftrightarrow>
     (\<exists>s0 s1. view s0 = before \<and> f s0 = (None, s1) \<and> view s1 = after)"

definition transactions_ok :: "'d mongo_driver \<Rightarrow> ('d \<Rightarrow> mongo_db) \<Rightarrow> bool" where
  "transactions_ok D view \<longleftrightarrow>
     (\<forall>f s. (case WithTransaction D f s of
        (None, s') \<Rightarrow> committed_run view f (view s) (view s')
      | (Some e, s') \<Rightarrow> view s' = view s \<or> committed_run view f (view s) (view s')))"

definition mongo_ok :: "'d mongo_driver \<Rightarrow> ('d \<Rightarrow> mongo_db) \<Rightarrow> bool" where
  "mongo_ok D view \<longleftrightarrow>
     reads_ok D view \<and> writes_ok D view \<and> updates_ok D view \<and> transactions_ok D view"

section \<open>Concrete instances\<close>

text \<open>A deployment in memory that never fails.\<close>

fun filter_id :: "bson_M \<Rightarrow> string" where
  "filter_id ((k, BString i) # rest) = i"
| "filter_id _ = []"

definition doc_id :: "bson_M \<Rightarrow> string" where
  "doc_id doc = (case map_of doc ''_id'' of Some (BString i) \<Rightarrow> i | _ \<Rightarrow> [])"

definition mem_driver :: "mongo_db mongo_driver" where
  "mem_driver = \<lparr>
     FindOne = (\<lambda>c f db. (Inr (db c (filter_id f)), db)),
     ReplaceOne = (\<lambda>c f doc db. (None, put_doc c (filter_id f) (Some doc) db)),
     DeleteOne = (\<lambda>c f db. (None, put_doc c (filter_id f) None db)),
     InsertOne = (\<lambda>c doc db. if db c (doc_id doc) = None
                             then (None, put_doc c (doc_id doc) (Some doc) db)
                             else (Some (ErrorMsg ''E11000 duplicate key''), db)),
     IsDuplicateKeyError = (\<lambda>e. e = ErrorMsg ''E11000 duplicate key''),
     UpdateOne = (\<lambda>c f u db. case updated_one c (filter_id f) (tl f) u db of (n, db') \<Rightarrow> (Inr n, db')),
     FindOneAndUpdate = (\<lambda>c f u db. let doc = upserted c (filter_id f) u db
                                     in if int64_fields doc then (Inr doc, put_doc c (filter_id f) (Some doc) db)
                                        else (Inl (ErrorMsg ''overflow''), db)),
     StartSession = (\<lambda>db. (None, db)),
     WithTransaction = (\<lambda>f db. case f db of
         (None, db') \<Rightarrow> (None, db')
       | (Some e, db') \<Rightarrow> (Some e, db)) \<rparr>"

lemma mem_driver_ok: "mongo_ok mem_driver id"
proof -
  have "reads_ok mem_driver id" by (simp add: reads_ok_def mem_driver_def by_id_def)
  moreover have "writes_ok mem_driver id"
    by (simp add: writes_ok_def mem_driver_def by_id_def write_ok_def doc_id_def)
  moreover have "updates_ok mem_driver id"
    by (simp add: updates_ok_def mem_driver_def by_id_def Let_def full_or_none_def split: prod.splits)
  moreover have "transactions_ok mem_driver id"
    by (auto simp: transactions_ok_def mem_driver_def committed_run_def split: prod.splits option.splits)
  ultimately show ?thesis by (simp add: mongo_ok_def)
qed

text \<open>UUIDs printed as a decimal numeral and read back; 16 bytes as base-256 digits.\<close>

definition word_of_bytes :: "bytes \<Rightarrow> uuid" where
  "word_of_bytes bs = of_nat (horner_sum of_char 256 bs)"

definition dec_uuid :: uuid_lib where
  "dec_uuid = \<lparr>
     uuid_String = (\<lambda>u. itoa (unat u)),
     uuid_Parse = (\<lambda>s. if s = [] then None else Some (of_nat (atoi s))),
     uuid_FromBytes = (\<lambda>bs. if length bs = 16 then Some (word_of_bytes bs) else None) \<rparr>"

lemma horner_bytes_inject:
  "length as = length bs \<Longrightarrow>
   horner_sum of_char (256 :: nat) as = horner_sum of_char 256 bs \<Longrightarrow> as = bs"
proof (induction as bs rule: list_induct2)
  case (Cons a as b bs)
  have lt: "(of_char c :: nat) < 256" for c by simp
  from Cons.prems have "(of_char a + 256 * horner_sum of_char 256 as) mod 256
      = (of_char b + 256 * horner_sum of_char (256 :: nat) bs) mod (256 :: nat)" by simp
  then have "(of_char a :: nat) = of_char b" using lt [of a] lt [of b] by simp
  with Cons show ?case by simp
qed simp

lemma horner_bytes_bound: "horner_sum of_char (256 :: nat) bs < 256 ^ length bs"
proof (induction bs)
  case (Cons b bs)
  show ?case using Cons nat_of_char_less_256 [of b] by (simp del: nat_of_char_less_256)
qed simp

lemma dec_uuid_ok: "uuid_ok dec_uuid"
proof -
  have inj: "as = bs" if "length as = 16" "length bs = 16" "word_of_bytes as = word_of_bytes bs" for as bs
  proof -
    have b: "horner_sum of_char (256 :: nat) xs < 2 ^ 128" if "length xs = 16" for xs
      using horner_bytes_bound [of xs] that by simp
    have "unat (word_of_bytes as) = unat (word_of_bytes bs)" using that(3) by simp
    then have "horner_sum of_char (256 :: nat) as = horner_sum of_char 256 bs"
      using b [OF that(1)] b [OF that(2)]
      by (simp add: word_of_bytes_def unat_of_nat)
    with that show ?thesis by (simp add: horner_bytes_inject)
  qed
  have "list_all (\<lambda>c. (of_char c :: nat) < 128) (itoa n)" for n
    using itoa_digits by (force simp: list_all_iff is_digit_def)
  then show ?thesis by (auto simp: uuid_ok_def dec_uuid_def intro: inj split: if_splits)
qed

end
