(* ===== verification/Fencing.thy ===== *)
theory Fencing
  imports Third_Party
begin

text \<open>
  Fencing tokens: \<open>client/fencing/fencing.go\<close> and the coordinator's side of the fence
  collection, \<open>client/fencing/mongofence/store.go\<close>. The locale \<open>fence_store\<close> is the contract
  of the \<open>FenceStore\<close> interface the coordinator relies on; the MongoDB store is interpreted
  as one for every driver with the documented behaviour.
\<close>

section \<open>Grants and the operation context\<close>

type_synonym Token = uint64

record Grant =
  gr_Resource :: string
  gr_Token :: Token
  gr_OwnerTxn :: string

definition FencesCollection :: string where "FencesCollection = ''lock_fences''"
definition FieldToken :: string where "FieldToken = ''token''"
definition FieldOwnerTxn :: string where "FieldOwnerTxn = ''owner_txn''"
definition FieldUpdatedAt :: string where "FieldUpdatedAt = ''updated_at''"
definition FieldValidatedAt :: string where "FieldValidatedAt = ''validated_at''"

lemmas fence_field_defs = FieldToken_def FieldOwnerTxn_def FieldUpdatedAt_def FieldValidatedAt_def

definition ResourceKey :: "8 word \<Rightarrow> string \<Rightarrow> string" where
  "ResourceKey resourceType key = itoa (unat resourceType) @ '':'' @ key"

lemma ResourceKey_inject [simp]:
  "ResourceKey t k = ResourceKey t' k' \<longleftrightarrow> t = t' \<and> k = k'"
proof
  assume "ResourceKey t k = ResourceKey t' k'"
  then have "itoa (unat t) @ CHR '':'' # k = itoa (unat t') @ CHR '':'' # k'"
    by (simp add: ResourceKey_def)
  from itoa_prefix_unique [OF this] show "t = t' \<and> k = k'" by (simp add: word_unat_eq_iff)
qed simp

text \<open>
  The context of one SAFER operation: the Go context, the fencing grants attached to it, the
  test switch that skips validation, and whether it carries a MongoDB session.
\<close>

record op_context =
  oc_ctx :: go_context
  oc_grants :: "Grant list"
  oc_skip :: bool
  oc_session :: bool

definition op_Background :: op_context where
  "op_Background = \<lparr>oc_ctx = Background, oc_grants = [], oc_skip = False, oc_session = False\<rparr>"

definition WithGrants :: "op_context \<Rightarrow> Grant list \<Rightarrow> op_context" where
  "WithGrants ctx grants = (if length grants = 0 then ctx else ctx\<lparr>oc_grants := grants\<rparr>)"

definition GrantsFromContext :: "op_context \<Rightarrow> Grant list" where
  "GrantsFromContext ctx = oc_grants ctx"

definition WithoutValidationForTest :: "op_context \<Rightarrow> op_context" where
  "WithoutValidationForTest ctx = ctx\<lparr>oc_skip := True\<rparr>"

definition ValidationSkippedForTest :: "op_context \<Rightarrow> bool" where
  "ValidationSkippedForTest ctx = oc_skip ctx"

section \<open>The fence store in MongoDB\<close>

text \<open>Decoding the \<open>token\<close> field into an \<open>int64\<close>: absent or null leaves the zero value.\<close>

definition decode_token :: "bson_M \<Rightarrow> error + int" where
  "decode_token doc =
     (case map_of doc FieldToken of
        Some (BInt64 n) \<Rightarrow> Inr n
      | Some BNull \<Rightarrow> Inr 0
      | None \<Rightarrow> Inr 0
      | _ \<Rightarrow> Inl (ErrorMsg ''error decoding key token''))"

definition Allocate ::
  "'d mongo_driver \<Rightarrow> int \<Rightarrow> string \<Rightarrow> string \<Rightarrow> 'd \<Rightarrow> (error + Token) \<times> 'd" where
  "Allocate D now resource ownerTxn s =
     (case FindOneAndUpdate D FencesCollection (by_id resource [])
             [(''$inc'', BM [(FieldToken, BInt64 1)]),
              (''$set'', BM [(FieldOwnerTxn, BString ownerTxn), (FieldUpdatedAt, BTime now)])] s of
        (Inl err, s') \<Rightarrow> (Inl (Wrap ''mongofence: allocating a token'' err), s')
      | (Inr doc, s') \<Rightarrow>
         (case decode_token doc of
            Inl err \<Rightarrow> (Inl (Wrap ''mongofence: allocating a token'' err), s')
          | Inr token \<Rightarrow>
             if token \<le> 0 then (Inl (ErrorMsg ''mongofence: allocated a non-positive token''), s')
             else (Inr (word_of_int token), s')))"

definition Invalidate ::
  "'d mongo_driver \<Rightarrow> int \<Rightarrow> string \<Rightarrow> string \<Rightarrow> 'd \<Rightarrow> error option \<times> 'd" where
  "Invalidate D now resource ownerTxn s =
     (case UpdateOne D FencesCollection (by_id resource [(FieldOwnerTxn, BString ownerTxn)])
             [(''$set'', BM [(FieldOwnerTxn, BNull), (FieldUpdatedAt, BTime now)])] s of
        (Inl err, s') \<Rightarrow> (Some (Wrap ''mongofence: invalidating the fence'' err), s')
      | (Inr _, s') \<Rightarrow> (None, s'))"

fun InvalidateAll ::
  "'d mongo_driver \<Rightarrow> int \<Rightarrow> Grant list \<Rightarrow> 'd \<Rightarrow> error option \<times> 'd" where
  "InvalidateAll D now [] s = (None, s)"
| "InvalidateAll D now (grant # rest) s =
     (case Invalidate D now (gr_Resource grant) (gr_OwnerTxn grant) s of
        (Some err, s') \<Rightarrow> (Some err, s')
      | (None, s') \<Rightarrow> InvalidateAll D now rest s')"

text \<open>\<open>Current\<close>: token, owner (empty when null) and whether the document exists.\<close>

definition Current ::
  "'d mongo_driver \<Rightarrow> string \<Rightarrow> 'd \<Rightarrow> (error + Token \<times> string \<times> bool) \<times> 'd" where
  "Current D resource s =
     (case FindOne D FencesCollection (by_id resource []) s of
        (Inl err, s') \<Rightarrow> (Inl (Wrap ''mongofence: reading the fence'' err), s')
      | (Inr None, s') \<Rightarrow> (Inr (0, [], False), s')
      | (Inr (Some doc), s') \<Rightarrow>
         (case decode_token doc of
            Inl err \<Rightarrow> (Inl (Wrap ''mongofence: reading the fence'' err), s')
          | Inr token \<Rightarrow>
             (case map_of doc FieldOwnerTxn of
                Some (BString owner) \<Rightarrow> (Inr (word_of_int token, owner, True), s')
              | None \<Rightarrow> (Inr (word_of_int token, [], True), s')
              | Some BNull \<Rightarrow> (Inr (word_of_int token, [], True), s')
              | _ \<Rightarrow> (Inl (ErrorMsg ''mongofence: reading the fence''), s'))))"

section \<open>The contract of a fence store\<close>

text \<open>
  \<open>token s r\<close> is the last token issued for the resource \<open>r\<close> and \<open>owner s r\<close> the transaction
  recorded as its owner. Tokens only grow; ownership moves only to the transaction allocating,
  with a larger token, or away from the transaction invalidating.
\<close>

locale fence_store =
  fixes alloc :: "string \<Rightarrow> string \<Rightarrow> 's \<Rightarrow> (error + Token) \<times> 's"
    and inval :: "string \<Rightarrow> string \<Rightarrow> 's \<Rightarrow> error option \<times> 's"
    and token :: "'s \<Rightarrow> string \<Rightarrow> int"
    and owner :: "'s \<Rightarrow> string \<Rightarrow> string option"
    and good :: "'s \<Rightarrow> bool"
  assumes good_alloc: "good s \<Longrightarrow> good (snd (alloc r t s))"
    and good_inval: "good s \<Longrightarrow> good (snd (inval r t s))"
    and alloc_ok: "good s \<Longrightarrow> alloc r t s = (Inr n, s') \<Longrightarrow>
          owner s' r = Some t \<and> token s' r = uint n \<and> token s r < uint n"
    and alloc_any: "good s \<Longrightarrow> alloc r t s = (res, s') \<Longrightarrow>
          (token s' r = token s r \<and> owner s' r = owner s r) \<or>
          (token s r < token s' r \<and> owner s' r = Some t)"
    and alloc_frame: "good s \<Longrightarrow> alloc r t s = (res, s') \<Longrightarrow> r' \<noteq> r \<Longrightarrow>
          token s' r' = token s r' \<and> owner s' r' = owner s r'"
    and inval_ok: "good s \<Longrightarrow> inval r t s = (None, s') \<Longrightarrow> owner s' r \<noteq> Some t"
    and inval_token: "good s \<Longrightarrow> inval r t s = (e, s') \<Longrightarrow> token s' r' = token s r'"
    and inval_owner: "good s \<Longrightarrow> inval r t s = (e, s') \<Longrightarrow>
          owner s' r' = owner s r' \<or> r' = r \<and> owner s r = Some t \<and> owner s' r = None"
begin

lemma token_mono_alloc: "good s \<Longrightarrow> alloc r t s = (res, s') \<Longrightarrow> token s r' \<le> token s' r'"
  using alloc_any [of s r t res s'] alloc_frame [of s r t res s' r'] by (cases "r' = r") auto

lemma never_current_again_alloc:
  assumes "good s" "alloc r t s = (res, s')" "n \<le> token s r'" "\<not> (token s r' = n \<and> owner s r' = Some q)"
  shows "n \<le> token s' r' \<and> \<not> (token s' r' = n \<and> owner s' r' = Some q)"
proof (cases "r' = r")
  case True
  with assms alloc_any [OF assms(1,2)] show ?thesis by auto
next
  case False
  with assms alloc_frame [OF assms(1,2)] show ?thesis by auto
qed

lemma never_current_again_inval:
  assumes "good s" "inval r t s = (e, s')" "n \<le> token s r'" "\<not> (token s r' = n \<and> owner s r' = Some q)"
  shows "n \<le> token s' r' \<and> \<not> (token s' r' = n \<and> owner s' r' = Some q)"
  using assms inval_token [OF assms(1,2), of r'] inval_owner [OF assms(1,2), of r'] by auto

lemma inval_keeps_cleared:
  "good s \<Longrightarrow> inval r t s = (e, s') \<Longrightarrow> owner s r' \<noteq> Some q \<Longrightarrow> owner s' r' \<noteq> Some q"
  using inval_owner [of s r t e s' r'] by auto

end

section \<open>The MongoDB store meets the contract\<close>

definition fence_token :: "mongo_db \<Rightarrow> string \<Rightarrow> int" where
  "fence_token db r =
     (case db FencesCollection r of
        Some doc \<Rightarrow> (case map_of doc FieldToken of Some (BInt64 n) \<Rightarrow> n | _ \<Rightarrow> 0)
      | None \<Rightarrow> 0)"

definition fence_owner :: "mongo_db \<Rightarrow> string \<Rightarrow> string option" where
  "fence_owner db r =
     (case db FencesCollection r of
        Some doc \<Rightarrow> (case map_of doc FieldOwnerTxn of Some (BString t) \<Rightarrow> Some t | _ \<Rightarrow> None)
      | None \<Rightarrow> None)"

text \<open>Every fence document was created by an allocation, so its token is a positive integer.\<close>

definition fences_wf :: "mongo_db \<Rightarrow> bool" where
  "fences_wf db \<longleftrightarrow>
     (\<forall>r doc. db FencesCollection r = Some doc \<longrightarrow>
        (\<exists>n. map_of doc FieldToken = Some (BInt64 n) \<and> 1 \<le> n))"

definition fence_allocated :: "int \<Rightarrow> string \<Rightarrow> string \<Rightarrow> mongo_db \<Rightarrow> bson_M" where
  "fence_allocated now r t db =
     upserted FencesCollection r
       [(''$inc'', BM [(FieldToken, BInt64 1)]),
        (''$set'', BM [(FieldOwnerTxn, BString t), (FieldUpdatedAt, BTime now)])] db"

lemma set_fields_simps [simp]:
  "set_fields [] d = d" "set_fields ((k, v) # u) d = set_fields u (AList.update k v d)"
  by (simp_all add: set_fields_def)

lemma fence_allocated_fields:
  assumes "fences_wf db"
  shows "map_of (fence_allocated now r t db) FieldToken = Some (BInt64 (fence_token db r + 1))"
    and "map_of (fence_allocated now r t db) FieldOwnerTxn = Some (BString t)"
proof -
  consider "db FencesCollection r = None"
    | doc n where "db FencesCollection r = Some doc" "map_of doc FieldToken = Some (BInt64 n)"
    using assms unfolding fences_wf_def by (metis option.exhaust)
  then show "map_of (fence_allocated now r t db) FieldToken = Some (BInt64 (fence_token db r + 1))"
    by cases (simp_all add: fence_allocated_def upserted_def apply_update_def fence_token_def
        inc_field_def fence_field_defs)
  show "map_of (fence_allocated now r t db) FieldOwnerTxn = Some (BString t)"
    by (simp add: fence_allocated_def upserted_def apply_update_def fence_field_defs)
qed

lemma fence_token_nonneg: "fences_wf db \<Longrightarrow> 0 \<le> fence_token db r"
  by (fastforce simp: fence_token_def fences_wf_def split: option.splits bson.splits)

lemma put_doc_apply [simp]:
  "put_doc c i d db c' i' = (if c' = c \<and> i' = i then d else db c' i')"
  by (simp add: put_doc_def)

lemma fence_put_doc [simp]:
  "fence_token (put_doc FencesCollection r (Some doc) db) r' =
     (if r' = r then (case map_of doc FieldToken of Some (BInt64 n) \<Rightarrow> n | _ \<Rightarrow> 0) else fence_token db r')"
  "fence_owner (put_doc FencesCollection r (Some doc) db) r' =
     (if r' = r then (case map_of doc FieldOwnerTxn of Some (BString t) \<Rightarrow> Some t | _ \<Rightarrow> None)
      else fence_owner db r')"
  by (simp_all add: fence_token_def fence_owner_def)

lemma fences_wf_allocated:
  assumes "fences_wf db"
  shows "fences_wf (put_doc FencesCollection r (Some (fence_allocated now r t db)) db)"
  using assms fence_allocated_fields(1) [OF assms] fence_token_nonneg [OF assms, of r]
  by (auto simp: fences_wf_def)

text \<open>The two ways an allocation can leave the documents.\<close>

lemma Allocate_effect:
  assumes "mongo_ok D view" and "Allocate D now r t s = (res, s')" and wf: "fences_wf (view s)"
  obtains (unchanged) e where "view s' = view s" "res = Inl e"
  | (advanced) "view s' = put_doc FencesCollection r (Some (fence_allocated now r t (view s))) (view s)"
      "\<forall>n. res = Inr n \<longrightarrow> uint n = fence_token (view s) r + 1"
proof -
  define u where "u = [(''$inc'', BM [(FieldToken, BInt64 1)]),
    (''$set'', BM [(FieldOwnerTxn, BString t), (FieldUpdatedAt, BTime now)])]"
  obtain o1 s1 where call: "FindOneAndUpdate D FencesCollection (by_id r []) u s = (o1, s1)"
    by fastforce
  have law: "case (o1, s1) of (Inr doc, s') \<Rightarrow> doc = fence_allocated now r t (view s)
        \<and> int64_fields doc \<and> view s' = put_doc FencesCollection r (Some doc) (view s)
     | (Inl e, s') \<Rightarrow> full_or_none (view s)
        (put_doc FencesCollection r (Some (fence_allocated now r t (view s))) (view s)) (view s')"
    using assms(1) call [symmetric] unfolding mongo_ok_def updates_ok_def u_def fence_allocated_def
    by auto
  show thesis
  proof (cases o1)
    case (Inl e)
    with assms(2) call have "res = Inl (Wrap ''mongofence: allocating a token'' e)" "s' = s1"
      by (simp_all add: Allocate_def u_def)
    with law Inl show thesis by (auto simp: full_or_none_def intro: that)
  next
    case (Inr doc)
    define n where "n = fence_token (view s) r + 1"
    from law [unfolded Inr] have doc: "doc = fence_allocated now r t (view s)" "int64_fields doc"
      "view s1 = put_doc FencesCollection r (Some doc) (view s)" by auto
    have tok: "map_of doc FieldToken = Some (BInt64 n)"
      using fence_allocated_fields(1) [OF wf] doc(1) by (simp add: n_def)
    with doc(2) have rng: "n < 2 ^ 63"
      by (auto simp: int64_fields_def list_all_iff dest!: map_of_SomeD)
    have pos: "0 < n" using fence_token_nonneg [OF wf, of r] by (simp add: n_def)
    with assms(2) call Inr tok have "res = Inr (word_of_int n)" "s' = s1"
      by (simp_all add: Allocate_def u_def decode_token_def)
    moreover have "uint (word_of_int n :: 64 word) = n"
      using pos rng by (simp add: uint_word_of_int)
    ultimately show thesis using advanced doc by (simp add: n_def)
  qed
qed

definition fence_cleared :: "int \<Rightarrow> bson_M \<Rightarrow> bson_M" where
  "fence_cleared now doc =
     apply_update [(''$set'', BM [(FieldOwnerTxn, BNull), (FieldUpdatedAt, BTime now)])] doc"

lemma fence_cleared_fields:
  "map_of (fence_cleared now doc) FieldToken = map_of doc FieldToken"
  "map_of (fence_cleared now doc) FieldOwnerTxn = Some BNull"
  by (simp_all add: fence_cleared_def apply_update_def fence_field_defs)

text \<open>The three ways an invalidation can go.\<close>

lemma Invalidate_effect:
  assumes "mongo_ok D view" and "Invalidate D now r t s = (res, s')"
  obtains (foreign) "view s' = view s" "fence_owner (view s) r \<noteq> Some t"
  | (cleared) doc where "view s FencesCollection r = Some doc" "fence_owner (view s) r = Some t"
      "view s' = put_doc FencesCollection r (Some (fence_cleared now doc)) (view s)"
  | (failed) "view s' = view s" "res \<noteq> None"
proof -
  define u where "u = [(''$set'', BM [(FieldOwnerTxn, BNull), (FieldUpdatedAt, BTime now)])]"
  define f where "f = [(FieldOwnerTxn, BString t)]"
  obtain o1 s1 where call: "UpdateOne D FencesCollection (by_id r f) u s = (o1, s1)" by fastforce
  have s': "s' = s1" and res: "(res = None) = (\<exists>n. o1 = Inr n)"
    using assms(2) call by (auto simp: Invalidate_def u_def f_def split: sum.splits)
  have law: "case (o1, s1) of (Inr n, s') \<Rightarrow> (n, view s') = updated_one FencesCollection r f u (view s)
     | (Inl e, s') \<Rightarrow> full_or_none (view s) (snd (updated_one FencesCollection r f u (view s))) (view s')"
    using assms(1) call [symmetric] unfolding mongo_ok_def updates_ok_def by auto
  show thesis
  proof (cases "fence_owner (view s) r = Some t")
    case True
    then obtain doc where doc: "view s FencesCollection r = Some doc"
      "map_of doc FieldOwnerTxn = Some (BString t)"
      by (auto simp: fence_owner_def split: option.splits bson.splits)
    then have up: "updated_one FencesCollection r f u (view s) =
        (1, put_doc FencesCollection r (Some (fence_cleared now doc)) (view s))"
      by (simp add: updated_one_def bson_matches_def f_def u_def fence_cleared_def)
    show thesis
      using law up s' res True doc(1)
      by (auto simp: full_or_none_def split: sum.splits intro: that)
  next
    case False
    then have "updated_one FencesCollection r f u (view s) = (0, view s)"
      by (auto simp: updated_one_def bson_matches_def f_def fence_owner_def split: option.splits)
    with law s' False show thesis
      by (auto simp: full_or_none_def split: sum.splits intro: foreign)
  qed
qed

lemma fences_wf_cleared:
  "fences_wf db \<Longrightarrow> db FencesCollection r = Some doc \<Longrightarrow>
   fences_wf (put_doc FencesCollection r (Some (fence_cleared now doc)) db)"
  by (auto simp: fences_wf_def fence_cleared_fields)

definition fences_good :: "'d mongo_driver \<Rightarrow> ('d \<Rightarrow> mongo_db) \<Rightarrow> 'd \<Rightarrow> bool" where
  "fences_good D view s \<longleftrightarrow> mongo_ok D view \<and> fences_wf (view s)"

lemma fences_goodD: "fences_good D view s \<Longrightarrow> mongo_ok D view" "fences_good D view s \<Longrightarrow> fences_wf (view s)"
  by (simp_all add: fences_good_def)

interpretation mf: fence_store "Allocate D now" "Invalidate D now" "\<lambda>s. fence_token (view s)"
  "\<lambda>s. fence_owner (view s)" "fences_good D view" for D now view
proof (unfold_locales, goal_cases)
  case (1 s r t)
  obtain res s' where call: "Allocate D now r t s = (res, s')" by fastforce
  show ?case
    by (rule Allocate_effect [OF fences_goodD(1) [OF 1] call fences_goodD(2) [OF 1]])
       (use 1 call in \<open>simp_all add: fences_good_def fences_wf_allocated\<close>)
next
  case (2 s r t)
  obtain res s' where call: "Invalidate D now r t s = (res, s')" by fastforce
  show ?case
    by (rule Invalidate_effect [OF fences_goodD(1) [OF 2] call])
       (use 2 call in \<open>simp_all add: fences_good_def fences_wf_cleared\<close>)
next
  case (3 s r t n s')
  note wf = fences_goodD(2) [OF 3(1)]
  show ?case
    by (rule Allocate_effect [OF fences_goodD(1) [OF 3(1)] 3(2) wf])
       (simp_all add: fence_allocated_fields [OF wf])
next
  case (4 s r t res s')
  note wf = fences_goodD(2) [OF 4(1)]
  show ?case
    by (rule Allocate_effect [OF fences_goodD(1) [OF 4(1)] 4(2) wf])
       (simp_all add: fence_allocated_fields [OF wf])
next
  case (5 s r t res s' r')
  show ?case
    by (rule Allocate_effect [OF fences_goodD(1) [OF 5(1)] 5(2) fences_goodD(2) [OF 5(1)]])
       (use 5(3) in simp_all)
next
  case (6 s r t s')
  show ?case
    by (rule Invalidate_effect [OF fences_goodD(1) [OF 6(1)] 6(2)])
       (simp_all add: fence_cleared_fields)
next
  case (7 s r t res s' r')
  show ?case
    by (rule Invalidate_effect [OF fences_goodD(1) [OF 7(1)] 7(2)])
       (simp_all add: fence_cleared_fields fence_token_def)
next
  case (8 s r t res s' r')
  show ?case
    by (rule Invalidate_effect [OF fences_goodD(1) [OF 8(1)] 8(2)])
       (simp_all add: fence_cleared_fields)
qed

end
