(* ===== verification/Registry.thy ===== *)
theory Registry
  imports Lock_Manager Fencing
begin

text \<open>
  The coordinator's transaction table, \<open>client/coordination/grpccoord/transactions.go\<close>.
  Every method is one critical section under the table's mutex. A \<open>*transaction\<close> is an address
  in the store \<open>txns\<close>; since the code makes one record per internal id, the address is that id.
  Instants and durations are nanoseconds.
\<close>

section \<open>Data\<close>

datatype lifecycle = txnActive | txnRevoking | txnEnding

fun lifecycle_String :: "lifecycle \<Rightarrow> string" where
  "lifecycle_String txnActive = ''active''"
| "lifecycle_String txnRevoking = ''revoking''"
| "lifecycle_String txnEnding = ''ending''"

record grantRecord =
  g_resource :: ResourceID
  g_mode :: LockMode
  g_token :: Token

text \<open>The zero \<open>time.Time\<close> (1 January of year 1), and \<open>UnixNano\<close>, which wraps to an \<open>int64\<close>.\<close>

definition time_Zero :: int where "time_Zero = - 62135596800000000000"

definition UnixNano :: "int \<Rightarrow> int" where
  "UnixNano t = sint (word_of_int t :: 64 word)"

record transaction =
  tx_external :: uuid
  tx_internal :: TxnID
  tx_state :: lifecycle
  tx_leaseDeadline :: int
  tx_leaseStarted :: bool
  tx_grants :: "grantRecord list"
  tx_pending :: "uint64 list"
  tx_nextReq :: uint64
  tx_finished :: bool
  tx_finishedAt :: int

definition rtype_uint8 :: "ResourceType \<Rightarrow> 8 word" where
  "rtype_uint8 t = (case t of NamespaceResource \<Rightarrow> 0 | FileResource \<Rightarrow> 1 | UnknownResource w \<Rightarrow> w)"

definition fence_key :: "ResourceID \<Rightarrow> string" where
  "fence_key r = ResourceKey (rtype_uint8 (RType r)) (RKey r)"

fun fence_grants_of :: "uuid_lib \<Rightarrow> uuid \<Rightarrow> grantRecord list \<Rightarrow> Grant list" where
  "fence_grants_of U external [] = []"
| "fence_grants_of U external (g # gs) =
     (if g_mode g \<noteq> ExclusiveLock then fence_grants_of U external gs
      else \<lparr>gr_Resource = fence_key (g_resource g), gr_Token = g_token g,
            gr_OwnerTxn = uuid_String U external\<rparr> # fence_grants_of U external gs)"

definition fenceGrants :: "uuid_lib \<Rightarrow> transaction \<Rightarrow> Grant list" where
  "fenceGrants U t = fence_grants_of U (tx_external t) (tx_grants t)"

definition grantFor :: "transaction \<Rightarrow> ResourceID \<Rightarrow> grantRecord option" where
  "grantFor t resource = find (\<lambda>g. g_resource g = resource) (tx_grants t)"

record registry =
  byID :: "(uuid \<times> TxnID) list"
  txns :: "TxnID \<Rightarrow> transaction"
  reg_next :: uint64
  spent :: bool
  reg_leaseDuration :: int

definition new_transaction :: "uuid \<Rightarrow> TxnID \<Rightarrow> transaction" where
  "new_transaction external internal =
     \<lparr>tx_external = external, tx_internal = internal, tx_state = txnActive,
      tx_leaseDeadline = time_Zero, tx_leaseStarted = False, tx_grants = [], tx_pending = [],
      tx_nextReq = 0, tx_finished = False, tx_finishedAt = time_Zero\<rparr>"

definition newRegistry :: "int \<Rightarrow> registry" where
  "newRegistry leaseDuration =
     \<lparr>byID = [], txns = (\<lambda>t. new_transaction 0 0), reg_next = 0, spent = False,
      reg_leaseDuration = leaseDuration\<rparr>"

definition errTxnIDsExhausted :: error where
  "errTxnIDsExhausted = ErrorMsg ''grpccoord: transaction ID space exhausted''"

definition update_txn :: "TxnID \<Rightarrow> (transaction \<Rightarrow> transaction) \<Rightarrow> registry \<Rightarrow> registry" where
  "update_txn t f r = r\<lparr>txns := (txns r)(t := f (txns r t))\<rparr>"

section \<open>Operations\<close>

definition ensure :: "uuid \<Rightarrow> registry \<Rightarrow> (error + TxnID) \<times> registry" where
  "ensure external r =
     (case map_of (byID r) external of
        Some t \<Rightarrow>
          if tx_finished (txns r t) then
            (Inl (ErrorMsg ''grpccoord: transaction has already ended; it no longer holds any locks''), r)
          else if tx_state (txns r t) \<noteq> txnActive then
            (Inl (ErrorMsg (''grpccoord: transaction is '' @ lifecycle_String (tx_state (txns r t)))), r)
          else (Inr t, r)
      | None \<Rightarrow>
          if spent r \<or> reg_next r = - 1 then (Inl errTxnIDsExhausted, r\<lparr>spent := True\<rparr>)
          else
            (let next = reg_next r + 1
             in (Inr next,
                 r\<lparr>reg_next := next, txns := (txns r)(next := new_transaction external next),
                   byID := AList.update external next (byID r)\<rparr>)))"

definition lookup :: "uuid \<Rightarrow> registry \<Rightarrow> TxnID option" where
  "lookup external r = map_of (byID r) external"

definition finish :: "int \<Rightarrow> uuid \<Rightarrow> registry \<Rightarrow> registry" where
  "finish now external r =
     (case map_of (byID r) external of
        Some t \<Rightarrow> update_txn t (\<lambda>tx. tx\<lparr>tx_finished := True, tx_finishedAt := now\<rparr>) r
      | None \<Rightarrow> r)"

definition prune :: "int \<Rightarrow> int \<Rightarrow> registry \<Rightarrow> registry" where
  "prune now retention r =
     r\<lparr>byID := filter (\<lambda>(u, t). \<not> (tx_finished (txns r t)
                                   \<and> now - tx_finishedAt (txns r t) > retention)) (byID r)\<rparr>"

definition startLeaseIfNeeded :: "int \<Rightarrow> TxnID \<Rightarrow> registry \<Rightarrow> int \<times> registry" where
  "startLeaseIfNeeded now t r =
     (let r' = update_txn t (\<lambda>tx. tx\<lparr>tx_leaseStarted := True,
                                    tx_leaseDeadline := now + reg_leaseDuration r\<rparr>) r
      in (tx_leaseDeadline (txns r' t), r'))"

definition renew :: "int \<Rightarrow> uuid \<Rightarrow> registry \<Rightarrow> (error + int) \<times> registry" where
  "renew now external r =
     (case map_of (byID r) external of
        None \<Rightarrow> (Inl (ErrorMsg ''grpccoord: transaction is not known''), r)
      | Some t \<Rightarrow>
         if tx_finished (txns r t) then (Inl (ErrorMsg ''grpccoord: transaction has already ended''), r)
         else if tx_state (txns r t) \<noteq> txnActive then
           (Inl (ErrorMsg (''grpccoord: transaction is '' @ lifecycle_String (tx_state (txns r t)))), r)
         else if \<not> tx_leaseStarted (txns r t) then (Inr time_Zero, r)
         else (Inr (now + reg_leaseDuration r),
               update_txn t (\<lambda>tx. tx\<lparr>tx_leaseDeadline := now + reg_leaseDuration r\<rparr>) r))"

definition recordGrant :: "TxnID \<Rightarrow> grantRecord \<Rightarrow> registry \<Rightarrow> registry" where
  "recordGrant t record r = update_txn t (\<lambda>tx. tx\<lparr>tx_grants := tx_grants tx @ [record]\<rparr>) r"

definition registerPending :: "TxnID \<Rightarrow> registry \<Rightarrow> uint64 \<times> registry" where
  "registerPending t r =
     (let i = tx_nextReq (txns r t) + 1
      in (i, update_txn t (\<lambda>tx. tx\<lparr>tx_nextReq := i, tx_pending := List.insert i (tx_pending tx)\<rparr>) r))"

definition clearPending :: "TxnID \<Rightarrow> uint64 \<Rightarrow> registry \<Rightarrow> registry" where
  "clearPending t i r = update_txn t (\<lambda>tx. tx\<lparr>tx_pending := removeAll i (tx_pending tx)\<rparr>) r"

text \<open>\<open>beginTeardown\<close> returns the transaction and the pending requests whose cancel functions run.\<close>

definition beginTeardown ::
  "uuid \<Rightarrow> lifecycle \<Rightarrow> registry \<Rightarrow> (TxnID \<times> uint64 list) option \<times> registry" where
  "beginTeardown external state r =
     (case map_of (byID r) external of
        None \<Rightarrow> (None, r)
      | Some t \<Rightarrow>
         if tx_finished (txns r t) \<or> tx_state (txns r t) \<noteq> txnActive then (None, r)
         else (Some (t, tx_pending (txns r t)),
               update_txn t (\<lambda>tx. tx\<lparr>tx_state := state, tx_pending := []\<rparr>) r))"

definition expired :: "int \<Rightarrow> registry \<Rightarrow> uuid list" where
  "expired now r =
     map fst (filter (\<lambda>(u, t). \<not> (tx_finished (txns r t) \<or> tx_state (txns r t) \<noteq> txnActive
                                   \<or> \<not> tx_leaseStarted (txns r t))
                                \<and> now > tx_leaseDeadline (txns r t)) (byID r))"

fun count_txns :: "transaction list \<Rightarrow> nat \<times> nat \<Rightarrow> nat \<times> nat" where
  "count_txns [] acc = acc"
| "count_txns (tx # rest) (active, revoking) =
     (if tx_finished tx then count_txns rest (active, revoking)
      else if tx_state tx = txnRevoking then count_txns rest (active, Suc revoking)
      else count_txns rest (Suc active, revoking))"

definition counts :: "registry \<Rightarrow> nat \<times> nat" where
  "counts r = count_txns (map (\<lambda>(u, t). txns r t) (byID r)) (0, 0)"

section \<open>The table's invariant\<close>

text \<open>
  Entries name live records that carry the same external id; internal ids lie between 1 and
  \<open>next\<close>, and no two entries share a record.
\<close>

definition reg_inv :: "registry \<Rightarrow> bool" where
  "reg_inv r \<longleftrightarrow>
     distinct (map fst (byID r)) \<and> distinct (map snd (byID r)) \<and>
     (\<forall>(u, t) \<in> set (byID r). tx_external (txns r t) = u \<and> 0 < t \<and> t \<le> reg_next r)"

lemma update_txn_simps [simp]:
  "byID (update_txn t f r) = byID r" "reg_next (update_txn t f r) = reg_next r"
  "spent (update_txn t f r) = spent r" "reg_leaseDuration (update_txn t f r) = reg_leaseDuration r"
  "txns (update_txn t f r) t' = (if t' = t then f (txns r t) else txns r t')"
  by (simp_all add: update_txn_def)

lemma reg_inv_update_txn:
  "reg_inv r \<Longrightarrow> (\<And>tx. tx_external (f tx) = tx_external tx) \<Longrightarrow> reg_inv (update_txn t f r)"
  by (auto simp: reg_inv_def)

lemma reg_invD:
  assumes "reg_inv r" and "map_of (byID r) u = Some t"
  shows "tx_external (txns r t) = u" "0 < t" "t \<le> reg_next r"
  using assms map_of_SomeD [OF assms(2)] by (auto simp: reg_inv_def)

lemma reg_inv_inject:
  assumes "reg_inv r" "map_of (byID r) u = Some t" "map_of (byID r) u' = Some t"
  shows "u = u'"
  using reg_invD(1) [OF assms(1,2)] reg_invD(1) [OF assms(1,3)] by simp

lemma ensure_new:
  assumes "ensure u r = (Inr t, r')" and "map_of (byID r) u = None"
  shows "t = reg_next r + 1" "reg_next r \<noteq> - 1" "\<not> spent r"
    "r' = r\<lparr>reg_next := t, txns := (txns r)(t := new_transaction u t), byID := AList.update u t (byID r)\<rparr>"
  using assms by (auto simp: ensure_def Let_def split: if_splits)

lemma ensure_known:
  assumes "ensure u r = (Inr t, r')" and "map_of (byID r) u = Some t'"
  shows "t = t'" "r' = r" "tx_state (txns r t) = txnActive" "\<not> tx_finished (txns r t)"
  using assms by (auto simp: ensure_def split: if_splits)

lemma ensure_err:
  "ensure u r = (Inl e, r') \<Longrightarrow> r' = r \<or> r' = r\<lparr>spent := True\<rparr>"
  by (auto simp: ensure_def Let_def split: option.splits if_splits)

lemma reg_inv_ensure:
  assumes "reg_inv r"
  shows "reg_inv (snd (ensure u r))"
proof (cases "ensure u r")
  case (Pair res r')
  show ?thesis
  proof (cases res)
    case (Inl e)
    with Pair ensure_err [of u r e r'] assms show ?thesis by (auto simp: reg_inv_def)
  next
    case (Inr t)
    show ?thesis
    proof (cases "map_of (byID r) u")
      case (Some t')
      with Pair Inr ensure_known [of u r t r' t'] assms show ?thesis by simp
    next
      case None
      note new = ensure_new [OF Pair [unfolded Inr] None]
      have up: "t' < t" if "t' \<le> reg_next r" for t'
        using that new(1,2) word_less_Suc_max by (metis le_less_trans)
      have fresh: "u \<notin> fst ` set (byID r)" using None by (simp add: map_of_eq_None_iff)
      have r': "byID r' = byID r @ [(u, t)]" "reg_next r' = t"
        "\<And>t'. t' \<noteq> t \<Longrightarrow> txns r' t' = txns r t'" "txns r' t = new_transaction u t"
        using new(4) update_new_key [OF fresh] by simp_all
      have old: "0 < t'" "t' < t" "tx_external (txns r t') = u'" if "(u', t') \<in> set (byID r)" for u' t'
        using assms that up by (auto simp: reg_inv_def)
      then have "t \<notin> snd ` set (byID r)" by force
      moreover have "0 < t" using up [of 0] by simp
      moreover have "\<forall>(u', t') \<in> set (byID r). tx_external (txns r' t') = u' \<and> 0 < t' \<and> t' \<le> t"
        using old r'(3) by fastforce
      ultimately show ?thesis
        using assms fresh r'
        by (simp add: reg_inv_def Pair new_transaction_def)
    qed
  qed
qed

end
