(* ===== verification/Coordinator.thy ===== *)
theory Coordinator
  imports Registry
begin

text \<open>
  The coordinator server, \<open>client/coordination/grpccoord/server.go\<close>.

  \<open>Acquire\<close> is cut at its critical sections: \<open>acquire_admit\<close> runs up to \<open>ensure\<close> and
  \<open>acquire_advance\<close> performs one section of the rest, so that other handlers can run in
  between; \<open>Server_Acquire\<close> is the uninterrupted composition. A pending request is named by
  its transaction and request id, and \<open>sv_cancelled\<close> holds the ones whose cancel function has
  been called. Tracing, metrics and logging have no effect on the state and are left out.
\<close>

section \<open>Wire types\<close>

datatype pb_ResourceType = RESOURCE_TYPE_UNSPECIFIED | RESOURCE_TYPE_NAMESPACE
  | RESOURCE_TYPE_FILE | RESOURCE_TYPE_OTHER int

datatype pb_LockMode = LOCK_MODE_UNSPECIFIED | LOCK_MODE_SHARED | LOCK_MODE_EXCLUSIVE
  | LOCK_MODE_OTHER int

record pb_ResourceId =
  pb_Type :: pb_ResourceType
  pb_Key :: string

record AcquireRequest =
  rq_TransactionId :: string
  rq_Resource :: "pb_ResourceId option"
  rq_Mode :: pb_LockMode

record AcquireResponse =
  FencingToken :: uint64
  LeaseExpiresUnixNano :: int

definition parseTxnID :: "uuid_lib \<Rightarrow> string \<Rightarrow> error + uuid" where
  "parseTxnID U raw =
     (if raw = [] then Inl (Status InvalidArgument ''grpccoord: transaction_id is required'')
      else case uuid_Parse U raw of
        None \<Rightarrow> Inl (Status InvalidArgument ''grpccoord: transaction_id is not a UUID'')
      | Some i \<Rightarrow>
         if i = 0 then Inl (Status InvalidArgument ''grpccoord: transaction_id must not be the nil UUID'')
         else Inr i)"

definition resourceFromProto :: "pb_ResourceId option \<Rightarrow> error + ResourceID" where
  "resourceFromProto r =
     (case r of
        None \<Rightarrow> Inl (Status InvalidArgument ''grpccoord: resource is required'')
      | Some p \<Rightarrow>
         if pb_Key p = [] then Inl (Status InvalidArgument ''grpccoord: resource key is required'')
         else (case pb_Type p of
            RESOURCE_TYPE_NAMESPACE \<Rightarrow> Inr \<lparr>RType = NamespaceResource, RKey = pb_Key p\<rparr>
          | RESOURCE_TYPE_FILE \<Rightarrow> Inr \<lparr>RType = FileResource, RKey = pb_Key p\<rparr>
          | _ \<Rightarrow> Inl (Status InvalidArgument ''grpccoord: unknown resource type'')))"

definition resourceToProto :: "ResourceID \<Rightarrow> error + pb_ResourceId" where
  "resourceToProto r =
     (case RType r of
        NamespaceResource \<Rightarrow> Inr \<lparr>pb_Type = RESOURCE_TYPE_NAMESPACE, pb_Key = RKey r\<rparr>
      | FileResource \<Rightarrow> Inr \<lparr>pb_Type = RESOURCE_TYPE_FILE, pb_Key = RKey r\<rparr>
      | UnknownResource _ \<Rightarrow> Inl (ErrorMsg ''grpccoord: unknown resource type''))"

definition modeFromProto :: "pb_LockMode \<Rightarrow> error + LockMode" where
  "modeFromProto m =
     (case m of
        LOCK_MODE_SHARED \<Rightarrow> Inr SharedLock
      | LOCK_MODE_EXCLUSIVE \<Rightarrow> Inr ExclusiveLock
      | _ \<Rightarrow> Inl (Status InvalidArgument ''grpccoord: unknown lock mode''))"

definition modeToProto :: "LockMode \<Rightarrow> error + pb_LockMode" where
  "modeToProto m =
     (case m of
        SharedLock \<Rightarrow> Inr LOCK_MODE_SHARED
      | ExclusiveLock \<Rightarrow> Inr LOCK_MODE_EXCLUSIVE
      | UnknownMode _ \<Rightarrow> Inl (ErrorMsg ''grpccoord: unknown lock mode''))"

section \<open>The server's state\<close>

record 'd FenceStore =
  fs_Allocate :: "int \<Rightarrow> string \<Rightarrow> string \<Rightarrow> 'd \<Rightarrow> (error + Token) \<times> 'd"
  fs_Invalidate :: "int \<Rightarrow> string \<Rightarrow> string \<Rightarrow> 'd \<Rightarrow> error option \<times> 'd"

definition mongo_FenceStore :: "'d mongo_driver \<Rightarrow> 'd FenceStore" where
  "mongo_FenceStore D = \<lparr>fs_Allocate = Allocate D, fs_Invalidate = Invalidate D\<rparr>"

definition DefaultLeaseDuration :: int where "DefaultLeaseDuration = 6000000000"
definition DefaultSweepInterval :: int where "DefaultSweepInterval = 500000000"
definition DefaultCleanupRetryInterval :: int where "DefaultCleanupRetryInterval = 1000000000"

definition tombstoneRetention :: "int \<Rightarrow> int" where
  "tombstoneRetention lease =
     (let retention = wrap64 (10 * lease);
          retention = (if retention < 5000000000 then 5000000000 else retention)
      in if retention > 300000000000 then 300000000000 else retention)"

record 'd ServerConfig =
  cfg_LockManager :: "LockManager option"
  cfg_Fences :: "'d FenceStore option"
  cfg_LeaseDuration :: int
  cfg_SweepInterval :: int
  cfg_CleanupRetryInterval :: int

record 'd Server =
  sv_lm :: LockManager
  sv_fences :: "'d FenceStore option"
  sv_db :: 'd
  sv_registry :: registry
  sv_leaseDuration :: int
  sv_sweepInterval :: int
  sv_cleanupRetryInterval :: int
  sv_tombstoneRetention :: int
  sv_retrying :: "(uuid \<times> TxnID) list"
  sv_cancelled :: "(TxnID \<times> uint64) list"

definition positive_or :: "int \<Rightarrow> int \<Rightarrow> int" where
  "positive_or d x = (if x \<le> 0 then d else x)"

definition NewServerWithConfig :: "'d ServerConfig \<Rightarrow> 'd \<Rightarrow> 'd Server" where
  "NewServerWithConfig cfg db =
     (let lease = positive_or DefaultLeaseDuration (cfg_LeaseDuration cfg)
      in \<lparr>sv_lm = (case cfg_LockManager cfg of None \<Rightarrow> NewLockManager | Some lm \<Rightarrow> lm),
          sv_fences = cfg_Fences cfg, sv_db = db, sv_registry = newRegistry lease,
          sv_leaseDuration = lease,
          sv_sweepInterval = positive_or DefaultSweepInterval (cfg_SweepInterval cfg),
          sv_cleanupRetryInterval =
            positive_or DefaultCleanupRetryInterval (cfg_CleanupRetryInterval cfg),
          sv_tombstoneRetention = tombstoneRetention lease,
          sv_retrying = [], sv_cancelled = []\<rparr>)"

definition NewServer :: "LockManager \<Rightarrow> 'd \<Rightarrow> 'd Server" where
  "NewServer lm db = NewServerWithConfig
     \<lparr>cfg_LockManager = Some lm, cfg_Fences = None, cfg_LeaseDuration = 0, cfg_SweepInterval = 0,
      cfg_CleanupRetryInterval = 0\<rparr> db"

section \<open>Acquire\<close>

definition set_registry :: "registry \<Rightarrow> 'd Server \<Rightarrow> 'd Server" where
  "set_registry r s = s\<lparr>sv_registry := r\<rparr>"

definition sv_txn :: "'d Server \<Rightarrow> TxnID \<Rightarrow> transaction" where
  "sv_txn s t = txns (sv_registry s) t"

definition heldGrant :: "TxnID \<Rightarrow> ResourceID \<Rightarrow> 'd Server \<Rightarrow> grantRecord option" where
  "heldGrant t resource s = grantFor (sv_txn s t) resource"

definition leaseDeadline :: "TxnID \<Rightarrow> 'd Server \<Rightarrow> int" where
  "leaseDeadline t s = tx_leaseDeadline (sv_txn s t)"

definition stillActive :: "uuid \<Rightarrow> TxnID \<Rightarrow> 'd Server \<Rightarrow> bool" where
  "stillActive external t s \<longleftrightarrow>
     map_of (byID (sv_registry s)) external = Some t \<and> tx_state (sv_txn s t) = txnActive"

definition releaseOne :: "TxnID \<Rightarrow> ResourceID \<Rightarrow> 'd Server \<Rightarrow> 'd Server" where
  "releaseOne t resource s = s\<lparr>sv_lm := snd (Release t resource (sv_lm s))\<rparr>"

definition cancel_pending :: "TxnID \<Rightarrow> uint64 list \<Rightarrow> 'd Server \<Rightarrow> 'd Server" where
  "cancel_pending t ids s = s\<lparr>sv_cancelled := map (Pair t) ids @ sv_cancelled s\<rparr>"

text \<open>The context of the wait: the caller's, ended as well by the registered cancel function.\<close>

definition wait_ctx :: "go_context \<Rightarrow> TxnID \<Rightarrow> uint64 \<Rightarrow> 'd Server \<Rightarrow> go_context" where
  "wait_ctx ctx t i s =
     \<lparr>ctx_Err = (case ctx_Err ctx of
                  Some e \<Rightarrow> Some e
                | None \<Rightarrow> if (t, i) \<in> set (sv_cancelled s) then Some Canceled else None),
      ctx_Done = True, ctx_Deadline = ctx_Deadline ctx\<rparr>"

definition FromContextError :: "error \<Rightarrow> error" where
  "FromContextError e =
     (if errors_Is e DeadlineExceeded then Status DeadlineExceededCode ''context deadline exceeded''
      else if errors_Is e Canceled then Status CanceledCode ''context canceled''
      else Status UnknownCode ''context error'')"

datatype acquire_pc =
    Ensured
  | NotHeld
  | Registered
  | Queued nat
  | LockGranted
  | LockRefused error
  | PendingCleared
  | Active
  | Fenced Token
  | Recorded Token
  | Undo error

record acall =
  ac_external :: uuid
  ac_txn :: TxnID
  ac_resource :: ResourceID
  ac_mode :: LockMode
  ac_req :: uint64
  ac_pc :: acquire_pc

definition acquire_admit ::
  "uuid_lib \<Rightarrow> AcquireRequest \<Rightarrow> 'd Server \<Rightarrow> (error + acall) \<times> 'd Server" where
  "acquire_admit U req s =
     (case parseTxnID U (rq_TransactionId req) of
        Inl e \<Rightarrow> (Inl e, s)
      | Inr external \<Rightarrow>
         (case resourceFromProto (rq_Resource req) of
            Inl e \<Rightarrow> (Inl e, s)
          | Inr resource \<Rightarrow>
             (case modeFromProto (rq_Mode req) of
                Inl e \<Rightarrow> (Inl e, s)
              | Inr mode \<Rightarrow>
                 (case ensure external (sv_registry s) of
                    (Inl e, r) \<Rightarrow>
                      (Inl (if e = errTxnIDsExhausted
                            then Status ResourceExhausted (err_Error e)
                            else Status FailedPrecondition (err_Error e)),
                       set_registry r s)
                  | (Inr t, r) \<Rightarrow>
                      (Inr \<lparr>ac_external = external, ac_txn = t, ac_resource = resource,
                            ac_mode = mode, ac_req = 0, ac_pc = Ensured\<rparr>, set_registry r s)))))"

definition lm_outcome :: "acquire_result \<Rightarrow> acquire_pc" where
  "lm_outcome r = (case r of Granted \<Rightarrow> LockGranted | Waiting rid \<Rightarrow> Queued rid | Refused e \<Rightarrow> LockRefused e)"

definition clear_request :: "acall \<Rightarrow> 'd Server \<Rightarrow> 'd Server" where
  "clear_request c s =
     cancel_pending (ac_txn c) [ac_req c]
       (set_registry (clearPending (ac_txn c) (ac_req c) (sv_registry s)) s)"

definition acquire_refusal :: "go_context \<Rightarrow> acall \<Rightarrow> error \<Rightarrow> 'd Server \<Rightarrow> error" where
  "acquire_refusal ctx c err s =
     (case ctx_Err ctx of
        Some ctxErr \<Rightarrow> FromContextError ctxErr
      | None \<Rightarrow>
         if ctx_Err (wait_ctx ctx (ac_txn c) (ac_req c) s) \<noteq> None
         then Status Aborted ''grpccoord: transaction was revoked while waiting''
         else Status FailedPrecondition (err_Error err))"

definition acquire_fence ::
  "uuid_lib \<Rightarrow> int \<Rightarrow> acall \<Rightarrow> 'd Server \<Rightarrow> acquire_pc \<times> 'd Server" where
  "acquire_fence U now c s =
     (case (ac_mode c, sv_fences s) of
        (ExclusiveLock, Some F) \<Rightarrow>
          (case fs_Allocate F now (fence_key (ac_resource c)) (uuid_String U (ac_external c)) (sv_db s) of
             (Inr token, db) \<Rightarrow> (Fenced token, s\<lparr>sv_db := db\<rparr>)
           | (Inl e, db) \<Rightarrow>
               (Undo (Status Unavailable ''grpccoord: could not allocate a fencing token, refusing the grant''),
                s\<lparr>sv_db := db\<rparr>))
      | _ \<Rightarrow> (Fenced 0, s))"

definition acquire_advance ::
  "uuid_lib \<Rightarrow> int \<Rightarrow> go_context \<Rightarrow> acall \<Rightarrow> 'd Server
   \<Rightarrow> (acall + (error + AcquireResponse)) \<times> 'd Server" where
  "acquire_advance U now ctx c s =
     (let t = ac_txn c; goto = (\<lambda>pc. Inl (c\<lparr>ac_pc := pc\<rparr>)) in
      case ac_pc c of
        Ensured \<Rightarrow>
          (case heldGrant t (ac_resource c) s of
             Some existing \<Rightarrow>
               if g_mode existing \<noteq> ac_mode c then
                 (Inr (Inl (Status FailedPrecondition ''grpccoord: upgrades are not supported'')), s)
               else (Inr (Inr \<lparr>FencingToken = g_token existing,
                               LeaseExpiresUnixNano = UnixNano (leaseDeadline t s)\<rparr>), s)
           | None \<Rightarrow> (goto NotHeld, s))
      | NotHeld \<Rightarrow>
          (case registerPending t (sv_registry s) of
             (i, r) \<Rightarrow> (Inl (c\<lparr>ac_req := i, ac_pc := Registered\<rparr>), set_registry r s))
      | Registered \<Rightarrow>
          (case AcquireContext (Some (wait_ctx ctx t (ac_req c) s)) t (ac_resource c) (ac_mode c) (sv_lm s) of
             (res, lm) \<Rightarrow> (goto (lm_outcome res), s\<lparr>sv_lm := lm\<rparr>))
      | Queued rid \<Rightarrow>
          (case acquire_recheck (wait_ctx ctx t (ac_req c) s) (ac_resource c) rid (sv_lm s) of
             (res, lm) \<Rightarrow> (goto (lm_outcome res), s\<lparr>sv_lm := lm\<rparr>))
      | LockRefused err \<Rightarrow>
          (let s' = clear_request c s in (Inr (Inl (acquire_refusal ctx c err s')), s'))
      | LockGranted \<Rightarrow> (goto PendingCleared, clear_request c s)
      | PendingCleared \<Rightarrow>
          if stillActive (ac_external c) t s then (goto Active, s)
          else (goto (Undo (Status Aborted ''grpccoord: transaction ended while the request was queued'')), s)
      | Active \<Rightarrow> (case acquire_fence U now c s of (pc, s') \<Rightarrow> (goto pc, s'))
      | Fenced token \<Rightarrow>
          (goto (Recorded token),
           set_registry (recordGrant t \<lparr>g_resource = ac_resource c, g_mode = ac_mode c, g_token = token\<rparr>
                           (sv_registry s)) s)
      | Recorded token \<Rightarrow>
          (case startLeaseIfNeeded now t (sv_registry s) of
             (deadline, r) \<Rightarrow>
               (Inr (Inr \<lparr>FencingToken = token, LeaseExpiresUnixNano = UnixNano deadline\<rparr>),
                set_registry r s))
      | Undo e \<Rightarrow> (Inr (Inl e), releaseOne t (ac_resource c) s))"

text \<open>
  The uninterrupted handler: it stops with a reply, or parked in the lock manager's queue. A
  handler passes through at most eight sections, so ten turns are enough.
\<close>

fun acquire_run ::
  "nat \<Rightarrow> uuid_lib \<Rightarrow> int \<Rightarrow> go_context \<Rightarrow> acall \<Rightarrow> 'd Server
   \<Rightarrow> (acall + (error + AcquireResponse)) \<times> 'd Server" where
  "acquire_run 0 U now ctx c s = (Inl c, s)"
| "acquire_run (Suc n) U now ctx c s =
     (case acquire_advance U now ctx c s of
        (Inr res, s') \<Rightarrow> (Inr res, s')
      | (Inl c', s') \<Rightarrow>
         (case ac_pc c' of Queued rid \<Rightarrow> (Inl c', s') | _ \<Rightarrow> acquire_run n U now ctx c' s'))"

definition Server_Acquire ::
  "uuid_lib \<Rightarrow> int \<Rightarrow> go_context \<Rightarrow> AcquireRequest \<Rightarrow> 'd Server
   \<Rightarrow> (acall + (error + AcquireResponse)) \<times> 'd Server" where
  "Server_Acquire U now ctx req s =
     (case acquire_admit U req s of
        (Inl e, s') \<Rightarrow> (Inr (Inl e), s')
      | (Inr c, s') \<Rightarrow> acquire_run 10 U now ctx c s')"

section \<open>Leases and teardown\<close>

definition Server_RenewLease :: "uuid_lib \<Rightarrow> int \<Rightarrow> string \<Rightarrow> 'd Server \<Rightarrow> (error + int) \<times> 'd Server" where
  "Server_RenewLease U now raw s =
     (case parseTxnID U raw of
        Inl e \<Rightarrow> (Inl e, s)
      | Inr external \<Rightarrow>
         (case renew now external (sv_registry s) of
            (Inl e, r) \<Rightarrow> (Inl (Status FailedPrecondition (err_Error e)), set_registry r s)
          | (Inr deadline, r) \<Rightarrow> (Inr (UnixNano deadline), set_registry r s)))"

definition fenceGrantsOf :: "uuid_lib \<Rightarrow> TxnID \<Rightarrow> 'd Server \<Rightarrow> Grant list" where
  "fenceGrantsOf U t s = fenceGrants U (sv_txn s t)"

fun invalidate_each :: "'d FenceStore \<Rightarrow> int \<Rightarrow> Grant list \<Rightarrow> 'd \<Rightarrow> error option \<times> 'd" where
  "invalidate_each F now [] db = (None, db)"
| "invalidate_each F now (grant # rest) db =
     (case fs_Invalidate F now (gr_Resource grant) (gr_OwnerTxn grant) db of
        (Some err, db') \<Rightarrow> (Some (Wrap ''invalidating'' err), db')
      | (None, db') \<Rightarrow> invalidate_each F now rest db')"

definition release_and_finish :: "int \<Rightarrow> TxnID \<Rightarrow> 'd Server \<Rightarrow> uint32 \<times> 'd Server" where
  "release_and_finish now t s =
     (let released = of_nat (HeldCount t (sv_lm s));
          s' = s\<lparr>sv_lm := snd (ReleaseAll t (sv_lm s))\<rparr>
      in (released, set_registry (finish now (tx_external (sv_txn s t)) (sv_registry s')) s'))"

definition teardown :: "uuid_lib \<Rightarrow> int \<Rightarrow> TxnID \<Rightarrow> 'd Server \<Rightarrow> (error + uint32) \<times> 'd Server" where
  "teardown U now t s =
     (let grants = fenceGrantsOf U t s;
          (err, db) = (case sv_fences s of
                         None \<Rightarrow> (None, sv_db s)
                       | Some F \<Rightarrow> invalidate_each F now grants (sv_db s));
          s1 = s\<lparr>sv_db := db\<rparr>
      in case err of
           Some e \<Rightarrow> (Inl e, s1)
         | None \<Rightarrow> (case release_and_finish now t s1 of (n, s2) \<Rightarrow> (Inr n, s2)))"

definition scheduleRetry :: "TxnID \<Rightarrow> 'd Server \<Rightarrow> 'd Server" where
  "scheduleRetry t s =
     (let external = tx_external (sv_txn s t)
      in if external \<in> fst ` set (sv_retrying s) then s
         else s\<lparr>sv_retrying := (external, t) # sv_retrying s\<rparr>)"

text \<open>One tick of the retry goroutine of \<open>t\<close>; it ends, and leaves the set, when cleanup succeeds.\<close>

definition retry_tick :: "uuid_lib \<Rightarrow> int \<Rightarrow> TxnID \<Rightarrow> 'd Server \<Rightarrow> 'd Server" where
  "retry_tick U now t s =
     (case teardown U now t s of
        (Inl e, s') \<Rightarrow> s'
      | (Inr n, s') \<Rightarrow> s'\<lparr>sv_retrying := AList.delete (tx_external (sv_txn s t)) (sv_retrying s')\<rparr>)"

definition begin_teardown ::
  "uuid \<Rightarrow> lifecycle \<Rightarrow> 'd Server \<Rightarrow> TxnID option \<times> 'd Server" where
  "begin_teardown external state s =
     (case beginTeardown external state (sv_registry s) of
        (None, r) \<Rightarrow> (None, set_registry r s)
      | (Some (t, cancels), r) \<Rightarrow> (Some t, cancel_pending t cancels (set_registry r s)))"

definition EndTransaction ::
  "uuid_lib \<Rightarrow> int \<Rightarrow> string \<Rightarrow> 'd Server \<Rightarrow> (error + uint32) \<times> 'd Server" where
  "EndTransaction U now raw s =
     (case parseTxnID U raw of
        Inl e \<Rightarrow> (Inl e, s)
      | Inr external \<Rightarrow>
         (case begin_teardown external txnEnding s of
            (None, s1) \<Rightarrow> (Inr 0, s1)
          | (Some t, s1) \<Rightarrow>
             (case teardown U now t s1 of
                (Inl e, s2) \<Rightarrow>
                  (Inl (Status Unavailable ''grpccoord: could not invalidate fencing state, locks are still held''),
                   scheduleRetry t s2)
              | (Inr released, s2) \<Rightarrow> (Inr released, s2))))"

definition revoke :: "uuid_lib \<Rightarrow> int \<Rightarrow> uuid \<Rightarrow> 'd Server \<Rightarrow> 'd Server" where
  "revoke U now external s =
     (case begin_teardown external txnRevoking s of
        (None, s1) \<Rightarrow> s1
      | (Some t, s1) \<Rightarrow>
         (case teardown U now t s1 of
            (Inl e, s2) \<Rightarrow> scheduleRetry t s2
          | (Inr n, s2) \<Rightarrow> s2))"

text \<open>One tick of the sweeper.\<close>

definition sweepLeases :: "uuid_lib \<Rightarrow> int \<Rightarrow> 'd Server \<Rightarrow> 'd Server" where
  "sweepLeases U now s =
     (let s' = fold (revoke U now) (expired now (sv_registry s)) s
      in set_registry (prune now (sv_tombstoneRetention s') (sv_registry s')) s')"

record HealthResponse =
  h_ActiveTransactions :: uint32
  h_HeldLocks :: uint32
  h_RevokingTransactions :: uint32

definition Server_Health :: "'d Server \<Rightarrow> HealthResponse" where
  "Server_Health s =
     (case counts (sv_registry s) of
        (active, revoking) \<Rightarrow>
          \<lparr>h_ActiveTransactions = of_nat active, h_HeldLocks = of_nat (TotalHeldCount (sv_lm s)),
           h_RevokingTransactions = of_nat revoking\<rparr>)"

definition ActiveTransactions :: "'d Server \<Rightarrow> nat" where
  "ActiveTransactions s = (case counts (sv_registry s) of (active, revoking) \<Rightarrow> active + revoking)"

end
