(* ===== verification/Lock_Service.thy ===== *)
theory Lock_Service
  imports Lock_Invariants
begin

text \<open>
  The lock manager as its callers see it: who holds what, and which request waits where. The
  coordinator and the worker's operations rely on these laws only; the lock manager is
  interpreted as such a service.
\<close>

locale lock_service =
  fixes acquire :: "go_context option \<Rightarrow> TxnID \<Rightarrow> ResourceID \<Rightarrow> LockMode \<Rightarrow> 'lm \<Rightarrow> acquire_result \<times> 'lm"
    and recheck :: "go_context \<Rightarrow> ResourceID \<Rightarrow> nat \<Rightarrow> 'lm \<Rightarrow> acquire_result \<times> 'lm"
    and cancel :: "ResourceID \<Rightarrow> nat \<Rightarrow> 'lm \<Rightarrow> 'lm"
    and release :: "TxnID \<Rightarrow> ResourceID \<Rightarrow> 'lm \<Rightarrow> error option \<times> 'lm"
    and release_all :: "TxnID \<Rightarrow> 'lm \<Rightarrow> error option \<times> 'lm"
    and holds :: "'lm \<Rightarrow> TxnID \<Rightarrow> ResourceID \<Rightarrow> LockMode option"
    and waits :: "'lm \<Rightarrow> ResourceID \<Rightarrow> nat \<Rightarrow> TxnID option"
    and ok :: "'lm \<Rightarrow> bool"
  assumes ok_acquire: "ok lm \<Longrightarrow> acquire c t r m lm = (res, lm') \<Longrightarrow> ok lm'"
    and ok_recheck: "ok lm \<Longrightarrow> recheck c' r i lm = (res, lm') \<Longrightarrow> ok lm'"
    and ok_cancel: "ok lm \<Longrightarrow> ok (cancel r i lm)"
    and ok_release: "ok lm \<Longrightarrow> ok (snd (release t r lm))"
    and ok_release_all: "ok lm \<Longrightarrow> ok (snd (release_all t lm))"
    and holds_acquire: "ok lm \<Longrightarrow> acquire c t r m lm = (res, lm') \<Longrightarrow>
      holds lm' t' r' = (if res = Granted \<and> t' = t \<and> r' = r then Some m else holds lm t' r')"
    and waits_acquire: "ok lm \<Longrightarrow> acquire c t r m lm = (res, lm') \<Longrightarrow>
      waits lm r' i = Some t' \<Longrightarrow> waits lm' r' i = Some t'"
    and acquire_waiting: "ok lm \<Longrightarrow> acquire c t r m lm = (Waiting i, lm') \<Longrightarrow>
      waits lm' r i = Some t \<and> waits lm r i = None"
    and holds_recheck: "ok lm \<Longrightarrow> recheck c' r i lm = (res, lm') \<Longrightarrow> waits lm r i = Some t \<Longrightarrow>
      holds lm' t' r' = holds lm t' r' \<or> res = Granted \<and> t' = t \<and> r' = r"
    and waits_recheck: "ok lm \<Longrightarrow> recheck c' r i lm = (res, lm') \<Longrightarrow>
      waits lm r' j = Some t' \<Longrightarrow> (r', j) \<noteq> (r, i) \<Longrightarrow> waits lm' r' j = Some t'"
    and recheck_waiting: "ok lm \<Longrightarrow> recheck c' r i lm = (Waiting j, lm') \<Longrightarrow>
      j = i \<and> waits lm' r i = waits lm r i"
    and holds_cancel: "ok lm \<Longrightarrow> holds (cancel r i lm) = holds lm"
    and waits_cancel: "ok lm \<Longrightarrow> waits (cancel r i lm) = waits lm"
    and holds_release: "ok lm \<Longrightarrow> holds (snd (release t r lm)) t' r' =
      (if t' = t \<and> r' = r then None else holds lm t' r')"
    and waits_release: "ok lm \<Longrightarrow> waits (snd (release t r lm)) = waits lm"
    and holds_release_all: "ok lm \<Longrightarrow> holds (snd (release_all t lm)) t' r' =
      (if t' = t then None else holds lm t' r')"
    and waits_release_all: "ok lm \<Longrightarrow> waits (snd (release_all t lm)) = waits lm"
begin

text \<open>A transaction is never given a lock by another one's request or release.\<close>

lemma holds_only_own_grant:
  assumes "ok lm" and "acquire c t r m lm = (res, lm')" and "t' \<noteq> t"
  shows "holds lm' t' = holds lm t'"
  using assms by (simp add: fun_eq_iff holds_acquire)

lemma release_all_twice:
  assumes "ok lm"
  shows "holds (snd (release_all t (snd (release_all t lm)))) = holds (snd (release_all t lm))"
  using assms by (intro ext) (simp add: holds_release_all ok_release_all)

end

section \<open>The lock manager is a lock service\<close>

definition waits_for :: "LockManager \<Rightarrow> ResourceID \<Rightarrow> nat \<Rightarrow> TxnID option" where
  "waits_for lm r i = map_option rq_txn (find_request i (state_of lm r))"

lemma waits_for_queue:
  "waits_for lm r i = map_option rq_txn (find (\<lambda>q. rq_id q = i) (queue (state_of lm r)))"
  by (simp add: waits_for_def find_request_def)

lemma find_remove_request:
  "i \<noteq> j \<Longrightarrow> find (\<lambda>q. rq_id q = i) (remove_request j qs) = find (\<lambda>q. rq_id q = i) qs"
  by (induction qs) auto

lemma find_marked:
  "map_option rq_txn (find (\<lambda>q. rq_id q = i)
      (map (\<lambda>q. if rq_id q = j then q\<lparr>rq_cancelled := True\<rparr> else q) qs)) =
   map_option rq_txn (find (\<lambda>q. rq_id q = i) qs)"
  by (induction qs) auto

text \<open>The outcomes of one turn of the wait loop, for a request that is queued.\<close>

lemma acquire_recheck_effect:
  assumes "find_request i (state_of lm r) = Some req"
  obtains (cancelled) e where "fst (acquire_recheck c r i lm) = Refused e"
      "held_mode (snd (acquire_recheck c r i lm)) = held_mode lm"
  | (granted) "acquire_recheck c r i lm = (Granted, snd (acquire_recheck c r i lm))"
      "\<And>t' r'. held_mode (snd (acquire_recheck c r i lm)) t' r' =
         (if t' = rq_txn req \<and> r' = r then Some (rq_mode req) else held_mode lm t' r')"
  | (parked) "fst (acquire_recheck c r i lm) = Waiting i"
      "held_mode (snd (acquire_recheck c r i lm)) = held_mode lm"
      "\<And>r'. queue (state_of (snd (acquire_recheck c r i lm)) r') = queue (state_of lm r')"
proof -
  have "resources lm r \<noteq> None"
    using assms by (auto simp: state_of_def find_request_def split: option.splits)
  then obtain ls where ls: "resources lm r = Some ls" by auto
  with assms have req: "find_request i ls = Some req" by (simp add: state_of_Some)
  consider "rq_cancelled req" | "\<not> rq_cancelled req" "canGrant ls req"
    | "\<not> rq_cancelled req" "\<not> canGrant ls req" by blast
  then show thesis
  proof cases
    case 1
    with ls req show thesis
      by (intro cancelled [of "case ctx_Err c of Some e \<Rightarrow> e | None \<Rightarrow> Canceled"])
         (simp_all add: acquire_recheck_def Let_def lm_simps split: option.splits)
  next
    case 2
    with ls req show thesis
      by (intro granted) (simp_all add: acquire_recheck_def Let_def lm_simps)
  next
    case 3
    with ls req show thesis
      by (intro parked) (simp_all add: acquire_recheck_def lm_simps cond_Wait_def state_of_Some)
  qed
qed

lemma waits_for_recheck:
  "waits_for lm r' j = Some t \<Longrightarrow> (r', j) \<noteq> (r, i) \<Longrightarrow>
     waits_for (snd (acquire_recheck c r i lm)) r' j = Some t"
proof (cases "r' = r")
  case True
  assume "waits_for lm r' j = Some t" "(r', j) \<noteq> (r, i)"
  then show ?thesis
    using queue_recheck [of c r i lm r'] True by (auto simp: waits_for_queue find_remove_request)
next
  case False
  assume "waits_for lm r' j = Some t"
  moreover have "state_of (snd (acquire_recheck c r i lm)) r' = state_of lm r'"
    using False by (auto simp: acquire_recheck_def Let_def lm_simps split: option.splits)
  ultimately show ?thesis by (simp add: waits_for_def)
qed

lemma waits_for_bound: "lm_inv lm \<Longrightarrow> waits_for lm r i = Some t \<Longrightarrow> i < next_request lm"
proof -
  assume inv: "lm_inv lm" and "waits_for lm r i = Some t"
  then obtain req where "find_request i (state_of lm r) = Some req" by (auto simp: waits_for_def)
  from find_request_SomeD [OF this] lm_invD(1) [OF inv, of r] show ?thesis
    by (auto simp: ls_inv_def)
qed

lemma waits_for_enqueue:
  assumes "waits_for lm r' j = Some t'"
  shows "waits_for (enqueue t r m lm) r' j = Some t'"
proof -
  obtain x where x: "find (\<lambda>q. rq_id q = j) (queue (state_of lm r')) = Some x" "rq_txn x = t'"
    using assms by (auto simp: waits_for_queue)
  have app: "find P (xs @ ys) = Some y" if "find P xs = Some y"
    for P :: "lockRequest \<Rightarrow> bool" and xs ys y
    using that by (induction xs) (auto split: if_splits)
  have "\<exists>ys. queue (state_of (enqueue t r m lm) r') = queue (state_of lm r') @ ys"
    by (auto simp: state_of_def [of "enqueue t r m lm"] lm_simps) (simp_all add: state_of_def)
  with app [OF x(1)] x(2) show ?thesis by (auto simp: waits_for_queue)
qed

lemma AcquireContext_holds:
  assumes "lm_inv lm" and "AcquireContext c t r m lm = (res, lm')"
  shows "held_mode lm' t' r' = (if res = Granted \<and> t' = t \<and> r' = r then Some m else held_mode lm t' r')"
proof (cases rule: AcquireContext_effect [of c t r m lm])
  case (queued cc)
  note found = find_request_enqueue [OF assms(1), of t r m]
  have call: "acquire_recheck cc r (next_request lm) (enqueue t r m lm) = (res, lm')"
    using queued(5) assms(2) by simp
  show ?thesis
    by (rule acquire_recheck_effect [OF found, of cc]) (use call in \<open>simp_all add: lm_simps\<close>)
qed (use assms in simp)

lemma AcquireContext_waiting:
  assumes "lm_inv lm" and "AcquireContext c t r m lm = (Waiting i, lm')"
  shows "waits_for lm' r i = Some t \<and> waits_for lm r i = None"
proof (cases rule: AcquireContext_effect [of c t r m lm])
  case (queued cc)
  note found = find_request_enqueue [OF assms(1), of t r m]
  have "waits_for lm r (next_request lm) = None"
    using waits_for_bound [OF assms(1)] by (cases "waits_for lm r (next_request lm)") force+
  moreover have call: "acquire_recheck cc r (next_request lm) (enqueue t r m lm) = (Waiting i, lm')"
    using queued(5) assms(2) by simp
  have "i = next_request lm \<and> waits_for lm' r i = Some t"
    by (rule acquire_recheck_effect [OF found, of cc])
       (use call found in \<open>simp_all add: waits_for_queue find_request_def\<close>)
  ultimately show ?thesis by auto
qed (use assms in simp)

lemma AcquireContext_waits:
  assumes "lm_inv lm" and "AcquireContext c t r m lm = (res, lm')" and "waits_for lm r' i = Some t'"
  shows "waits_for lm' r' i = Some t'"
proof (cases rule: AcquireContext_effect [of c t r m lm])
  case (queued cc)
  have "(r', i) \<noteq> (r, next_request lm)" using waits_for_bound [OF assms(1,3)] by auto
  from waits_for_recheck [OF waits_for_enqueue [OF assms(3)] this, of cc t r m]
  show ?thesis using queued(5) [symmetric] assms(2) by simp
qed (use assms in simp)

lemma recheck_holds:
  assumes "acquire_recheck c r i lm = (res, lm')" and "waits_for lm r i = Some t"
  shows "held_mode lm' t' r' = held_mode lm t' r' \<or> res = Granted \<and> t' = t \<and> r' = r"
proof -
  obtain req where req: "find_request i (state_of lm r) = Some req" "rq_txn req = t"
    using assms(2) by (auto simp: waits_for_def)
  show ?thesis
    by (rule acquire_recheck_effect [OF req(1), of c]) (use assms(1) req(2) in auto)
qed

lemma recheck_waiting_again:
  assumes "acquire_recheck c r i lm = (Waiting j, lm')"
  shows "j = i \<and> waits_for lm' r i = waits_for lm r i"
proof (cases "find_request i (state_of lm r)")
  case None
  with assms show ?thesis by (auto simp: acquire_recheck_def state_of_def split: option.splits)
next
  case (Some req)
  show ?thesis
    by (rule acquire_recheck_effect [OF Some, of c]) (use assms in \<open>auto simp: waits_for_queue\<close>)
qed

interpretation lms: lock_service AcquireContext acquire_recheck watch_cancel Release ReleaseAll
  held_mode waits_for lm_inv
proof (unfold_locales, goal_cases)
  case (1 lm c t r m res lm')
  then show ?case using lm_inv_AcquireContext [of lm c t r m] by simp
next
  case (2 lm c r i res lm')
  then show ?case using lm_inv_recheck [of lm c r i] by simp
next
  case (3 lm r i)
  then show ?case by (rule lm_inv_watch_cancel)
next
  case (4 lm t r)
  then show ?case by (simp add: Release_def lm_inv_releaseLocked)
next
  case (5 lm t)
  then show ?case by (rule lm_inv_ReleaseAll)
next
  case (6 lm c t r m res lm' t' r')
  then show ?case by (rule AcquireContext_holds)
next
  case (7 lm c t r m res lm' r' i t')
  then show ?case by (rule AcquireContext_waits)
next
  case (8 lm c t r m i lm')
  then show ?case by (rule AcquireContext_waiting)
next
  case (9 lm c r i res lm' t t' r')
  then show ?case using recheck_holds by blast
next
  case (10 lm c r i res lm' r' j t')
  then show ?case using waits_for_recheck [of lm r' j t' r i c] by simp
next
  case (11 lm c r i j lm')
  then show ?case using recheck_waiting_again by blast
next
  case (12 lm r i)
  show ?case
    by (intro ext) (auto simp: watch_cancel_def lm_simps split: option.splits)
next
  case (13 lm r i)
  show ?case by (intro ext) (simp add: waits_for_queue queue_watch_cancel find_marked)
next
  case (14 lm t r t' r')
  then show ?case by (simp add: Release_def held_mode_releaseLocked)
next
  case (15 lm t r)
  show ?case by (intro ext) (simp add: waits_for_queue Release_def queue_releaseLocked)
next
  case (16 lm t t' r')
  then show ?case by (simp add: ReleaseAll_held)
next
  case (17 lm t)
  show ?case by (intro ext) (simp add: waits_for_queue queue_ReleaseAll)
qed

end
