(* ===== verification/Coordinator_Steps.thy ===== *)
theory Coordinator_Steps
  imports Coordinator Lock_Service
begin

text \<open>
  The coordinator under concurrency: handlers interleave at their critical sections. A state of
  the system is the server, the \<open>Acquire\<close> calls in flight, the teardowns in flight and the
  grants that have been sent to workers. The invariant of the system, and what it gives: internal
  ids are never shared, and a transaction that is over holds no lock, except one that an
  \<open>Acquire\<close> call in flight is about to give back.
\<close>

section \<open>Teardown, section by section\<close>

datatype td_pc = TdMarked | TdInvalidating "Grant list" | TdUnfenced | TdReleased uint32

definition td_advance ::
  "uuid_lib \<Rightarrow> int \<Rightarrow> TxnID \<Rightarrow> td_pc \<Rightarrow> 'd Server \<Rightarrow> (td_pc + (error + uint32)) \<times> 'd Server" where
  "td_advance U now t pc s =
     (case pc of
        TdMarked \<Rightarrow>
          (Inl (if sv_fences s = None then TdUnfenced else TdInvalidating (fenceGrantsOf U t s)), s)
      | TdInvalidating [] \<Rightarrow> (Inl TdUnfenced, s)
      | TdInvalidating (g # gs) \<Rightarrow>
          (case sv_fences s of
             None \<Rightarrow> (Inl TdUnfenced, s)
           | Some F \<Rightarrow>
              (case fs_Invalidate F now (gr_Resource g) (gr_OwnerTxn g) (sv_db s) of
                 (Some e, db) \<Rightarrow> (Inr (Inl (Wrap ''invalidating'' e)), s\<lparr>sv_db := db\<rparr>)
               | (None, db) \<Rightarrow> (Inl (TdInvalidating gs), s\<lparr>sv_db := db\<rparr>)))
      | TdUnfenced \<Rightarrow>
          (Inl (TdReleased (of_nat (HeldCount t (sv_lm s)))),
           s\<lparr>sv_lm := snd (ReleaseAll t (sv_lm s))\<rparr>)
      | TdReleased n \<Rightarrow>
          (Inr (Inr n), set_registry (finish now (tx_external (sv_txn s t)) (sv_registry s)) s))"

fun td_run ::
  "nat \<Rightarrow> uuid_lib \<Rightarrow> int \<Rightarrow> TxnID \<Rightarrow> td_pc \<Rightarrow> 'd Server \<Rightarrow> (td_pc + (error + uint32)) \<times> 'd Server" where
  "td_run 0 U now t pc s = (Inl pc, s)"
| "td_run (Suc n) U now t pc s =
     (case td_advance U now t pc s of
        (Inr res, s') \<Rightarrow> (Inr res, s')
      | (Inl pc', s') \<Rightarrow> td_run n U now t pc' s')"

lemma td_run_invalidating:
  assumes "sv_fences s = Some F" "invalidate_each F now gs (sv_db s) = (err, db)"
  shows "td_run (Suc (Suc (Suc (length gs)))) U now t (TdInvalidating gs) s =
     (case err of
        Some e \<Rightarrow> (Inr (Inl e), s\<lparr>sv_db := db\<rparr>)
      | None \<Rightarrow> (case release_and_finish now t (s\<lparr>sv_db := db\<rparr>) of (n, s2) \<Rightarrow> (Inr (Inr n), s2)))"
  using assms
proof (induction gs arbitrary: s)
  case Nil
  then show ?case
    by (simp add: eval_nat_numeral td_advance_def release_and_finish_def set_registry_def sv_txn_def)
next
  case (Cons g gs)
  obtain r1 db1 where call: "fs_Invalidate F now (gr_Resource g) (gr_OwnerTxn g) (sv_db s) = (r1, db1)"
    by fastforce
  have step: "td_run (Suc (Suc (Suc (length (g # gs))))) U now t (TdInvalidating (g # gs)) s =
      (case r1 of
         Some e \<Rightarrow> (Inr (Inl (Wrap ''invalidating'' e)), s\<lparr>sv_db := db1\<rparr>)
       | None \<Rightarrow> td_run (Suc (Suc (Suc (length gs)))) U now t (TdInvalidating gs) (s\<lparr>sv_db := db1\<rparr>))"
    by (subst td_run.simps(2))
       (simp add: Cons.prems(1) call td_advance_def del: td_run.simps split: option.splits)
  show ?case
  proof (cases r1)
    case None
    with Cons.prems call have "invalidate_each F now gs (sv_db (s\<lparr>sv_db := db1\<rparr>)) = (err, db)" by simp
    from Cons.IH [OF _ this] Cons.prems(1) step None show ?thesis by (simp split: option.splits)
  next
    case (Some e)
    with Cons.prems call have "err = Some (Wrap ''invalidating'' e)" "db = db1" by auto
    with step Some show ?thesis by simp
  qed
qed

text \<open>Run without interruption, the sections compose to \<open>teardown\<close>.\<close>

lemma td_run_teardown:
  "td_run (length (fenceGrantsOf U t s) + 4) U now t TdMarked s =
     (case teardown U now t s of (res, s') \<Rightarrow> (Inr res, s'))"
proof (cases "sv_fences s")
  case None
  then show ?thesis
    by (simp add: eval_nat_numeral td_advance_def teardown_def release_and_finish_def set_registry_def
        sv_txn_def)
next
  case (Some F)
  obtain err db where inv: "invalidate_each F now (fenceGrantsOf U t s) (sv_db s) = (err, db)"
    by fastforce
  have "td_run (length (fenceGrantsOf U t s) + 4) U now t TdMarked s =
      td_run (Suc (Suc (Suc (length (fenceGrantsOf U t s))))) U now t (TdInvalidating (fenceGrantsOf U t s)) s"
    using Some by (simp add: eval_nat_numeral td_advance_def)
  also note td_run_invalidating [OF Some inv]
  finally show ?thesis
    using Some inv by (simp add: teardown_def split: option.splits prod.splits)
qed

section \<open>The system\<close>

record 'd coord =
  co_server :: "'d Server"
  co_calls :: "nat \<Rightarrow> acall option"
  co_tds :: "TxnID \<Rightarrow> td_pc option"
  co_sent :: "(uuid \<times> ResourceID \<times> LockMode \<times> Token) list"

definition coord_init :: "'d ServerConfig \<Rightarrow> 'd \<Rightarrow> 'd coord" where
  "coord_init cfg db =
     \<lparr>co_server = NewServerWithConfig (cfg\<lparr>cfg_LockManager := None\<rparr>) db,
      co_calls = Map.empty, co_tds = Map.empty, co_sent = []\<rparr>"

text \<open>
  Steps: an \<open>Acquire\<close> is admitted or refused, runs one section, replies; its watcher reports the
  end of its context; a teardown starts (graceful or forced), runs one section, completes, or
  fails and is retried; a lease is renewed; tombstones are pruned.
\<close>

inductive coord_step :: "uuid_lib \<Rightarrow> 'd coord \<Rightarrow> 'd coord \<Rightarrow> bool" for U where
  step_admit: "acquire_admit U req (co_server w) = (Inr c, s) \<Longrightarrow> co_calls w i = None \<Longrightarrow>
     coord_step U w (w\<lparr>co_server := s, co_calls := (co_calls w)(i \<mapsto> c)\<rparr>)"
| step_reject: "acquire_admit U req (co_server w) = (Inl e, s) \<Longrightarrow>
     coord_step U w (w\<lparr>co_server := s\<rparr>)"
| step_advance: "co_calls w i = Some c \<Longrightarrow>
     acquire_advance U now ctx c (co_server w) = (Inl c', s) \<Longrightarrow>
     coord_step U w (w\<lparr>co_server := s, co_calls := (co_calls w)(i \<mapsto> c')\<rparr>)"
| step_fail: "co_calls w i = Some c \<Longrightarrow>
     acquire_advance U now ctx c (co_server w) = (Inr (Inl e), s) \<Longrightarrow>
     coord_step U w (w\<lparr>co_server := s, co_calls := (co_calls w)(i := None)\<rparr>)"
| step_reply: "co_calls w i = Some c \<Longrightarrow>
     acquire_advance U now ctx c (co_server w) = (Inr (Inr resp), s) \<Longrightarrow>
     coord_step U w (w\<lparr>co_server := s, co_calls := (co_calls w)(i := None),
       co_sent := (ac_external c, ac_resource c, ac_mode c, FencingToken resp) # co_sent w\<rparr>)"
| step_watch: "co_calls w i = Some c \<Longrightarrow> ac_pc c = Queued rid \<Longrightarrow>
     ctx_Err (wait_ctx ctx (ac_txn c) (ac_req c) (co_server w)) \<noteq> None \<Longrightarrow>
     coord_step U w (w\<lparr>co_server := (co_server w)
       \<lparr>sv_lm := watch_cancel (ac_resource c) rid (sv_lm (co_server w))\<rparr>\<rparr>)"
| step_begin: "begin_teardown external state (co_server w) = (Some t, s) \<Longrightarrow>
     state \<noteq> txnActive \<Longrightarrow>
     coord_step U w (w\<lparr>co_server := s, co_tds := (co_tds w)(t \<mapsto> TdMarked)\<rparr>)"
| step_td: "co_tds w t = Some pc \<Longrightarrow> td_advance U now t pc (co_server w) = (Inl pc', s) \<Longrightarrow>
     coord_step U w (w\<lparr>co_server := s, co_tds := (co_tds w)(t \<mapsto> pc')\<rparr>)"
| step_td_done: "co_tds w t = Some pc \<Longrightarrow> td_advance U now t pc (co_server w) = (Inr (Inr n), s) \<Longrightarrow>
     coord_step U w (w\<lparr>co_server := s\<lparr>sv_retrying :=
         AList.delete (tx_external (sv_txn (co_server w) t)) (sv_retrying s)\<rparr>,
       co_tds := (co_tds w)(t := None)\<rparr>)"
| step_td_fail: "co_tds w t = Some pc \<Longrightarrow> td_advance U now t pc (co_server w) = (Inr (Inl e), s) \<Longrightarrow>
     coord_step U w (w\<lparr>co_server := scheduleRetry t s, co_tds := (co_tds w)(t := None)\<rparr>)"
| step_retry: "(external, t) \<in> set (sv_retrying (co_server w)) \<Longrightarrow> co_tds w t = None \<Longrightarrow>
     coord_step U w (w\<lparr>co_tds := (co_tds w)(t \<mapsto> TdMarked)\<rparr>)"
| step_renew: "Server_RenewLease U now raw (co_server w) = (res, s) \<Longrightarrow>
     coord_step U w (w\<lparr>co_server := s\<rparr>)"
| step_prune: "coord_step U w (w\<lparr>co_server := set_registry
     (prune now (sv_tombstoneRetention (co_server w)) (sv_registry (co_server w))) (co_server w)\<rparr>)"

inductive_cases coord_stepE: "coord_step U w w'"

section \<open>Its invariant\<close>

definition known :: "registry \<Rightarrow> TxnID \<Rightarrow> bool" where
  "known reg t \<longleftrightarrow> 0 < t \<and> t \<le> reg_next reg"

definition closing :: "registry \<Rightarrow> TxnID \<Rightarrow> bool" where
  "closing reg t \<longleftrightarrow> known reg t \<and> tx_state (txns reg t) \<noteq> txnActive \<and> \<not> tx_finished (txns reg t)"

text \<open>
  The bookkeeping: a record that is not finished is the table's entry for its external id; a
  finished one is not active; calls, teardowns and retries name records of the right kind.
\<close>

definition ids_ok ::
  "registry \<Rightarrow> (nat \<Rightarrow> acall option) \<Rightarrow> (TxnID \<Rightarrow> td_pc option) \<Rightarrow> (uuid \<times> TxnID) list \<Rightarrow> bool" where
  "ids_ok reg calls tds retr \<longleftrightarrow>
     reg_inv reg \<and>
     (\<forall>t. known reg t \<longrightarrow> tx_finished (txns reg t) \<longrightarrow> tx_state (txns reg t) \<noteq> txnActive) \<and>
     (\<forall>t. known reg t \<longrightarrow> \<not> tx_finished (txns reg t) \<longrightarrow>
        map_of (byID reg) (tx_external (txns reg t)) = Some t) \<and>
     (\<forall>i c. calls i = Some c \<longrightarrow>
        known reg (ac_txn c) \<and> tx_external (txns reg (ac_txn c)) = ac_external c) \<and>
     (\<forall>t pc. tds t = Some pc \<longrightarrow> closing reg t) \<and>
     (\<forall>(u, t) \<in> set retr. closing reg t \<and> u = tx_external (txns reg t))"

definition giving_back :: "acquire_pc \<Rightarrow> bool" where
  "giving_back pc \<longleftrightarrow> pc = LockGranted \<or> pc = PendingCleared \<or> (\<exists>e. pc = Undo e)"

definition over :: "registry \<Rightarrow> (TxnID \<Rightarrow> td_pc option) \<Rightarrow> TxnID \<Rightarrow> bool" where
  "over reg tds t \<longleftrightarrow> tx_finished (txns reg t) \<or> (\<exists>n. tds t = Some (TdReleased n))"

text \<open>
  The locks: every holder is a known transaction, a transaction that is over holds only what a
  call in flight is giving back, and each call parked in the lock manager has its own request
  there.
\<close>

definition locks_ok ::
  "LockManager \<Rightarrow> registry \<Rightarrow> (nat \<Rightarrow> acall option) \<Rightarrow> (TxnID \<Rightarrow> td_pc option) \<Rightarrow> bool" where
  "locks_ok lm reg calls tds \<longleftrightarrow>
     lm_inv lm \<and>
     (\<forall>t r m. held_mode lm t r = Some m \<longrightarrow> known reg t) \<and>
     (\<forall>t r m. held_mode lm t r = Some m \<longrightarrow> over reg tds t \<longrightarrow>
        (\<exists>i c. calls i = Some c \<and> ac_txn c = t \<and> ac_resource c = r \<and> giving_back (ac_pc c))) \<and>
     (\<forall>i c rid. calls i = Some c \<longrightarrow> ac_pc c = Queued rid \<longrightarrow>
        waits_for lm (ac_resource c) rid = Some (ac_txn c)) \<and>
     (\<forall>i j c d rid. calls i = Some c \<longrightarrow> calls j = Some d \<longrightarrow> ac_pc c = Queued rid \<longrightarrow>
        ac_pc d = Queued rid \<longrightarrow> ac_resource c = ac_resource d \<longrightarrow> i = j)"

definition coord_inv :: "'d coord \<Rightarrow> bool" where
  "coord_inv w \<longleftrightarrow>
     ids_ok (sv_registry (co_server w)) (co_calls w) (co_tds w) (sv_retrying (co_server w)) \<and>
     locks_ok (sv_lm (co_server w)) (sv_registry (co_server w)) (co_calls w) (co_tds w)"

end
