(* ===== verification/Coordinator_Inv.thy ===== *)
theory Coordinator_Inv
  imports Coordinator_Steps
begin

text \<open>
  The coordinator's invariant is inductive: one lemma per kind of change (a registry update, a
  call moving between sections, a lock-manager operation, a teardown section), then the steps.
\<close>

section \<open>Changes of the registry\<close>

definition quiet :: "(transaction \<Rightarrow> transaction) \<Rightarrow> bool" where
  "quiet f \<longleftrightarrow> (\<forall>tx. tx_external (f tx) = tx_external tx \<and> tx_state (f tx) = tx_state tx
                     \<and> tx_finished (f tx) = tx_finished tx)"

lemma quiet_simps [simp]:
  "quiet (\<lambda>tx. tx\<lparr>tx_leaseStarted := True, tx_leaseDeadline := d\<rparr>)"
  "quiet (\<lambda>tx. tx\<lparr>tx_leaseDeadline := d\<rparr>)"
  "quiet (\<lambda>tx. tx\<lparr>tx_grants := tx_grants tx @ [g]\<rparr>)"
  "quiet (\<lambda>tx. tx\<lparr>tx_nextReq := i, tx_pending := List.insert i (tx_pending tx)\<rparr>)"
  "quiet (\<lambda>tx. tx\<lparr>tx_pending := removeAll i (tx_pending tx)\<rparr>)"
  by (simp_all add: quiet_def)

lemma known_update_txn [simp]: "known (update_txn t f reg) = known reg"
  by (simp add: known_def fun_eq_iff)

lemma ids_ok_quiet:
  assumes "ids_ok reg calls tds retr" and "quiet f"
  shows "ids_ok (update_txn t f reg) calls tds retr"
proof -
  have same: "tx_external (txns (update_txn t f reg) t') = tx_external (txns reg t')"
    "tx_state (txns (update_txn t f reg) t') = tx_state (txns reg t')"
    "tx_finished (txns (update_txn t f reg) t') = tx_finished (txns reg t')" for t'
    using assms(2) by (simp_all add: quiet_def)
  moreover have "closing (update_txn t f reg) = closing reg"
    unfolding closing_def fun_eq_iff same by simp
  moreover have "reg_inv (update_txn t f reg)"
    using assms by (intro reg_inv_update_txn) (simp_all add: ids_ok_def quiet_def)
  ultimately show ?thesis using assms(1) unfolding ids_ok_def by simp
qed

lemma over_quiet: "quiet f \<Longrightarrow> over (update_txn t f reg) tds = over reg tds"
  by (auto simp: over_def quiet_def fun_eq_iff)

lemma locks_ok_quiet:
  "locks_ok lm reg calls tds \<Longrightarrow> quiet f \<Longrightarrow> locks_ok lm (update_txn t f reg) calls tds"
  unfolding locks_ok_def over_quiet known_update_txn .

section \<open>Calls moving\<close>

lemma ids_ok_move:
  assumes "ids_ok reg calls tds retr" "calls i = Some c" "ac_txn c' = ac_txn c"
    "ac_external c' = ac_external c"
  shows "ids_ok reg (calls(i \<mapsto> c')) tds retr"
  using assms by (simp add: ids_ok_def)

lemma ids_ok_drop: "ids_ok reg calls tds retr \<Longrightarrow> ids_ok reg (calls(i := None)) tds retr"
  by (simp add: ids_ok_def)

lemma locks_ok_move:
  assumes ok: "locks_ok lm reg calls tds" and c: "calls i = Some c"
    and c': "ac_txn c' = ac_txn c" "ac_resource c' = ac_resource c" "\<forall>rid. ac_pc c' \<noteq> Queued rid"
    and gb: "giving_back (ac_pc c) \<Longrightarrow> giving_back (ac_pc c') \<or> \<not> over reg tds (ac_txn c)"
  shows "locks_ok lm reg (calls(i \<mapsto> c')) tds"
proof -
  have "\<exists>j d. (calls(i \<mapsto> c')) j = Some d \<and> ac_txn d = t \<and> ac_resource d = r \<and> giving_back (ac_pc d)"
    if h: "held_mode lm t r = Some m" and ov: "over reg tds t" for t r m
  proof -
    obtain j d where d: "calls j = Some d" "ac_txn d = t" "ac_resource d = r" "giving_back (ac_pc d)"
      using ok h ov unfolding locks_ok_def by blast
    show ?thesis
    proof (cases "j = i")
      case True
      with d c c' gb ov show ?thesis by (intro exI [of _ i] exI [of _ c']) auto
    next
      case False
      with d show ?thesis by (intro exI [of _ j] exI [of _ d]) simp
    qed
  qed
  with ok c' show ?thesis unfolding locks_ok_def by (auto split: if_splits)
qed

lemma locks_ok_drop:
  assumes "locks_ok lm reg calls tds" and "calls i = Some c" and "\<not> giving_back (ac_pc c)"
  shows "locks_ok lm reg (calls(i := None)) tds"
proof -
  have "\<exists>j d. (calls(i := None)) j = Some d \<and> ac_txn d = t \<and> ac_resource d = r \<and> giving_back (ac_pc d)"
    if "held_mode lm t r = Some m" "over reg tds t" for t r m
    using assms that unfolding locks_ok_def by (metis fun_upd_apply option.inject)
  with assms show ?thesis unfolding locks_ok_def by (auto split: if_splits)
qed

section \<open>Lock-manager operations\<close>

lemma locks_okD:
  assumes "locks_ok lm reg calls tds"
  shows "lm_inv lm" "held_mode lm t r = Some m \<Longrightarrow> known reg t"
    "calls i = Some c \<Longrightarrow> ac_pc c = Queued rid \<Longrightarrow> waits_for lm (ac_resource c) rid = Some (ac_txn c)"
  using assms unfolding locks_ok_def by blast+

text \<open>A call gets the lock manager's answer; the state may have gained that call's lock only.\<close>

lemma locks_ok_answer:
  assumes ok: "locks_ok lm reg calls tds" and c: "calls i = Some c" "\<not> giving_back (ac_pc c)"
    and known: "known reg (ac_txn c)"
    and inv: "lm_inv lm'"
    and held: "\<And>t r. held_mode lm' t r = held_mode lm t r
                 \<or> res = Granted \<and> t = ac_txn c \<and> r = ac_resource c"
    and others: "\<And>j d rid. j \<noteq> i \<Longrightarrow> calls j = Some d \<Longrightarrow> ac_pc d = Queued rid \<Longrightarrow>
                 waits_for lm' (ac_resource d) rid = Some (ac_txn d)"
    and mine: "\<And>rid. res = Waiting rid \<Longrightarrow> waits_for lm' (ac_resource c) rid = Some (ac_txn c)"
    and unique: "\<And>rid j d. res = Waiting rid \<Longrightarrow> j \<noteq> i \<Longrightarrow> calls j = Some d \<Longrightarrow>
                 ac_resource d = ac_resource c \<Longrightarrow> ac_pc d \<noteq> Queued rid"
  shows "locks_ok lm' reg (calls(i \<mapsto> c\<lparr>ac_pc := lm_outcome res\<rparr>)) tds"
proof -
  let ?calls = "calls(i \<mapsto> c\<lparr>ac_pc := lm_outcome res\<rparr>)"
  have queued: "lm_outcome res = Queued rid \<longleftrightarrow> res = Waiting rid" for rid
    by (cases res) (simp_all add: lm_outcome_def)
  have kn: "known reg t" if "held_mode lm' t r = Some m" for t r m
    using held [of t r] that known locks_okD(2) [OF ok] by metis
  have gb: "\<exists>j d. ?calls j = Some d \<and> ac_txn d = t \<and> ac_resource d = r \<and> giving_back (ac_pc d)"
    if h: "held_mode lm' t r = Some m" and ov: "over reg tds t" for t r m
  proof (cases "held_mode lm' t r = held_mode lm t r")
    case True
    with ok h ov obtain j d where d: "calls j = Some d" "ac_txn d = t" "ac_resource d = r"
      "giving_back (ac_pc d)" unfolding locks_ok_def by metis
    then show ?thesis using c by (intro exI [of _ j] exI [of _ d]) auto
  next
    case False
    with held [of t r] show ?thesis
      by (intro exI [of _ i] exI [of _ "c\<lparr>ac_pc := lm_outcome res\<rparr>"])
         (simp add: lm_outcome_def giving_back_def)
  qed
  have wait: "waits_for lm' (ac_resource d) rid = Some (ac_txn d)"
    if "?calls j = Some d" "ac_pc d = Queued rid" for j d rid
    using that others [of j d rid] mine queued by (cases "j = i") auto
  have clash: False if "?calls i = Some d" "?calls k = Some e" "k \<noteq> i" "ac_pc d = Queued rid"
    "ac_pc e = Queued rid" "ac_resource d = ac_resource e" for k d e rid
  proof -
    have d: "d = c\<lparr>ac_pc := lm_outcome res\<rparr>" using that(1) by simp
    have "res = Waiting rid" using that(4) queued unfolding d by simp
    moreover have "calls k = Some e" using that(2,3) by simp
    moreover have "ac_resource e = ac_resource c" using that(6) unfolding d by simp
    ultimately show False using unique that(3,5) by blast
  qed
  have uniq: "j = k" if "?calls j = Some d" "?calls k = Some e" "ac_pc d = Queued rid"
    "ac_pc e = Queued rid" "ac_resource d = ac_resource e" for j k d e rid
  proof (cases "j = i \<or> k = i")
    case True
    with that clash [of d k e rid] clash [of e j d rid] show ?thesis by metis
  next
    case False
    with that have "calls j = Some d" "calls k = Some e" by simp_all
    with ok that(3-5) show ?thesis unfolding locks_ok_def by blast
  qed
  show ?thesis unfolding locks_ok_def using inv kn gb wait uniq by blast
qed

lemma locks_ok_acquire:
  assumes ok: "locks_ok lm reg calls tds" and c: "calls i = Some c" "ac_pc c = Registered"
    and known: "known reg (ac_txn c)"
    and call: "AcquireContext ctx (ac_txn c) (ac_resource c) (ac_mode c) lm = (res, lm')"
  shows "locks_ok lm' reg (calls(i \<mapsto> c\<lparr>ac_pc := lm_outcome res\<rparr>)) tds"
proof (rule locks_ok_answer [OF ok c(1) _ known])
  note inv = locks_okD(1) [OF ok]
  show "\<not> giving_back (ac_pc c)" using c(2) by (simp add: giving_back_def)
  show "lm_inv lm'" using lms.ok_acquire [OF inv call] .
  show "held_mode lm' t r = held_mode lm t r \<or> res = Granted \<and> t = ac_txn c \<and> r = ac_resource c" for t r
    using lms.holds_acquire [OF inv call, of t r] by auto
  show "waits_for lm' (ac_resource d) rid = Some (ac_txn d)"
    if "calls j = Some d" "ac_pc d = Queued rid" for j d rid
    using lms.waits_acquire [OF inv call locks_okD(3) [OF ok that]] .
  show "waits_for lm' (ac_resource c) rid = Some (ac_txn c)" if "res = Waiting rid" for rid
    using lms.acquire_waiting [OF inv call [unfolded that]] by simp
  show "ac_pc d \<noteq> Queued rid"
    if "res = Waiting rid" "calls j = Some d" "ac_resource d = ac_resource c" for rid j d
    using lms.acquire_waiting [OF inv call [unfolded that(1)]] locks_okD(3) [OF ok that(2)] that(3)
    by auto
qed

lemma locks_ok_recheck:
  assumes ok: "locks_ok lm reg calls tds" and c: "calls i = Some c" "ac_pc c = Queued rid"
    and known: "known reg (ac_txn c)"
    and call: "acquire_recheck ctx (ac_resource c) rid lm = (res, lm')"
  shows "locks_ok lm' reg (calls(i \<mapsto> c\<lparr>ac_pc := lm_outcome res\<rparr>)) tds"
proof (rule locks_ok_answer [OF ok c(1) _ known])
  note inv = locks_okD(1) [OF ok] and w = locks_okD(3) [OF ok c]
  have only: "i = j" if "calls j = Some d" "ac_pc d = Queued rid" "ac_resource d = ac_resource c" for j d
    using ok c that unfolding locks_ok_def by metis
  show "\<not> giving_back (ac_pc c)" using c(2) by (simp add: giving_back_def)
  show "lm_inv lm'" using lms.ok_recheck [OF inv call] .
  show "held_mode lm' t r = held_mode lm t r \<or> res = Granted \<and> t = ac_txn c \<and> r = ac_resource c" for t r
    using lms.holds_recheck [OF inv call w, of t r] by auto
  show "waits_for lm' (ac_resource d) rid' = Some (ac_txn d)"
    if "j \<noteq> i" "calls j = Some d" "ac_pc d = Queued rid'" for j d rid'
  proof (rule lms.waits_recheck [OF inv call locks_okD(3) [OF ok that(2,3)]])
    show "(ac_resource d, rid') \<noteq> (ac_resource c, rid)" using only [OF that(2)] that(1,3) by auto
  qed
  show "waits_for lm' (ac_resource c) rid' = Some (ac_txn c)" if "res = Waiting rid'" for rid'
    using lms.recheck_waiting [OF inv call [unfolded that]] w by simp
  show "ac_pc d \<noteq> Queued rid'"
    if "res = Waiting rid'" "j \<noteq> i" "calls j = Some d" "ac_resource d = ac_resource c" for rid' j d
    using lms.recheck_waiting [OF inv call [unfolded that(1)]] only [OF that(3)] that(2,4) by auto
qed

text \<open>A call gives its lock back and ends.\<close>

lemma locks_ok_undo:
  assumes ok: "locks_ok lm reg calls tds" and c: "calls i = Some c"
  shows "locks_ok (snd (Release (ac_txn c) (ac_resource c) lm)) reg (calls(i := None)) tds"
proof -
  note inv = locks_okD(1) [OF ok]
  have "\<exists>j d. (calls(i := None)) j = Some d \<and> ac_txn d = t \<and> ac_resource d = r \<and> giving_back (ac_pc d)"
    if "held_mode (snd (Release (ac_txn c) (ac_resource c) lm)) t r = Some m" "over reg tds t" for t r m
  proof -
    from that(1) have ne: "\<not> (t = ac_txn c \<and> r = ac_resource c)" and h: "held_mode lm t r = Some m"
      using lms.holds_release [OF inv, of "ac_txn c" "ac_resource c" t r] by (auto split: if_splits)
    from ok h that(2) obtain j d where d: "calls j = Some d" "ac_txn d = t" "ac_resource d = r"
      "giving_back (ac_pc d)" unfolding locks_ok_def by blast
    with c ne have "j \<noteq> i" by auto
    with d show ?thesis by (intro exI [of _ j] exI [of _ d]) simp
  qed
  moreover have "known reg t" if "held_mode (snd (Release (ac_txn c) (ac_resource c) lm)) t r = Some m" for t r m
    using that locks_okD(2) [OF ok] lms.holds_release [OF inv] by (auto split: if_splits)
  ultimately show ?thesis
    using ok unfolding locks_ok_def lms.waits_release [OF inv]
    by (simp add: lms.ok_release)
qed

lemma locks_ok_watch:
  assumes "locks_ok lm reg calls tds"
  shows "locks_ok (watch_cancel r rid lm) reg calls tds"
  using assms unfolding locks_ok_def
  by (auto simp: lms.holds_cancel lms.waits_cancel lms.ok_cancel)

text \<open>\<open>ReleaseAll\<close> makes the transaction over, with nothing left to hold.\<close>

lemma locks_ok_release_all:
  assumes ok: "locks_ok lm reg calls tds"
  shows "locks_ok (snd (ReleaseAll t lm)) reg calls (tds(t \<mapsto> TdReleased n))"
proof -
  note inv = locks_okD(1) [OF ok]
  have "over reg (tds(t \<mapsto> TdReleased n)) t' \<longleftrightarrow> t' = t \<or> over reg tds t'" for t'
    by (auto simp: over_def)
  with ok show ?thesis unfolding locks_ok_def lms.waits_release_all [OF inv]
    by (simp add: lms.holds_release_all [OF inv] lms.ok_release_all split: if_splits)
qed

text \<open>Other changes of the teardown table.\<close>

lemma locks_ok_tds:
  assumes "locks_ok lm reg calls tds" and "\<And>t. over reg' tds' t \<Longrightarrow> over reg tds t"
    and "reg_next reg \<le> reg_next reg'"
  shows "locks_ok lm reg' calls tds'"
  using assms unfolding locks_ok_def known_def by (meson order_trans)

section \<open>Transactions created, closed and finished\<close>

lemma ids_okD:
  assumes "ids_ok reg calls tds retr"
  shows "reg_inv reg" "known reg t \<Longrightarrow> tx_finished (txns reg t) \<Longrightarrow> tx_state (txns reg t) \<noteq> txnActive"
    "known reg t \<Longrightarrow> \<not> tx_finished (txns reg t) \<Longrightarrow> map_of (byID reg) (tx_external (txns reg t)) = Some t"
    "calls i = Some c \<Longrightarrow> known reg (ac_txn c)"
    "calls i = Some c \<Longrightarrow> tx_external (txns reg (ac_txn c)) = ac_external c"
    "tds t = Some pc \<Longrightarrow> closing reg t"
    "(u, t) \<in> set retr \<Longrightarrow> closing reg t" "(u, t) \<in> set retr \<Longrightarrow> u = tx_external (txns reg t)"
  using assms unfolding ids_ok_def by blast+

lemma ids_okI:
  assumes "reg_inv reg"
    "\<And>t. known reg t \<Longrightarrow> tx_finished (txns reg t) \<Longrightarrow> tx_state (txns reg t) \<noteq> txnActive"
    "\<And>t. known reg t \<Longrightarrow> \<not> tx_finished (txns reg t) \<Longrightarrow>
       map_of (byID reg) (tx_external (txns reg t)) = Some t"
    "\<And>i c. calls i = Some c \<Longrightarrow> known reg (ac_txn c)"
    "\<And>i c. calls i = Some c \<Longrightarrow> tx_external (txns reg (ac_txn c)) = ac_external c"
    "\<And>t pc. tds t = Some pc \<Longrightarrow> closing reg t"
    "\<And>u t. (u, t) \<in> set retr \<Longrightarrow> closing reg t"
    "\<And>u t. (u, t) \<in> set retr \<Longrightarrow> u = tx_external (txns reg t)"
  shows "ids_ok reg calls tds retr"
  using assms unfolding ids_ok_def by blast

lemma known_byID: "reg_inv reg \<Longrightarrow> map_of (byID reg) u = Some t \<Longrightarrow> known reg t"
  using reg_invD [of reg u t] by (simp add: known_def)

text \<open>A table that agrees on the known records, with at most new active records beside them.\<close>

lemma ids_ok_extend:
  assumes ok: "ids_ok reg calls tds retr" and inv: "reg_inv reg'"
    and old: "\<And>t. known reg t \<Longrightarrow> known reg' t \<and> txns reg' t = txns reg t"
    and new: "\<And>t. known reg' t \<Longrightarrow> \<not> known reg t \<Longrightarrow>
       \<not> tx_finished (txns reg' t) \<and> map_of (byID reg') (tx_external (txns reg' t)) = Some t"
    and entries: "\<And>u t. map_of (byID reg) u = Some t \<Longrightarrow> \<not> tx_finished (txns reg t) \<Longrightarrow>
       map_of (byID reg') u = Some t"
  shows "ids_ok reg' calls tds retr"
proof -
  have "closing reg t \<Longrightarrow> closing reg' t" for t using old by (simp add: closing_def)
  moreover have "map_of (byID reg') (tx_external (txns reg' t)) = Some t"
    if "known reg' t" "\<not> tx_finished (txns reg' t)" for t
    using that old new entries ids_okD(3) [OF ok] by (cases "known reg t") auto
  moreover have "tx_state (txns reg' t) \<noteq> txnActive"
    if "known reg' t" "tx_finished (txns reg' t)" for t
    using that old [of t] new [of t] ids_okD(2) [OF ok, of t] by (cases "known reg t") auto
  moreover have "known reg t" if "closing reg t" for t using that by (simp add: closing_def)
  ultimately show ?thesis
    using ok inv old unfolding ids_ok_def by (fastforce simp: split_beta)
qed

lemma ensure_ids:
  assumes ok: "ids_ok reg calls tds retr" and e: "ensure u reg = (res, reg')"
  shows "ids_ok reg' calls tds retr" "\<And>t. over reg' tds t \<Longrightarrow> over reg tds t"
    "reg_next reg \<le> reg_next reg'"
    "\<And>t. res = Inr t \<Longrightarrow> known reg' t \<and> tx_external (txns reg' t) = u"
proof -
  have inv': "reg_inv reg'" using reg_inv_ensure [OF ids_okD(1) [OF ok], of u] e by simp
  consider (same) "reg' = reg" "\<And>t. res = Inr t \<Longrightarrow> map_of (byID reg) u = Some t"
    | (spent) err where "reg' = reg\<lparr>spent := True\<rparr>" "res = Inl err"
    | (new) t where "res = Inr t" "map_of (byID reg) u = None"
    using e ensure_err [of u reg] ensure_known [of u reg]
    by (cases res; cases "map_of (byID reg) u") fastforce+
  then have "ids_ok reg' calls tds retr \<and> (\<forall>t. over reg' tds t \<longrightarrow> over reg tds t) \<and>
    reg_next reg \<le> reg_next reg' \<and>
    (\<forall>t. res = Inr t \<longrightarrow> known reg' t \<and> tx_external (txns reg' t) = u)"
  proof cases
    case same
    then show ?thesis
      using ok known_byID [OF ids_okD(1) [OF ok]] reg_invD(1) [OF ids_okD(1) [OF ok]] by auto
  next
    case (spent err)
    have "ids_ok reg' calls tds retr"
      using spent by (intro ids_ok_extend [OF ok inv']) (simp_all add: known_def)
    with spent show ?thesis by (simp add: over_def)
  next
    case (new t)
    note n = ensure_new [OF e [unfolded new(1)] new(2)]
    have lt: "t' < t" if "known reg t'" for t'
      using that n(1,2) word_less_Suc_max by (metis known_def le_less_trans)
    have nt: "\<not> known reg t" using lt by blast
    have kn: "known reg' t' \<longleftrightarrow> known reg t' \<or> t' = t" for t'
    proof -
      have "t' \<le> t \<longleftrightarrow> t' \<le> reg_next reg \<or> t' = t"
        using word_le_Suc_max(1) [OF n(2), of t'] n(1) by simp
      moreover have "0 < t" using word_le_Suc_max(2) [OF n(2)] n(1) by simp
      ultimately show ?thesis using n(4) by (auto simp: known_def)
    qed
    have tx: "txns reg' t' = (if t' = t then new_transaction u t else txns reg t')" for t'
      using n(4) by simp
    have "ids_ok reg' calls tds retr"
    proof (rule ids_ok_extend [OF ok inv'])
      fix t' show "known reg t' \<Longrightarrow> known reg' t' \<and> txns reg' t' = txns reg t'"
        using kn tx nt by auto
      show "known reg' t' \<Longrightarrow> \<not> known reg t' \<Longrightarrow> \<not> tx_finished (txns reg' t') \<and>
          map_of (byID reg') (tx_external (txns reg' t')) = Some t'"
        using kn tx n(4) by (simp add: new_transaction_def)
      fix u' show "map_of (byID reg) u' = Some t' \<Longrightarrow> \<not> tx_finished (txns reg t') \<Longrightarrow>
          map_of (byID reg') u' = Some t'"
        using new(2) n(4) by auto
    qed
    moreover have "tds t = None"
      using ids_okD(6) [OF ok, of t] nt by (cases "tds t") (auto simp: closing_def)
    ultimately show ?thesis
      using kn tx new(1) n word_less_Suc_max [OF n(2)]
      by (auto simp: over_def new_transaction_def split: if_splits)
  qed
  then show "ids_ok reg' calls tds retr" "\<And>t. over reg' tds t \<Longrightarrow> over reg tds t"
    "reg_next reg \<le> reg_next reg'"
    "\<And>t. res = Inr t \<Longrightarrow> known reg' t \<and> tx_external (txns reg' t) = u" by blast+
qed

text \<open>Closing a transaction: it leaves the active state, and its teardown starts.\<close>

lemma beginTeardown_Some:
  assumes "beginTeardown u state reg = (Some (t, cancels), reg')"
  shows "map_of (byID reg) u = Some t" "\<not> tx_finished (txns reg t)" "tx_state (txns reg t) = txnActive"
    "reg' = update_txn t (\<lambda>tx. tx\<lparr>tx_state := state, tx_pending := []\<rparr>) reg"
  using assms by (auto simp: beginTeardown_def split: option.splits if_splits)

lemma ids_ok_begin:
  assumes ok: "ids_ok reg calls tds retr" and t: "known reg t" "\<not> tx_finished (txns reg t)"
    and st: "state \<noteq> txnActive"
  shows "ids_ok (update_txn t (\<lambda>tx. tx\<lparr>tx_state := state, tx_pending := []\<rparr>) reg) calls
           (tds(t \<mapsto> TdMarked)) retr"
proof -
  let ?reg = "update_txn t (\<lambda>tx. tx\<lparr>tx_state := state, tx_pending := []\<rparr>) reg"
  have cl: "closing ?reg t' \<longleftrightarrow> closing reg t' \<or> t' = t" for t'
    using t st by (auto simp: closing_def)
  have ext: "tx_external (txns ?reg t') = tx_external (txns reg t')"
    and fin: "tx_finished (txns ?reg t') = tx_finished (txns reg t')" for t' by simp_all
  show ?thesis
  proof (rule ids_okI, goal_cases)
    case 1
    show ?case using ids_okD(1) [OF ok] by (intro reg_inv_update_txn) simp_all
  next
    case (2 t')
    then show ?case using st ids_okD(2) [OF ok, of t'] by auto
  next
    case (6 t' pc)
    then show ?case unfolding cl using ids_okD(6) [OF ok, of t'] by (cases "t' = t") auto
  next
    case (3 t')
    then show ?case using ids_okD(3) [OF ok, of t'] by (cases "t' = t") auto
  next
    case (4 i c)
    then show ?case using ids_okD(4) [OF ok] by (simp only: known_update_txn)
  next
    case (5 i c)
    then show ?case using ids_okD(5) [OF ok] by (simp only: ext)
  next
    case (7 u t')
    then show ?case unfolding cl using ids_okD(7) [OF ok] by blast
  next
    case (8 u t')
    then show ?case unfolding ext using ids_okD(8) [OF ok] by blast
  qed
qed

text \<open>The last section of a teardown: the record becomes a tombstone.\<close>

lemma finish_closing:
  assumes "ids_ok reg calls tds retr" "closing reg t"
  shows "finish now (tx_external (txns reg t)) reg =
    update_txn t (\<lambda>tx. tx\<lparr>tx_finished := True, tx_finishedAt := now\<rparr>) reg"
  using ids_okD(3) [OF assms(1), of t] assms(2) by (simp add: finish_def closing_def)

lemma ids_ok_finish:
  assumes ok: "ids_ok reg calls tds retr" and t: "closing reg t"
  shows "ids_ok (update_txn t (\<lambda>tx. tx\<lparr>tx_finished := True, tx_finishedAt := now\<rparr>) reg) calls
           (tds(t := None)) (AList.delete (tx_external (txns reg t)) retr)"
proof -
  let ?reg = "update_txn t (\<lambda>tx. tx\<lparr>tx_finished := True, tx_finishedAt := now\<rparr>) reg"
  let ?retr = "AList.delete (tx_external (txns reg t)) retr"
  have cl: "closing ?reg t' \<longleftrightarrow> closing reg t' \<and> t' \<noteq> t" for t' by (auto simp: closing_def)
  have retr: "closing ?reg t' \<and> u = tx_external (txns ?reg t')" if "(u, t') \<in> set ?retr" for u t'
  proof -
    have "(u, t') \<in> set retr" "u \<noteq> tx_external (txns reg t)"
      using that by (auto simp: AList.delete_eq)
    then show ?thesis using ids_okD(7,8) [OF ok] cl by auto
  qed
  have ext: "tx_external (txns ?reg t') = tx_external (txns reg t')" for t' by simp
  show ?thesis
  proof (rule ids_okI, goal_cases)
    case 1
    show ?case using ids_okD(1) [OF ok] by (intro reg_inv_update_txn) simp_all
  next
    case (2 t')
    then show ?case using ids_okD(2) [OF ok, of t'] t by (cases "t' = t") (auto simp: closing_def)
  next
    case (3 t')
    then show ?case using ids_okD(3) [OF ok, of t'] by (cases "t' = t") auto
  next
    case (6 t' pc)
    then show ?case unfolding cl using ids_okD(6) [OF ok, of t'] by (cases "t' = t") auto
  next
    case (4 i c)
    then show ?case using ids_okD(4) [OF ok] by (simp only: known_update_txn)
  next
    case (5 i c)
    then show ?case using ids_okD(5) [OF ok] by (simp only: ext)
  qed (use retr in blast)+
qed

lemma ids_ok_schedule:
  assumes "ids_ok reg calls tds retr" "closing reg t"
  shows "ids_ok reg calls (tds(t := None)) ((tx_external (txns reg t), t) # retr)"
    "ids_ok reg calls (tds(t := None)) retr"
  using assms by (auto simp: ids_ok_def)

lemma ids_ok_prune:
  assumes ok: "ids_ok reg calls tds retr"
  shows "ids_ok (prune now keep reg) calls tds retr"
proof -
  let ?P = "\<lambda>(u, t). \<not> (tx_finished (txns reg t) \<and> now - tx_finishedAt (txns reg t) > keep)"
  have tbl: "byID (prune now keep reg) = filter ?P (byID reg)" by (simp add: prune_def)
  have inv: "reg_inv (prune now keep reg)"
    using ids_okD(1) [OF ok] unfolding reg_inv_def tbl
    by (auto simp: prune_def distinct_map intro: inj_on_subset)
  have "map_of (filter ?P (byID reg)) u = Some t" if "map_of (byID reg) u = Some t" "\<not> tx_finished (txns reg t)" for u t
  proof -
    have "distinct (map fst (byID reg))" using ids_okD(1) [OF ok] by (simp add: reg_inv_def)
    then show ?thesis using that by (simp add: map_of_eq_Some_iff distinct_map_filter)
  qed
  then show ?thesis
    by (intro ids_ok_extend [OF ok inv]) (simp_all add: known_def prune_def)
qed

section \<open>Every step keeps the invariant\<close>

lemma coord_inv_cong:
  assumes "sv_registry s' = sv_registry s" "sv_lm s' = sv_lm s" "sv_retrying s' = sv_retrying s"
  shows "coord_inv (w\<lparr>co_server := s', co_sent := l\<rparr>) = coord_inv (w\<lparr>co_server := s\<rparr>)"
  using assms by (simp add: coord_inv_def)

lemma server_simps [simp]:
  "sv_registry (set_registry r s) = r" "sv_lm (set_registry r s) = sv_lm s"
  "sv_retrying (set_registry r s) = sv_retrying s" "sv_db (set_registry r s) = sv_db s"
  "sv_fences (set_registry r s) = sv_fences s"
  "sv_registry (cancel_pending t ids s) = sv_registry s" "sv_lm (cancel_pending t ids s) = sv_lm s"
  "sv_retrying (cancel_pending t ids s) = sv_retrying s"
  "sv_fences (cancel_pending t ids s) = sv_fences s" "sv_db (cancel_pending t ids s) = sv_db s"
  by (simp_all add: set_registry_def cancel_pending_def)

lemma clear_request_simps [simp]:
  "sv_lm (clear_request c s) = sv_lm s" "sv_retrying (clear_request c s) = sv_retrying s"
  "sv_registry (clear_request c s) = clearPending (ac_txn c) (ac_req c) (sv_registry s)"
  "sv_db (clear_request c s) = sv_db s" "sv_fences (clear_request c s) = sv_fences s"
  by (simp_all add: clear_request_def)

lemma acquire_fence_frame:
  assumes "acquire_fence U now c s = (pc, s')"
  shows "sv_registry s' = sv_registry s" "sv_lm s' = sv_lm s" "sv_retrying s' = sv_retrying s"
    "sv_fences s' = sv_fences s" "(\<exists>token. pc = Fenced token) \<or> (\<exists>e. pc = Undo e)"
  using assms by (auto simp: acquire_fence_def split: LockMode.splits option.splits prod.splits sum.splits)

text \<open>\<open>stillActive\<close> rules out a transaction that is over.\<close>

lemma stillActive_not_over:
  assumes "ids_ok (sv_registry s) calls tds retr" and "stillActive u t s"
  shows "\<not> over (sv_registry s) tds t"
  using assms known_byID [OF ids_okD(1) [OF assms(1)], of u t] ids_okD(2,6) [OF assms(1), of t]
  by (auto simp: over_def stillActive_def closing_def sv_txn_def)

lemma advance_inv:
  assumes inv: "coord_inv w" and c: "co_calls w i = Some c"
    and step: "acquire_advance U now ctx c (co_server w) = (Inl c', s)"
  shows "coord_inv (w\<lparr>co_server := s, co_calls := (co_calls w)(i \<mapsto> c')\<rparr>)"
proof -
  let ?s = "co_server w"
  have ids: "ids_ok (sv_registry ?s) (co_calls w) (co_tds w) (sv_retrying ?s)"
    and lk: "locks_ok (sv_lm ?s) (sv_registry ?s) (co_calls w) (co_tds w)"
    using inv by (simp_all add: coord_inv_def)
  note kn = ids_okD(4) [OF ids c]
  have same: "ac_txn c' = ac_txn c" "ac_external c' = ac_external c" "ac_resource c' = ac_resource c"
    using step by (auto simp: acquire_advance_def Let_def split: acquire_pc.splits option.splits
        prod.splits if_splits)
  note move = ids_ok_move [OF ids c same(1,2)]
  show ?thesis
  proof (cases "ac_pc c")
    case Ensured
    with step have "s = ?s" "ac_pc c' = NotHeld"
      by (auto simp: acquire_advance_def Let_def split: option.splits if_splits)
    with Ensured move locks_ok_move [OF lk c same(1,3)] show ?thesis
      by (simp add: coord_inv_def giving_back_def)
  next
    case NotHeld
    with step obtain r where "s = set_registry r ?s" "ac_pc c' = Registered"
      "registerPending (ac_txn c) (sv_registry ?s) = (ac_req c', r)"
      by (auto simp: acquire_advance_def Let_def split: prod.splits)
    with NotHeld move locks_ok_move [OF lk c same(1,3)] show ?thesis
      by (auto simp: coord_inv_def giving_back_def registerPending_def Let_def
          intro!: ids_ok_quiet locks_ok_quiet)
  next
    case Registered
    then obtain res lm where r: "AcquireContext (Some (wait_ctx ctx (ac_txn c) (ac_req c) ?s)) (ac_txn c)
        (ac_resource c) (ac_mode c) (sv_lm ?s) = (res, lm)" by fastforce
    with step Registered have "c' = c\<lparr>ac_pc := lm_outcome res\<rparr>" "s = ?s\<lparr>sv_lm := lm\<rparr>"
      by (auto simp: acquire_advance_def Let_def)
    with move locks_ok_acquire [OF lk c Registered kn r] show ?thesis by (simp add: coord_inv_def)
  next
    case (Queued rid)
    then obtain res lm where r: "acquire_recheck (wait_ctx ctx (ac_txn c) (ac_req c) ?s)
        (ac_resource c) rid (sv_lm ?s) = (res, lm)" by fastforce
    with step Queued have "c' = c\<lparr>ac_pc := lm_outcome res\<rparr>" "s = ?s\<lparr>sv_lm := lm\<rparr>"
      by (auto simp: acquire_advance_def Let_def)
    with move locks_ok_recheck [OF lk c Queued kn r] show ?thesis by (simp add: coord_inv_def)
  next
    case LockGranted
    with step have "s = clear_request c ?s" "ac_pc c' = PendingCleared"
      by (auto simp: acquire_advance_def Let_def)
    with LockGranted move locks_ok_move [OF lk c same(1,3)] show ?thesis
      by (auto simp: coord_inv_def giving_back_def clearPending_def intro!: ids_ok_quiet locks_ok_quiet)
  next
    case PendingCleared
    with step have "s = ?s" "stillActive (ac_external c) (ac_txn c) ?s \<and> ac_pc c' = Active
        \<or> (\<exists>e. ac_pc c' = Undo e)"
      by (auto simp: acquire_advance_def Let_def split: if_splits)
    with PendingCleared move locks_ok_move [OF lk c same(1,3)] stillActive_not_over [OF ids]
    show ?thesis by (auto simp: coord_inv_def giving_back_def)
  next
    case Active
    then obtain pc where f: "acquire_fence U now c ?s = (pc, s)" "ac_pc c' = pc"
      using step by (auto simp: acquire_advance_def Let_def split: prod.splits)
    note fr = acquire_fence_frame [OF f(1)]
    have "locks_ok (sv_lm ?s) (sv_registry ?s) ((co_calls w)(i \<mapsto> c')) (co_tds w)"
      using locks_ok_move [OF lk c same(1,3)] Active fr(5) f(2) by (auto simp: giving_back_def)
    with move fr show ?thesis by (simp add: coord_inv_def)
  next
    case (Fenced token)
    with step have "ac_pc c' = Recorded token" "sv_lm s = sv_lm ?s" "sv_retrying s = sv_retrying ?s"
      "sv_registry s = recordGrant (ac_txn c) \<lparr>g_resource = ac_resource c, g_mode = ac_mode c,
         g_token = token\<rparr> (sv_registry ?s)"
      by (auto simp: acquire_advance_def Let_def)
    with Fenced move locks_ok_move [OF lk c same(1,3)] show ?thesis
      by (auto simp: coord_inv_def giving_back_def recordGrant_def intro!: ids_ok_quiet locks_ok_quiet)
  qed (use step in \<open>auto simp: acquire_advance_def Let_def split: prod.splits\<close>)
qed

text \<open>A call that replies: it leaves with nothing to give back, or has just given it back.\<close>

lemma reply_inv:
  assumes inv: "coord_inv w" and c: "co_calls w i = Some c"
    and step: "acquire_advance U now ctx c (co_server w) = (Inr res, s)"
  shows "coord_inv (w\<lparr>co_server := s, co_calls := (co_calls w)(i := None), co_sent := l\<rparr>)"
proof -
  let ?s = "co_server w"
  have ids: "ids_ok (sv_registry ?s) ((co_calls w)(i := None)) (co_tds w) (sv_retrying ?s)"
    and lk: "locks_ok (sv_lm ?s) (sv_registry ?s) (co_calls w) (co_tds w)"
    using inv ids_ok_drop by (simp_all add: coord_inv_def)
  note drop = locks_ok_drop [OF lk c]
  show ?thesis
  proof (cases "ac_pc c")
    case Ensured
    with step have "s = ?s" by (auto simp: acquire_advance_def Let_def split: option.splits if_splits)
    with Ensured ids drop show ?thesis by (simp add: coord_inv_def giving_back_def)
  next
    case (LockRefused e)
    with step have "s = clear_request c ?s" by (auto simp: acquire_advance_def Let_def)
    with LockRefused ids drop show ?thesis
      by (auto simp: coord_inv_def giving_back_def clearPending_def intro!: ids_ok_quiet locks_ok_quiet)
  next
    case (Recorded token)
    with step have "s = set_registry (snd (startLeaseIfNeeded now (ac_txn c) (sv_registry ?s))) ?s"
      by (auto simp: acquire_advance_def Let_def split: prod.splits)
    with Recorded ids drop show ?thesis
      by (auto simp: coord_inv_def giving_back_def startLeaseIfNeeded_def Let_def
          intro!: ids_ok_quiet locks_ok_quiet)
  next
    case (Undo e)
    with step have "s = releaseOne (ac_txn c) (ac_resource c) ?s"
      by (auto simp: acquire_advance_def Let_def)
    with ids locks_ok_undo [OF lk c] show ?thesis by (simp add: coord_inv_def releaseOne_def)
  qed (use step in \<open>auto simp: acquire_advance_def Let_def split: prod.splits if_splits\<close>)
qed

lemma acquire_admit_effect:
  assumes "acquire_admit U req s = (res, s')"
  obtains (early) e where "res = Inl e" "s' = s"
  | (ensured) u eres r where "ensure u (sv_registry s) = (eres, r)" "s' = set_registry r s"
      "\<And>c. res = Inr c \<Longrightarrow> eres = Inr (ac_txn c) \<and> ac_external c = u \<and> ac_pc c = Ensured"
proof (cases "parseTxnID U (rq_TransactionId req)")
  case (Inr u)
  note u = Inr
  show thesis
  proof (cases "resourceFromProto (rq_Resource req)")
    case (Inr resource)
    note resource = Inr
    show thesis
    proof (cases "modeFromProto (rq_Mode req)")
      case (Inr mode)
      obtain eres r where e: "ensure u (sv_registry s) = (eres, r)" by fastforce
      show thesis
        using assms u resource Inr e
        by (cases eres) (auto simp: acquire_admit_def intro: ensured [OF e])
    next
      case (Inl e)
      have "res = Inl e" "s' = s" using assms u resource Inl by (simp_all add: acquire_admit_def)
      then show thesis by (rule early)
    qed
  next
    case (Inl e)
    have "res = Inl e" "s' = s" using assms u Inl by (simp_all add: acquire_admit_def)
    then show thesis by (rule early)
  qed
next
  case (Inl e)
  have "res = Inl e" "s' = s" using assms Inl by (simp_all add: acquire_admit_def)
  then show thesis by (rule early)
qed

lemma admit_inv:
  assumes inv: "coord_inv w" and step: "acquire_admit U req (co_server w) = (res, s)"
  shows "coord_inv (w\<lparr>co_server := s\<rparr>)"
    and "\<And>c. res = Inr c \<Longrightarrow> co_calls w i = None \<Longrightarrow>
           coord_inv (w\<lparr>co_server := s, co_calls := (co_calls w)(i \<mapsto> c)\<rparr>)"
proof -
  let ?s = "co_server w"
  have ids: "ids_ok (sv_registry ?s) (co_calls w) (co_tds w) (sv_retrying ?s)"
    and lk: "locks_ok (sv_lm ?s) (sv_registry ?s) (co_calls w) (co_tds w)"
    using inv by (simp_all add: coord_inv_def)
  have "coord_inv (w\<lparr>co_server := s\<rparr>) \<and> (\<forall>c. res = Inr c \<longrightarrow> co_calls w i = None \<longrightarrow>
      coord_inv (w\<lparr>co_server := s, co_calls := (co_calls w)(i \<mapsto> c)\<rparr>))"
  using step proof (cases rule: acquire_admit_effect)
    case early
    then show ?thesis using inv by (simp add: coord_inv_def)
  next
    case (ensured u eres r)
    note e = ensure_ids [OF ids ensured(1)]
    have lk': "locks_ok (sv_lm ?s) r (co_calls w) (co_tds w)"
      using locks_ok_tds [OF lk e(2,3)] .
    have "coord_inv (w\<lparr>co_server := s, co_calls := (co_calls w)(i \<mapsto> c)\<rparr>)"
      if "res = Inr c" and free: "co_calls w i = None" for c
    proof -
      from ensured(3) [OF that(1)] e(4) have c: "known r (ac_txn c)"
        "tx_external (txns r (ac_txn c)) = ac_external c" "ac_pc c = Ensured" by auto
      then have "ids_ok r ((co_calls w)(i \<mapsto> c)) (co_tds w) (sv_retrying ?s)"
        using e(1) by (simp add: ids_ok_def)
      moreover have "locks_ok (sv_lm ?s) r ((co_calls w)(i \<mapsto> c)) (co_tds w)"
        using lk' c(3) free unfolding locks_ok_def
        by (auto split: if_splits) (metis option.distinct(1))
      ultimately show ?thesis using ensured(2) by (simp add: coord_inv_def)
    qed
    with e(1) lk' ensured(2) show ?thesis by (simp add: coord_inv_def)
  qed
  then show "coord_inv (w\<lparr>co_server := s\<rparr>)"
    "\<And>c. res = Inr c \<Longrightarrow> co_calls w i = None \<Longrightarrow>
       coord_inv (w\<lparr>co_server := s, co_calls := (co_calls w)(i \<mapsto> c)\<rparr>)" by blast+
qed

lemma begin_inv:
  assumes inv: "coord_inv w" and step: "begin_teardown u state (co_server w) = (Some t, s)"
    and st: "state \<noteq> txnActive"
  shows "coord_inv (w\<lparr>co_server := s, co_tds := (co_tds w)(t \<mapsto> TdMarked)\<rparr>)"
proof -
  let ?s = "co_server w"
  have ids: "ids_ok (sv_registry ?s) (co_calls w) (co_tds w) (sv_retrying ?s)"
    and lk: "locks_ok (sv_lm ?s) (sv_registry ?s) (co_calls w) (co_tds w)"
    using inv by (simp_all add: coord_inv_def)
  from step obtain cancels r where r: "beginTeardown u state (sv_registry ?s) = (Some (t, cancels), r)"
    "s = cancel_pending t cancels (set_registry r ?s)"
    by (auto simp: begin_teardown_def split: prod.splits option.splits)
  note b = beginTeardown_Some [OF r(1)]
  note kn = known_byID [OF ids_okD(1) [OF ids] b(1)]
  have "locks_ok (sv_lm ?s) r (co_calls w) ((co_tds w)(t \<mapsto> TdMarked))"
    using b(4) by (intro locks_ok_tds [OF lk]) (auto simp: over_def split: if_splits)
  with ids_ok_begin [OF ids kn b(2) st] b(4) r(2) show ?thesis by (simp add: coord_inv_def)
qed

lemma td_inv:
  assumes inv: "coord_inv w" and t: "co_tds w t = Some pc"
    and step: "td_advance U now t pc (co_server w) = (Inl pc', s)"
  shows "coord_inv (w\<lparr>co_server := s, co_tds := (co_tds w)(t \<mapsto> pc')\<rparr>)"
proof -
  let ?s = "co_server w"
  have ids: "ids_ok (sv_registry ?s) (co_calls w) (co_tds w) (sv_retrying ?s)"
    and lk: "locks_ok (sv_lm ?s) (sv_registry ?s) (co_calls w) (co_tds w)"
    using inv by (simp_all add: coord_inv_def)
  have ids': "ids_ok (sv_registry ?s) (co_calls w) ((co_tds w)(t \<mapsto> pc')) (sv_retrying ?s)"
    using ids t by (auto simp: ids_ok_def)
  show ?thesis
  proof (cases "pc = TdUnfenced")
    case True
    with step have "pc' = TdReleased (of_nat (HeldCount t (sv_lm ?s)))"
      "s = ?s\<lparr>sv_lm := snd (ReleaseAll t (sv_lm ?s))\<rparr>" by (auto simp: td_advance_def)
    with ids' locks_ok_release_all [OF lk] show ?thesis by (simp add: coord_inv_def)
  next
    case False
    with step have fr: "sv_registry s = sv_registry ?s" "sv_lm s = sv_lm ?s" "sv_retrying s = sv_retrying ?s"
      "\<forall>n. pc' \<noteq> TdReleased n"
      by (auto simp: td_advance_def split: td_pc.splits list.splits option.splits prod.splits if_splits)
    have "locks_ok (sv_lm ?s) (sv_registry ?s) (co_calls w) ((co_tds w)(t \<mapsto> pc'))"
      using fr(4) by (intro locks_ok_tds [OF lk]) (auto simp: over_def split: if_splits)
    with ids' fr show ?thesis by (simp add: coord_inv_def)
  qed
qed

lemma td_done_inv:
  assumes inv: "coord_inv w" and t: "co_tds w t = Some pc"
    and step: "td_advance U now t pc (co_server w) = (Inr (Inr n), s)"
  shows "coord_inv (w\<lparr>co_server := s\<lparr>sv_retrying :=
      AList.delete (tx_external (sv_txn (co_server w) t)) (sv_retrying s)\<rparr>,
      co_tds := (co_tds w)(t := None)\<rparr>)"
proof -
  let ?s = "co_server w"
  let ?reg = "update_txn t (\<lambda>tx. tx\<lparr>tx_finished := True, tx_finishedAt := now\<rparr>) (sv_registry ?s)"
  have ids: "ids_ok (sv_registry ?s) (co_calls w) (co_tds w) (sv_retrying ?s)"
    and lk: "locks_ok (sv_lm ?s) (sv_registry ?s) (co_calls w) (co_tds w)"
    using inv by (simp_all add: coord_inv_def)
  note cl = ids_okD(6) [OF ids t]
  from step have pc: "pc = TdReleased n" and "s = set_registry
      (finish now (tx_external (sv_txn ?s t)) (sv_registry ?s)) ?s"
    by (auto simp: td_advance_def split: td_pc.splits list.splits option.splits prod.splits if_splits)
  then have s: "sv_registry s = ?reg" "sv_lm s = sv_lm ?s" "sv_retrying s = sv_retrying ?s"
    using finish_closing [OF ids cl] by (simp_all add: sv_txn_def)
  have "locks_ok (sv_lm ?s) ?reg (co_calls w) ((co_tds w)(t := None))"
    using t pc by (intro locks_ok_tds [OF lk]) (auto simp: over_def split: if_splits)
  with ids_ok_finish [OF ids cl] s show ?thesis by (simp add: coord_inv_def sv_txn_def)
qed

lemma td_fail_inv:
  assumes inv: "coord_inv w" and t: "co_tds w t = Some pc"
    and step: "td_advance U now t pc (co_server w) = (Inr (Inl e), s)"
  shows "coord_inv (w\<lparr>co_server := scheduleRetry t s, co_tds := (co_tds w)(t := None)\<rparr>)"
proof -
  let ?s = "co_server w"
  have ids: "ids_ok (sv_registry ?s) (co_calls w) (co_tds w) (sv_retrying ?s)"
    and lk: "locks_ok (sv_lm ?s) (sv_registry ?s) (co_calls w) (co_tds w)"
    using inv by (simp_all add: coord_inv_def)
  from step have fr: "sv_registry s = sv_registry ?s" "sv_lm s = sv_lm ?s" "sv_retrying s = sv_retrying ?s"
    by (auto simp: td_advance_def split: td_pc.splits list.splits option.splits prod.splits if_splits)
  have "locks_ok (sv_lm ?s) (sv_registry ?s) (co_calls w) ((co_tds w)(t := None))"
    by (intro locks_ok_tds [OF lk]) (auto simp: over_def split: if_splits)
  with ids_ok_schedule [OF ids ids_okD(6) [OF ids t]] fr show ?thesis
    by (simp add: coord_inv_def scheduleRetry_def Let_def sv_txn_def)
qed

lemma coord_step_inv:
  assumes "coord_inv w" and "coord_step U w w'"
  shows "coord_inv w'"
  using assms(2)
proof cases
  case (step_admit req c s i)
  then show ?thesis using admit_inv(2) [OF assms(1) step_admit(2)] by simp
next
  case (step_reject req e s)
  then show ?thesis using admit_inv(1) [OF assms(1) step_reject(2)] by simp
next
  case (step_advance i c now ctx c' s)
  then show ?thesis using advance_inv [OF assms(1)] by simp
next
  case (step_fail i c now ctx e s)
  then show ?thesis using reply_inv [OF assms(1) step_fail(2,3), of "co_sent w"] by simp
next
  case (step_reply i c now ctx resp s)
  then show ?thesis using reply_inv [OF assms(1) step_reply(2,3)] by simp
next
  case (step_watch i c rid ctx)
  then show ?thesis using assms(1) locks_ok_watch by (simp add: coord_inv_def)
next
  case (step_begin external state t s)
  then show ?thesis using begin_inv [OF assms(1)] by simp
next
  case (step_td t pc now pc' s)
  then show ?thesis using td_inv [OF assms(1)] by simp
next
  case (step_td_done t pc now n s)
  then show ?thesis using td_done_inv [OF assms(1)] by simp
next
  case (step_td_fail t pc now e s)
  then show ?thesis using td_fail_inv [OF assms(1)] by simp
next
  case (step_retry external t)
  have "locks_ok (sv_lm (co_server w)) (sv_registry (co_server w)) (co_calls w) ((co_tds w)(t \<mapsto> TdMarked))"
    by (rule locks_ok_tds [of _ "sv_registry (co_server w)" _ "co_tds w"])
       (use assms(1) in \<open>auto simp: coord_inv_def over_def split: if_splits\<close>)
  then show ?thesis using step_retry assms(1) by (auto simp: coord_inv_def ids_ok_def)
next
  case (step_renew now raw res s)
  then have "s = co_server w \<or> (\<exists>t d. s = set_registry (update_txn t (\<lambda>tx. tx\<lparr>tx_leaseDeadline := d\<rparr>)
      (sv_registry (co_server w))) (co_server w)) \<or> s = set_registry (sv_registry (co_server w)) (co_server w)"
    by (auto simp: Server_RenewLease_def renew_def split: sum.splits option.splits prod.splits if_splits)
  then show ?thesis
    using step_renew(1) assms(1) by (auto simp: coord_inv_def intro!: ids_ok_quiet locks_ok_quiet)
next
  case (step_prune now)
  have "locks_ok (sv_lm (co_server w)) (prune now k (sv_registry (co_server w))) (co_calls w) (co_tds w)" for k
    by (rule locks_ok_tds [of _ "sv_registry (co_server w)" _ "co_tds w"])
       (use assms(1) in \<open>auto simp: coord_inv_def over_def prune_def\<close>)
  then show ?thesis using step_prune assms(1) ids_ok_prune by (simp add: coord_inv_def)
qed

lemma coord_init_inv: "coord_inv (coord_init cfg db)"
proof -
  have "known (newRegistry d) t = False" for d t by (auto simp: known_def newRegistry_def)
  then show ?thesis
    using lm_inv_new
    by (simp add: coord_inv_def coord_init_def NewServerWithConfig_def Let_def ids_ok_def locks_ok_def)
       (simp add: reg_inv_def newRegistry_def held_mode_def txn_locks_of_def NewLockManager_def)
qed

interpretation coordsys: inductive_invariant "coord_init cfg db" "coord_step U" coord_inv
  for cfg :: "'d ServerConfig" and db U
  by unfold_locales (rule coord_init_inv, rule coord_step_inv)

end
