(* ===== verification/Coordinator_Thms.thy ===== *)
theory Coordinator_Thms
  imports Coordinator_Inv
begin

text \<open>What the coordinator promises, and two places where it does not keep its promise.\<close>

section \<open>Teardown\<close>

lemma invalidate_each_cleared:
  assumes "fences_good D view db" and "invalidate_each (mongo_FenceStore D) now gs db = (None, db')"
  shows "fences_good D view db' \<and>
    (\<forall>r q. fence_owner (view db) r \<noteq> Some q \<longrightarrow> fence_owner (view db') r \<noteq> Some q) \<and>
    (\<forall>g \<in> set gs. fence_owner (view db') (gr_Resource g) \<noteq> Some (gr_OwnerTxn g))"
  using assms
proof (induction gs arbitrary: db)
  case (Cons g gs)
  obtain e db1 where call: "Invalidate D now (gr_Resource g) (gr_OwnerTxn g) db = (e, db1)" by fastforce
  with Cons.prems(2) have e: "e = None" and rest: "invalidate_each (mongo_FenceStore D) now gs db1 = (None, db')"
    by (auto simp: mongo_FenceStore_def split: option.splits)
  have g1: "fences_good D view db1"
    using mf.good_inval [OF Cons.prems(1), of now "gr_Resource g" "gr_OwnerTxn g"] call by simp
  have "fence_owner (view db1) (gr_Resource g) \<noteq> Some (gr_OwnerTxn g)"
    using mf.inval_ok [OF Cons.prems(1) call [unfolded e]] .
  moreover have "fence_owner (view db1) r \<noteq> Some q" if "fence_owner (view db) r \<noteq> Some q" for r q
    using mf.inval_keeps_cleared [OF Cons.prems(1) call that] .
  ultimately show ?case using Cons.IH [OF g1 rest] by auto
qed simp

lemma fence_grants_of_set:
  "set (fence_grants_of U u gs) =
     (\<lambda>g. \<lparr>gr_Resource = fence_key (g_resource g), gr_Token = g_token g, gr_OwnerTxn = uuid_String U u\<rparr>)
       ` {g \<in> set gs. g_mode g = ExclusiveLock}"
  by (induction gs) auto

lemma teardown_failed:
  assumes "teardown U now t s = (Inl e, s')"
  shows "sv_lm s' = sv_lm s" "sv_registry s' = sv_registry s" "sv_retrying s' = sv_retrying s"
    "sv_fences s' = sv_fences s" "sv_cancelled s' = sv_cancelled s"
  using assms by (auto simp: teardown_def Let_def split: option.splits prod.splits)

lemma teardown_done:
  assumes "teardown U now t s = (Inr n, s')"
  obtains db where "s' = set_registry (finish now (tx_external (sv_txn s t)) (sv_registry s))
      (s\<lparr>sv_db := db, sv_lm := snd (ReleaseAll t (sv_lm s))\<rparr>)"
    "\<And>F. sv_fences s = Some F \<Longrightarrow> invalidate_each F now (fenceGrantsOf U t s) (sv_db s) = (None, db)"
    "sv_fences s = None \<Longrightarrow> db = sv_db s" "n = of_nat (HeldCount t (sv_lm s))"
  using assms
  by (auto simp: teardown_def Let_def release_and_finish_def sv_txn_def set_registry_def
      split: option.splits prod.splits)

text \<open>
  C9. Fences before locks. Let the fences be in MongoDB and the driver behave as documented. When
  a teardown succeeds, no exclusive grant of the transaction is still owned by it in the fence
  collection, and only then are its locks gone, all of them; when an invalidation fails, the lock
  table and the transaction table are exactly as before: the locks stay held and nothing is
  handed over.
\<close>

theorem coord_teardown_fences_first:
  assumes "fences_good D view (sv_db s)" and "sv_fences s = Some (mongo_FenceStore D)"
    and "lm_inv (sv_lm s)" and "teardown U now t s = (res, s')"
  shows "case res of
      Inl e \<Rightarrow> sv_lm s' = sv_lm s \<and> sv_registry s' = sv_registry s
    | Inr n \<Rightarrow>
        (\<forall>g \<in> set (tx_grants (sv_txn s t)). g_mode g = ExclusiveLock \<longrightarrow>
           fence_owner (view (sv_db s')) (fence_key (g_resource g))
             \<noteq> Some (uuid_String U (tx_external (sv_txn s t)))) \<and>
        (\<forall>r. held_mode (sv_lm s') t r = None) \<and>
        (\<forall>t' r. t' \<noteq> t \<longrightarrow> held_mode (sv_lm s') t' r = held_mode (sv_lm s) t' r)"
proof (cases res)
  case (Inl e)
  then show ?thesis using teardown_failed [of U now t s e s'] assms(4) by simp
next
  case (Inr n)
  from assms(4) [unfolded Inr] show ?thesis
  proof (rule teardown_done)
    fix db
    assume s': "s' = set_registry (finish now (tx_external (sv_txn s t)) (sv_registry s))
        (s\<lparr>sv_db := db, sv_lm := snd (ReleaseAll t (sv_lm s))\<rparr>)"
      and inv: "\<And>F. sv_fences s = Some F \<Longrightarrow> invalidate_each F now (fenceGrantsOf U t s) (sv_db s) = (None, db)"
    have "\<forall>g \<in> set (fenceGrantsOf U t s). fence_owner (view db) (gr_Resource g) \<noteq> Some (gr_OwnerTxn g)"
      using invalidate_each_cleared [OF assms(1) inv [OF assms(2)]] by blast
    then show ?thesis
      using s' Inr lms.holds_release_all [OF assms(3), of t]
      by (auto simp: fenceGrantsOf_def fenceGrants_def fence_grants_of_set)
  qed
qed

section \<open>An uninterrupted Acquire\<close>

lemma run_Ensured:
  assumes "ac_pc c = Ensured"
  shows "acquire_run (Suc n) U now ctx c s =
     (case heldGrant (ac_txn c) (ac_resource c) s of
        Some g \<Rightarrow>
          (Inr (if g_mode g \<noteq> ac_mode c
                then Inl (Status FailedPrecondition ''grpccoord: upgrades are not supported'')
                else Inr \<lparr>FencingToken = g_token g,
                          LeaseExpiresUnixNano = UnixNano (leaseDeadline (ac_txn c) s)\<rparr>), s)
      | None \<Rightarrow> acquire_run n U now ctx (c\<lparr>ac_pc := NotHeld\<rparr>) s)"
  using assms by (simp add: acquire_advance_def Let_def split: option.splits)

lemma run_NotHeld:
  assumes "ac_pc c = NotHeld" and "registerPending (ac_txn c) (sv_registry s) = (i, r)"
  shows "acquire_run (Suc n) U now ctx c s =
     acquire_run n U now ctx (c\<lparr>ac_req := i, ac_pc := Registered\<rparr>) (set_registry r s)"
  using assms by (simp add: acquire_advance_def Let_def)

lemma run_Registered:
  assumes "ac_pc c = Registered"
    and "AcquireContext (Some (wait_ctx ctx (ac_txn c) (ac_req c) s)) (ac_txn c) (ac_resource c)
           (ac_mode c) (sv_lm s) = (res, lm)"
  shows "acquire_run (Suc n) U now ctx c s =
     (case res of
        Waiting rid \<Rightarrow> (Inl (c\<lparr>ac_pc := Queued rid\<rparr>), s\<lparr>sv_lm := lm\<rparr>)
      | _ \<Rightarrow> acquire_run n U now ctx (c\<lparr>ac_pc := lm_outcome res\<rparr>) (s\<lparr>sv_lm := lm\<rparr>))"
  using assms by (simp add: acquire_advance_def Let_def lm_outcome_def split: acquire_result.splits)

lemma run_LockRefused:
  assumes "ac_pc c = LockRefused e"
  shows "acquire_run (Suc n) U now ctx c s =
     (Inr (Inl (acquire_refusal ctx c e (clear_request c s))), clear_request c s)"
  using assms by (simp add: acquire_advance_def Let_def)

lemma run_LockGranted:
  assumes "ac_pc c = LockGranted"
  shows "acquire_run (Suc n) U now ctx c s =
     acquire_run n U now ctx (c\<lparr>ac_pc := PendingCleared\<rparr>) (clear_request c s)"
  using assms by (simp add: acquire_advance_def Let_def)

lemma run_PendingCleared:
  assumes "ac_pc c = PendingCleared"
  shows "acquire_run (Suc n) U now ctx c s =
     acquire_run n U now ctx (c\<lparr>ac_pc := if stillActive (ac_external c) (ac_txn c) s then Active else
       Undo (Status Aborted ''grpccoord: transaction ended while the request was queued'')\<rparr>) s"
  using assms by (simp add: acquire_advance_def Let_def)

lemma run_Active:
  assumes "ac_pc c = Active" and "acquire_fence U now c s = (pc, s')"
  shows "acquire_run (Suc n) U now ctx c s = acquire_run n U now ctx (c\<lparr>ac_pc := pc\<rparr>) s'"
  using assms acquire_fence_frame(5) [OF assms(2)] by (auto simp: acquire_advance_def Let_def)

lemma run_Fenced:
  assumes "ac_pc c = Fenced token"
  shows "acquire_run (Suc n) U now ctx c s =
     acquire_run n U now ctx (c\<lparr>ac_pc := Recorded token\<rparr>)
       (set_registry (recordGrant (ac_txn c)
          \<lparr>g_resource = ac_resource c, g_mode = ac_mode c, g_token = token\<rparr> (sv_registry s)) s)"
  using assms by (simp add: acquire_advance_def Let_def)

lemma run_Recorded:
  assumes "ac_pc c = Recorded token"
  shows "acquire_run (Suc n) U now ctx c s =
     (case startLeaseIfNeeded now (ac_txn c) (sv_registry s) of
        (deadline, r) \<Rightarrow>
          (Inr (Inr \<lparr>FencingToken = token, LeaseExpiresUnixNano = UnixNano deadline\<rparr>), set_registry r s))"
  using assms by (simp add: acquire_advance_def Let_def split: prod.splits)

lemma run_Undo:
  assumes "ac_pc c = Undo e"
  shows "acquire_run (Suc n) U now ctx c s = (Inr (Inl e), releaseOne (ac_txn c) (ac_resource c) s)"
  using assms by (simp add: acquire_advance_def Let_def)

lemmas run_rules = run_Ensured run_NotHeld run_Registered run_LockRefused run_LockGranted
  run_PendingCleared run_Active run_Fenced run_Recorded run_Undo

declare acquire_run.simps [simp del]

text \<open>The server after the request has been registered, decided and unregistered.\<close>

definition registered :: "acall \<Rightarrow> 'd Server \<Rightarrow> acall \<times> 'd Server" where
  "registered c s =
     (case registerPending (ac_txn c) (sv_registry s) of
        (i, r) \<Rightarrow> (c\<lparr>ac_req := i, ac_pc := Registered\<rparr>, set_registry r s))"

lemma registered_frame:
  assumes "registered c s = (c1, s1)"
  shows "ac_txn c1 = ac_txn c" "ac_resource c1 = ac_resource c" "ac_mode c1 = ac_mode c"
    "ac_external c1 = ac_external c" "ac_pc c1 = Registered"
    "sv_lm s1 = sv_lm s" "sv_db s1 = sv_db s" "sv_fences s1 = sv_fences s"
    "\<And>t. tx_grants (sv_txn s1 t) = tx_grants (sv_txn s t)"
    "\<And>t. tx_state (sv_txn s1 t) = tx_state (sv_txn s t)"
    "\<And>t. tx_finished (sv_txn s1 t) = tx_finished (sv_txn s t)"
    "byID (sv_registry s1) = byID (sv_registry s)"
  using assms by (auto simp: registered_def registerPending_def Let_def sv_txn_def split: if_splits)

lemma sv_txn_simps [simp]:
  "sv_txn (s\<lparr>sv_lm := lm\<rparr>) t = sv_txn s t" "sv_txn (s\<lparr>sv_db := db\<rparr>) t = sv_txn s t"
  "tx_grants (sv_txn (clear_request c s) t) = tx_grants (sv_txn s t)"
  "tx_state (sv_txn (clear_request c s) t) = tx_state (sv_txn s t)"
  "tx_finished (sv_txn (clear_request c s) t) = tx_finished (sv_txn s t)"
  "byID (clearPending t i r) = byID r"
  by (simp_all add: sv_txn_def clearPending_def)

text \<open>
  The five ways a fresh \<open>Acquire\<close> ends: it replies from an existing grant, parks in the queue,
  is refused by the lock manager, gives the lock back, or grants.
\<close>

lemma acquire_run_cases:
  assumes pc: "ac_pc c = Ensured" and reg: "registered c s = (c1, s1)"
    and lm: "AcquireContext (Some (wait_ctx ctx (ac_txn c) (ac_req c1) s1)) (ac_txn c) (ac_resource c)
               (ac_mode c) (sv_lm s1) = (res, lm1)"
    and none: "heldGrant (ac_txn c) (ac_resource c) s = None"
  shows "acquire_run 10 U now ctx c s =
    (let s2 = clear_request c1 (s1\<lparr>sv_lm := lm1\<rparr>)
     in case res of
          Waiting rid \<Rightarrow> (Inl (c1\<lparr>ac_pc := Queued rid\<rparr>), s1\<lparr>sv_lm := lm1\<rparr>)
        | Refused e \<Rightarrow> (Inr (Inl (acquire_refusal ctx (c1\<lparr>ac_pc := LockRefused e\<rparr>) e s2)), s2)
        | Granted \<Rightarrow>
            if \<not> stillActive (ac_external c) (ac_txn c) s2 then
              (Inr (Inl (Status Aborted ''grpccoord: transaction ended while the request was queued'')),
               releaseOne (ac_txn c) (ac_resource c) s2)
            else case acquire_fence U now (c1\<lparr>ac_pc := Active\<rparr>) s2 of
              (Fenced token, s3) \<Rightarrow>
                (let s4 = set_registry (recordGrant (ac_txn c) \<lparr>g_resource = ac_resource c,
                            g_mode = ac_mode c, g_token = token\<rparr> (sv_registry s3)) s3;
                     (deadline, r) = startLeaseIfNeeded now (ac_txn c) (sv_registry s4)
                 in (Inr (Inr \<lparr>FencingToken = token, LeaseExpiresUnixNano = UnixNano deadline\<rparr>),
                     set_registry r s4))
            | (Undo e, s3) \<Rightarrow> (Inr (Inl e), releaseOne (ac_txn c) (ac_resource c) s3))"
proof -
  note fr = registered_frame [OF reg]
  obtain i r where rp: "registerPending (ac_txn c) (sv_registry s) = (i, r)" by fastforce
  then have c1: "c1 = c\<lparr>ac_req := i, ac_pc := Registered\<rparr>" and s1: "s1 = set_registry r s"
    using reg by (simp_all add: registered_def)
  have start: "acquire_run 10 U now ctx c s = acquire_run 8 U now ctx c1 s1"
    using pc none by (simp add: eval_nat_numeral run_Ensured run_NotHeld [where i = i and r = r] rp c1 s1)
  show ?thesis
  proof (cases res)
    case Granted
    then have g: "acquire_run 10 U now ctx c s =
        acquire_run 6 U now ctx (c1\<lparr>ac_pc := PendingCleared\<rparr>) (clear_request (c1\<lparr>ac_pc := LockGranted\<rparr>) (s1\<lparr>sv_lm := lm1\<rparr>))"
      using lm fr start by (simp add: eval_nat_numeral run_Registered [where lm = lm1] run_LockGranted lm_outcome_def)
    have cl: "clear_request (c1\<lparr>ac_pc := LockGranted\<rparr>) s' = clear_request c1 s'" for s' :: "'a Server"
      by (simp add: clear_request_def)
    define s2 where "s2 = clear_request c1 (s1\<lparr>sv_lm := lm1\<rparr>)"
    obtain pc3 s3 where f: "acquire_fence U now (c1\<lparr>ac_pc := Active\<rparr>) s2 = (pc3, s3)" by fastforce
    show ?thesis
    proof (cases "stillActive (ac_external c) (ac_txn c) s2")
      case False
      with Granted g fr cl show ?thesis
        by (simp add: Let_def s2_def [symmetric] eval_nat_numeral run_PendingCleared run_Undo)
    next
      case True
      from True Granted g fr cl f have "acquire_run 10 U now ctx c s = acquire_run 4 U now ctx (c1\<lparr>ac_pc := pc3\<rparr>) s3"
        by (simp add: s2_def [symmetric] eval_nat_numeral run_PendingCleared run_Active [where pc = pc3 and s' = s3])
      with True Granted fr f acquire_fence_frame(5) [OF f] show ?thesis
        by (auto simp: Let_def s2_def [symmetric] eval_nat_numeral run_Fenced run_Undo run_Recorded)
    qed
  qed (use lm fr start in \<open>simp_all add: Let_def eval_nat_numeral run_Registered [where lm = lm1]
         run_LockRefused lm_outcome_def clear_request_def\<close>)
qed

lemma acquire_admit_Inr:
  assumes "acquire_admit U req s = (Inr c, s0)"
  shows "ac_pc c = Ensured" "sv_lm s0 = sv_lm s" "sv_db s0 = sv_db s" "sv_fences s0 = sv_fences s"
    "parseTxnID U (rq_TransactionId req) = Inr (ac_external c)"
    "resourceFromProto (rq_Resource req) = Inr (ac_resource c)"
    "modeFromProto (rq_Mode req) = Inr (ac_mode c)"
    "ensure (ac_external c) (sv_registry s) = (Inr (ac_txn c), sv_registry s0)"
    "s0 = set_registry (sv_registry s0) s"
  using assms unfolding acquire_admit_def
  by (auto split: sum.splits prod.splits)

lemma Server_Acquire_admitted:
  "acquire_admit U req s = (Inr c, s0) \<Longrightarrow> Server_Acquire U now ctx req s = acquire_run 10 U now ctx c s0"
  by (simp add: Server_Acquire_def)

text \<open>The path of an \<open>Acquire\<close> that grants.\<close>

lemma acquire_reply_path:
  assumes adm: "acquire_admit U req s = (Inr c, s0)"
    and none: "heldGrant (ac_txn c) (ac_resource c) s0 = None"
    and reply: "Server_Acquire U now ctx req s = (Inr (Inr resp), s')"
  obtains wc s2 s3 where
    "AcquireContext (Some wc) (ac_txn c) (ac_resource c) (ac_mode c) (sv_lm s) = (Granted, sv_lm s')"
    "stillActive (ac_external c) (ac_txn c) s2" "byID (sv_registry s2) = byID (sv_registry s0)"
    "tx_state (sv_txn s2 (ac_txn c)) = tx_state (sv_txn s0 (ac_txn c))"
    "sv_db s2 = sv_db s" "sv_fences s2 = sv_fences s"
    "acquire_fence U now c s2 = (Fenced (FencingToken resp), s3)" "sv_db s' = sv_db s3"
    "tx_grants (sv_txn s' (ac_txn c)) = tx_grants (sv_txn s0 (ac_txn c)) @
       [\<lparr>g_resource = ac_resource c, g_mode = ac_mode c, g_token = FencingToken resp\<rparr>]"
    "byID (sv_registry s') = byID (sv_registry s0)"
    "tx_state (sv_txn s' (ac_txn c)) = tx_state (sv_txn s0 (ac_txn c))"
    "tx_finished (sv_txn s' (ac_txn c)) = tx_finished (sv_txn s0 (ac_txn c))"
    "sv_fences s' = sv_fences s"
proof -
  note a = acquire_admit_Inr [OF adm]
  obtain c1 s1 where reg: "registered c s0 = (c1, s1)" by fastforce
  note fr = registered_frame [OF reg]
  obtain res lm1 where lm: "AcquireContext (Some (wait_ctx ctx (ac_txn c) (ac_req c1) s1)) (ac_txn c)
      (ac_resource c) (ac_mode c) (sv_lm s1) = (res, lm1)" by fastforce
  note run = acquire_run_cases [OF a(1) reg lm none, of U now]
  define s2 where "s2 = clear_request c1 (s1\<lparr>sv_lm := lm1\<rparr>)"
  note r = reply [unfolded Server_Acquire_admitted [OF adm] run s2_def [symmetric]]
  have granted: "res = Granted" using r by (auto simp: Let_def split: acquire_result.splits)
  have act: "stillActive (ac_external c) (ac_txn c) s2" using r granted by (auto simp: Let_def split: if_splits)
  have s2: "sv_lm s2 = lm1" "sv_db s2 = sv_db s" "sv_fences s2 = sv_fences s"
    "byID (sv_registry s2) = byID (sv_registry s0)"
    "tx_grants (sv_txn s2 t) = tx_grants (sv_txn s0 t)" "tx_state (sv_txn s2 t) = tx_state (sv_txn s0 t)"
    "tx_finished (sv_txn s2 t) = tx_finished (sv_txn s0 t)" for t
    using fr a(2-4) by (simp_all add: s2_def)
  obtain pc3 s3 where f: "acquire_fence U now (c1\<lparr>ac_pc := Active\<rparr>) s2 = (pc3, s3)" by fastforce
  note ff = acquire_fence_frame [OF f]
  obtain token where tok: "pc3 = Fenced token" using r granted act f ff(5) by (auto simp: Let_def)
  have same: "acquire_fence U now (c1\<lparr>ac_pc := Active\<rparr>) s2 = acquire_fence U now c s2"
    using fr by (simp add: acquire_fence_def split: LockMode.splits option.splits)
  have "FencingToken resp = token" "sv_lm s' = lm1" "sv_db s' = sv_db s3"
    "tx_grants (sv_txn s' (ac_txn c)) = tx_grants (sv_txn s2 (ac_txn c)) @
       [\<lparr>g_resource = ac_resource c, g_mode = ac_mode c, g_token = token\<rparr>]"
    "byID (sv_registry s') = byID (sv_registry s2)"
    "tx_state (sv_txn s' (ac_txn c)) = tx_state (sv_txn s2 (ac_txn c))"
    "tx_finished (sv_txn s' (ac_txn c)) = tx_finished (sv_txn s2 (ac_txn c))"
    "sv_fences s' = sv_fences s2"
    using r granted act f tok ff s2(1)
    by (auto simp: Let_def startLeaseIfNeeded_def recordGrant_def sv_txn_def)
  with that [of "wait_ctx ctx (ac_txn c) (ac_req c1) s1" s2 s3] lm granted act s2 f tok same fr(6) a(2)
  show thesis by simp
qed

lemma heldGrant_appended:
  assumes "heldGrant t r s0 = None" "tx_grants (sv_txn s t) = tx_grants (sv_txn s0 t) @ [g]" "g_resource g = r"
  shows "heldGrant t r s = Some g"
  using assms by (auto simp: heldGrant_def grantFor_def find_None_iff intro!: find_append_Cons)

lemma acquire_reply_keeps_good:
  assumes good: "fences_good D view (sv_db s)" and fences: "sv_fences s = Some (mongo_FenceStore D)"
    and inv: "lm_inv (sv_lm s)" and adm: "acquire_admit U req s = (Inr c, s0)"
    and none: "heldGrant (ac_txn c) (ac_resource c) s0 = None"
    and reply: "Server_Acquire U now ctx req s = (Inr (Inr resp), s')"
  shows "fences_good D view (sv_db s')" "sv_fences s' = Some (mongo_FenceStore D)" "lm_inv (sv_lm s')"
proof -
  from adm none reply have "fences_good D view (sv_db s') \<and> sv_fences s' = sv_fences s \<and> lm_inv (sv_lm s')"
  proof (rule acquire_reply_path)
    fix wc s2 s3
    assume lm: "AcquireContext (Some wc) (ac_txn c) (ac_resource c) (ac_mode c) (sv_lm s) = (Granted, sv_lm s')"
      and f: "acquire_fence U now c s2 = (Fenced (FencingToken resp), s3)" "sv_db s' = sv_db s3"
        "sv_db s2 = sv_db s" "sv_fences s2 = sv_fences s" "sv_fences s' = sv_fences s"
    have "fences_good D view (snd (Allocate D now k q (sv_db s)))" for k q
      using mf.good_alloc [OF good] by simp
    then have "fences_good D view (sv_db s')"
      using f fences good
      by (auto simp: acquire_fence_def mongo_FenceStore_def split: LockMode.splits prod.splits sum.splits)
         (metis snd_conv)
    then show ?thesis using lms.ok_acquire [OF inv lm] f by simp
  qed
  then show "fences_good D view (sv_db s')" "sv_fences s' = Some (mongo_FenceStore D)" "lm_inv (sv_lm s')"
    using fences by simp_all
qed



text \<open>
  C12. A retry recovers the original outcome. After an \<open>Acquire\<close> that succeeded, sending the same
  request again, under any context and at any later time, returns the same fencing token and
  leaves the whole server as it is: no second grant, no second token.
\<close>

theorem coord_acquire_retry:
  assumes adm: "acquire_admit U req s = (Inr c, s0)"
    and none: "heldGrant (ac_txn c) (ac_resource c) s0 = None"
    and live: "\<not> tx_finished (sv_txn s0 (ac_txn c))"
    and reply: "Server_Acquire U now ctx req s = (Inr (Inr resp), s')"
  shows "\<exists>resp'. Server_Acquire U now' ctx' req s' = (Inr (Inr resp'), s') \<and>
    FencingToken resp' = FencingToken resp"
  using adm none reply
proof (rule acquire_reply_path)
  fix wc s2 s3
  assume act: "stillActive (ac_external c) (ac_txn c) s2" "byID (sv_registry s2) = byID (sv_registry s0)"
      "tx_state (sv_txn s2 (ac_txn c)) = tx_state (sv_txn s0 (ac_txn c))"
    and g: "tx_grants (sv_txn s' (ac_txn c)) = tx_grants (sv_txn s0 (ac_txn c)) @
       [\<lparr>g_resource = ac_resource c, g_mode = ac_mode c, g_token = FencingToken resp\<rparr>]"
    and s': "byID (sv_registry s') = byID (sv_registry s0)"
      "tx_state (sv_txn s' (ac_txn c)) = tx_state (sv_txn s0 (ac_txn c))"
      "tx_finished (sv_txn s' (ac_txn c)) = tx_finished (sv_txn s0 (ac_txn c))"
  note a = acquire_admit_Inr [OF adm]
  have "ensure (ac_external c) (sv_registry s') = (Inr (ac_txn c), sv_registry s')"
    using act s' live by (simp add: ensure_def stillActive_def sv_txn_def)
  then have again: "acquire_admit U req s' = (Inr (c\<lparr>ac_req := 0, ac_pc := Ensured\<rparr>), s')"
    using a(5-7) by (simp add: acquire_admit_def set_registry_def)
  have "acquire_run 10 U now' ctx' (c\<lparr>ac_req := 0, ac_pc := Ensured\<rparr>) s' =
      (Inr (Inr \<lparr>FencingToken = FencingToken resp,
        LeaseExpiresUnixNano = UnixNano (leaseDeadline (ac_txn c) s')\<rparr>), s')"
    using heldGrant_appended [OF none g] by (simp add: eval_nat_numeral run_Ensured)
  with Server_Acquire_admitted [OF again] show ?thesis by auto
qed


section \<open>Refusals\<close>

text \<open>
  A refused lock request is always reported as a revocation. \<open>Acquire\<close> calls its own
  cancel function before it asks whether the wait's context was cancelled, so for a caller that
  is still there every error of the lock manager comes back as \<open>Aborted\<close>, whatever it was (for
  instance a second concurrent request for a lock the transaction is about to be granted); the
  branch that reports the error itself with \<open>FailedPrecondition\<close> is never reached.
\<close>

theorem coord_refusal_reported_as_revocation:
  assumes "ac_pc c = LockRefused err" and "ctx_Err ctx = None"
  shows "fst (acquire_advance U now ctx c s) =
    Inr (Inl (Status Aborted ''grpccoord: transaction was revoked while waiting''))"
  using assms
  by (simp add: acquire_advance_def Let_def acquire_refusal_def wait_ctx_def clear_request_def
      cancel_pending_def)

section \<open>Invariants under interleaving\<close>

text \<open>Known records keep their external id.\<close>

definition ids_kept :: "registry \<Rightarrow> registry \<Rightarrow> bool" where
  "ids_kept reg reg' \<longleftrightarrow>
     (\<forall>t. known reg t \<longrightarrow> known reg' t \<and> tx_external (txns reg' t) = tx_external (txns reg t))"

lemma ids_kept_refl [simp]: "ids_kept reg reg" by (simp add: ids_kept_def)

lemma ids_kept_update_txn:
  "(\<And>tx. tx_external (f tx) = tx_external tx) \<Longrightarrow> ids_kept reg (update_txn t f reg)"
  by (simp add: ids_kept_def)

lemma ids_kept_ensure: "ensure u reg = (res, reg') \<Longrightarrow> ids_kept reg reg'"
proof (cases "map_of (byID reg) u")
  case (Some t)
  assume "ensure u reg = (res, reg')"
  with Some have "reg' = reg" by (auto simp: ensure_def split: if_splits)
  then show ?thesis by simp
next
  case None
  assume e: "ensure u reg = (res, reg')"
  show ?thesis
  proof (cases "spent reg \<or> reg_next reg = - 1")
    case True
    with e None have "reg' = reg\<lparr>spent := True\<rparr>" by (simp add: ensure_def)
    then show ?thesis by (simp add: ids_kept_def known_def)
  next
    case False
    then have lt: "reg_next reg < reg_next reg + 1" using word_less_Suc_max by blast
    have r: "reg_next reg' = reg_next reg + 1"
      "\<And>t. t \<noteq> reg_next reg + 1 \<Longrightarrow> txns reg' t = txns reg t"
      using e None False by (auto simp: ensure_def Let_def)
    show ?thesis unfolding ids_kept_def known_def
      using r lt by (metis le_less_trans less_imp_le order_less_irrefl)
  qed
qed

lemma ids_kept_advance:
  assumes "acquire_advance U now ctx c s = (res, s')"
  shows "ids_kept (sv_registry s) (sv_registry s')"
proof (cases "ac_pc c")
  case Active
  with assms obtain pc where "acquire_fence U now c s = (pc, s')"
    by (auto simp: acquire_advance_def Let_def split: prod.splits)
  from acquire_fence_frame(1) [OF this] show ?thesis by simp
qed (use assms in \<open>auto simp: acquire_advance_def Let_def registerPending_def clearPending_def
       recordGrant_def startLeaseIfNeeded_def releaseOne_def
       split: option.splits if_splits prod.splits intro!: ids_kept_update_txn\<close>)

lemma ids_kept_finish: "ids_kept reg (finish now u reg)"
  by (auto simp: finish_def split: option.splits intro!: ids_kept_update_txn)

lemma ids_kept_td:
  assumes "td_advance U now t pc s = (res, s')"
  shows "ids_kept (sv_registry s) (sv_registry s')"
  using assms
  by (auto simp: td_advance_def ids_kept_finish
      split: td_pc.splits list.splits option.splits prod.splits if_splits)

lemma ids_kept_admit:
  assumes "acquire_admit U req s = (res, s')"
  shows "ids_kept (sv_registry s) (sv_registry s')"
  using assms by (cases rule: acquire_admit_effect) (auto intro: ids_kept_ensure)

lemma ids_kept_step:
  assumes "coord_step U w w'"
  shows "ids_kept (sv_registry (co_server w)) (sv_registry (co_server w'))"
  using assms
proof cases
  case (step_begin external state t s)
  then show ?thesis
    by (auto simp: begin_teardown_def beginTeardown_def split: option.splits if_splits prod.splits
        intro!: ids_kept_update_txn)
next
  case (step_renew now raw res s)
  then show ?thesis
    by (auto simp: Server_RenewLease_def renew_def split: sum.splits option.splits if_splits prod.splits
        intro!: ids_kept_update_txn)
next
  case (step_td_fail t pc now e s)
  then show ?thesis using ids_kept_td [OF step_td_fail(3)] by (simp add: scheduleRetry_def Let_def)
next
  case (step_prune now)
  then show ?thesis by (simp add: ids_kept_def known_def prune_def)
qed (auto dest: ids_kept_advance ids_kept_td ids_kept_admit)

lemma ids_kept_reaches:
  "reaches (coord_step U) w w' \<Longrightarrow> ids_kept (sv_registry (co_server w)) (sv_registry (co_server w'))"
  by (induction rule: reaches.induct) (auto simp: ids_kept_def dest!: ids_kept_step)

text \<open>
  C15. Internal ids are never recycled. In any run of the coordinator, however its handlers
  interleave and whatever is pruned meanwhile, an internal lock-manager id that stood for one
  external transaction at some moment stands for no other external transaction at any later
  moment, so no transaction can inherit another one's locks.
\<close>

theorem coord_internal_ids_not_recycled:
  assumes "reaches (coord_step U) (coord_init cfg db) w" and "reaches (coord_step U) w w'"
    and "map_of (byID (sv_registry (co_server w))) u = Some t"
    and "map_of (byID (sv_registry (co_server w'))) u' = Some t"
  shows "u' = u"
proof -
  have "coord_inv w" using coordsys.reachable_inv [OF assms(1)] .
  moreover from this have "coord_inv w'" using coordsys.reachable_from [OF assms(2)] by simp
  ultimately have r: "reg_inv (sv_registry (co_server w))" "reg_inv (sv_registry (co_server w'))"
    by (simp_all add: coord_inv_def ids_ok_def)
  have "known (sv_registry (co_server w)) t" using known_byID [OF r(1) assms(3)] .
  then show ?thesis
    using ids_kept_reaches [OF assms(2)] reg_invD(1) [OF r(1) assms(3)] reg_invD(1) [OF r(2) assms(4)]
    by (auto simp: ids_kept_def)
qed

text \<open>
  C16. No lock outlives its transaction. In every reachable state of the coordinator, however
  \<open>Acquire\<close> calls, teardowns, retries, renewals and sweeps interleave, a transaction whose
  teardown is complete and which has no \<open>Acquire\<close> call left in flight holds no lock at all.
\<close>

theorem coord_finished_holds_nothing:
  assumes "reaches (coord_step U) (coord_init cfg db) w"
    and "tx_finished (sv_txn (co_server w) t)"
    and "\<forall>i c. co_calls w i = Some c \<longrightarrow> ac_txn c \<noteq> t"
  shows "held_mode (sv_lm (co_server w)) t r = None"
proof -
  have "locks_ok (sv_lm (co_server w)) (sv_registry (co_server w)) (co_calls w) (co_tds w)"
    using coordsys.reachable_inv [OF assms(1)] by (simp add: coord_inv_def)
  moreover have "over (sv_registry (co_server w)) (co_tds w) t"
    using assms(2) by (simp add: over_def sv_txn_def)
  ultimately show ?thesis
    using assms(3) unfolding locks_ok_def by (cases "held_mode (sv_lm (co_server w)) t r") blast+
qed

text \<open>
  C17. A transaction that is over stays over. While its tombstone is in the table, an \<open>Acquire\<close>
  and a \<open>RenewLease\<close> under its id are refused with \<open>FailedPrecondition\<close>, ending it again
  reports nothing released, and none of the three changes the server.
\<close>

theorem coord_tombstone_refuses:
  assumes "parseTxnID U raw = Inr u" and "map_of (byID (sv_registry s)) u = Some t"
    and "tx_finished (sv_txn s t)"
    and "rq_TransactionId req = raw" and "resourceFromProto (rq_Resource req) = Inr r"
    and "modeFromProto (rq_Mode req) = Inr m"
  shows "(\<exists>msg. Server_Acquire U now ctx req s = (Inr (Inl (Status FailedPrecondition msg)), s)) \<and>
    (\<exists>msg. Server_RenewLease U now raw s = (Inl (Status FailedPrecondition msg), s)) \<and>
    EndTransaction U now raw s = (Inr 0, s)"
  using assms
  by (auto simp: Server_Acquire_def acquire_admit_def ensure_def sv_txn_def Server_RenewLease_def
      renew_def EndTransaction_def begin_teardown_def beginTeardown_def set_registry_def
      errTxnIDsExhausted_def)

section \<open>The sweeper\<close>

text \<open>One revocation touches the transaction it names and no other.\<close>

definition sweep_ok :: "'d Server \<Rightarrow> bool" where
  "sweep_ok s \<longleftrightarrow> reg_inv (sv_registry s) \<and> lm_inv (sv_lm s)"

lemma teardown_frame:
  assumes ok: "sweep_ok s" and "teardown U now t s = (res, s')"
    and t: "map_of (byID (sv_registry s)) (tx_external (sv_txn s t)) = Some t"
  shows "sweep_ok s'" "byID (sv_registry s') = byID (sv_registry s)"
    "t' \<noteq> t \<Longrightarrow> sv_txn s' t' = sv_txn s t'"
    "t' \<noteq> t \<Longrightarrow> held_mode (sv_lm s') t' r = held_mode (sv_lm s) t' r"
proof -
  have *: "sweep_ok s' \<and> byID (sv_registry s') = byID (sv_registry s) \<and>
     (t' \<noteq> t \<longrightarrow> sv_txn s' t' = sv_txn s t' \<and> held_mode (sv_lm s') t' r = held_mode (sv_lm s) t' r)"
  proof (cases res)
    case (Inl e)
    with teardown_failed [of U now t s e s'] assms show ?thesis by (simp add: sweep_ok_def sv_txn_def)
  next
    case (Inr n)
    have "reg_inv (update_txn t (\<lambda>tx. tx\<lparr>tx_finished := True, tx_finishedAt := now\<rparr>) (sv_registry s))"
      using ok by (intro reg_inv_update_txn) (simp_all add: sweep_ok_def)
    with assms(2) [unfolded Inr] show ?thesis
      using ok t
      by (elim teardown_done)
         (simp add: sweep_ok_def finish_def lms.ok_release_all lms.holds_release_all sv_txn_def)
  qed
  then show "sweep_ok s'" "byID (sv_registry s') = byID (sv_registry s)"
    "t' \<noteq> t \<Longrightarrow> sv_txn s' t' = sv_txn s t'"
    "t' \<noteq> t \<Longrightarrow> held_mode (sv_lm s') t' r = held_mode (sv_lm s) t' r" by blast+
qed

lemma scheduleRetry_simps [simp]:
  "sv_registry (scheduleRetry t s) = sv_registry s" "sv_lm (scheduleRetry t s) = sv_lm s"
  "sv_txn (scheduleRetry t s) = sv_txn s" "sweep_ok (scheduleRetry t s) = sweep_ok s"
  by (simp_all add: scheduleRetry_def Let_def sv_txn_def sweep_ok_def fun_eq_iff)

lemma begin_teardown_frame:
  assumes ok: "sweep_ok s" and "begin_teardown u state s = (tt, s')"
  shows "sweep_ok s'" "byID (sv_registry s') = byID (sv_registry s)" "sv_lm s' = sv_lm s"
    "tt = None \<Longrightarrow> sv_txn s' = sv_txn s"
    "tt = Some t \<Longrightarrow> map_of (byID (sv_registry s)) u = Some t \<and> tx_external (sv_txn s' t) = u
       \<and> (\<forall>t'. t' \<noteq> t \<longrightarrow> sv_txn s' t' = sv_txn s t')"
  using assms reg_invD(1) [of "sv_registry s" u]
  by (auto simp: begin_teardown_def beginTeardown_def sweep_ok_def sv_txn_def fun_eq_iff
      intro!: reg_inv_update_txn split: option.splits if_splits prod.splits)

lemma revoke_frame:
  assumes ok: "sweep_ok s" and t': "map_of (byID (sv_registry s)) u' = Some t'" "u' \<noteq> u"
  shows "sweep_ok (revoke U now u s) \<and> byID (sv_registry (revoke U now u s)) = byID (sv_registry s) \<and>
    sv_txn (revoke U now u s) t' = sv_txn s t' \<and>
    held_mode (sv_lm (revoke U now u s)) t' r = held_mode (sv_lm s) t' r"
proof -
  obtain tt s1 where b: "begin_teardown u txnRevoking s = (tt, s1)" by fastforce
  note f = begin_teardown_frame [OF ok b]
  show ?thesis
  proof (cases tt)
    case None
    with b f show ?thesis by (simp add: revoke_def)
  next
    case (Some t)
    have ext: "map_of (byID (sv_registry s1)) (tx_external (sv_txn s1 t)) = Some t"
      using f(2,5) Some by simp
    have ne: "t' \<noteq> t"
      using reg_inv_inject [of "sv_registry s" u' t u] ok t' f(5) [OF Some] by (auto simp: sweep_ok_def)
    obtain res s2 where td: "teardown U now t s1 = (res, s2)" by fastforce
    note g = teardown_frame(1,2) [OF f(1) td ext] teardown_frame(3,4) [OF f(1) td ext ne]
    have "revoke U now u s = s2 \<or> revoke U now u s = scheduleRetry t s2"
      using b Some td by (cases res) (simp_all add: revoke_def)
    with g f Some ne show ?thesis by auto
  qed
qed

lemma revoke_all_frame:
  assumes "sweep_ok s" and "map_of (byID (sv_registry s)) u' = Some t'" "u' \<notin> set us"
  shows "sv_txn (fold (revoke U now) us s) t' = sv_txn s t' \<and>
    held_mode (sv_lm (fold (revoke U now) us s)) t' r = held_mode (sv_lm s) t' r \<and>
    byID (sv_registry (fold (revoke U now) us s)) = byID (sv_registry s)"
  using assms
proof (induction us arbitrary: s)
  case (Cons u us)
  from revoke_frame [OF Cons.prems(1,2), of u U now r] Cons.prems(3)
  have r: "sweep_ok (revoke U now u s)" "byID (sv_registry (revoke U now u s)) = byID (sv_registry s)"
    "sv_txn (revoke U now u s) t' = sv_txn s t'"
    "held_mode (sv_lm (revoke U now u s)) t' r = held_mode (sv_lm s) t' r" by auto
  from Cons.IH [OF r(1)] r Cons.prems show ?case by simp
qed simp


end
