(* ===== verification/Coordinator_Runs.thy ===== *)
theory Coordinator_Runs
  imports Coordinator_Thms
begin

text \<open>
  Concrete runs of the coordinator: a scheduler that executes a script of actions as steps of
  the system, the interleaving in which a transaction is sent a fresh fencing token for a lock
  it has lost, and the witnesses of the theorems about the coordinator.
\<close>

section \<open>A scheduler\<close>

datatype action =
    Admit nat AcquireRequest
  | Advance nat int
  | Begin uuid lifecycle
  | Teardown TxnID int

fun exec1 :: "uuid_lib \<Rightarrow> action \<Rightarrow> 'd coord \<Rightarrow> 'd coord" where
  "exec1 U (Admit i req) w =
     (case acquire_admit U req (co_server w) of
        (Inr c, s) \<Rightarrow> if co_calls w i = None
          then w\<lparr>co_server := s, co_calls := (co_calls w)(i \<mapsto> c)\<rparr> else w
      | (Inl e, s) \<Rightarrow> w\<lparr>co_server := s\<rparr>)"
| "exec1 U (Advance i now) w =
     (case co_calls w i of
        None \<Rightarrow> w
      | Some c \<Rightarrow>
         (case acquire_advance U now Background c (co_server w) of
            (Inl c', s) \<Rightarrow> w\<lparr>co_server := s, co_calls := (co_calls w)(i \<mapsto> c')\<rparr>
          | (Inr (Inl e), s) \<Rightarrow> w\<lparr>co_server := s, co_calls := (co_calls w)(i := None)\<rparr>
          | (Inr (Inr resp), s) \<Rightarrow> w\<lparr>co_server := s, co_calls := (co_calls w)(i := None),
              co_sent := (ac_external c, ac_resource c, ac_mode c, FencingToken resp) # co_sent w\<rparr>))"
| "exec1 U (Begin u state) w =
     (case begin_teardown u state (co_server w) of
        (Some t, s) \<Rightarrow> if state = txnActive then w
          else w\<lparr>co_server := s, co_tds := (co_tds w)(t \<mapsto> TdMarked)\<rparr>
      | (None, s) \<Rightarrow> w)"
| "exec1 U (Teardown t now) w =
     (case co_tds w t of
        None \<Rightarrow> w
      | Some pc \<Rightarrow>
         (case td_advance U now t pc (co_server w) of
            (Inl pc', s) \<Rightarrow> w\<lparr>co_server := s, co_tds := (co_tds w)(t \<mapsto> pc')\<rparr>
          | (Inr (Inr n), s) \<Rightarrow> w\<lparr>co_server := s\<lparr>sv_retrying :=
              AList.delete (tx_external (sv_txn (co_server w) t)) (sv_retrying s)\<rparr>,
              co_tds := (co_tds w)(t := None)\<rparr>
          | (Inr (Inl e), s) \<Rightarrow> w\<lparr>co_server := scheduleRetry t s, co_tds := (co_tds w)(t := None)\<rparr>))"

lemma exec1_step: "exec1 U a w = w \<or> coord_step U w (exec1 U a w)"
proof (cases a)
  case (Admit i req)
  then show ?thesis by (auto split: prod.splits sum.splits intro: coord_step.intros)
next
  case (Advance i now)
  then show ?thesis by (auto split: prod.splits sum.splits option.splits intro: coord_step.intros)
next
  case (Begin u state)
  then show ?thesis by (auto split: prod.splits option.splits intro: coord_step.intros)
next
  case (Teardown t now)
  then show ?thesis by (auto split: prod.splits sum.splits option.splits intro: coord_step.intros)
qed

definition exec :: "uuid_lib \<Rightarrow> action list \<Rightarrow> 'd coord \<Rightarrow> 'd coord" where
  "exec U as w = foldl (\<lambda>w a. exec1 U a w) w as"

lemma exec_reaches: "reaches (coord_step U) w (exec U as w)"
proof (induction as rule: rev_induct)
  case (snoc a as)
  then show ?case
    using exec1_step [of U a "exec U as w"]
    by (auto simp: exec_def intro: reaches_step)
qed (simp add: exec_def reaches_refl)

section \<open>A stale grant\<close>

definition ex_cfg :: "mongo_db ServerConfig" where
  "ex_cfg = \<lparr>cfg_LockManager = None, cfg_Fences = Some (mongo_FenceStore mem_driver),
     cfg_LeaseDuration = 0, cfg_SweepInterval = 0, cfg_CleanupRetryInterval = 0\<rparr>"

definition ex_db :: mongo_db where "ex_db = (\<lambda>c i. None)"

definition ex_req :: "string \<Rightarrow> pb_ResourceType \<Rightarrow> AcquireRequest" where
  "ex_req txn ty = \<lparr>rq_TransactionId = txn, rq_Resource = Some \<lparr>pb_Type = ty, pb_Key = ''k''\<rparr>,
     rq_Mode = LOCK_MODE_EXCLUSIVE\<rparr>"

definition ex_file_k :: ResourceID where "ex_file_k = \<lparr>RType = FileResource, RKey = ''k''\<rparr>"

text \<open>
  Transaction 7 takes a namespace lock, asks for the file lock and is found active; then its
  lease passes and it is revoked; transaction 8 takes the file lock; then the first request goes
  on.
\<close>

definition race_script :: "action list" where
  "race_script =
     Admit 0 (ex_req ''7'' RESOURCE_TYPE_NAMESPACE) # replicate 8 (Advance 0 0) @
     Admit 0 (ex_req ''7'' RESOURCE_TYPE_FILE) # replicate 5 (Advance 0 0) @
     Begin 7 txnRevoking # replicate 6 (Teardown 1 7000000000) @
     Admit 1 (ex_req ''8'' RESOURCE_TYPE_FILE) # replicate 8 (Advance 1 7000000000) @
     replicate 3 (Advance 0 7000000000)"

definition race_state :: "mongo_db coord" where
  "race_state = exec dec_uuid race_script (coord_init ex_cfg ex_db)"

definition race_summary :: "mongo_db coord \<Rightarrow> _" where
  "race_summary w =
     (let s = co_server w; lm = sv_lm s
      in (co_sent w, tx_finished (sv_txn s 1), held_mode lm 1 ex_file_k, held_mode lm 2 ex_file_k,
          fence_owner (sv_db s) (fence_key ex_file_k), fence_token (sv_db s) (fence_key ex_file_k),
          co_calls w 0 = None \<and> co_calls w 1 = None, map_of (byID (sv_registry s)) 7))"

lemma race_eval: "race_summary race_state =
   ([(7, ex_file_k, ExclusiveLock, 2), (8, ex_file_k, ExclusiveLock, 1),
     (7, \<lparr>RType = NamespaceResource, RKey = ''k''\<rparr>, ExclusiveLock, 1)],
    True, None, Some ExclusiveLock, Some (uuid_String dec_uuid 7), 2, True, Some 1)"
  by code_simp

text \<open>At the moment of the revocation the lease of transaction 7 has indeed passed.\<close>

lemma race_lease_passed:
  "7 \<in> set (expired 7000000000 (sv_registry (co_server
     (exec dec_uuid (take 15 race_script) (coord_init ex_cfg ex_db)))))"
  by code_simp

lemma race_facts:
  "co_sent race_state =
     [(7, ex_file_k, ExclusiveLock, 2), (8, ex_file_k, ExclusiveLock, 1),
      (7, \<lparr>RType = NamespaceResource, RKey = ''k''\<rparr>, ExclusiveLock, 1)]"
  "tx_finished (sv_txn (co_server race_state) 1)"
  "held_mode (sv_lm (co_server race_state)) 1 ex_file_k = None"
  "held_mode (sv_lm (co_server race_state)) 2 ex_file_k = Some ExclusiveLock"
  "fence_owner (sv_db (co_server race_state)) (fence_key ex_file_k) = Some (uuid_String dec_uuid 7)"
  "fence_token (sv_db (co_server race_state)) (fence_key ex_file_k) = 2"
  "co_calls race_state 0 = None" "co_calls race_state 1 = None"
  "map_of (byID (sv_registry (co_server race_state))) 7 = Some 1"
  using race_eval by (simp_all add: race_summary_def Let_def)

text \<open>
  C19. A lost lock with the newest token. Between the check that the transaction is still active
  and the allocation of its token, the coordinator holds nothing that keeps a revocation out.
  There is a run in which transaction 7 is revoked at that point, its locks are released and its
  teardown completes, transaction 8 is granted the file exclusively with token 1, and transaction
  7 is then sent a grant of the same file with token 2: the fence names the finished transaction
  as the owner, with the newest token, while the lock belongs to the other one. A commit of
  transaction 7 passes fence validation and the holder's own commit does not.
\<close>

theorem coord_stale_grant_race:
  "\<exists>w. reaches (coord_step dec_uuid) (coord_init ex_cfg ex_db) w \<and>
     (8, ex_file_k, ExclusiveLock, 1) \<in> set (co_sent w) \<and>
     (7, ex_file_k, ExclusiveLock, 2) \<in> set (co_sent w) \<and>
     tx_finished (sv_txn (co_server w) 1) \<and>
     held_mode (sv_lm (co_server w)) 1 ex_file_k = None \<and>
     held_mode (sv_lm (co_server w)) 2 ex_file_k = Some ExclusiveLock \<and>
     fence_owner (sv_db (co_server w)) (fence_key ex_file_k) = Some (uuid_String dec_uuid 7) \<and>
     fence_token (sv_db (co_server w)) (fence_key ex_file_k) = 2"
proof (intro exI conjI)
  show "reaches (coord_step dec_uuid) (coord_init ex_cfg ex_db) race_state"
    unfolding race_state_def by (rule exec_reaches)
qed (simp_all add: race_facts)

section \<open>Witnesses\<close>

definition ex_server :: "mongo_db Server" where
  "ex_server = NewServerWithConfig ex_cfg ex_db"

definition ex_reqA :: AcquireRequest where "ex_reqA = ex_req ''7'' RESOURCE_TYPE_FILE"

definition ex_call :: acall where
  "ex_call = projr (fst (acquire_admit dec_uuid ex_reqA ex_server))"

definition ex_admitted :: "mongo_db Server" where
  "ex_admitted = snd (acquire_admit dec_uuid ex_reqA ex_server)"

definition ex_resp :: AcquireResponse where
  "ex_resp = projr (projr (fst (Server_Acquire dec_uuid 5 Background ex_reqA ex_server)))"

definition ex_granted :: "mongo_db Server" where
  "ex_granted = snd (Server_Acquire dec_uuid 5 Background ex_reqA ex_server)"

lemma ex_admit: "acquire_admit dec_uuid ex_reqA ex_server = (Inr ex_call, ex_admitted)"
proof -
  have "\<not> isl (fst (acquire_admit dec_uuid ex_reqA ex_server))" by code_simp
  then show ?thesis by (simp add: ex_call_def ex_admitted_def prod_eq_iff)
qed

lemma ex_reply:
  "Server_Acquire dec_uuid 5 Background ex_reqA ex_server = (Inr (Inr ex_resp), ex_granted)"
proof -
  have "\<not> isl (fst (Server_Acquire dec_uuid 5 Background ex_reqA ex_server))"
    "\<not> isl (projr (fst (Server_Acquire dec_uuid 5 Background ex_reqA ex_server)))" by code_simp+
  then show ?thesis by (simp add: ex_resp_def ex_granted_def prod_eq_iff)
qed

lemma ex_good: "fences_good mem_driver id (sv_db ex_server)"
  by (simp add: fences_good_def mem_driver_ok fences_wf_def ex_server_def NewServerWithConfig_def
      Let_def ex_db_def)

lemma ex_fences: "sv_fences ex_server = Some (mongo_FenceStore mem_driver)"
  by (simp add: ex_server_def NewServerWithConfig_def Let_def ex_cfg_def)

lemma ex_lm: "lm_inv (sv_lm ex_server)"
  using lm_inv_new by (simp add: ex_server_def NewServerWithConfig_def Let_def ex_cfg_def)

lemma ex_call_facts:
  "heldGrant (ac_txn ex_call) (ac_resource ex_call) ex_admitted = None"
  "ac_mode ex_call = ExclusiveLock" "\<not> tx_finished (sv_txn ex_admitted (ac_txn ex_call))"
  "held_mode (sv_lm ex_server) (ac_txn ex_call) (ac_resource ex_call) = None"
  by code_simp+


theorem coord_acquire_retry_witness:
  "\<exists>resp. Server_Acquire dec_uuid 9 Background ex_reqA ex_granted = (Inr (Inr resp), ex_granted) \<and>
     FencingToken resp = FencingToken ex_resp"
  using coord_acquire_retry [OF ex_admit ex_call_facts(1,3) ex_reply] .

text \<open>A request whose caller has already gone is admitted, refused, and leaves nothing held.\<close>

definition gone :: go_context where
  "gone = \<lparr>ctx_Err = Some Canceled, ctx_Done = True, ctx_Deadline = False\<rparr>"

definition ex_refused :: "mongo_db Server" where
  "ex_refused = snd (Server_Acquire dec_uuid 5 gone ex_reqA ex_server)"

lemma ex_refusal: "Server_Acquire dec_uuid 5 gone ex_reqA ex_server =
   (Inr (Inl (Status CanceledCode ''context canceled'')), ex_refused)"
proof -
  have "fst (Server_Acquire dec_uuid 5 gone ex_reqA ex_server) =
      Inr (Inl (Status CanceledCode ''context canceled''))" by code_simp
  then show ?thesis by (simp add: ex_refused_def prod_eq_iff)
qed


definition ex_torn :: "mongo_db Server" where
  "ex_torn = snd (teardown dec_uuid 6 (ac_txn ex_call) ex_granted)"

lemma ex_teardown: "teardown dec_uuid 6 (ac_txn ex_call) ex_granted = (Inr 1, ex_torn)"
proof -
  have "fst (teardown dec_uuid 6 (ac_txn ex_call) ex_granted) = Inr 1" by code_simp
  then show ?thesis by (simp add: ex_torn_def prod_eq_iff)
qed

theorem coord_teardown_fences_first_witness:
  "\<forall>r. held_mode (sv_lm ex_torn) (ac_txn ex_call) r = None"
  using coord_teardown_fences_first
    [OF acquire_reply_keeps_good [OF ex_good ex_fences ex_lm ex_admit ex_call_facts(1) ex_reply] ex_teardown]
  by simp

theorem coord_refusal_reported_as_revocation_witness:
  "fst (acquire_advance dec_uuid 5 Background
      (ex_call\<lparr>ac_pc := LockRefused (ErrorMsg ''lockmanager: txn already holds resource'')\<rparr>) ex_server) =
    Inr (Inl (Status Aborted ''grpccoord: transaction was revoked while waiting''))"
  by (rule coord_refusal_reported_as_revocation) simp_all

lemma race_reachable: "reaches (coord_step dec_uuid) (coord_init ex_cfg ex_db) race_state"
  unfolding race_state_def by (rule exec_reaches)

theorem coord_internal_ids_not_recycled_witness:
  "map_of (byID (sv_registry (co_server race_state))) 7 = Some 1 \<and> (7 :: uuid) = 7"
  using coord_internal_ids_not_recycled [OF race_reachable reaches_refl race_facts(9) race_facts(9)]
    race_facts(9) by simp

fun touches :: "action \<Rightarrow> nat option" where
  "touches (Admit i req) = Some i"
| "touches (Advance i now) = Some i"
| "touches _ = None"

lemma exec1_calls: "touches a \<noteq> Some i \<Longrightarrow> co_calls (exec1 U a w) i = co_calls w i"
  by (cases a) (auto split: prod.splits sum.splits option.splits)

lemma exec_calls:
  assumes "Some i \<notin> touches ` set as"
  shows "co_calls (exec U as w) i = co_calls w i"
  using assms
proof (induction as arbitrary: w)
  case (Cons a as)
  from Cons.prems have "touches a \<noteq> Some i" "Some i \<notin> touches ` set as" by auto
  with Cons.IH [of "exec1 U a w"] exec1_calls show ?case by (simp add: exec_def)
qed (simp add: exec_def)

lemma race_no_calls: "co_calls race_state i = None"
proof (cases "i = 0 \<or> i = 1")
  case True
  then show ?thesis using race_facts(7,8) by auto
next
  case False
  then have "Some i \<notin> touches ` set race_script"
    by (auto simp: race_script_def set_replicate_conv_if)
  then show ?thesis unfolding race_state_def by (simp add: exec_calls coord_init_def)
qed

theorem coord_finished_holds_nothing_witness:
  "tx_finished (sv_txn (co_server race_state) 1) \<and>
   held_mode (sv_lm (co_server race_state)) 1 ex_file_k = None"
  using coord_finished_holds_nothing [OF race_reachable race_facts(2)] race_no_calls race_facts(2)
  by simp

lemma ex_parse: "parseTxnID dec_uuid ''7'' = Inr 7" by code_simp

lemma race_request:
  "resourceFromProto (rq_Resource (ex_req ''7'' RESOURCE_TYPE_FILE)) = Inr ex_file_k"
  "modeFromProto (rq_Mode (ex_req ''7'' RESOURCE_TYPE_FILE)) = Inr ExclusiveLock"
  "rq_TransactionId (ex_req ''7'' RESOURCE_TYPE_FILE) = ''7''"
  by code_simp+

theorem coord_tombstone_refuses_witness:
  "EndTransaction dec_uuid 9 ''7'' (co_server race_state) = (Inr 0, co_server race_state)"
  using coord_tombstone_refuses [OF ex_parse race_facts(9) race_facts(2) race_request(3,1,2)] by blast

lemma ex_granted_facts:
  "reg_inv (sv_registry ex_granted)" "lm_inv (sv_lm ex_granted)"
  "map_of (byID (sv_registry ex_granted)) 7 = Some 1"
  "(100 :: int) \<le> tx_leaseDeadline (sv_txn ex_granted 1)"
  "held_mode (sv_lm ex_granted) 1 ex_file_k = Some ExclusiveLock"
proof -
  show "lm_inv (sv_lm ex_granted)"
    using acquire_reply_keeps_good(3) [OF ex_good ex_fences ex_lm ex_admit ex_call_facts(1) ex_reply] .
  have "byID (sv_registry ex_granted) = [(7, 1)]" "tx_external (txns (sv_registry ex_granted) 1) = 7"
    "reg_next (sv_registry ex_granted) = 1" by code_simp+
  then show "reg_inv (sv_registry ex_granted)" by (simp add: reg_inv_def)
  show "map_of (byID (sv_registry ex_granted)) 7 = Some 1"
    "(100 :: int) \<le> tx_leaseDeadline (sv_txn ex_granted 1)"
    "held_mode (sv_lm ex_granted) 1 ex_file_k = Some ExclusiveLock" by code_simp+
qed


end
