(* ===== verification/Coord_Background.thy ===== *)
theory Coord_Background
  imports Coordinator_Thms
begin

text \<open>
  The coordinator's goroutines and \<open>Server.Stop\<close>: the lease sweeper started by
  \<open>NewServerWithConfig\<close>, one retry goroutine for each transaction whose cleanup failed
  (\<open>scheduleRetry\<close>), and the stop channel they all watch. A \<open>select\<close> whose ticker and stop channel
  are both ready takes either. A handler that is still running may schedule further retries.
\<close>

section \<open>The goroutines\<close>

text \<open>
  \<open>bg_stop\<close>: the stop channel is closed; \<open>bg_returned\<close>: a call of \<open>Stop\<close> has returned. The retry
  goroutines are those of \<open>sv_retrying\<close>.
\<close>

record 'd background =
  bg_server :: "'d Server"
  bg_sweeper :: bool
  bg_stop :: bool
  bg_returned :: bool

definition bg_start :: "'d ServerConfig \<Rightarrow> 'd \<Rightarrow> 'd background" where
  "bg_start cfg db = \<lparr>bg_server = NewServerWithConfig cfg db, bg_sweeper = True, bg_stop = False, bg_returned = False\<rparr>"

text \<open>\<open>Stop\<close> up to its wait: the channel is closed once.\<close>

definition Stop :: "'d background \<Rightarrow> 'd background" where
  "Stop b = b\<lparr>bg_stop := True\<rparr>"

text \<open>The retry goroutine of \<open>external\<close> sees the stop channel: its deferred call leaves the set.\<close>

definition retry_stop :: "uuid \<Rightarrow> 'd Server \<Rightarrow> 'd Server" where
  "retry_stop external s = s\<lparr>sv_retrying := AList.delete external (sv_retrying s)\<rparr>"

inductive bg_step :: "uuid_lib \<Rightarrow> 'd background \<Rightarrow> 'd background \<Rightarrow> bool" for U where
  bg_end: "EndTransaction U now raw (bg_server b) = (res, s) \<Longrightarrow> bg_step U b (b\<lparr>bg_server := s\<rparr>)"
| bg_acquire: "Server_Acquire U now ctx req (bg_server b) = (out, s) \<Longrightarrow> bg_step U b (b\<lparr>bg_server := s\<rparr>)"
| bg_renew: "Server_RenewLease U now raw (bg_server b) = (ans, s) \<Longrightarrow> bg_step U b (b\<lparr>bg_server := s\<rparr>)"
| bg_sweep: "bg_sweeper b \<Longrightarrow> bg_step U b (b\<lparr>bg_server := sweepLeases U now (bg_server b)\<rparr>)"
| bg_sweeper_stops: "bg_sweeper b \<Longrightarrow> bg_stop b \<Longrightarrow> bg_step U b (b\<lparr>bg_sweeper := False\<rparr>)"
| bg_retry: "(external, t) \<in> set (sv_retrying (bg_server b)) \<Longrightarrow>
     bg_step U b (b\<lparr>bg_server := retry_tick U now t (bg_server b)\<rparr>)"
| bg_retry_stops: "(external, t) \<in> set (sv_retrying (bg_server b)) \<Longrightarrow> bg_stop b \<Longrightarrow>
     bg_step U b (b\<lparr>bg_server := retry_stop external (bg_server b)\<rparr>)"
| bg_Stop: "bg_step U b (Stop b)"
| bg_Stop_returns: "bg_stop b \<Longrightarrow> \<not> bg_sweeper b \<Longrightarrow> sv_retrying (bg_server b) = [] \<Longrightarrow>
     bg_step U b (b\<lparr>bg_returned := True\<rparr>)"

section \<open>Stopping\<close>

text \<open>The steps that a stopping server takes by itself: none of them needs the fence store.\<close>

definition winding_down :: "uuid_lib \<Rightarrow> 'd background \<Rightarrow> 'd background \<Rightarrow> bool" where
  "winding_down U b b' \<longleftrightarrow> bg_step U b b' \<and> bg_stop b' \<and>
     (\<exists>rs. bg_server b' = (bg_server b)\<lparr>sv_retrying := rs\<rparr> \<and> length rs \<le> length (sv_retrying (bg_server b)))"

lemma delete_shorter: "(k, v) \<in> set xs \<Longrightarrow> length (AList.delete k xs) < length xs"
  by (auto simp: AList.delete_eq intro!: length_filter_less)

lemma retries_stop:
  assumes "bg_stop b"
  shows "\<exists>c. reaches (winding_down U) b c \<and> c = b\<lparr>bg_server := (bg_server b)\<lparr>sv_retrying := []\<rparr>\<rparr>"
  using assms
proof (induction "length (sv_retrying (bg_server b))" arbitrary: b rule: less_induct)
  case less
  show ?case
  proof (cases "sv_retrying (bg_server b)")
    case Nil
    then have "b\<lparr>bg_server := (bg_server b)\<lparr>sv_retrying := []\<rparr>\<rparr> = b" by simp
    then show ?thesis by (simp add: reaches_refl)
  next
    case (Cons p rest)
    obtain external t where p: "(external, t) \<in> set (sv_retrying (bg_server b))"
      using Cons by (cases p) auto
    let ?b = "b\<lparr>bg_server := retry_stop external (bg_server b)\<rparr>"
    have shorter: "length (sv_retrying (bg_server ?b)) < length (sv_retrying (bg_server b))"
      using delete_shorter [OF p] by (simp add: retry_stop_def)
    have "winding_down U b ?b"
      using bg_retry_stops [OF p less.prems, of U] less.prems delete_shorter [OF p]
      by (auto simp: winding_down_def retry_stop_def intro: exI [of _ "AList.delete external (sv_retrying (bg_server b))"])
    moreover have "?b\<lparr>bg_server := (bg_server ?b)\<lparr>sv_retrying := []\<rparr>\<rparr> = b\<lparr>bg_server := (bg_server b)\<lparr>sv_retrying := []\<rparr>\<rparr>"
      by (simp add: retry_stop_def)
    ultimately show ?thesis
      using less.hyps [OF shorter] less.prems reaches_first [of "winding_down U"] by fastforce
  qed
qed

lemma stop_returns:
  assumes "bg_stop b"
  shows "\<exists>c. reaches (winding_down U) b c \<and> bg_returned c \<and> \<not> bg_sweeper c \<and>
     bg_server c = (bg_server b)\<lparr>sv_retrying := []\<rparr>"
proof -
  let ?c = "b\<lparr>bg_server := (bg_server b)\<lparr>sv_retrying := []\<rparr>\<rparr>"
  from retries_stop [OF assms] have c: "reaches (winding_down U) b ?c" by blast
  have last: "winding_down U (?c\<lparr>bg_sweeper := False\<rparr>) (?c\<lparr>bg_sweeper := False, bg_returned := True\<rparr>)"
    using bg_Stop_returns [of "?c\<lparr>bg_sweeper := False\<rparr>" U] assms by (simp add: winding_down_def)
  have "reaches (winding_down U) b (?c\<lparr>bg_sweeper := False\<rparr>)"
  proof (cases "bg_sweeper b")
    case True
    then have "winding_down U ?c (?c\<lparr>bg_sweeper := False\<rparr>)"
      using bg_sweeper_stops [of ?c U] assms by (simp add: winding_down_def)
    with c show ?thesis by (rule reaches_step)
  next
    case False
    then have "?c\<lparr>bg_sweeper := False\<rparr> = ?c" by simp
    with c show ?thesis by simp
  qed
  from reaches_step [where step = "winding_down U", OF this last]
  show ?thesis by (intro exI [of _ "?c\<lparr>bg_sweeper := False, bg_returned := True\<rparr>"]) simp
qed

interpretation bgi: inductive_invariant "bg_start cfg db" "bg_step U" "\<lambda>b. bg_returned b \<longrightarrow> bg_stop b \<and> \<not> bg_sweeper b"
  for cfg db U
proof (unfold_locales, goal_cases)
  case 1
  show ?case by (simp add: bg_start_def)
next
  case (2 b c)
  from 2(2,1) show ?case by (induction rule: bg_step.induct) (simp_all add: Stop_def)
qed

text \<open>What can still change the server is a request, or a goroutine that watches the stop channel.\<close>

definition by_request :: "uuid_lib \<Rightarrow> 'd Server \<Rightarrow> 'd Server \<Rightarrow> bool" where
  "by_request U s s' \<longleftrightarrow> (\<exists>now raw. s' = snd (EndTransaction U now raw s)) \<or>
     (\<exists>now ctx req. s' = snd (Server_Acquire U now ctx req s)) \<or> (\<exists>now raw. s' = snd (Server_RenewLease U now raw s))"

lemma stopped_step:
  assumes "bg_step U b c" "\<not> bg_sweeper b" "sv_retrying (bg_server b) = []"
  shows "bg_server c = bg_server b \<or> by_request U (bg_server b) (bg_server c)"
  using assms(1)
proof cases
  case (bg_end now raw res s)
  then have "bg_server c = snd (EndTransaction U now raw (bg_server b))" by simp
  then show ?thesis unfolding by_request_def by blast
next
  case (bg_acquire now ctx req out s)
  then have "bg_server c = snd (Server_Acquire U now ctx req (bg_server b))" by simp
  then show ?thesis unfolding by_request_def by blast
next
  case (bg_renew now raw ans s)
  then have "bg_server c = snd (Server_RenewLease U now raw (bg_server b))" by simp
  then show ?thesis unfolding by_request_def by blast
qed (use assms in \<open>auto simp: Stop_def\<close>)


text \<open>A fence store that has become unreachable, and a transaction whose end could not be cleaned up.\<close>

definition down_fences :: "unit FenceStore" where
  "down_fences = \<lparr>fs_Allocate = (\<lambda>now r t d. (Inr 1, d)), fs_Invalidate = (\<lambda>now r t d. (Some (ErrorMsg ''unreachable''), d))\<rparr>"

definition down_cfg :: "unit ServerConfig" where
  "down_cfg = \<lparr>cfg_LockManager = None, cfg_Fences = Some down_fences, cfg_LeaseDuration = 0, cfg_SweepInterval = 0,
     cfg_CleanupRetryInterval = 0\<rparr>"

definition down_request :: AcquireRequest where
  "down_request = \<lparr>rq_TransactionId = uuid_String dec_uuid 7,
     rq_Resource = Some \<lparr>pb_Type = RESOURCE_TYPE_FILE, pb_Key = ''f''\<rparr>, rq_Mode = LOCK_MODE_EXCLUSIVE\<rparr>"

definition down_run :: "unit background" where
  "down_run =
     (let b0 = bg_start down_cfg ();
          b1 = b0\<lparr>bg_server := snd (Server_Acquire dec_uuid 1 Background down_request (bg_server b0))\<rparr>;
          b2 = b1\<lparr>bg_server := snd (EndTransaction dec_uuid 2 (uuid_String dec_uuid 7) (bg_server b1))\<rparr>
      in Stop b2)"

lemma down_run_state:
  "sv_retrying (bg_server down_run) = [(7, 1)]" "HeldCount 1 (sv_lm (bg_server down_run)) = 1" "bg_stop down_run"
  by code_simp+

lemma bg_requests:
  "bg_step U b (b\<lparr>bg_server := snd (Server_Acquire U now ctx req (bg_server b))\<rparr>)"
  "bg_step U b (b\<lparr>bg_server := snd (EndTransaction U now raw (bg_server b))\<rparr>)"
  by (rule bg_acquire, rule prod.collapse [symmetric]) (rule bg_end, rule prod.collapse [symmetric])

lemma down_run_reached: "reaches (bg_step dec_uuid) (bg_start down_cfg ()) down_run"
  unfolding down_run_def Let_def
  by (rule reaches_step [where step = "bg_step dec_uuid"], rule reaches_step [where step = "bg_step dec_uuid"],
      rule reaches_step [where step = "bg_step dec_uuid"], rule reaches_refl)
     (rule bg_requests bg_Stop)+

lemma winding_down_steps:
  "reaches (winding_down U) b c \<Longrightarrow> reaches (bg_step U) a b \<Longrightarrow> reaches (bg_step U) a c"
  by (induction rule: reaches.induct) (auto simp: winding_down_def intro: reaches_step)


end
