(* ===== verification/Storage.thy ===== *)
theory Storage
  imports Fencing
begin

text \<open>
  Persistence: the interfaces of \<open>client/storage/storage.go\<close>, the in-memory backend of
  \<open>client/storage/userlib_store.go\<close>, and the MongoDB backend of
  \<open>client/storage/mongostore\<close> with its transactions and fence validation.

  A Go interface value is a record of functions over the state \<open>'s\<close> behind it, so
  \<open>Storage\<close> is such a record for a backend. The locales \<open>object_store\<close>, \<open>key_store\<close> and
  \<open>atomic_store\<close> are the contracts of the three interfaces.
\<close>

section \<open>The interfaces\<close>

type_synonym rsa_public = nat

record PublicKeyType =
  KeyType :: string
  PubKey :: rsa_public

record 's Storage =
  Objects_Get :: "op_context \<Rightarrow> uuid \<Rightarrow> 's \<Rightarrow> (error + bytes option) \<times> 's"
  Objects_Put :: "op_context \<Rightarrow> uuid \<Rightarrow> bytes \<Rightarrow> 's \<Rightarrow> error option \<times> 's"
  Objects_Delete :: "op_context \<Rightarrow> uuid \<Rightarrow> 's \<Rightarrow> error option \<times> 's"
  Keys_Get :: "op_context \<Rightarrow> string \<Rightarrow> 's \<Rightarrow> (error + PublicKeyType option) \<times> 's"
  Keys_Put :: "op_context \<Rightarrow> string \<Rightarrow> PublicKeyType \<Rightarrow> 's \<Rightarrow> error option \<times> 's"
  Atomic :: "(op_context \<Rightarrow> (op_context \<Rightarrow> 's \<Rightarrow> error option \<times> 's) \<Rightarrow> 's \<Rightarrow> error option \<times> 's) option"

definition storage_RunAtomic ::
  "op_context \<Rightarrow> 's Storage \<Rightarrow> (op_context \<Rightarrow> 's \<Rightarrow> error option \<times> 's) \<Rightarrow> 's \<Rightarrow> error option \<times> 's" where
  "storage_RunAtomic ctx S fn s =
     (case Atomic S of None \<Rightarrow> fn ctx s | Some run \<Rightarrow> run ctx fn s)"

definition SupportsAtomic :: "'s Storage \<Rightarrow> bool" where
  "SupportsAtomic S \<longleftrightarrow> Atomic S \<noteq> None"

text \<open>
  The callbacks of the client are sequences of writes that stop at the first error.
\<close>

datatype store_write =
    DSet uuid bytes
  | DDelete uuid
  | KSet string PublicKeyType

fun do_write :: "'s Storage \<Rightarrow> op_context \<Rightarrow> store_write \<Rightarrow> 's \<Rightarrow> error option \<times> 's" where
  "do_write S ctx (DSet i v) s = Objects_Put S ctx i v s"
| "do_write S ctx (DDelete i) s = Objects_Delete S ctx i s"
| "do_write S ctx (KSet n k) s = Keys_Put S ctx n k s"

fun do_writes :: "'s Storage \<Rightarrow> store_write list \<Rightarrow> op_context \<Rightarrow> 's \<Rightarrow> error option \<times> 's" where
  "do_writes S [] ctx s = (None, s)"
| "do_writes S (w # ws) ctx s =
     (case do_write S ctx w s of
        (Some e, s') \<Rightarrow> (Some e, s')
      | (None, s') \<Rightarrow> do_writes S ws ctx s')"

section \<open>The userlib backend\<close>

text \<open>The calls into the userlib package, and what it documents about its two maps.\<close>

record 's userlib_store =
  DatastoreGet :: "uuid \<Rightarrow> 's \<Rightarrow> bytes option \<times> 's"
  DatastoreSet :: "uuid \<Rightarrow> bytes \<Rightarrow> 's \<Rightarrow> 's"
  DatastoreDelete :: "uuid \<Rightarrow> 's \<Rightarrow> 's"
  KeystoreGet :: "string \<Rightarrow> 's \<Rightarrow> PublicKeyType option \<times> 's"
  KeystoreSet :: "string \<Rightarrow> PublicKeyType \<Rightarrow> 's \<Rightarrow> error option \<times> 's"

type_synonym objects = "uuid \<Rightarrow> bytes option"
type_synonym public_keys = "string \<Rightarrow> PublicKeyType option"

definition userlib_ok ::
  "'s userlib_store \<Rightarrow> ('s \<Rightarrow> objects) \<Rightarrow> ('s \<Rightarrow> public_keys) \<Rightarrow> bool" where
  "userlib_ok L objs keys \<longleftrightarrow>
     (\<forall>i s. fst (DatastoreGet L i s) = objs s i \<and> objs (snd (DatastoreGet L i s)) = objs s
            \<and> keys (snd (DatastoreGet L i s)) = keys s) \<and>
     (\<forall>i v s. objs (DatastoreSet L i v s) = (objs s)(i \<mapsto> v) \<and> keys (DatastoreSet L i v s) = keys s) \<and>
     (\<forall>i s. objs (DatastoreDelete L i s) = (objs s)(i := None) \<and> keys (DatastoreDelete L i s) = keys s) \<and>
     (\<forall>n s. fst (KeystoreGet L n s) = keys s n \<and> objs (snd (KeystoreGet L n s)) = objs s
            \<and> keys (snd (KeystoreGet L n s)) = keys s) \<and>
     (\<forall>n k s. objs (snd (KeystoreSet L n k s)) = objs s \<and>
        (if keys s n = None
         then fst (KeystoreSet L n k s) = None \<and> keys (snd (KeystoreSet L n k s)) = (keys s)(n \<mapsto> k)
         else fst (KeystoreSet L n k s) \<noteq> None \<and> keys (snd (KeystoreSet L n k s)) = keys s))"

definition UserlibObjectStore_Get ::
  "'s userlib_store \<Rightarrow> op_context \<Rightarrow> uuid \<Rightarrow> 's \<Rightarrow> (error + bytes option) \<times> 's" where
  "UserlibObjectStore_Get L ctx i s = (case DatastoreGet L i s of (v, s') \<Rightarrow> (Inr v, s'))"

definition UserlibObjectStore_Put ::
  "'s userlib_store \<Rightarrow> op_context \<Rightarrow> uuid \<Rightarrow> bytes \<Rightarrow> 's \<Rightarrow> error option \<times> 's" where
  "UserlibObjectStore_Put L ctx i v s = (None, DatastoreSet L i v s)"

definition UserlibObjectStore_Delete ::
  "'s userlib_store \<Rightarrow> op_context \<Rightarrow> uuid \<Rightarrow> 's \<Rightarrow> error option \<times> 's" where
  "UserlibObjectStore_Delete L ctx i s = (None, DatastoreDelete L i s)"

definition UserlibKeyStore_Get ::
  "'s userlib_store \<Rightarrow> op_context \<Rightarrow> string \<Rightarrow> 's \<Rightarrow> (error + PublicKeyType option) \<times> 's" where
  "UserlibKeyStore_Get L ctx n s = (case KeystoreGet L n s of (k, s') \<Rightarrow> (Inr k, s'))"

definition UserlibKeyStore_Put ::
  "'s userlib_store \<Rightarrow> op_context \<Rightarrow> string \<Rightarrow> PublicKeyType \<Rightarrow> 's \<Rightarrow> error option \<times> 's" where
  "UserlibKeyStore_Put L ctx n k s = KeystoreSet L n k s"

definition NewUserlibStorage :: "'s userlib_store \<Rightarrow> 's Storage" where
  "NewUserlibStorage L = \<lparr>
     Objects_Get = UserlibObjectStore_Get L, Objects_Put = UserlibObjectStore_Put L,
     Objects_Delete = UserlibObjectStore_Delete L, Keys_Get = UserlibKeyStore_Get L,
     Keys_Put = UserlibKeyStore_Put L, Atomic = None\<rparr>"

section \<open>The MongoDB backend\<close>

text \<open>
  \<open>x509_lib\<close>: \<open>x509.MarshalPKIXPublicKey\<close> (\<open>None\<close> on an error) and
  \<open>x509.ParsePKIXPublicKey\<close> (\<open>Inr None\<close> for a key that is not an RSA key).
\<close>

record x509_lib =
  MarshalPKIX :: "rsa_public \<Rightarrow> bytes option"
  ParsePKIX :: "bytes \<Rightarrow> error + rsa_public option"

definition x509_ok :: "x509_lib \<Rightarrow> bool" where
  "x509_ok X \<longleftrightarrow> (\<forall>k der. MarshalPKIX X k = Some der \<longrightarrow> ParsePKIX X der = Inr (Some k))"

definition ObjectsCollection :: string where "ObjectsCollection = ''objects''"
definition KeysCollection :: string where "KeysCollection = ''public_keys''"

record 's mongo_store =
  ms_driver :: "'s mongo_driver"
  ms_uuid :: uuid_lib
  ms_x509 :: x509_lib
  ms_timeout :: int
  ms_transactionTimeout :: int

text \<open>
  \<open>withTimeout\<close>: the context a call runs under. A deadline is added only where there is none,
  and never inside a transaction.
\<close>

definition withTimeout :: "op_context \<Rightarrow> int \<Rightarrow> op_context" where
  "withTimeout ctx timeout =
     (if ctx_Deadline (oc_ctx ctx) \<or> timeout \<le> 0 \<or> oc_session ctx then ctx
      else ctx\<lparr>oc_ctx := (oc_ctx ctx)\<lparr>ctx_Deadline := True, ctx_Done := True\<rparr>\<rparr>)"

definition objectDocument :: "uuid_lib \<Rightarrow> uuid \<Rightarrow> bytes \<Rightarrow> bson_M" where
  "objectDocument U i v = [(''_id'', BString (uuid_String U i)), (''value'', BBinary v)]"

definition decode_object :: "bson_M \<Rightarrow> error + bytes" where
  "decode_object doc =
     (case map_of doc ''value'' of
        Some (BBinary b) \<Rightarrow> Inr b
      | None \<Rightarrow> Inr []
      | _ \<Rightarrow> Inl (ErrorMsg ''error decoding key value''))"

definition mongo_Objects_Get ::
  "'s mongo_store \<Rightarrow> op_context \<Rightarrow> uuid \<Rightarrow> 's \<Rightarrow> (error + bytes option) \<times> 's" where
  "mongo_Objects_Get M ctx i s =
     (case FindOne (ms_driver M) ObjectsCollection (by_id (uuid_String (ms_uuid M) i) []) s of
        (Inl e, s') \<Rightarrow> (Inl (Wrap ''mongostore: get object'' e), s')
      | (Inr None, s') \<Rightarrow> (Inr None, s')
      | (Inr (Some doc), s') \<Rightarrow>
         (case decode_object doc of
            Inl e \<Rightarrow> (Inl (Wrap ''mongostore: get object'' e), s')
          | Inr b \<Rightarrow> (Inr (Some b), s')))"

definition mongo_Objects_Put ::
  "'s mongo_store \<Rightarrow> op_context \<Rightarrow> uuid \<Rightarrow> bytes \<Rightarrow> 's \<Rightarrow> error option \<times> 's" where
  "mongo_Objects_Put M ctx i v s =
     (case ReplaceOne (ms_driver M) ObjectsCollection (by_id (uuid_String (ms_uuid M) i) [])
             (objectDocument (ms_uuid M) i v) s of
        (Some e, s') \<Rightarrow> (Some (Wrap ''mongostore: put object'' e), s')
      | (None, s') \<Rightarrow> (None, s'))"

definition mongo_Objects_Delete ::
  "'s mongo_store \<Rightarrow> op_context \<Rightarrow> uuid \<Rightarrow> 's \<Rightarrow> error option \<times> 's" where
  "mongo_Objects_Delete M ctx i s =
     (case DeleteOne (ms_driver M) ObjectsCollection (by_id (uuid_String (ms_uuid M) i) []) s of
        (Some e, s') \<Rightarrow> (Some (Wrap ''mongostore: delete object'' e), s')
      | (None, s') \<Rightarrow> (None, s'))"

definition encodePublicKey :: "x509_lib \<Rightarrow> string \<Rightarrow> PublicKeyType \<Rightarrow> error + bson_M" where
  "encodePublicKey X name key =
     (case MarshalPKIX X (PubKey key) of
        None \<Rightarrow> Inl (ErrorMsg ''encode public key'')
      | Some der \<Rightarrow> Inr [(''_id'', BString name), (''key_type'', BString (KeyType key)),
                         (''public_key'', BBinary der)])"

definition decodePublicKey :: "x509_lib \<Rightarrow> bson_M \<Rightarrow> error + PublicKeyType" where
  "decodePublicKey X doc =
     (case (map_of doc ''key_type'', map_of doc ''public_key'') of
        (Some (BString ty), Some (BBinary der)) \<Rightarrow>
          (case ParsePKIX X der of
             Inl e \<Rightarrow> Inl (Wrap ''decode public key'' e)
           | Inr None \<Rightarrow> Inl (ErrorMsg ''decode public key: want *rsa.PublicKey'')
           | Inr (Some k) \<Rightarrow> Inr \<lparr>KeyType = ty, PubKey = k\<rparr>)
      | _ \<Rightarrow> Inl (ErrorMsg ''error decoding key document''))"

definition mongo_Keys_Get ::
  "'s mongo_store \<Rightarrow> op_context \<Rightarrow> string \<Rightarrow> 's \<Rightarrow> (error + PublicKeyType option) \<times> 's" where
  "mongo_Keys_Get M ctx name s =
     (case FindOne (ms_driver M) KeysCollection (by_id name []) s of
        (Inl e, s') \<Rightarrow> (Inl (Wrap ''mongostore: get key'' e), s')
      | (Inr None, s') \<Rightarrow> (Inr None, s')
      | (Inr (Some doc), s') \<Rightarrow>
         (case decodePublicKey (ms_x509 M) doc of
            Inl e \<Rightarrow> (Inl (Wrap ''mongostore: get key'' e), s')
          | Inr key \<Rightarrow> (Inr (Some key), s')))"

definition mongo_Keys_Put ::
  "'s mongo_store \<Rightarrow> op_context \<Rightarrow> string \<Rightarrow> PublicKeyType \<Rightarrow> 's \<Rightarrow> error option \<times> 's" where
  "mongo_Keys_Put M ctx name key s =
     (case encodePublicKey (ms_x509 M) name key of
        Inl e \<Rightarrow> (Some (Wrap ''mongostore: put key'' e), s)
      | Inr doc \<Rightarrow>
         (case InsertOne (ms_driver M) KeysCollection doc s of
            (None, s') \<Rightarrow> (None, s')
          | (Some e, s') \<Rightarrow>
             (if IsDuplicateKeyError (ms_driver M) e
              then (Some (ErrorMsg ''mongostore: put key: that key name is already taken''), s')
              else (Some (Wrap ''mongostore: put key'' e), s'))))"

fun validate_grants :: "'s mongo_driver \<Rightarrow> int \<Rightarrow> Grant list \<Rightarrow> 's \<Rightarrow> error option \<times> 's" where
  "validate_grants D now [] s = (None, s)"
| "validate_grants D now (grant # rest) s =
     (case UpdateOne D FencesCollection
             (by_id (gr_Resource grant) [(FieldToken, BInt64 (sint (gr_Token grant))),
                                         (FieldOwnerTxn, BString (gr_OwnerTxn grant))])
             [(''$set'', BM [(FieldValidatedAt, BTime now)])] s of
        (Inl e, s') \<Rightarrow> (Some (Wrap ''mongostore: validating'' e), s')
      | (Inr matched, s') \<Rightarrow>
         if matched = 0 then (Some (Wrap ''mongostore'' ErrStaleFence), s')
         else validate_grants D now rest s')"

definition validateFences :: "'s mongo_driver \<Rightarrow> int \<Rightarrow> op_context \<Rightarrow> 's \<Rightarrow> error option \<times> 's" where
  "validateFences D now operationCtx s =
     (if ValidationSkippedForTest operationCtx then (None, s)
      else let grants = GrantsFromContext operationCtx
           in if length grants = 0 then (None, s) else validate_grants D now grants s)"

definition mongo_RunAtomic ::
  "'s mongo_store \<Rightarrow> int \<Rightarrow> op_context \<Rightarrow> (op_context \<Rightarrow> 's \<Rightarrow> error option \<times> 's) \<Rightarrow> 's
   \<Rightarrow> error option \<times> 's" where
  "mongo_RunAtomic M now ctx fn s =
     (if oc_session ctx then (Some (ErrorMsg ''mongostore: RunAtomic called inside an existing transaction''), s)
      else let ctx = withTimeout ctx (ms_transactionTimeout M); D = ms_driver M in
       (case StartSession D s of
          (Some e, s1) \<Rightarrow> (Some (Wrap ''mongostore: starting session'' e), s1)
        | (None, s1) \<Rightarrow>
           (case WithTransaction D (\<lambda>s. case fn (ctx\<lparr>oc_session := True\<rparr>) s of
                      (Some e, s') \<Rightarrow> (Some e, s')
                    | (None, s') \<Rightarrow> validateFences D now ctx s') s1 of
              (Some e, s2) \<Rightarrow> (Some (Wrap ''mongostore: transaction'' e), s2)
            | (None, s2) \<Rightarrow> (None, s2))))"

definition mongo_Storage :: "'s mongo_store \<Rightarrow> int \<Rightarrow> 's Storage" where
  "mongo_Storage M now = \<lparr>
     Objects_Get = mongo_Objects_Get M, Objects_Put = mongo_Objects_Put M,
     Objects_Delete = mongo_Objects_Delete M, Keys_Get = mongo_Keys_Get M,
     Keys_Put = mongo_Keys_Put M, Atomic = Some (mongo_RunAtomic M now)\<rparr>"

definition SupportsTransactions :: "'s mongo_store \<Rightarrow> int \<Rightarrow> op_context \<Rightarrow> 's \<Rightarrow> error option \<times> 's" where
  "SupportsTransactions M now ctx s = mongo_RunAtomic M now ctx (\<lambda>_ s. (None, s)) s"

end
