(* ===== verification/Storage_Laws.thy ===== *)
theory Storage_Laws
  imports Storage
begin

text \<open>
  The contracts of the storage interfaces and the proofs that both backends meet them: objects
  can be read back, key names are write-once, a successful group of writes is applied as a whole;
  and, for MongoDB, a failed group is applied as a whole or not at all, and a group that carries
  fencing grants commits only while every one of them is current.
\<close>

section \<open>Objects and keys\<close>

locale object_store =
  fixes get :: "op_context \<Rightarrow> uuid \<Rightarrow> 's \<Rightarrow> (error + bytes option) \<times> 's"
    and put :: "op_context \<Rightarrow> uuid \<Rightarrow> bytes \<Rightarrow> 's \<Rightarrow> error option \<times> 's"
    and del :: "op_context \<Rightarrow> uuid \<Rightarrow> 's \<Rightarrow> error option \<times> 's"
    and objs :: "'s \<Rightarrow> objects" and rest :: "'s \<Rightarrow> 'r" and ok :: "'s \<Rightarrow> bool"
  assumes get: "ok s \<Longrightarrow> get c i s = (v, s') \<Longrightarrow>
      objs s' = objs s \<and> rest s' = rest s \<and> ok s' \<and> (\<forall>x. v = Inr x \<longrightarrow> x = objs s i)"
    and put: "ok s \<Longrightarrow> put c i b s = (e, s') \<Longrightarrow>
      rest s' = rest s \<and> ok s' \<and> (e = None \<longrightarrow> objs s' = (objs s)(i \<mapsto> b)) \<and>
      (objs s' = objs s \<or> objs s' = (objs s)(i \<mapsto> b))"
    and del: "ok s \<Longrightarrow> del c i s = (e, s') \<Longrightarrow>
      rest s' = rest s \<and> ok s' \<and> (e = None \<longrightarrow> objs s' = (objs s)(i := None)) \<and>
      (objs s' = objs s \<or> objs s' = (objs s)(i := None))"
begin

text \<open>A successful write is what the next successful read returns, and no other id is affected.\<close>

lemma get_after_put:
  assumes "ok s" "put c i b s = (None, s1)" "get c' j s1 = (Inr x, s2)"
  shows "x = (if j = i then Some b else objs s j)"
  using put [OF assms(1,2)] get [of s1 c' j "Inr x" s2] assms(3) by auto

lemma get_after_del:
  assumes "ok s" "del c i s = (None, s1)" "get c' j s1 = (Inr x, s2)"
  shows "x = (if j = i then None else objs s j)"
  using del [OF assms(1,2)] get [of s1 c' j "Inr x" s2] assms(3) by auto

end

locale key_store =
  fixes getk :: "op_context \<Rightarrow> string \<Rightarrow> 's \<Rightarrow> (error + PublicKeyType option) \<times> 's"
    and putk :: "op_context \<Rightarrow> string \<Rightarrow> PublicKeyType \<Rightarrow> 's \<Rightarrow> error option \<times> 's"
    and keys :: "'s \<Rightarrow> public_keys" and restk :: "'s \<Rightarrow> 'r" and okk :: "'s \<Rightarrow> bool"
  assumes getk: "okk s \<Longrightarrow> getk c n s = (v, s') \<Longrightarrow>
      keys s' = keys s \<and> restk s' = restk s \<and> okk s' \<and> (\<forall>x. v = Inr x \<longrightarrow> x = keys s n)"
    and putk: "okk s \<Longrightarrow> putk c n k s = (e, s') \<Longrightarrow>
      restk s' = restk s \<and> okk s' \<and> (e = None \<longrightarrow> keys s n = None \<and> keys s' = (keys s)(n \<mapsto> k)) \<and>
      (keys s' = keys s \<or> keys s n = None \<and> keys s' = (keys s)(n \<mapsto> k))"
begin

text \<open>A registered name keeps its key: registering it again fails and changes nothing.\<close>

lemma put_taken:
  assumes "okk s" "keys s n = Some k0" "putk c n k s = (e, s')"
  shows "e \<noteq> None \<and> keys s' = keys s"
  using putk [OF assms(1,3)] assms(2) by auto

end

section \<open>The userlib backend\<close>

lemma userlib_okD:
  assumes "userlib_ok L objs keys"
  shows "fst (DatastoreGet L i s) = objs s i" "objs (snd (DatastoreGet L i s)) = objs s"
    "keys (snd (DatastoreGet L i s)) = keys s"
    "objs (DatastoreSet L i v s) = (objs s)(i \<mapsto> v)" "keys (DatastoreSet L i v s) = keys s"
    "objs (DatastoreDelete L i s) = (objs s)(i := None)" "keys (DatastoreDelete L i s) = keys s"
    "fst (KeystoreGet L n s) = keys s n" "objs (snd (KeystoreGet L n s)) = objs s"
    "keys (snd (KeystoreGet L n s)) = keys s"
    "objs (snd (KeystoreSet L n k s)) = objs s"
    "keys s n = None \<Longrightarrow> fst (KeystoreSet L n k s) = None"
    "keys s n = None \<Longrightarrow> keys (snd (KeystoreSet L n k s)) = (keys s)(n \<mapsto> k)"
    "keys s n = Some k0 \<Longrightarrow> fst (KeystoreSet L n k s) \<noteq> None"
    "keys s n = Some k0 \<Longrightarrow> keys (snd (KeystoreSet L n k s)) = keys s"
  using assms unfolding userlib_ok_def by auto

interpretation ulo: object_store "UserlibObjectStore_Get L" "UserlibObjectStore_Put L"
  "UserlibObjectStore_Delete L" objs keys "\<lambda>s. userlib_ok L objs keys" for L objs keys
proof (unfold_locales, goal_cases)
  case (1 s c i v s')
  then show ?case
    using userlib_okD(1-3) [OF 1(1), of i s] by (auto simp: UserlibObjectStore_Get_def split: prod.splits)
next
  case (2 s c i b e s')
  then show ?case
    using userlib_okD(4,5) [OF 2(1), of i b s] by (auto simp: UserlibObjectStore_Put_def)
next
  case (3 s c i e s')
  then show ?case
    using userlib_okD(6,7) [OF 3(1), of i s] by (auto simp: UserlibObjectStore_Delete_def)
qed

interpretation ulk: key_store "UserlibKeyStore_Get L" "UserlibKeyStore_Put L" keys objs
  "\<lambda>s. userlib_ok L objs keys" for L objs keys
proof (unfold_locales, goal_cases)
  case (1 s c n v s')
  then show ?case
    using userlib_okD(8-10) [OF 1(1), of n s] by (auto simp: UserlibKeyStore_Get_def split: prod.splits)
next
  case (2 s c n k e s')
  then have call: "KeystoreSet L n k s = (e, s')" by (simp add: UserlibKeyStore_Put_def)
  show ?case
  proof (cases "keys s n")
    case None
    with userlib_okD(11) [OF 2(1), of n k s] userlib_okD(12,13) [OF 2(1) None, of k] call 2(1) show ?thesis by simp
  next
    case (Some k0)
    with userlib_okD(11) [OF 2(1), of n k s] userlib_okD(14,15) [OF 2(1) Some, of k] call 2(1)
    show ?thesis by simp
  qed
qed

section \<open>The MongoDB backend\<close>

definition mongo_objs :: "'s mongo_store \<Rightarrow> ('s \<Rightarrow> mongo_db) \<Rightarrow> 's \<Rightarrow> objects" where
  "mongo_objs M view s i =
     (case view s ObjectsCollection (uuid_String (ms_uuid M) i) of
        None \<Rightarrow> None
      | Some doc \<Rightarrow> (case decode_object doc of Inr b \<Rightarrow> Some b | Inl e \<Rightarrow> None))"

definition mongo_keys :: "'s mongo_store \<Rightarrow> ('s \<Rightarrow> mongo_db) \<Rightarrow> 's \<Rightarrow> public_keys" where
  "mongo_keys M view s n =
     (case view s KeysCollection n of
        None \<Rightarrow> None
      | Some doc \<Rightarrow> (case decodePublicKey (ms_x509 M) doc of Inr k \<Rightarrow> Some k | Inl e \<Rightarrow> None))"

definition mongo_fences :: "('s \<Rightarrow> mongo_db) \<Rightarrow> 's \<Rightarrow> string \<Rightarrow> bson_M option" where
  "mongo_fences view s = view s FencesCollection"

definition store_ok :: "'s mongo_store \<Rightarrow> ('s \<Rightarrow> mongo_db) \<Rightarrow> bool" where
  "store_ok M view \<longleftrightarrow> mongo_ok (ms_driver M) view \<and> uuid_ok (ms_uuid M) \<and> x509_ok (ms_x509 M)"

lemma collections_distinct [simp]:
  "ObjectsCollection \<noteq> KeysCollection" "KeysCollection \<noteq> ObjectsCollection"
  "ObjectsCollection \<noteq> FencesCollection" "FencesCollection \<noteq> ObjectsCollection"
  "KeysCollection \<noteq> FencesCollection" "FencesCollection \<noteq> KeysCollection"
  by (simp_all add: ObjectsCollection_def KeysCollection_def FencesCollection_def)

lemma mongo_views_put_doc:
  assumes "view s' = put_doc c i d (view s)"
  shows "c \<noteq> ObjectsCollection \<Longrightarrow> mongo_objs M view s' = mongo_objs M view s"
    "c \<noteq> KeysCollection \<Longrightarrow> mongo_keys M view s' = mongo_keys M view s"
    "c \<noteq> FencesCollection \<Longrightarrow> mongo_fences view s' = mongo_fences view s"
  using assms by (auto simp: mongo_objs_def mongo_keys_def mongo_fences_def fun_eq_iff)

lemma mongo_views_same:
  assumes "view s' = view s"
  shows "mongo_objs M view s' = mongo_objs M view s" "mongo_keys M view s' = mongo_keys M view s"
    "mongo_fences view s' = mongo_fences view s"
  using assms by (simp_all add: mongo_objs_def mongo_keys_def mongo_fences_def fun_eq_iff)

lemma mongo_objs_put:
  assumes "uuid_ok (ms_uuid M)"
    and "view s' = put_doc ObjectsCollection (uuid_String (ms_uuid M) i)
           (Some (objectDocument (ms_uuid M) i b)) (view s)"
  shows "mongo_objs M view s' = (mongo_objs M view s)(i \<mapsto> b)"
  using assms uuid_String_inject [OF assms(1)]
  by (auto simp: mongo_objs_def objectDocument_def decode_object_def fun_eq_iff)

lemma mongo_objs_del:
  assumes "uuid_ok (ms_uuid M)"
    and "view s' = put_doc ObjectsCollection (uuid_String (ms_uuid M) i) None (view s)"
  shows "mongo_objs M view s' = (mongo_objs M view s)(i := None)"
  using assms uuid_String_inject [OF assms(1)] by (auto simp: mongo_objs_def fun_eq_iff)

lemma mongo_find:
  assumes "mongo_ok D view" and "FindOne D c (by_id i []) s = (r, s')"
  shows "view s' = view s" "r = Inr d \<Longrightarrow> d = view s c i"
proof -
  have "view (snd (FindOne D c (by_id i []) s)) = view s \<and>
      (case fst (FindOne D c (by_id i []) s) of Inr d \<Rightarrow> d = view s c i | Inl e \<Rightarrow> True)"
    using assms(1) unfolding mongo_ok_def reads_ok_def by blast
  then show "view s' = view s" "r = Inr d \<Longrightarrow> d = view s c i" using assms(2) by auto
qed

lemma mongo_replace:
  assumes "mongo_ok D view" and "ReplaceOne D c (by_id i []) doc s = (e, s')"
    and "map_of doc ''_id'' = Some (BString i)"
  shows "(e = None \<longrightarrow> view s' = put_doc c i (Some doc) (view s)) \<and>
    (view s' = view s \<or> view s' = put_doc c i (Some doc) (view s))"
proof -
  have "write_ok view (e, s') (view s) (put_doc c i (Some doc) (view s))"
    using assms unfolding mongo_ok_def writes_ok_def by metis
  then show ?thesis by (cases e) (auto simp: write_ok_def full_or_none_def)
qed

lemma mongo_delete:
  assumes "mongo_ok D view" and "DeleteOne D c (by_id i []) s = (e, s')"
  shows "(e = None \<longrightarrow> view s' = put_doc c i None (view s)) \<and>
    (view s' = view s \<or> view s' = put_doc c i None (view s))"
proof -
  have "write_ok view (e, s') (view s) (put_doc c i None (view s))"
    using assms unfolding mongo_ok_def writes_ok_def by metis
  then show ?thesis by (cases e) (auto simp: write_ok_def full_or_none_def)
qed

lemma mongo_insert:
  assumes "mongo_ok D view" and "InsertOne D c doc s = (e, s')"
    and "map_of doc ''_id'' = Some (BString i)"
  shows "(e = None \<longrightarrow> view s c i = None \<and> view s' = put_doc c i (Some doc) (view s)) \<and>
    (view s' = view s \<or> view s c i = None \<and> view s' = put_doc c i (Some doc) (view s))"
proof -
  have "if view s c i = None then write_ok view (e, s') (view s) (put_doc c i (Some doc) (view s))
        else e \<noteq> None \<and> view s' = view s"
    using assms unfolding mongo_ok_def writes_ok_def by (metis fst_conv snd_conv)
  then show ?thesis by (cases e) (auto simp: write_ok_def full_or_none_def split: if_splits)
qed

interpretation mgo: object_store "mongo_Objects_Get M" "mongo_Objects_Put M" "mongo_Objects_Delete M"
  "mongo_objs M view" "\<lambda>s. (mongo_keys M view s, mongo_fences view s)" "\<lambda>s. store_ok M view" for M view
proof (unfold_locales, goal_cases)
  case (1 s c i v s')
  then have ok: "mongo_ok (ms_driver M) view" by (simp add: store_ok_def)
  obtain r s1 where f: "FindOne (ms_driver M) ObjectsCollection (by_id (uuid_String (ms_uuid M) i) []) s = (r, s1)"
    by fastforce
  note F = mongo_find [OF ok f]
  from 1(2) f have "s' = s1" and v: "\<forall>x. v = Inr x \<longrightarrow> (\<exists>d. r = Inr d \<and> x =
      (case d of None \<Rightarrow> None | Some doc \<Rightarrow> (case decode_object doc of Inr b \<Rightarrow> Some b | Inl e \<Rightarrow> None)))"
    by (auto simp: mongo_Objects_Get_def split: sum.splits option.splits)
  then show ?case using F(1) mongo_views_same [OF F(1)] 1(1) F(2) by (auto simp: mongo_objs_def)
next
  case (2 s c i b e s')
  then have ok: "mongo_ok (ms_driver M) view" "uuid_ok (ms_uuid M)" by (simp_all add: store_ok_def)
  obtain r s1 where f: "ReplaceOne (ms_driver M) ObjectsCollection (by_id (uuid_String (ms_uuid M) i) [])
      (objectDocument (ms_uuid M) i b) s = (r, s1)" by fastforce
  from 2(2) f have "s' = s1" "(e = None) = (r = None)"
    by (auto simp: mongo_Objects_Put_def split: option.splits)
  with mongo_replace [OF ok(1) f] 2(1) mongo_objs_put [OF ok(2), of view s1 i b s]
    mongo_views_put_doc [of view s1 ObjectsCollection] mongo_views_same [of view s1 s]
  show ?case by (auto simp: objectDocument_def)
next
  case (3 s c i e s')
  then have ok: "mongo_ok (ms_driver M) view" "uuid_ok (ms_uuid M)" by (simp_all add: store_ok_def)
  obtain r s1 where f: "DeleteOne (ms_driver M) ObjectsCollection (by_id (uuid_String (ms_uuid M) i) []) s = (r, s1)"
    by fastforce
  from 3(2) f have "s' = s1" "(e = None) = (r = None)"
    by (auto simp: mongo_Objects_Delete_def split: option.splits)
  with mongo_delete [OF ok(1) f] 3(1) mongo_objs_del [OF ok(2), of view s1 i s]
    mongo_views_put_doc [of view s1 ObjectsCollection] mongo_views_same [of view s1 s]
  show ?case by auto
qed

lemma encodePublicKey_Inr:
  assumes "encodePublicKey X n k = Inr doc" and "x509_ok X"
  shows "map_of doc ''_id'' = Some (BString n)" "decodePublicKey X doc = Inr k"
  using assms by (auto simp: encodePublicKey_def decodePublicKey_def x509_ok_def split: option.splits)

interpretation mgk: key_store "mongo_Keys_Get M" "mongo_Keys_Put M" "mongo_keys M view"
  "\<lambda>s. (mongo_objs M view s, mongo_fences view s)" "\<lambda>s. store_ok M view" for M view
proof (unfold_locales, goal_cases)
  case (1 s c n v s')
  then have ok: "mongo_ok (ms_driver M) view" by (simp add: store_ok_def)
  obtain r s1 where f: "FindOne (ms_driver M) KeysCollection (by_id n []) s = (r, s1)" by fastforce
  note F = mongo_find [OF ok f]
  from 1(2) f have "s' = s1" and "\<forall>x. v = Inr x \<longrightarrow> (\<exists>d. r = Inr d \<and> x =
      (case d of None \<Rightarrow> None | Some doc \<Rightarrow> (case decodePublicKey (ms_x509 M) doc of Inr b \<Rightarrow> Some b | Inl e \<Rightarrow> None)))"
    by (auto simp: mongo_Keys_Get_def split: sum.splits option.splits)
  then show ?case using F(1) mongo_views_same [OF F(1)] 1(1) F(2) by (auto simp: mongo_keys_def)
next
  case (2 s c n k e s')
  then have ok: "mongo_ok (ms_driver M) view" "x509_ok (ms_x509 M)" by (simp_all add: store_ok_def)
  show ?case
  proof (cases "encodePublicKey (ms_x509 M) n k")
    case (Inl err)
    with 2 show ?thesis by (auto simp: mongo_Keys_Put_def)
  next
    case (Inr doc)
    note enc = encodePublicKey_Inr [OF Inr ok(2)]
    obtain r s1 where f: "InsertOne (ms_driver M) KeysCollection doc s = (r, s1)" by fastforce
    from 2(2) f Inr have "s' = s1" "(e = None) = (r = None)"
      by (auto simp: mongo_Keys_Put_def split: option.splits if_splits)
    moreover have "mongo_keys M view s1 = (mongo_keys M view s)(n \<mapsto> k)"
      if "view s1 = put_doc KeysCollection n (Some doc) (view s)"
      using that enc(2) by (auto simp: mongo_keys_def fun_eq_iff)
    moreover have "mongo_keys M view s n = None" if "view s KeysCollection n = None"
      using that by (simp add: mongo_keys_def)
    ultimately show ?thesis
      using mongo_insert [OF ok(1) f enc(1)] 2(1) mongo_views_put_doc [of view s1 KeysCollection]
        mongo_views_same [of view s1 s] by auto
  qed
qed

section \<open>Groups of writes\<close>

type_synonym store_view = "objects \<times> public_keys"

fun apply_write :: "store_write \<Rightarrow> store_view \<Rightarrow> store_view" where
  "apply_write (DSet i b) (objs, keys) = (objs(i \<mapsto> b), keys)"
| "apply_write (DDelete i) (objs, keys) = (objs(i := None), keys)"
| "apply_write (KSet n k) (objs, keys) = (objs, keys(n \<mapsto> k))"

fun can_write :: "store_write \<Rightarrow> store_view \<Rightarrow> bool" where
  "can_write (KSet n k) (objs, keys) \<longleftrightarrow> keys n = None"
| "can_write _ _ \<longleftrightarrow> True"

fun can_writes :: "store_write list \<Rightarrow> store_view \<Rightarrow> bool" where
  "can_writes [] v \<longleftrightarrow> True"
| "can_writes (w # ws) v \<longleftrightarrow> can_write w v \<and> can_writes ws (apply_write w v)"

definition apply_writes :: "store_write list \<Rightarrow> store_view \<Rightarrow> store_view" where
  "apply_writes ws v = foldl (\<lambda>v w. apply_write w v) v ws"

lemma apply_writes_simps [simp]:
  "apply_writes [] v = v" "apply_writes (w # ws) v = apply_writes ws (apply_write w v)"
  by (simp_all add: apply_writes_def)

text \<open>
  A service of single writes: \<open>V\<close> is what it stores, \<open>F\<close> what it leaves alone. Groups follow.
\<close>

locale write_service =
  fixes S :: "'s Storage" and V :: "'s \<Rightarrow> store_view" and F :: "'s \<Rightarrow> 'f" and ok :: "'s \<Rightarrow> bool"
  assumes single: "ok s \<Longrightarrow> do_write S c w s = (e, s') \<Longrightarrow>
    ok s' \<and> F s' = F s \<and> (e = None \<longrightarrow> can_write w (V s) \<and> V s' = apply_write w (V s))"
begin

lemma writes: "ok s \<Longrightarrow> do_writes S ws c s = (e, s') \<Longrightarrow>
    ok s' \<and> F s' = F s \<and> (e = None \<longrightarrow> can_writes ws (V s) \<and> V s' = apply_writes ws (V s))"
proof (induction ws arbitrary: s)
  case (Cons w ws)
  obtain e1 s1 where w: "do_write S c w s = (e1, s1)" by fastforce
  note one = single [OF Cons.prems(1) w]
  show ?case
  proof (cases e1)
    case None
    with Cons.prems(2) w have "do_writes S ws c s1 = (e, s')" by simp
    from Cons.IH [OF _ this] one None show ?thesis by simp
  next
    case (Some err)
    with Cons.prems(2) w one show ?thesis by auto
  qed
qed simp

end

interpretation ulw: write_service "NewUserlibStorage L" "\<lambda>s. (objs s, keys s)" "\<lambda>s. ()"
  "\<lambda>s. userlib_ok L objs keys" for L objs keys
proof (unfold_locales, goal_cases)
  case (1 s c w e s')
  then show ?case
    using ulo.put [OF 1(1)] ulo.del [OF 1(1)] ulk.putk [OF 1(1)]
    by (cases w) (auto simp: NewUserlibStorage_def)
qed

interpretation mgw: write_service "mongo_Storage M now" "\<lambda>s. (mongo_objs M view s, mongo_keys M view s)"
  "mongo_fences view" "\<lambda>s. store_ok M view" for M now view
proof (unfold_locales, goal_cases)
  case (1 s c w e s')
  then show ?case
    using mgo.put [OF 1(1)] mgo.del [OF 1(1)] mgk.putk [OF 1(1)]
    by (cases w) (force simp: mongo_Storage_def)+
qed

section \<open>Fence validation\<close>

definition fence_current :: "mongo_db \<Rightarrow> Grant \<Rightarrow> bool" where
  "fence_current db g \<longleftrightarrow>
     db FencesCollection (gr_Resource g) \<noteq> None \<and>
     fence_owner db (gr_Resource g) = Some (gr_OwnerTxn g) \<and>
     fence_token db (gr_Resource g) = sint (gr_Token g)"

definition fence_filter :: "Grant \<Rightarrow> bson_M" where
  "fence_filter g = [(FieldToken, BInt64 (sint (gr_Token g))), (FieldOwnerTxn, BString (gr_OwnerTxn g))]"

lemma fence_matches_current:
  assumes "db FencesCollection (gr_Resource g) = Some doc" "bson_matches (fence_filter g) doc"
  shows "fence_current db g"
  using assms
  by (simp add: fence_current_def fence_owner_def fence_token_def bson_matches_def fence_filter_def)

definition fence_stamped :: "int \<Rightarrow> bson_M \<Rightarrow> bson_M" where
  "fence_stamped now doc = apply_update [(''$set'', BM [(FieldValidatedAt, BTime now)])] doc"

lemma fence_stamped_fields:
  "map_of (fence_stamped now doc) FieldToken = map_of doc FieldToken"
  "map_of (fence_stamped now doc) FieldOwnerTxn = map_of doc FieldOwnerTxn"
  by (simp_all add: fence_stamped_def apply_update_def fence_field_defs)

text \<open>Two states of the documents that differ in validation stamps only.\<close>

definition same_fences :: "mongo_db \<Rightarrow> mongo_db \<Rightarrow> bool" where
  "same_fences db db' \<longleftrightarrow>
     (\<forall>r. rel_option (\<lambda>d d'. map_of d' FieldToken = map_of d FieldToken \<and>
                           map_of d' FieldOwnerTxn = map_of d FieldOwnerTxn)
            (db FencesCollection r) (db' FencesCollection r)) \<and>
     (\<forall>c. c \<noteq> FencesCollection \<longrightarrow> db' c = db c)"

lemma same_fences_refl [simp]: "same_fences db db"
  by (auto simp: same_fences_def intro: option.rel_refl)

lemma same_fences_cases:
  assumes "same_fences db db'"
  obtains "db FencesCollection r = None" "db' FencesCollection r = None"
  | d d' where "db FencesCollection r = Some d" "db' FencesCollection r = Some d'"
      "map_of d' FieldToken = map_of d FieldToken" "map_of d' FieldOwnerTxn = map_of d FieldOwnerTxn"
proof -
  from assms have "rel_option (\<lambda>d d'. map_of d' FieldToken = map_of d FieldToken \<and>
      map_of d' FieldOwnerTxn = map_of d FieldOwnerTxn) (db FencesCollection r) (db' FencesCollection r)"
    by (simp add: same_fences_def)
  then show thesis by (cases rule: option.rel_cases) (auto intro: that)
qed

lemma same_fences_trans:
  assumes "same_fences a b" "same_fences b c" shows "same_fences a c"
proof -
  have "rel_option (\<lambda>d d'. map_of d' FieldToken = map_of d FieldToken \<and>
      map_of d' FieldOwnerTxn = map_of d FieldOwnerTxn) (a FencesCollection r) (c FencesCollection r)" for r
    by (rule same_fences_cases [OF assms(1), of r]; rule same_fences_cases [OF assms(2), of r]) auto
  with assms show ?thesis by (simp add: same_fences_def)
qed

lemma same_fences_fields:
  assumes "same_fences db db'"
  shows "fence_owner db' = fence_owner db" "fence_token db' = fence_token db"
    "fences_wf db \<Longrightarrow> fences_wf db'" "fence_current db' g = fence_current db g"
proof -
  have "fence_owner db' r = fence_owner db r" for r
    by (rule same_fences_cases [OF assms, of r]) (simp_all add: fence_owner_def)
  then show o: "fence_owner db' = fence_owner db" by blast
  have "fence_token db' r = fence_token db r" for r
    by (rule same_fences_cases [OF assms, of r]) (simp_all add: fence_token_def)
  then show t: "fence_token db' = fence_token db" by blast
  have "(db' FencesCollection r = None) = (db FencesCollection r = None)" for r
    by (rule same_fences_cases [OF assms, of r]) simp_all
  then show "fence_current db' g = fence_current db g" by (simp add: fence_current_def o t)
  assume wf: "fences_wf db"
  have "\<exists>n. map_of doc FieldToken = Some (BInt64 n) \<and> 1 \<le> n" if "db' FencesCollection r = Some doc" for r doc
    by (rule same_fences_cases [OF assms, of r]) (use wf that in \<open>auto simp: fences_wf_def\<close>)
  then show "fences_wf db'" by (simp add: fences_wf_def)
qed

lemma same_fences_stamp:
  assumes "db FencesCollection r = Some doc"
  shows "same_fences db (put_doc FencesCollection r (Some (fence_stamped now doc)) db)"
  using assms
  by (auto simp: same_fences_def fun_eq_iff fence_stamped_fields intro: option.rel_refl)

lemma validate_one:
  assumes ok: "mongo_ok D view"
    and call: "UpdateOne D FencesCollection (by_id (gr_Resource g) (fence_filter g))
      [(''$set'', BM [(FieldValidatedAt, BTime now)])] s = (r, s')"
  shows "same_fences (view s) (view s')" "r = Inr n \<Longrightarrow> n \<noteq> 0 \<Longrightarrow> fence_current (view s) g"
    "r = Inr n \<Longrightarrow> fences_wf (view s) \<Longrightarrow> fence_current (view s) g \<Longrightarrow> n \<noteq> 0"
proof -
  let ?up = "updated_one FencesCollection (gr_Resource g) (fence_filter g)
      [(''$set'', BM [(FieldValidatedAt, BTime now)])] (view s)"
  have law: "case (r, s') of (Inr n, s') \<Rightarrow> (n, view s') = ?up
     | (Inl e, s') \<Rightarrow> full_or_none (view s) (snd ?up) (view s')"
    using ok call [symmetric] unfolding mongo_ok_def updates_ok_def by auto
  have same: "same_fences (view s) (snd ?up)"
    by (auto simp: updated_one_def fence_stamped_def [symmetric] intro: same_fences_stamp split: option.splits)
  show "same_fences (view s) (view s')"
  proof (cases r)
    case (Inl e)
    with law same show ?thesis by (auto simp: full_or_none_def)
  next
    case (Inr n)
    with law have "view s' = snd ?up" by (auto simp: prod_eq_iff)
    with same show ?thesis by simp
  qed
  show "fence_current (view s) g" if "r = Inr n" "n \<noteq> 0"
  proof -
    from law that have "fst ?up \<noteq> 0" by (auto simp: prod_eq_iff)
    then show ?thesis
      by (auto simp: updated_one_def split: option.splits if_splits intro: fence_matches_current)
  qed
  show "n \<noteq> 0" if "r = Inr n" "fences_wf (view s)" "fence_current (view s) g"
  proof -
    from that(2,3) obtain doc k where doc: "view s FencesCollection (gr_Resource g) = Some doc"
      "map_of doc FieldToken = Some (BInt64 k)"
      unfolding fence_current_def fences_wf_def by blast
    have "bson_matches (fence_filter g) doc"
      using that(3) doc
      by (auto simp: fence_current_def fence_owner_def fence_token_def bson_matches_def fence_filter_def
          split: option.splits bson.splits)
    with law that(1) doc show ?thesis by (auto simp: updated_one_def prod_eq_iff)
  qed
qed

lemma validate_grants_effect:
  assumes "mongo_ok D view" "validate_grants D now gs s = (e, s')"
  shows "same_fences (view s) (view s') \<and> (e = None \<longrightarrow> list_all (fence_current (view s)) gs)"
  using assms(2)
proof (induction gs arbitrary: s)
  case (Cons g gs)
  obtain r s1 where call: "UpdateOne D FencesCollection (by_id (gr_Resource g) (fence_filter g))
      [(''$set'', BM [(FieldValidatedAt, BTime now)])] s = (r, s1)" by fastforce
  note one = validate_one [OF assms(1) call]
  show ?case
  proof (cases "\<exists>n. r = Inr n \<and> n \<noteq> 0")
    case True
    then obtain n where n: "r = Inr n" "n \<noteq> 0" by blast
    with Cons.prems call have "validate_grants D now gs s1 = (e, s')" by (simp add: fence_filter_def)
    from Cons.IH [OF this] one(1) one(2) [OF n] show ?thesis
      using same_fences_trans same_fences_fields(4) [OF one(1)] by (auto simp: list_all_iff)
  next
    case False
    with Cons.prems call have "s' = s1" "e \<noteq> None" by (auto simp: fence_filter_def split: sum.splits if_splits)
    with one(1) show ?thesis by auto
  qed
qed simp

section \<open>Transactions\<close>

definition db_view :: "'s mongo_store \<Rightarrow> ('s \<Rightarrow> mongo_db) \<Rightarrow> 's \<Rightarrow> store_view" where
  "db_view M view s = (mongo_objs M view s, mongo_keys M view s)"

text \<open>What a transaction of writes does when it commits: all writes, with every grant current.\<close>

definition committed_writes ::
  "'s mongo_store \<Rightarrow> ('s \<Rightarrow> mongo_db) \<Rightarrow> op_context \<Rightarrow> store_write list \<Rightarrow> 's \<Rightarrow> 's \<Rightarrow> bool" where
  "committed_writes M view ctx ws s s' \<longleftrightarrow>
     can_writes ws (db_view M view s) \<and>
     db_view M view s' = apply_writes ws (db_view M view s) \<and>
     fence_owner (view s') = fence_owner (view s) \<and> fence_token (view s') = fence_token (view s) \<and>
     (fences_wf (view s) \<longrightarrow> fences_wf (view s')) \<and>
     (ValidationSkippedForTest ctx \<or> list_all (fence_current (view s)) (GrantsFromContext ctx))"

lemma withTimeout_fields [simp]:
  "oc_grants (withTimeout ctx t) = oc_grants ctx" "oc_skip (withTimeout ctx t) = oc_skip ctx"
  by (simp_all add: withTimeout_def)

lemma validateFences_effect:
  assumes "mongo_ok D view" "validateFences D now ctx s = (e, s')"
  shows "same_fences (view s) (view s')"
    "e = None \<Longrightarrow> ValidationSkippedForTest ctx \<or> list_all (fence_current (view s)) (GrantsFromContext ctx)"
  using assms(2) validate_grants_effect [OF assms(1), of now "GrantsFromContext ctx" s e s']
  by (auto simp: validateFences_def Let_def split: if_splits)

lemma fences_view_cong:
  assumes "mongo_fences view s' = mongo_fences view s"
  shows "fence_owner (view s') = fence_owner (view s)" "fence_token (view s') = fence_token (view s)"
    "fences_wf (view s') = fences_wf (view s)" "fence_current (view s') = fence_current (view s)"
  using assms
  by (simp_all add: mongo_fences_def fence_owner_def fence_token_def fences_wf_def fence_current_def fun_eq_iff)

lemma db_view_cong:
  assumes "\<forall>c. c \<noteq> FencesCollection \<longrightarrow> view s' c = view s c"
  shows "db_view M view s' = db_view M view s"
  using assms by (simp add: db_view_def mongo_objs_def mongo_keys_def fun_eq_iff)

text \<open>A successful run of the callback of \<open>RunAtomic\<close> on the writes \<open>ws\<close>.\<close>

lemma transaction_body:
  assumes ok: "store_ok M view"
    and w: "do_writes (mongo_Storage M now) ws c s0 = (None, s1)"
    and v: "validateFences (ms_driver M) now ctx s1 = (None, s2)"
  shows "committed_writes M view ctx ws s0 s2"
proof -
  from ok have mok: "mongo_ok (ms_driver M) view" by (simp add: store_ok_def)
  have W: "mongo_fences view s1 = mongo_fences view s0" "can_writes ws (db_view M view s0)"
      "db_view M view s1 = apply_writes ws (db_view M view s0)"
    using mgw.writes [OF ok w] by (auto simp: db_view_def)
  note V = validateFences_effect [OF mok v]
  have "db_view M view s2 = db_view M view s1"
    using V(1) by (intro db_view_cong) (simp add: same_fences_def)
  then show ?thesis
    using W V(2) fences_view_cong [OF W(1)] same_fences_fields [OF V(1)]
    by (simp add: committed_writes_def)
qed

lemma committed_writes_cong:
  assumes "view a = view s" "view b = view s'" "committed_writes M view ctx ws a b"
  shows "committed_writes M view ctx ws s s'"
  using assms db_view_cong [of view s a M] db_view_cong [of view s' b M]
  by (simp add: committed_writes_def)

lemma mongo_RunAtomic_effect:
  assumes ok: "store_ok M view"
    and call: "mongo_RunAtomic M now ctx (do_writes (mongo_Storage M now) ws) s = (e, s')"
  shows "e = None \<and> committed_writes M view ctx ws s s' \<or>
         e \<noteq> None \<and> (view s' = view s \<or> committed_writes M view ctx ws s s')"
proof (cases "oc_session ctx")
  case True
  with call show ?thesis by (auto simp: mongo_RunAtomic_def)
next
  case nosession: False
  define ctx' where "ctx' = withTimeout ctx (ms_transactionTimeout M)"
  define f where "f = (\<lambda>s. case do_writes (mongo_Storage M now) ws (ctx'\<lparr>oc_session := True\<rparr>) s of
      (Some e, s') \<Rightarrow> (Some e, s') | (None, s') \<Rightarrow> validateFences (ms_driver M) now ctx' s')"
  from ok have mok: "mongo_ok (ms_driver M) view" by (simp add: store_ok_def)
  obtain e1 s1 where st: "StartSession (ms_driver M) s = (e1, s1)" by fastforce
  have v1: "view s1 = view s" using mok st by (metis mongo_ok_def reads_ok_def snd_conv)
  have run: "committed_writes M view ctx ws s s2" if "committed_run view f (view s1) (view s2)" for s2
  proof -
    from that obtain a b where ab: "view a = view s1" "f a = (None, b)" "view b = view s2"
      by (auto simp: committed_run_def)
    from ab(2) obtain c where "do_writes (mongo_Storage M now) ws (ctx'\<lparr>oc_session := True\<rparr>) a = (None, c)"
        "validateFences (ms_driver M) now ctx' c = (None, b)"
      by (auto simp: f_def split: prod.splits option.splits)
    from transaction_body [OF ok this] ab v1 have "committed_writes M view ctx' ws s s2"
      by (metis committed_writes_cong)
    then show ?thesis
      by (simp add: committed_writes_def ctx'_def ValidationSkippedForTest_def GrantsFromContext_def)
  qed
  show ?thesis
  proof (cases e1)
    case (Some err)
    with call st v1 nosession show ?thesis by (auto simp: mongo_RunAtomic_def)
  next
    case None
    obtain e2 s2 where tx: "WithTransaction (ms_driver M) f s1 = (e2, s2)" by fastforce
    have law: "case (e2, s2) of (None, s') \<Rightarrow> committed_run view f (view s1) (view s')
        | (Some e, s') \<Rightarrow> view s' = view s1 \<or> committed_run view f (view s1) (view s')"
      using mok tx [symmetric] unfolding mongo_ok_def transactions_ok_def by auto
    have "s' = s2 \<and> (e = None) = (e2 = None)"
      using call st None nosession tx
      by (auto simp: mongo_RunAtomic_def Let_def ctx'_def [symmetric] f_def [symmetric] split: option.splits)
    then show ?thesis using law run [of s2] v1 by (cases e2) auto
  qed
qed

end
