(* ===== verification/Storage_Thms.thy ===== *)
theory Storage_Thms
  imports Storage_Laws
begin

text \<open>
  What the storage layer guarantees to the operations above it, for every deployment with the
  documented behaviour: atomicity of a group of writes, and the exclusion of stale writers over
  any history of allocations, invalidations and transactions by any number of parties.
\<close>

section \<open>Histories of the database\<close>

text \<open>
  Everything the system does to the fence documents: the coordinator's allocations and
  invalidations, and the workers' transactions of writes.
\<close>

inductive db_step :: "'s mongo_store \<Rightarrow> 's \<Rightarrow> 's \<Rightarrow> bool" for M :: "'s mongo_store" where
  db_alloc: "Allocate (ms_driver M) now r t s = (res, s') \<Longrightarrow> db_step M s s'"
| db_inval: "Invalidate (ms_driver M) now r t s = (e, s') \<Longrightarrow> db_step M s s'"
| db_txn: "mongo_RunAtomic M now ctx (do_writes (mongo_Storage M now) ws) s = (e, s') \<Longrightarrow> db_step M s s'"

text \<open>\<open>stale db g\<close>: the grant is not current and its token has been issued already.\<close>

definition stale :: "mongo_db \<Rightarrow> Grant \<Rightarrow> bool" where
  "stale db g \<longleftrightarrow> sint (gr_Token g) \<le> fence_token db (gr_Resource g) \<and>
     \<not> (fence_token db (gr_Resource g) = sint (gr_Token g) \<and>
        fence_owner db (gr_Resource g) = Some (gr_OwnerTxn g))"

lemma stale_not_current: "stale db g \<Longrightarrow> \<not> fence_current db g"
  by (auto simp: stale_def fence_current_def)

lemma db_step_stale:
  assumes ok: "store_ok M view" and st: "db_step M s s'" and wf: "fences_wf (view s)"
  shows "fences_wf (view s')" "stale (view s) g \<Longrightarrow> stale (view s') g"
proof -
  from ok have mok: "mongo_ok (ms_driver M) view" by (simp add: store_ok_def)
  then have good: "fences_good (ms_driver M) view s" using wf by (simp add: fences_good_def)
  show "fences_wf (view s')"
    using st
  proof cases
    case (db_alloc now r t res)
    then show ?thesis using mf.good_alloc [OF good, of now r t] by (simp add: fences_good_def)
  next
    case (db_inval now r t e)
    then show ?thesis using mf.good_inval [OF good, of now r t] by (simp add: fences_good_def)
  next
    case (db_txn now ctx ws e)
    from mongo_RunAtomic_effect [OF ok db_txn] wf show ?thesis by (auto simp: committed_writes_def)
  qed
  assume stale: "stale (view s) g"
  then have old: "sint (gr_Token g) \<le> fence_token (view s) (gr_Resource g)"
      "\<not> (fence_token (view s) (gr_Resource g) = sint (gr_Token g) \<and>
          fence_owner (view s) (gr_Resource g) = Some (gr_OwnerTxn g))"
    by (simp_all add: stale_def)
  from st show "stale (view s') g"
  proof cases
    case (db_alloc now r t res)
    from mf.never_current_again_alloc [OF good db_alloc old] show ?thesis by (simp add: stale_def)
  next
    case (db_inval now r t e)
    from mf.never_current_again_inval [OF good db_inval old] show ?thesis by (simp add: stale_def)
  next
    case (db_txn now ctx ws e)
    from mongo_RunAtomic_effect [OF ok db_txn] stale show ?thesis
      by (auto simp: committed_writes_def stale_def)
  qed
qed

lemma db_steps_stale:
  assumes ok: "store_ok M view" and st: "(db_step M)\<^sup>*\<^sup>* s s'" and wf: "fences_wf (view s)"
  shows "fences_wf (view s') \<and> (stale (view s) g \<longrightarrow> stale (view s') g)"
  using st by (induction rule: rtranclp_induct) (use wf db_step_stale [OF ok] in auto)

section \<open>Properties\<close>

text \<open>
  C20. A group of writes run through \<open>RunAtomic\<close> on MongoDB is all or nothing: if it reports
  success, every write was applied, in order, to the objects and keys, no key name was
  overwritten, and every fencing grant in the operation's context was current when the
  transaction committed; if it reports an error, either the documents are exactly as before, or
  (the commit's acknowledgement was lost) all of that happened.
\<close>

theorem storage_all_or_nothing:
  assumes "store_ok M view"
    and "mongo_RunAtomic M now ctx (do_writes (mongo_Storage M now) ws) s = (e, s')"
  shows "e = None \<and> committed_writes M view ctx ws s s' \<or>
         e \<noteq> None \<and> (view s' = view s \<or> committed_writes M view ctx ws s s')"
  using mongo_RunAtomic_effect [OF assms] .

text \<open>
  C21. A stale writer can never commit. Once a grant is stale (its resource was granted to
  another transaction with a later token, or its ownership was cleared), then after any further
  history of allocations, invalidations and transactions of any parties, a transaction carrying
  that grant fails and leaves every document as it is.
\<close>

theorem storage_stale_writer_excluded:
  assumes ok: "store_ok M view" and wf: "fences_wf (view s)"
    and stale: "stale (view s) g"
    and hist: "(db_step M)\<^sup>*\<^sup>* s s1"
    and g: "g \<in> set (GrantsFromContext ctx)" and v: "\<not> ValidationSkippedForTest ctx"
    and call: "mongo_RunAtomic M now ctx (do_writes (mongo_Storage M now) ws) s1 = (e, s2)"
  shows "e \<noteq> None \<and> view s2 = view s1"
proof -
  have "\<not> fence_current (view s1) g"
    using db_steps_stale [OF ok hist wf, of g] stale stale_not_current by blast
  then have "\<not> committed_writes M view ctx ws s1 s2"
    using g v by (auto simp: committed_writes_def list_all_iff)
  with mongo_RunAtomic_effect [OF ok call] show ?thesis by auto
qed

section \<open>Concrete runs\<close>

text \<open>A deployment in memory; an RSA key is its number, in decimal.\<close>

definition dec_x509 :: x509_lib where
  "dec_x509 = \<lparr>MarshalPKIX = (\<lambda>k. Some (itoa k)), ParsePKIX = (\<lambda>b. Inr (Some (atoi b)))\<rparr>"

definition mem_store :: "mongo_db mongo_store" where
  "mem_store = \<lparr>ms_driver = mem_driver, ms_uuid = dec_uuid, ms_x509 = dec_x509,
     ms_timeout = 10, ms_transactionTimeout = 30\<rparr>"

lemma mem_store_ok: "store_ok mem_store id"
  by (simp add: store_ok_def mem_store_def mem_driver_ok dec_uuid_ok x509_ok_def dec_x509_def)

definition mem_granted :: "string \<Rightarrow> mongo_db \<Rightarrow> mongo_db" where
  "mem_granted t db = snd (Allocate (ms_driver mem_store) 0 ''2:f'' t db)"

definition mem_empty :: mongo_db where "mem_empty = (\<lambda>_ _. None)"

definition mem_ctx :: op_context where
  "mem_ctx = WithGrants op_Background [\<lparr>gr_Resource = ''2:f'', gr_Token = 1, gr_OwnerTxn = ''t1''\<rparr>]"

definition mem_writes :: "store_write list" where
  "mem_writes = [DSet 1 ''a'', DSet 2 ''b'', DDelete 1, KSet ''n'' \<lparr>KeyType = ''PKE'', PubKey = 7\<rparr>]"

definition mem_commit :: "mongo_db \<Rightarrow> error option \<times> mongo_db" where
  "mem_commit db = mongo_RunAtomic mem_store 5 mem_ctx (do_writes (mongo_Storage mem_store 5) mem_writes) db"

lemma mem_empty_wf: "fences_wf mem_empty" by (simp add: fences_wf_def mem_empty_def)

lemma mem_granted_wf: "fences_wf db \<Longrightarrow> fences_wf (mem_granted t db)"
  using mf.good_alloc [of mem_driver id db 0 "''2:f''" t] mem_driver_ok
  by (simp add: mem_granted_def fences_good_def mem_store_def)

lemma mem_granted_step: "db_step mem_store db (mem_granted t db)"
  unfolding mem_granted_def by (rule db_alloc [of _ 0 "''2:f''" t db]) (rule prod.collapse [symmetric])

theorem storage_all_or_nothing_witness:
  "fst (mem_commit (mem_granted ''t1'' mem_empty)) = None \<and>
   committed_writes mem_store id mem_ctx mem_writes (mem_granted ''t1'' mem_empty)
     (snd (mem_commit (mem_granted ''t1'' mem_empty)))"
proof -
  obtain e s' where r: "mem_commit (mem_granted ''t1'' mem_empty) = (e, s')" by fastforce
  have "fst (mem_commit (mem_granted ''t1'' mem_empty)) = None" by code_simp
  with storage_all_or_nothing [OF mem_store_ok r [unfolded mem_commit_def]] r show ?thesis by simp
qed

theorem storage_stale_writer_excluded_witness:
  "fst (mem_commit (mem_granted ''t3'' (mem_granted ''t2'' (mem_granted ''t1'' mem_empty)))) \<noteq> None"
proof -
  let ?s = "mem_granted ''t2'' (mem_granted ''t1'' mem_empty)"
  let ?g = "\<lparr>gr_Resource = ''2:f'', gr_Token = 1, gr_OwnerTxn = ''t1''\<rparr>"
  obtain e s' where r: "mem_commit (mem_granted ''t3'' ?s) = (e, s')" by fastforce
  have st: "stale (id ?s) ?g" by code_simp
  have wf: "fences_wf (id ?s)" by (simp add: mem_granted_wf mem_empty_wf)
  have "?g \<in> set (GrantsFromContext mem_ctx)" "\<not> ValidationSkippedForTest mem_ctx"
    by (simp_all add: GrantsFromContext_def ValidationSkippedForTest_def mem_ctx_def WithGrants_def op_Background_def)
  from storage_stale_writer_excluded [OF mem_store_ok wf st r_into_rtranclp [of "db_step mem_store", OF mem_granted_step] this
      r [unfolded mem_commit_def]] r show ?thesis by simp
qed

end
