(* ===== verification/Go_Json.thy ===== *)
theory Go_Json
  imports Safer_Prelude "HOL-Library.Char_ord" "HOL-Library.List_Lexorder"
begin

text \<open>
  The part of Go's \<open>encoding/json\<close>, \<open>encoding/base64\<close> and \<open>unicode/utf8\<close> packages that the
  client uses to store its records: UTF-8 validity with replacement of invalid bytes, string
  quoting and unquoting, base64, printing and parsing of JSON texts, and the mapping between
  struct fields and object members. The main results are that parsing a printed value gives the
  value back (with invalid UTF-8 replaced), and that unmarshalling a marshalled struct gives the
  struct back.
\<close>

section \<open>UTF-8\<close>

abbreviation byte :: "char \<Rightarrow> nat" where "byte c \<equiv> of_char c"

definition is_cont :: "char \<Rightarrow> bool" where
  "is_cont c \<longleftrightarrow> 128 \<le> byte c \<and> byte c < 192"

text \<open>
  \<open>utf8_width bs\<close>: how many bytes the first rune of \<open>bs\<close> takes, 0 when they are not a valid
  encoding (overlong forms, surrogates and values above U+10FFFF are not).
\<close>

fun utf8_width :: "bytes \<Rightarrow> nat" where
  "utf8_width [] = 0"
| "utf8_width (c # cs) =
     (if byte c < 128 then 1
      else if 194 \<le> byte c \<and> byte c < 224 then
        (case cs of x # _ \<Rightarrow> if is_cont x then 2 else 0 | _ \<Rightarrow> 0)
      else if 224 \<le> byte c \<and> byte c < 240 then
        (case cs of
           x # y # _ \<Rightarrow>
             if is_cont x \<and> (byte c = 224 \<longrightarrow> 160 \<le> byte x) \<and> (byte c = 237 \<longrightarrow> byte x < 160) \<and> is_cont y
             then 3 else 0
         | _ \<Rightarrow> 0)
      else if 240 \<le> byte c \<and> byte c < 245 then
        (case cs of
           x # y # z # _ \<Rightarrow>
             if is_cont x \<and> (byte c = 240 \<longrightarrow> 144 \<le> byte x) \<and> (byte c = 244 \<longrightarrow> byte x < 144) \<and>
                is_cont y \<and> is_cont z
             then 4 else 0
         | _ \<Rightarrow> 0)
      else 0)"

declare utf8_width.simps [simp del]

lemma utf8_width_le: "utf8_width bs \<le> length bs"
  by (cases bs) (auto simp: utf8_width.simps split: list.splits)

lemma utf8_width_take:
  assumes "utf8_width bs = w" "0 < w"
  shows "utf8_width (take w bs @ r) = w"
  using assms
  by (cases bs) (auto simp: utf8_width.simps split: list.splits if_splits)

lemma utf8_width_ascii [simp]: "byte c < 128 \<Longrightarrow> utf8_width (c # cs) = 1"
  by (simp add: utf8_width.simps)

lemma utf8_width_1: "utf8_width (c # cs) = 1 \<longleftrightarrow> byte c < 128"
  by (auto simp: utf8_width.simps split: list.splits if_splits)

text \<open>The bytes of U+FFFD, with which Go replaces every invalid byte.\<close>

definition RuneError :: bytes where
  "RuneError = [char_of (239 :: nat), char_of (191 :: nat), char_of (189 :: nat)]"

function to_valid :: "bytes \<Rightarrow> bytes" where
  "to_valid [] = []"
| "to_valid (c # cs) =
     (if utf8_width (c # cs) = 0 then RuneError @ to_valid cs
      else take (utf8_width (c # cs)) (c # cs) @ to_valid (drop (utf8_width (c # cs)) (c # cs)))"
  by pat_completeness auto
termination by (relation "measure length") auto

definition valid_utf8 :: "bytes \<Rightarrow> bool" where
  "valid_utf8 s \<longleftrightarrow> to_valid s = s"

definition ascii :: "bytes \<Rightarrow> bool" where
  "ascii s \<longleftrightarrow> list_all (\<lambda>c. byte c < 128) s"

lemma ascii_valid [simp]: "ascii s \<Longrightarrow> valid_utf8 s"
  by (induction s) (simp_all add: ascii_def valid_utf8_def)

section \<open>Quoting\<close>

definition hex_digit :: "nat \<Rightarrow> char" where
  "hex_digit n = (if n < 10 then char_of (48 + n) else char_of (87 + n))"

text \<open>
  One byte of a string below 128, as \<open>json.Marshal\<close> prints it: the HTML characters are escaped
  too.
\<close>

definition escape :: "char \<Rightarrow> bytes" where
  "escape c =
     (if c = CHR ''\"'' \<or> c = CHR 0x5C then [CHR 0x5C, c]
      else if c = CHR 0x0A then [CHR 0x5C, CHR ''n'']
      else if c = CHR 0x0D then [CHR 0x5C, CHR ''r'']
      else if c = CHR 0x09 then [CHR 0x5C, CHR ''t'']
      else if byte c < 32 \<or> c = CHR ''<'' \<or> c = CHR ''>'' \<or> c = CHR ''&''
      then [CHR 0x5C, CHR ''u'', CHR ''0'', CHR ''0'', hex_digit (byte c div 16), hex_digit (byte c mod 16)]
      else [c])"

definition LineSep :: bytes where
  "LineSep = [char_of (226 :: nat), char_of (128 :: nat), char_of (168 :: nat)]"
definition ParaSep :: bytes where
  "ParaSep = [char_of (226 :: nat), char_of (128 :: nat), char_of (169 :: nat)]"

definition backslash_u :: "string \<Rightarrow> bytes" where
  "backslash_u h = CHR 0x5C # CHR ''u'' # h"

function quote_body :: "bytes \<Rightarrow> bytes" where
  "quote_body [] = []"
| "quote_body (c # cs) =
     (let w = utf8_width (c # cs); r = take w (c # cs) in
      if w = 0 then backslash_u ''fffd'' @ quote_body cs
      else if w = 1 then escape c @ quote_body cs
      else (if r = LineSep then backslash_u ''2028'' else if r = ParaSep then backslash_u ''2029'' else r)
           @ quote_body (drop w (c # cs)))"
  by pat_completeness auto
termination by (relation "measure length") auto

definition quote :: "bytes \<Rightarrow> bytes" where
  "quote s = CHR ''\"'' # quote_body s @ [CHR ''\"'']"

section \<open>Unquoting\<close>

definition hex_val :: "char \<Rightarrow> nat option" where
  "hex_val c =
     (if 48 \<le> byte c \<and> byte c < 58 then Some (byte c - 48)
      else if 97 \<le> byte c \<and> byte c < 103 then Some (byte c - 87)
      else if 65 \<le> byte c \<and> byte c < 71 then Some (byte c - 55)
      else None)"

fun hex4 :: "bytes \<Rightarrow> (nat \<times> bytes) option" where
  "hex4 (a # b # c # d # r) =
     (case (hex_val a, hex_val b, hex_val c, hex_val d) of
        (Some w, Some x, Some y, Some z) \<Rightarrow> Some (4096 * w + 256 * x + 16 * y + z, r)
      | _ \<Rightarrow> None)"
| "hex4 _ = None"

text \<open>\<open>utf8.EncodeRune\<close>.\<close>

definition encode_rune :: "nat \<Rightarrow> bytes" where
  "encode_rune n =
     (if n < 128 then [char_of n]
      else if n < 2048 then [char_of (192 + n div 64), char_of (128 + n mod 64)]
      else if 55296 \<le> n \<and> n < 57344 \<or> 1114112 \<le> n then RuneError
      else if n < 65536 then [char_of (224 + n div 4096), char_of (128 + n div 64 mod 64), char_of (128 + n mod 64)]
      else [char_of (240 + n div 262144), char_of (128 + n div 4096 mod 64), char_of (128 + n div 64 mod 64),
            char_of (128 + n mod 64)])"

text \<open>A \<open>\\u\<close> escape after its first four digits: surrogate pairs are joined, lone halves replaced.\<close>

definition low_half :: "bytes \<Rightarrow> (nat \<times> bytes) option" where
  "low_half r =
     (case r of
        c # u # r' \<Rightarrow>
          if c = CHR 0x5C \<and> u = CHR ''u''
          then (case hex4 r' of Some (m, r'') \<Rightarrow> if 56320 \<le> m \<and> m < 57344 then Some (m, r'') else None | None \<Rightarrow> None)
          else None
      | _ \<Rightarrow> None)"

definition unescape_u :: "nat \<Rightarrow> bytes \<Rightarrow> bytes \<times> bytes" where
  "unescape_u n r =
     (if 55296 \<le> n \<and> n < 57344 then
        (case (if n < 56320 then low_half r else None) of
           Some (m, r') \<Rightarrow> (encode_rune (65536 + (n - 55296) * 1024 + (m - 56320)), r')
         | None \<Rightarrow> (RuneError, r))
      else (encode_rune n, r))"

text \<open>One escape, after its backslash: the bytes it stands for and the rest.\<close>

definition unescape :: "bytes \<Rightarrow> (bytes \<times> bytes) option" where
  "unescape s =
     (case s of
        [] \<Rightarrow> None
      | e # r \<Rightarrow>
          if e = CHR ''\"'' \<or> e = CHR 0x5C \<or> e = CHR ''/'' then Some ([e], r)
          else if e = CHR ''b'' then Some ([CHR 0x08], r)
          else if e = CHR ''f'' then Some ([CHR 0x0C], r)
          else if e = CHR ''n'' then Some ([CHR 0x0A], r)
          else if e = CHR ''r'' then Some ([CHR 0x0D], r)
          else if e = CHR ''t'' then Some ([CHR 0x09], r)
          else if e = CHR ''u'' then
            (case hex4 r of None \<Rightarrow> None | Some (n, r') \<Rightarrow> Some (unescape_u n r'))
          else None)"

lemma hex4_length: "hex4 s = Some (n, r) \<Longrightarrow> length r < length s"
  by (cases s rule: hex4.cases) (auto split: option.splits)

lemma unescape_length: "unescape s = Some (b, r) \<Longrightarrow> length r < length s"
  by (auto simp: unescape_def unescape_u_def low_half_def dest!: hex4_length
      split: list.splits if_splits option.splits)

text \<open>The rest of a string literal after its opening quote: its value and what follows.\<close>

function (sequential) parse_string :: "bytes \<Rightarrow> (bytes \<times> bytes) option" where
  "parse_string [] = None"
| "parse_string (c # cs) =
     (if c = CHR ''\"'' then Some ([], cs)
      else if c = CHR 0x5C then
        (case unescape cs of
           None \<Rightarrow> None
         | Some (b, r) \<Rightarrow> map_option (\<lambda>(v, r'). (b @ v, r')) (parse_string r))
      else if byte c < 32 then None
      else if utf8_width (c # cs) = 0 then map_option (\<lambda>(v, r'). (RuneError @ v, r')) (parse_string cs)
      else map_option (\<lambda>(v, r'). (take (utf8_width (c # cs)) (c # cs) @ v, r'))
             (parse_string (drop (utf8_width (c # cs)) (c # cs))))"
  by pat_completeness auto
termination
  by (relation "measure length") (auto dest: unescape_length)

declare parse_string.simps(2) [simp del]

subsection \<open>Unquoting what was quoted\<close>

lemma hex_val_digit [simp]: "n < 16 \<Longrightarrow> hex_val (hex_digit n) = Some n"
  by (auto simp: hex_val_def hex_digit_def)

lemma parse_string_plain:
  assumes "byte c < 128" "32 \<le> byte c" "c \<noteq> CHR ''\"''" "c \<noteq> CHR 0x5C"
  shows "parse_string (c # s) = map_option (\<lambda>(v, r). (c # v, r)) (parse_string s)"
  using assms by (simp add: parse_string.simps(2))

lemma parse_string_escaped:
  "parse_string (CHR 0x5C # s) =
     (case unescape s of
        None \<Rightarrow> None
      | Some (b, r) \<Rightarrow> map_option (\<lambda>(v, r'). (b @ v, r')) (parse_string r))"
  by (simp add: parse_string.simps(2))

lemma parse_string_escape:
  assumes "byte c < 128"
  shows "parse_string (escape c @ s) = map_option (\<lambda>(v, r). (c # v, r)) (parse_string s)"
proof -
  consider (two) "c = CHR ''\"'' \<or> c = CHR 0x5C" | (n) "c = CHR 0x0A" | (r) "c = CHR 0x0D" | (t) "c = CHR 0x09"
    | (hex) "c \<noteq> CHR ''\"''" "c \<noteq> CHR 0x5C" "c \<noteq> CHR 0x0A" "c \<noteq> CHR 0x0D" "c \<noteq> CHR 0x09"
        "byte c < 32 \<or> c = CHR ''<'' \<or> c = CHR ''>'' \<or> c = CHR ''&''"
    | (plain) "c \<noteq> CHR ''\"''" "c \<noteq> CHR 0x5C" "c \<noteq> CHR 0x0A" "c \<noteq> CHR 0x0D" "c \<noteq> CHR 0x09"
        "\<not> (byte c < 32 \<or> c = CHR ''<'' \<or> c = CHR ''>'' \<or> c = CHR ''&'')"
    by blast
  then show ?thesis
  proof cases
    case two
    then show ?thesis by (auto simp: escape_def parse_string_escaped unescape_def)
  next
    case hex
    have "byte c div 16 < 16" "byte c mod 16 < 16" using assms by auto
    with hex have "unescape (tl (escape c) @ s) = Some (unescape_u (byte c) s)"
      using hex_val_digit [of "byte c div 16"] hex_val_digit [of "byte c mod 16"]
      by (auto simp: escape_def unescape_def hex_val_def)
    then show ?thesis
      using assms hex
      by (auto simp: escape_def parse_string_escaped unescape_u_def encode_rune_def split: option.splits)
  next
    case plain
    then have "escape c = [c]" by (simp add: escape_def)
    with plain show ?thesis using assms by (simp add: parse_string_plain)
  qed (simp_all add: escape_def parse_string_escaped unescape_def)
qed

lemma parse_string_wide:
  assumes "utf8_width (c # cs) = w" "2 \<le> w"
  shows "parse_string (take w (c # cs) @ s) = map_option (\<lambda>(v, r). (take w (c # cs) @ v, r)) (parse_string s)"
proof -
  obtain k where w: "w = Suc k" using assms(2) by (cases w) auto
  have "\<not> byte c < 128" using assms by (auto simp: utf8_width_1)
  then have c: "c \<noteq> CHR ''\"''" "c \<noteq> CHR 0x5C" "\<not> byte c < 32" by auto
  have width: "utf8_width (c # take k cs @ s) = w"
    using utf8_width_take [OF assms(1)] assms(2) w by simp
  have len: "length (take k cs) = k" using utf8_width_le [of "c # cs"] assms w by simp
  show ?thesis using c width len w by (simp add: parse_string.simps(2))
qed

lemma parse_string_u:
  "parse_string (backslash_u ''fffd'' @ s) = map_option (\<lambda>(v, r). (RuneError @ v, r)) (parse_string s)"
  "parse_string (backslash_u ''2028'' @ s) = map_option (\<lambda>(v, r). (LineSep @ v, r)) (parse_string s)"
  "parse_string (backslash_u ''2029'' @ s) = map_option (\<lambda>(v, r). (ParaSep @ v, r)) (parse_string s)"
  by (simp_all add: backslash_u_def parse_string_escaped unescape_def hex_val_def unescape_u_def
      encode_rune_def RuneError_def LineSep_def ParaSep_def)

lemma parse_string_quote_body:
  "parse_string (quote_body s @ CHR ''\"'' # r) = Some (to_valid s, r)"
proof (induction s rule: quote_body.induct)
  case 1
  show ?case by (simp add: parse_string.simps(2))
next
  case (2 c cs)
  define w where "w = utf8_width (c # cs)"
  consider (bad) "w = 0" | (one) "w = 1" | (wide) "2 \<le> w" by linarith
  then show ?case
  proof cases
    case bad
    with 2(1) show ?thesis by (simp add: w_def parse_string_u)
  next
    case one
    then have "byte c < 128" using utf8_width_1 w_def by simp
    with one 2(2) show ?thesis by (simp add: w_def parse_string_escape)
  next
    case wide
    with 2(3) have IH: "parse_string (quote_body (drop w (c # cs)) @ CHR ''\"'' # r)
        = Some (to_valid (drop w (c # cs)), r)" by (simp add: w_def)
    have "quote_body (c # cs) = (if take w (c # cs) = LineSep then backslash_u ''2028''
        else if take w (c # cs) = ParaSep then backslash_u ''2029'' else take w (c # cs)) @ quote_body (drop w (c # cs))"
      using wide by (simp add: w_def Let_def)
    moreover have "to_valid (c # cs) = take w (c # cs) @ to_valid (drop w (c # cs))"
      using wide by (simp add: w_def)
    ultimately show ?thesis
      using wide IH parse_string_wide [OF w_def [symmetric] wide]
      by (simp add: parse_string_u del: quote_body.simps to_valid.simps)
  qed
qed

section \<open>Base64\<close>

definition b64_char :: "nat \<Rightarrow> char" where
  "b64_char n =
     (if n < 26 then char_of (65 + n) else if n < 52 then char_of (71 + n)
      else if n < 62 then char_of (n - 4) else if n = 62 then CHR ''+'' else CHR ''/'')"

definition b64_val :: "char \<Rightarrow> nat option" where
  "b64_val c =
     (if 65 \<le> byte c \<and> byte c < 91 then Some (byte c - 65)
      else if 97 \<le> byte c \<and> byte c < 123 then Some (byte c - 71)
      else if 48 \<le> byte c \<and> byte c < 58 then Some (byte c + 4)
      else if c = CHR ''+'' then Some 62 else if c = CHR ''/'' then Some 63 else None)"

fun b64_encode :: "bytes \<Rightarrow> bytes" where
  "b64_encode [] = []"
| "b64_encode [a] = [b64_char (byte a div 4), b64_char (byte a mod 4 * 16), CHR ''='', CHR ''='']"
| "b64_encode [a, b] =
     [b64_char (byte a div 4), b64_char (byte a mod 4 * 16 + byte b div 16),
      b64_char (byte b mod 16 * 4), CHR ''='']"
| "b64_encode (a # b # c # r) =
     b64_char (byte a div 4) # b64_char (byte a mod 4 * 16 + byte b div 16) #
     b64_char (byte b mod 16 * 4 + byte c div 64) # b64_char (byte c mod 64) # b64_encode r"

text \<open>
  \<open>base64.StdEncoding.Decode\<close>: carriage returns and line feeds are skipped, padding ends the
  input, and the bits that padding leaves over are not checked.
\<close>

fun b64_quanta :: "bytes \<Rightarrow> bytes option" where
  "b64_quanta [] = Some []"
| "b64_quanta (w # x # y # z # r) =
     (case (b64_val w, b64_val x) of
        (Some w', Some x') \<Rightarrow>
          (if y = CHR ''='' \<and> z = CHR ''='' then
             (if r = [] then Some [char_of (w' * 4 + x' div 16)] else None)
           else (case b64_val y of
              None \<Rightarrow> None
            | Some y' \<Rightarrow>
               (if z = CHR ''='' then
                  (if r = [] then Some [char_of (w' * 4 + x' div 16), char_of (x' mod 16 * 16 + y' div 4)]
                   else None)
                else (case b64_val z of
                   None \<Rightarrow> None
                 | Some z' \<Rightarrow>
                    map_option (\<lambda>v. char_of (w' * 4 + x' div 16) # char_of (x' mod 16 * 16 + y' div 4) #
                                     char_of (y' mod 4 * 64 + z') # v) (b64_quanta r)))))
      | _ \<Rightarrow> None)"
| "b64_quanta _ = None"

definition b64_decode :: "bytes \<Rightarrow> bytes option" where
  "b64_decode s = b64_quanta (filter (\<lambda>c. c \<noteq> CHR 0x0A \<and> c \<noteq> CHR 0x0D) s)"

lemma b64_val_char [simp]: "n < 64 \<Longrightarrow> b64_val (b64_char n) = Some n"
  by (auto simp: b64_val_def b64_char_def)

lemma b64_char_plain:
  assumes "n < 64"
  shows "b64_char n \<noteq> CHR ''=''" "b64_char n \<noteq> CHR 0x0A" "b64_char n \<noteq> CHR 0x0D" "byte (b64_char n) < 128"
  using b64_val_char [OF assms] assms by (auto simp: b64_val_def b64_char_def)

lemma byte_less [simp]: "byte c < 256" by simp

lemma sextet_less [simp]:
  "byte a div 4 < 64" "byte a mod 4 * 16 < 64" "byte a mod 4 * 16 + byte b div 16 < 64"
  "byte b mod 16 * 4 < 64" "byte b mod 16 * 4 + byte c div 64 < 64" "byte c mod 64 < 64"
proof -
  have "byte a div 4 < 64" "byte b div 16 < 16" "byte c div 64 < 4"
    using byte_less [of a] byte_less [of b] byte_less [of c] by linarith+
  moreover have "byte a mod 4 < 4" "byte b mod 16 < 16" by simp_all
  ultimately show "byte a div 4 < 64" "byte a mod 4 * 16 < 64" "byte a mod 4 * 16 + byte b div 16 < 64"
    "byte b mod 16 * 4 < 64" "byte b mod 16 * 4 + byte c div 64 < 64" by linarith+
qed simp

lemma byte_halves [simp]:
  "byte b div 16 div 16 = 0" "byte b div 16 mod 16 = byte b div 16"
  "byte c div 64 div 4 = 0" "byte c div 64 mod 4 = byte c div 64"
proof -
  have "byte b div 16 < 16" "byte c div 64 < 4" using byte_less [of b] byte_less [of c] by linarith+
  then show "byte b div 16 div 16 = 0" "byte b div 16 mod 16 = byte b div 16"
    "byte c div 64 div 4 = 0" "byte c div 64 mod 4 = byte c div 64" by simp_all
qed

lemma b64_quanta_encode: "b64_quanta (b64_encode bs) = Some bs"
proof (induction bs rule: b64_encode.induct)
  case (2 a)
  show ?case by simp
next
  case (3 a b)
  show ?case by (simp add: b64_char_plain)
next
  case (4 a b c r)
  then show ?case by (simp add: b64_char_plain)
qed simp

lemma b64_encode_set: "set (b64_encode bs) \<subseteq> insert CHR ''='' (b64_char ` {..< 64})"
proof (induction bs rule: b64_encode.induct)
  case (4 a b d r)
  then show ?case by (simp add: imageI)
qed (simp_all add: imageI)

lemma b64_encode_plain: "c \<in> set (b64_encode bs) \<Longrightarrow> c \<noteq> CHR 0x0A \<and> c \<noteq> CHR 0x0D \<and> byte c < 128"
proof -
  assume "c \<in> set (b64_encode bs)"
  with b64_encode_set [of bs] consider "c = CHR ''=''" | n where "n < 64" "c = b64_char n" by blast
  then show ?thesis by cases (auto simp: b64_char_plain)
qed

lemma b64_decode_encode [simp]: "b64_decode (b64_encode bs) = Some bs"
proof -
  have "filter (\<lambda>c. c \<noteq> CHR 0x0A \<and> c \<noteq> CHR 0x0D) (b64_encode bs) = b64_encode bs"
    by (intro filter_True) (auto dest: b64_encode_plain)
  then show ?thesis by (simp add: b64_decode_def b64_quanta_encode)
qed

lemma b64_encode_ascii [simp]: "ascii (b64_encode bs)"
  by (auto simp: ascii_def list_all_iff dest: b64_encode_plain)

section \<open>JSON texts\<close>

datatype json =
    JNull
  | JBool bool
  | JNum string
  | JStr bytes
  | JArr "json list"
  | JObj "(bytes \<times> json) list"

fun print_json :: "json \<Rightarrow> bytes"
  and print_elems :: "json list \<Rightarrow> bytes"
  and print_members :: "(bytes \<times> json) list \<Rightarrow> bytes" where
  "print_json JNull = ''null''"
| "print_json (JBool b) = (if b then ''true'' else ''false'')"
| "print_json (JNum n) = n"
| "print_json (JStr s) = quote s"
| "print_json (JArr js) = CHR ''['' # print_elems js @ [CHR '']'']"
| "print_json (JObj ms) = CHR ''{'' # print_members ms @ [CHR ''}'']"
| "print_elems [] = []"
| "print_elems [j] = print_json j"
| "print_elems (j # j' # js) = print_json j @ CHR '','' # print_elems (j' # js)"
| "print_members [] = []"
| "print_members [(k, v)] = quote k @ CHR '':'' # print_json v"
| "print_members ((k, v) # m # ms) = quote k @ CHR '':'' # print_json v @ CHR '','' # print_members (m # ms)"

definition is_ws :: "char \<Rightarrow> bool" where
  "is_ws c \<longleftrightarrow> c = CHR '' '' \<or> c = CHR 0x09 \<or> c = CHR 0x0A \<or> c = CHR 0x0D"

definition skip_ws :: "bytes \<Rightarrow> bytes" where
  "skip_ws s = dropWhile is_ws s"

definition parse_lit :: "bytes \<Rightarrow> json \<Rightarrow> bytes \<Rightarrow> (json \<times> bytes) option" where
  "parse_lit lit j s = (if take (length lit) s = lit then Some (j, drop (length lit) s) else None)"

definition span_digits :: "bytes \<Rightarrow> bytes \<times> bytes" where
  "span_digits s = (takeWhile is_digit s, dropWhile is_digit s)"

definition parse_frac :: "bytes \<Rightarrow> (bytes \<times> bytes) option" where
  "parse_frac s =
     (case s of
        c # cs \<Rightarrow>
          if c = CHR ''.''
          then (case span_digits cs of (d, r) \<Rightarrow> if d = [] then None else Some (c # d, r))
          else Some ([], s)
      | [] \<Rightarrow> Some ([], s))"

definition parse_exp :: "bytes \<Rightarrow> (bytes \<times> bytes) option" where
  "parse_exp s =
     (case s of
        c # cs \<Rightarrow>
          if c = CHR ''e'' \<or> c = CHR ''E'' then
            (let sign = takeWhile (\<lambda>x. x = CHR ''+'' \<or> x = CHR ''-'') (take 1 cs) in
             case span_digits (drop (length sign) cs) of (d, r) \<Rightarrow>
               if d = [] then None else Some (c # sign @ d, r))
          else Some ([], s)
      | [] \<Rightarrow> Some ([], s))"

definition parse_int_part :: "bytes \<Rightarrow> (bytes \<times> bytes) option" where
  "parse_int_part s =
     (case s of
        [] \<Rightarrow> None
      | c # cs \<Rightarrow> if \<not> is_digit c then None
                   else if c = CHR ''0'' then Some ([c], cs) else Some (span_digits s))"

definition parse_number :: "bytes \<Rightarrow> (json \<times> bytes) option" where
  "parse_number s =
     (let sign = takeWhile (\<lambda>x. x = CHR ''-'') (take 1 s) in
      case parse_int_part (drop (length sign) s) of
        None \<Rightarrow> None
      | Some (i, r) \<Rightarrow>
         (case parse_frac r of
            None \<Rightarrow> None
          | Some (f, r') \<Rightarrow>
             (case parse_exp r' of
                None \<Rightarrow> None
              | Some (e, r'') \<Rightarrow> Some (JNum (sign @ i @ f @ e), r''))))"

text \<open>
  The parser. The first argument bounds the number of nested calls (the length of the input is
  enough: every call consumes a byte), the second is the nesting depth still allowed.
\<close>

fun parse_value :: "nat \<Rightarrow> nat \<Rightarrow> bytes \<Rightarrow> (json \<times> bytes) option"
  and parse_elems :: "nat \<Rightarrow> nat \<Rightarrow> bytes \<Rightarrow> (json list \<times> bytes) option"
  and parse_members :: "nat \<Rightarrow> nat \<Rightarrow> bytes \<Rightarrow> ((bytes \<times> json) list \<times> bytes) option" where
  "parse_value 0 d s = None"
| "parse_value (Suc f) d s =
     (case skip_ws s of
        [] \<Rightarrow> None
      | c # cs \<Rightarrow>
          if c = CHR ''{'' then
            (if d = 0 then None
             else case skip_ws cs of
               [] \<Rightarrow> None
             | x # r \<Rightarrow> if x = CHR ''}'' then Some (JObj [], r)
                         else map_option (\<lambda>(ms, r). (JObj ms, r)) (parse_members f (d - 1) (x # r)))
          else if c = CHR ''['' then
            (if d = 0 then None
             else case skip_ws cs of
               [] \<Rightarrow> None
             | x # r \<Rightarrow> if x = CHR '']'' then Some (JArr [], r)
                         else map_option (\<lambda>(js, r). (JArr js, r)) (parse_elems f (d - 1) (x # r)))
          else if c = CHR ''\"'' then map_option (\<lambda>(v, r). (JStr v, r)) (parse_string cs)
          else if c = CHR ''t'' then parse_lit ''true'' (JBool True) (c # cs)
          else if c = CHR ''f'' then parse_lit ''false'' (JBool False) (c # cs)
          else if c = CHR ''n'' then parse_lit ''null'' JNull (c # cs)
          else parse_number (c # cs))"
| "parse_elems 0 d s = None"
| "parse_elems (Suc f) d s =
     (case parse_value f d s of
        None \<Rightarrow> None
      | Some (j, r) \<Rightarrow>
         (case skip_ws r of
            [] \<Rightarrow> None
          | x # r' \<Rightarrow>
              if x = CHR '']'' then Some ([j], r')
              else if x = CHR '','' then map_option (\<lambda>(js, r). (j # js, r)) (parse_elems f d r')
              else None))"
| "parse_members 0 d s = None"
| "parse_members (Suc f) d s =
     (case skip_ws s of
        [] \<Rightarrow> None
      | q # s' \<Rightarrow>
          if q \<noteq> CHR ''\"'' then None
          else (case parse_string s' of
             None \<Rightarrow> None
           | Some (k, r) \<Rightarrow>
              (case skip_ws r of
                 [] \<Rightarrow> None
               | c # r' \<Rightarrow>
                   if c \<noteq> CHR '':'' then None
                   else (case parse_value f d r' of
                      None \<Rightarrow> None
                    | Some (v, t) \<Rightarrow>
                       (case skip_ws t of
                          [] \<Rightarrow> None
                        | x # t' \<Rightarrow>
                            if x = CHR ''}'' then Some ([(k, v)], t')
                            else if x = CHR '','' then map_option (\<lambda>(ms, r). ((k, v) # ms, r)) (parse_members f d t')
                            else None)))))"

definition maxNestingDepth :: nat where "maxNestingDepth = 10000"

definition parse_json :: "bytes \<Rightarrow> json option" where
  "parse_json s =
     (case parse_value (Suc (length s)) maxNestingDepth s of
        None \<Rightarrow> None
      | Some (j, r) \<Rightarrow> if skip_ws r = [] then Some j else None)"

subsection \<open>Parsing what was printed\<close>

text \<open>The value with invalid UTF-8 replaced in every string; which numbers and depths occur.\<close>

fun clean_json :: "json \<Rightarrow> json" where
  "clean_json (JStr s) = JStr (to_valid s)"
| "clean_json (JArr js) = JArr (map clean_json js)"
| "clean_json (JObj ms) = JObj (map (\<lambda>(k, v). (to_valid k, clean_json v)) ms)"
| "clean_json j = j"

fun nat_numbers :: "json \<Rightarrow> bool" where
  "nat_numbers (JNum n) \<longleftrightarrow> n = itoa (atoi n)"
| "nat_numbers (JArr js) \<longleftrightarrow> list_all nat_numbers js"
| "nat_numbers (JObj ms) \<longleftrightarrow> list_all (\<lambda>(k, v). nat_numbers v) ms"
| "nat_numbers j \<longleftrightarrow> True"

fun within_depth :: "nat \<Rightarrow> json \<Rightarrow> bool" where
  "within_depth d (JArr js) \<longleftrightarrow> 0 < d \<and> list_all (within_depth (d - 1)) js"
| "within_depth d (JObj ms) \<longleftrightarrow> 0 < d \<and> list_all (\<lambda>(k, v). within_depth (d - 1) v) ms"
| "within_depth d j \<longleftrightarrow> True"

definition follows :: "bytes \<Rightarrow> bool" where
  "follows r \<longleftrightarrow> r = [] \<or> hd r \<in> {CHR '','', CHR ''}'', CHR '']''}"

lemma follows_Cons [simp]: "follows (CHR '','' # r)" "follows (CHR ''}'' # r)" "follows (CHR '']'' # r)" "follows []"
  by (simp_all add: follows_def)

lemma itoa_leading_zero: "itoa n = CHR ''0'' # ds \<Longrightarrow> n = 0"
proof (induction n arbitrary: ds rule: itoa.induct)
  case (1 n)
  show ?case
  proof (cases "n < 10")
    case True
    with 1(2) have "digit_char n = CHR ''0''" by (simp add: itoa.simps [of n])
    then have "digit_val (digit_char n) = digit_val CHR ''0''" by simp
    with True show ?thesis using digit_char_props(2) [of n] by (simp add: digit_val_def [of "CHR ''0''"])
  next
    case False
    obtain c cs where c: "itoa (n div 10) = c # cs" by (cases "itoa (n div 10)") simp_all
    with 1(2) False have "c = CHR ''0''" by (simp add: itoa.simps [of n])
    with 1(1) [OF False] c have "n div 10 = 0" by simp
    with False show ?thesis by simp
  qed
qed

lemma span_digits_itoa:
  assumes "follows r" shows "span_digits (itoa n @ r) = (itoa n, r)"
proof -
  have "takeWhile is_digit r = []" "dropWhile is_digit r = r"
    using assms by (cases r; auto simp: follows_def is_digit_def)+
  then show ?thesis
    using itoa_digits by (simp add: span_digits_def takeWhile_append2 dropWhile_append2)
qed

lemma parse_number_itoa:
  assumes "follows r" shows "parse_number (itoa n @ r) = Some (JNum (itoa n), r)"
proof -
  obtain c cs where c: "itoa n = c # cs" by (cases "itoa n") simp_all
  have dig: "is_digit c" using itoa_digits [of c n] c by simp
  then have "c \<noteq> CHR ''-''" by auto
  moreover have "parse_int_part (itoa n @ r) = Some (itoa n, r)"
  proof (cases "c = CHR ''0''")
    case True
    with itoa_leading_zero [of n cs] c have "n = 0" by simp
    with c have "cs = []" by (simp add: itoa.simps)
    with c dig True show ?thesis by (simp add: parse_int_part_def)
  next
    case False
    with c dig span_digits_itoa [OF assms, of n] show ?thesis by (simp add: parse_int_part_def)
  qed
  moreover have "parse_frac r = Some ([], r)" "parse_exp r = Some ([], r)"
    using assms by (cases r; auto simp: follows_def parse_frac_def parse_exp_def)+
  ultimately show ?thesis using c by (simp add: parse_number_def)
qed

lemma skip_ws_simps [simp]: "\<not> is_ws c \<Longrightarrow> skip_ws (c # s) = c # s" "skip_ws [] = []"
  by (simp_all add: skip_ws_def)

lemma not_ws [simp]:
  "\<not> is_ws CHR '',''" "\<not> is_ws CHR ''}''" "\<not> is_ws CHR '']''" "\<not> is_ws CHR ''{''" "\<not> is_ws CHR ''[''"
  "\<not> is_ws CHR '':''" "\<not> is_ws CHR ''\"''" "\<not> is_ws CHR ''t''" "\<not> is_ws CHR ''f''" "\<not> is_ws CHR ''n''"
  by (simp_all add: is_ws_def)

lemma parse_value_number:
  assumes "follows r" shows "parse_value (Suc f) d (itoa n @ r) = Some (JNum (itoa n), r)"
proof -
  obtain c cs where c: "itoa n = c # cs" by (cases "itoa n") simp_all
  have dig: "is_digit c" using itoa_digits [of c n] c by simp
  then have "\<not> is_ws c" "c \<notin> {CHR ''{'', CHR ''['', CHR ''\"'', CHR ''t'', CHR ''f'', CHR ''n''}"
    by (auto simp: is_ws_def is_digit_def)
  then show ?thesis using parse_number_itoa [OF assms, of n] c by simp
qed

lemma print_json_start:
  assumes "nat_numbers j"
  shows "\<exists>c cs. print_json j = c # cs \<and> \<not> is_ws c \<and> c \<noteq> CHR '']'' \<and> c \<noteq> CHR ''}''"
proof (cases j)
  case (JNum n)
  with assms have "n = itoa (atoi n)" by simp
  then obtain c cs where c: "n = c # cs" "is_digit c"
    by (metis itoa_digits itoa_not_Nil list.exhaust list.set_intros(1))
  then show ?thesis using JNum by (auto simp: is_ws_def is_digit_def)
qed (simp_all add: quote_def)

lemma print_members_start: "ms \<noteq> [] \<Longrightarrow> \<exists>cs. print_members ms = CHR ''\"'' # cs"
  by (cases ms rule: print_members.cases) (auto simp: quote_def)

lemma print_elems_start:
  assumes "js \<noteq> []" "list_all nat_numbers js"
  obtains c cs where "print_elems js = c # cs" "\<not> is_ws c" "c \<noteq> CHR '']''"
proof -
  from assms obtain j js' where js: "js = j # js'" "nat_numbers j" by (cases js) auto
  obtain c cs where "print_json j = c # cs" "\<not> is_ws c" "c \<noteq> CHR '']''"
    using print_json_start [OF js(2)] by blast
  with js(1) show thesis by (cases js') (auto intro: that)
qed

lemma parse_string_quoted: "parse_string (quote_body s @ CHR ''\"'' # r) = Some (to_valid s, r)"
  by (rule parse_string_quote_body)

lemma parse_print:
  "length (print_json j) \<le> f \<Longrightarrow> nat_numbers j \<Longrightarrow> within_depth d j \<Longrightarrow> follows r \<Longrightarrow>
     parse_value f d (print_json j @ r) = Some (clean_json j, r)"
  "length (print_elems js) < f \<Longrightarrow> list_all nat_numbers js \<Longrightarrow> list_all (within_depth d) js \<Longrightarrow> js \<noteq> [] \<Longrightarrow>
     parse_elems f d (print_elems js @ CHR '']'' # r) = Some (map clean_json js, r)"
  "length (print_members ms) \<le> f \<Longrightarrow> list_all (\<lambda>(k, v). nat_numbers v) ms \<Longrightarrow>
     list_all (\<lambda>(k, v). within_depth d v) ms \<Longrightarrow> ms \<noteq> [] \<Longrightarrow>
     parse_members f d (print_members ms @ CHR ''}'' # r) =
       Some (map (\<lambda>(k, v). (to_valid k, clean_json v)) ms, r)"
proof (induction j and js and ms arbitrary: f d r and f d r and f d r
    rule: print_json_print_elems_print_members.induct)
  case 1
  then show ?case by (cases f) (auto simp: parse_lit_def)
next
  case (2 b)
  then show ?case by (cases f; cases b) (auto simp: parse_lit_def)
next
  case (3 n)
  then obtain k where n: "n = itoa k" by auto
  with 3 obtain f' where "f = Suc f'" by (cases f) auto
  with n 3 show ?case using parse_value_number [of r f' d k] by simp
next
  case (4 s)
  then obtain f' where "f = Suc f'" by (cases f) (auto simp: quote_def)
  then show ?case by (simp add: quote_def parse_string_quoted)
next
  case (5 js)
  then obtain f' where f: "f = Suc f'" by (cases f) auto
  show ?case
  proof (cases "js = []")
    case False
    have nn: "list_all nat_numbers js" using 5(3) by simp
    obtain c cs where c: "print_elems js = c # cs" "\<not> is_ws c" "c \<noteq> CHR '']''"
      using print_elems_start [OF False nn] .
    have "parse_elems f' (d - 1) (print_elems js @ CHR '']'' # r) = Some (map clean_json js, r)"
      using 5 f False by (intro 5(1)) auto
    with c f 5 show ?thesis by simp
  qed (use f 5 in simp)
next
  case (6 ms)
  then obtain f' where f: "f = Suc f'" by (cases f) auto
  show ?case
  proof (cases "ms = []")
    case False
    with print_members_start [of ms] obtain cs where c: "print_members ms = CHR ''\"'' # cs" by auto
    have "parse_members f' (d - 1) (print_members ms @ CHR ''}'' # r) =
        Some (map (\<lambda>(k, v). (to_valid k, clean_json v)) ms, r)"
      using 6 f False by (intro 6(1)) auto
    with c f 6 show ?thesis by simp
  qed (use f 6 in simp)
next
  case 7
  then show ?case by simp
next
  case (8 j)
  then obtain f' where f: "f = Suc f'" by (cases f) auto
  with 8 have "parse_value f' d (print_json j @ CHR '']'' # r) = Some (clean_json j, CHR '']'' # r)"
    by (intro 8(1)) auto
  with f show ?case by simp
next
  case (9 j j' js)
  then obtain f' where f: "f = Suc f'" by (cases f) auto
  have "parse_value f' d (print_json j @ CHR '','' # print_elems (j' # js) @ CHR '']'' # r) =
      Some (clean_json j, CHR '','' # print_elems (j' # js) @ CHR '']'' # r)"
    using 9 f by (intro 9(1)) auto
  moreover have "parse_elems f' d (print_elems (j' # js) @ CHR '']'' # r) = Some (map clean_json (j' # js), r)"
    using 9 f by (intro 9(2)) auto
  ultimately show ?case using f by simp
next
  case 10
  then show ?case by simp
next
  case (11 k v)
  then obtain f' where f: "f = Suc f'" by (cases f) (auto simp: quote_def)
  have "parse_value f' d (print_json v @ CHR ''}'' # r) = Some (clean_json v, CHR ''}'' # r)"
    using 11 f by (intro 11(1)) (auto simp: quote_def)
  with f show ?case by (simp add: quote_def parse_string_quoted)
next
  case (12 k v m ms)
  then obtain f' where f: "f = Suc f'" by (cases f) (auto simp: quote_def)
  have "parse_value f' d (print_json v @ CHR '','' # print_members (m # ms) @ CHR ''}'' # r) =
      Some (clean_json v, CHR '','' # print_members (m # ms) @ CHR ''}'' # r)"
    using 12 f by (intro 12(1)) (auto simp: quote_def)
  moreover have "parse_members f' d (print_members (m # ms) @ CHR ''}'' # r) =
      Some (map (\<lambda>(k, v). (to_valid k, clean_json v)) (m # ms), r)"
    using 12 f by (intro 12(2)) (auto simp: quote_def)
  ultimately show ?case using f by (simp add: quote_def parse_string_quoted)
qed

lemma parse_json_print:
  assumes "nat_numbers j" "within_depth maxNestingDepth j"
  shows "parse_json (print_json j) = Some (clean_json j)"
  using parse_print(1) [of j "Suc (length (print_json j))" maxNestingDepth "[]"] assms
  by (simp add: parse_json_def)

section \<open>Go values\<close>

text \<open>
  A codec is how a Go type is encoded, and how a JSON value is decoded into a variable of the
  type that has some value already (\<open>None\<close>: an error). \<open>null\<close> empties a slice and leaves other
  variables alone.
\<close>

type_synonym 'v codec = "('v \<Rightarrow> json) \<times> (json \<Rightarrow> 'v \<Rightarrow> 'v option)"

definition string_codec :: "bytes codec" where
  "string_codec = (JStr, \<lambda>j old. case j of JStr s \<Rightarrow> Some s | JNull \<Rightarrow> Some old | _ \<Rightarrow> None)"

text \<open>An integer of \<open>w\<close> bits without sign: digits only, and in range.\<close>

definition uint_of_literal :: "nat \<Rightarrow> string \<Rightarrow> nat option" where
  "uint_of_literal w n = (if list_all is_digit n \<and> n \<noteq> [] \<and> atoi n < 2 ^ w then Some (atoi n) else None)"

definition byte_of_json :: "json \<Rightarrow> char option" where
  "byte_of_json j =
     (case j of
        JNum n \<Rightarrow> map_option char_of (uint_of_literal 8 n)
      | JNull \<Rightarrow> Some (char_of (0 :: nat))
      | _ \<Rightarrow> None)"

text \<open>
  \<open>[]byte\<close> is a base64 string; the decoder also takes an array of small numbers. A nil slice and
  an empty one are the same value here.
\<close>

definition bytes_codec :: "bytes codec" where
  "bytes_codec = (\<lambda>b. JStr (b64_encode b),
     \<lambda>j old. case j of
         JStr s \<Rightarrow> b64_decode s
       | JNull \<Rightarrow> Some []
       | JArr js \<Rightarrow> those (map byte_of_json js)
       | _ \<Rightarrow> None)"

definition uint64_codec :: "uint64 codec" where
  "uint64_codec = (\<lambda>n. JNum (itoa (unat n)),
     \<lambda>j old. case j of
         JNum n \<Rightarrow> map_option of_nat (uint_of_literal 64 n)
       | JNull \<Rightarrow> Some old
       | _ \<Rightarrow> None)"

definition bool_codec :: "bool codec" where
  "bool_codec = (JBool, \<lambda>j old. case j of JBool b \<Rightarrow> Some b | JNull \<Rightarrow> Some old | _ \<Rightarrow> None)"

text \<open>A type with \<open>MarshalText\<close> and \<open>UnmarshalText\<close>.\<close>

definition text_codec :: "('v \<Rightarrow> bytes) \<Rightarrow> (bytes \<Rightarrow> 'v option) \<Rightarrow> 'v codec" where
  "text_codec put get = (\<lambda>v. JStr (put v), \<lambda>j old. case j of JStr s \<Rightarrow> get s | JNull \<Rightarrow> Some old | _ \<Rightarrow> None)"

subsection \<open>Structs\<close>

text \<open>
  Member names are matched with the field names ignoring case, in the Unicode sense: the Kelvin
  sign is a \<open>k\<close> and the long s is an \<open>s\<close>.
\<close>

fun fold_name :: "bytes \<Rightarrow> bytes" where
  "fold_name [] = []"
| "fold_name (c # cs) =
     (if 97 \<le> byte c \<and> byte c < 123 then char_of (byte c - 32) # fold_name cs
      else case cs of
        x # cs' \<Rightarrow>
          if byte c = 197 \<and> byte x = 191 then CHR ''S'' # fold_name cs'
          else (case cs' of
             y # cs'' \<Rightarrow> if byte c = 226 \<and> byte x = 132 \<and> byte y = 170 then CHR ''K'' # fold_name cs''
                           else c # fold_name cs
           | [] \<Rightarrow> c # fold_name cs)
      | [] \<Rightarrow> c # fold_name cs)"

type_synonym 'r field = "string \<times> ('r \<Rightarrow> json) \<times> (json \<Rightarrow> 'r \<Rightarrow> 'r option)"

definition field :: "string \<Rightarrow> 'v codec \<Rightarrow> ('r \<Rightarrow> 'v) \<Rightarrow> (('v \<Rightarrow> 'v) \<Rightarrow> 'r \<Rightarrow> 'r) \<Rightarrow> 'r field" where
  "field n c get upd =
     (n, \<lambda>r. fst c (get r), \<lambda>j r. map_option (\<lambda>v. upd (\<lambda>_. v) r) (snd c j (get r)))"

definition find_field :: "'r field list \<Rightarrow> bytes \<Rightarrow> 'r field option" where
  "find_field fs k = find (\<lambda>f. fold_name (fst f) = fold_name k) fs"

definition set_member :: "'r field list \<Rightarrow> 'r option \<Rightarrow> bytes \<times> json \<Rightarrow> 'r option" where
  "set_member fs r kv =
     (case r of
        None \<Rightarrow> None
      | Some x \<Rightarrow> (case find_field fs (fst kv) of None \<Rightarrow> Some x | Some f \<Rightarrow> snd (snd f) (snd kv) x))"

definition struct_codec :: "'r field list \<Rightarrow> 'r codec" where
  "struct_codec fs = (\<lambda>r. JObj (map (\<lambda>f. (fst f, fst (snd f) r)) fs),
     \<lambda>j old. case j of
         JObj ms \<Rightarrow> foldl (set_member fs) (Some old) ms
       | JNull \<Rightarrow> Some old
       | _ \<Rightarrow> None)"

subsection \<open>Maps\<close>

text \<open>
  \<open>map[string]V\<close>, \<open>None\<close> for nil: the members are printed in the order of their keys, and a
  decoded element starts from the zero value of its type.
\<close>

definition map_member :: "'v codec \<Rightarrow> 'v \<Rightarrow> (bytes \<times> 'v) list option \<Rightarrow> bytes \<times> json \<Rightarrow> (bytes \<times> 'v) list option" where
  "map_member c zero m kv =
     (case m of
        None \<Rightarrow> None
      | Some xs \<Rightarrow> (case snd c (snd kv) zero of None \<Rightarrow> None | Some v \<Rightarrow> Some (AList.update (fst kv) v xs)))"

definition map_codec :: "'v codec \<Rightarrow> 'v \<Rightarrow> (bytes \<times> 'v) list option codec" where
  "map_codec c zero =
     (\<lambda>m. case m of None \<Rightarrow> JNull | Some xs \<Rightarrow> JObj (map (\<lambda>(k, v). (k, fst c v)) (sort_key fst xs)),
      \<lambda>j old. case j of
          JObj ms \<Rightarrow> map_option Some (foldl (map_member c zero) (Some (case old of Some xs \<Rightarrow> xs | None \<Rightarrow> [])) ms)
        | JNull \<Rightarrow> Some None
        | _ \<Rightarrow> None)"

subsection \<open>Marshal and Unmarshal\<close>

definition json_Marshal :: "'v codec \<Rightarrow> 'v \<Rightarrow> bytes" where
  "json_Marshal c v = print_json (fst c v)"

definition json_Unmarshal :: "'v codec \<Rightarrow> bytes \<Rightarrow> 'v \<Rightarrow> 'v option" where
  "json_Unmarshal c s zero = (case parse_json s of None \<Rightarrow> None | Some j \<Rightarrow> snd c j zero)"

subsection \<open>Unmarshalling what was marshalled\<close>

text \<open>
  \<open>codec_rt n c z v\<close>: the encoding of \<open>v\<close> is a plain value of depth at most \<open>n\<close> that decodes
  back to \<open>v\<close> in a variable holding \<open>z\<close>.
\<close>

definition plain_json :: "nat \<Rightarrow> json \<Rightarrow> bool" where
  "plain_json n j \<longleftrightarrow> nat_numbers j \<and> clean_json j = j \<and> within_depth n j"

definition codec_rt :: "nat \<Rightarrow> 'v codec \<Rightarrow> 'v \<Rightarrow> 'v \<Rightarrow> bool" where
  "codec_rt n c z v \<longleftrightarrow> plain_json n (fst c v) \<and> snd c (fst c v) z = Some v"

lemma within_depth_mono: "within_depth d j \<Longrightarrow> d \<le> d' \<Longrightarrow> within_depth d' j"
proof (induction d j arbitrary: d' rule: within_depth.induct)
  case (1 d js)
  have "within_depth (d' - 1) x" if "x \<in> set js" for x
    by (rule 1(1) [OF that]) (use 1(2,3) that in \<open>simp_all add: list_all_iff\<close>)
  with 1(2,3) show ?case by (simp add: list_all_iff)
next
  case (2 d ms)
  have "within_depth (d' - 1) v" if "(k, v) \<in> set ms" for k v
    by (rule 2(1) [OF that refl]) (use 2(2,3) that in \<open>auto simp: list_all_iff\<close>)
  with 2(2,3) show ?case by (auto simp: list_all_iff)
qed simp_all

lemma plain_json_mono: "plain_json n j \<Longrightarrow> n \<le> n' \<Longrightarrow> plain_json n' j"
  by (auto simp: plain_json_def intro: within_depth_mono)

lemma Unmarshal_Marshal_gen:
  assumes "nat_numbers (fst c v)" "within_depth n (fst c v)" "n \<le> maxNestingDepth"
  shows "json_Unmarshal c (json_Marshal c v) z = snd c (clean_json (fst c v)) z"
  using parse_json_print [OF assms(1) within_depth_mono [OF assms(2,3)]]
  by (simp add: json_Unmarshal_def json_Marshal_def)

lemma Unmarshal_Marshal:
  assumes "codec_rt n c z v" "n \<le> maxNestingDepth"
  shows "json_Unmarshal c (json_Marshal c v) z = Some v"
  using assms Unmarshal_Marshal_gen [of c v n z] by (simp add: codec_rt_def plain_json_def)

lemma codec_rt_bytes [simp]: "codec_rt n bytes_codec z b"
  using ascii_valid [OF b64_encode_ascii, of b]
  by (simp add: codec_rt_def bytes_codec_def plain_json_def valid_utf8_def)

lemma codec_rt_string [simp]: "valid_utf8 s \<Longrightarrow> codec_rt n string_codec z s"
  by (simp add: codec_rt_def string_codec_def plain_json_def valid_utf8_def)

lemma codec_rt_bool [simp]: "codec_rt n bool_codec z b"
  by (simp add: codec_rt_def bool_codec_def plain_json_def)

lemma codec_rt_uint64 [simp]: "codec_rt n uint64_codec z k"
proof -
  have "unat k < 2 ^ 64" using unsigned_less [of k] by simp
  moreover have "list_all is_digit (itoa (unat k))" using itoa_digits by (auto simp: list_all_iff)
  ultimately show ?thesis
    by (simp add: codec_rt_def uint64_codec_def plain_json_def uint_of_literal_def)
qed

lemma codec_rt_text [simp]:
  "valid_utf8 (put v) \<Longrightarrow> get (put v) = Some v \<Longrightarrow> codec_rt n (text_codec put get) z v"
  by (simp add: codec_rt_def text_codec_def plain_json_def valid_utf8_def)

lemmas codec_rt_parts =
  codec_rt_bytes [unfolded codec_rt_def, THEN conjunct1] codec_rt_bytes [unfolded codec_rt_def, THEN conjunct2]
  codec_rt_bool [unfolded codec_rt_def, THEN conjunct1] codec_rt_bool [unfolded codec_rt_def, THEN conjunct2]
  codec_rt_uint64 [unfolded codec_rt_def, THEN conjunct1] codec_rt_uint64 [unfolded codec_rt_def, THEN conjunct2]
  codec_rt_string [unfolded codec_rt_def, THEN conjunct1] codec_rt_string [unfolded codec_rt_def, THEN conjunct2]

text \<open>The fields of a struct, each set to what the struct \<open>r\<close> encodes it as.\<close>

fun copy_fields :: "'r field list \<Rightarrow> 'r \<Rightarrow> 'r \<Rightarrow> 'r option" where
  "copy_fields [] r y = Some y"
| "copy_fields (f # fs) r y =
     (case snd (snd f) (fst (snd f) r) y of None \<Rightarrow> None | Some y' \<Rightarrow> copy_fields fs r y')"

definition good_names :: "string list \<Rightarrow> bool" where
  "good_names ns \<longleftrightarrow> distinct (map fold_name ns) \<and> list_all ascii ns"

lemma find_field_self:
  assumes "good_names (map fst fs)" "f \<in> set fs"
  shows "find_field fs (fst f) = Some f"
proof -
  from assms(2) obtain xs ys where fs: "fs = xs @ f # ys" by (meson split_list)
  with assms(1) have "\<forall>x \<in> set xs. fold_name (fst x) \<noteq> fold_name (fst f)"
    by (auto simp: good_names_def image_iff)
  then show ?thesis unfolding find_field_def fs by (intro find_append_Cons) auto
qed

lemma set_members_copy:
  assumes "set fs' \<subseteq> set fs" "good_names (map fst fs)"
  shows "foldl (set_member fs) (Some y) (map (\<lambda>f. (fst f, fst (snd f) r)) fs') = copy_fields fs' r y"
  using assms(1)
proof (induction fs' arbitrary: y)
  case (Cons f fs')
  have none: "foldl (set_member fs) None ms = None" for ms
    by (induction ms) (simp_all add: set_member_def)
  from Cons.prems have "find_field fs (fst f) = Some f" using find_field_self [OF assms(2)] by simp
  then have "set_member fs (Some y) (fst f, fst (snd f) r) = snd (snd f) (fst (snd f) r) y"
    by (simp add: set_member_def)
  with Cons none show ?case by (simp split: option.split)
qed simp

lemma struct_plain:
  assumes "good_names (map fst fs)" "list_all (\<lambda>f. plain_json n (fst (snd f) r)) fs"
  shows "plain_json (Suc n) (fst (struct_codec fs) r)"
proof -
  have "plain_json n (fst (snd f) r)" "valid_utf8 (fst f)" if "f \<in> set fs" for f
    using assms that by (auto simp: good_names_def list_all_iff)
  then show ?thesis by (auto simp: plain_json_def struct_codec_def list_all_iff valid_utf8_def)
qed

lemma struct_decode:
  "good_names (map fst fs) \<Longrightarrow> snd (struct_codec fs) (fst (struct_codec fs) r) z = copy_fields fs r z"
  using set_members_copy [OF subset_refl, of fs z r] by (simp add: struct_codec_def)

lemma codec_rt_struct:
  assumes "good_names (map fst fs)" "list_all (\<lambda>f. plain_json n (fst (snd f) r)) fs"
    "copy_fields fs r z = Some r"
  shows "codec_rt (Suc n) (struct_codec fs) z r"
  using assms struct_plain struct_decode by (metis codec_rt_def)

text \<open>A map comes back with its keys in order.\<close>

lemma map_members_rt:
  assumes "\<forall>(k, v) \<in> set ys. snd c (fst c v) zero = Some v" "distinct (map fst (xs @ ys))"
  shows "foldl (map_member c zero) (Some xs) (map (\<lambda>(k, v). (k, fst c v)) ys) = Some (xs @ ys)"
  using assms
proof (induction ys arbitrary: xs)
  case (Cons y ys)
  obtain k v where y: "y = (k, v)" by fastforce
  with Cons.prems have "AList.update k v xs = xs @ [(k, v)]" by (intro update_new_key) auto
  with Cons.prems Cons.IH [of "xs @ [(k, v)]"] y show ?case by (simp add: map_member_def)
qed simp

definition map_rt :: "nat \<Rightarrow> 'v codec \<Rightarrow> 'v \<Rightarrow> (bytes \<times> 'v) list \<Rightarrow> bool" where
  "map_rt n c zero xs \<longleftrightarrow> distinct (map fst xs) \<and> (\<forall>(k, v) \<in> set xs. valid_utf8 k \<and> codec_rt n c zero v)"

lemma codec_rt_map:
  assumes "map_rt n c zero xs"
  shows "plain_json (Suc n) (fst (map_codec c zero) (Some xs))"
    "snd (map_codec c zero) (fst (map_codec c zero) (Some xs)) None = Some (Some (sort_key fst xs))"
proof -
  have set: "set (sort_key fst xs) = set xs" by simp
  have "\<forall>(k, v) \<in> set (sort_key fst xs). snd c (fst c v) zero = Some v"
    unfolding set using assms by (auto simp: map_rt_def codec_rt_def)
  moreover have "distinct (map fst ([] @ sort_key fst xs))"
    using assms by (metis append_Nil distinct_sort distinct_map map_rt_def set_sort)
  ultimately show "snd (map_codec c zero) (fst (map_codec c zero) (Some xs)) None = Some (Some (sort_key fst xs))"
    using map_members_rt [of "sort_key fst xs" c zero "[]"] by (simp add: map_codec_def)
  have "plain_json n (fst c v) \<and> valid_utf8 k" if "(k, v) \<in> set (sort_key fst xs)" for k v
    using that assms unfolding set by (auto simp: map_rt_def codec_rt_def)
  then show "plain_json (Suc n) (fst (map_codec c zero) (Some xs))"
    by (force simp: map_codec_def plain_json_def list_all_iff valid_utf8_def)
qed

end
