(* ===== verification/Client_Env.thy ===== *)
theory Client_Env
  imports Storage_Thms Go_Json Lock_Service
begin

text \<open>
  What the operations of \<open>client/client.go\<close> run in: the cryptographic library, the coordination
  backend of \<open>client/coordination/coordination.go\<close>, the process state of the client package
  (transaction id counter, benchmark mutex, randomness consumed), and the effects an operation
  may have. An operation maps a world to an error or a value and the next world; \<open>None\<close> means
  that it does not return on its own (it waits for a lock that somebody else holds, or loops).
\<close>

section \<open>The userlib package\<close>

text \<open>
  Random calls take the number of draws made before them, so one function describes the whole
  run of the generator. A private key is opaque; \<open>key_codec\<close> is its JSON form.
\<close>

type_synonym private_key = nat

record userlib =
  Hash :: "bytes \<Rightarrow> bytes"
  Argon2Key :: "bytes \<Rightarrow> bytes \<Rightarrow> nat \<Rightarrow> bytes"
  HashKDF :: "bytes \<Rightarrow> bytes \<Rightarrow> error + bytes"
  SymEnc :: "bytes \<Rightarrow> bytes \<Rightarrow> bytes \<Rightarrow> bytes"
  SymDec :: "bytes \<Rightarrow> bytes \<Rightarrow> bytes"
  HMACEval :: "bytes \<Rightarrow> bytes \<Rightarrow> error + bytes"
  HMACEqual :: "bytes \<Rightarrow> bytes \<Rightarrow> bool"
  PKEKeyGen :: "nat \<Rightarrow> error + PublicKeyType \<times> private_key"
  PKEEnc :: "PublicKeyType \<Rightarrow> bytes \<Rightarrow> nat \<Rightarrow> error + bytes"
  PKEDec :: "private_key \<Rightarrow> bytes \<Rightarrow> error + bytes"
  DSKeyGen :: "nat \<Rightarrow> error + private_key \<times> PublicKeyType"
  DSSign :: "private_key \<Rightarrow> bytes \<Rightarrow> nat \<Rightarrow> error + bytes"
  DSVerify :: "PublicKeyType \<Rightarrow> bytes \<Rightarrow> bytes \<Rightarrow> error option"
  RandomBytes :: "nat \<Rightarrow> nat \<Rightarrow> bytes"
  uuid_New :: "nat \<Rightarrow> uuid"
  key_codec :: "private_key codec"

definition HashSizeBytes :: nat where "HashSizeBytes = 64"
definition AESBlockSizeBytes :: nat where "AESBlockSizeBytes = 16"

definition pke_pair :: "userlib \<Rightarrow> PublicKeyType \<Rightarrow> private_key \<Rightarrow> bool" where
  "pke_pair L pk sk \<longleftrightarrow> KeyType pk = ''PKE'' \<and>
     (\<forall>m d. length m = 16 \<longrightarrow> (\<exists>c. PKEEnc L pk m d = Inr c \<and> PKEDec L sk c = Inr m))"

definition ds_pair :: "userlib \<Rightarrow> PublicKeyType \<Rightarrow> private_key \<Rightarrow> bool" where
  "ds_pair L vk sk \<longleftrightarrow> KeyType vk = ''DS'' \<and>
     (\<forall>m d. \<exists>sig. DSSign L sk m d = Inr sig \<and> DSVerify L vk m sig = None)"

text \<open>
  The documented behaviour: sizes, decryption after encryption, verification after signing, and
  that the calls with 16-byte keys succeed. Nothing here speaks about secrecy or collisions.
\<close>

definition lib_ok :: "userlib \<Rightarrow> bool" where
  "lib_ok L \<longleftrightarrow>
     (\<forall>b. length (Hash L b) = HashSizeBytes) \<and>
     (\<forall>p s n. length (Argon2Key L p s n) = n) \<and>
     (\<forall>k p. length k = 16 \<longrightarrow> (\<exists>r. HashKDF L k p = Inr r \<and> length r = HashSizeBytes)) \<and>
     (\<forall>k iv p. length k = 16 \<longrightarrow> length iv = AESBlockSizeBytes \<longrightarrow>
        SymDec L k (SymEnc L k iv p) = p \<and> AESBlockSizeBytes \<le> length (SymEnc L k iv p)) \<and>
     (\<forall>k m. length k = 16 \<longrightarrow> (\<exists>r. HMACEval L k m = Inr r \<and> length r = HashSizeBytes)) \<and>
     (\<forall>a b. HMACEqual L a b = (a = b)) \<and>
     (\<forall>d n. length (RandomBytes L d n) = n) \<and>
     (\<forall>d. uuid_New L d \<noteq> 0) \<and>
     (\<forall>d pk sk. PKEKeyGen L d = Inr (pk, sk) \<longrightarrow> pke_pair L pk sk) \<and>
     (\<forall>d sk vk. DSKeyGen L d = Inr (sk, vk) \<longrightarrow> ds_pair L vk sk) \<and>
     (\<forall>k. codec_rt 100 (key_codec L) 0 k)"

lemma lib_okD:
  assumes "lib_ok L"
  shows "length (Hash L b) = HashSizeBytes" "length (Argon2Key L p sl n) = n"
    "length k = 16 \<Longrightarrow> \<exists>r. HashKDF L k p = Inr r \<and> length r = HashSizeBytes"
    "length k = 16 \<Longrightarrow> length iv = AESBlockSizeBytes \<Longrightarrow> SymDec L k (SymEnc L k iv p) = p"
    "length k = 16 \<Longrightarrow> length iv = AESBlockSizeBytes \<Longrightarrow> AESBlockSizeBytes \<le> length (SymEnc L k iv p)"
    "length k = 16 \<Longrightarrow> \<exists>r. HMACEval L k p = Inr r \<and> length r = HashSizeBytes"
    "HMACEqual L a b = (a = b)" "length (RandomBytes L d n) = n" "uuid_New L d \<noteq> 0"
    "PKEKeyGen L d = Inr (pk, sk) \<Longrightarrow> pke_pair L pk sk"
    "DSKeyGen L d = Inr (sk, pk) \<Longrightarrow> ds_pair L pk sk"
    "codec_rt 100 (key_codec L) 0 sk"
  using assms by (simp_all add: lib_ok_def)

section \<open>Coordination\<close>

text \<open>
  The \<open>coordination.Backend\<close> interface and the guards it hands out, over the state \<open>'s\<close> of
  everything outside the process. A guard is known by the transaction it was begun for.
  \<open>FenceGrants\<close> is present when the guards implement \<open>FencedGuard\<close>.
\<close>

record 's Backend =
  Backend_Begin :: "TxnID \<Rightarrow> 's \<Rightarrow> error option \<times> 's"
  Guard_Acquire :: "TxnID \<Rightarrow> ResourceID \<Rightarrow> LockMode \<Rightarrow> 's \<Rightarrow> (error option \<times> 's) option"
  Guard_AcquireContext ::
    "go_context \<Rightarrow> TxnID \<Rightarrow> ResourceID \<Rightarrow> LockMode \<Rightarrow> 's \<Rightarrow> (error option \<times> 's) option"
  Guard_ReleaseAll :: "TxnID \<Rightarrow> 's \<Rightarrow> 's"
  FenceGrants :: "(TxnID \<Rightarrow> 's \<Rightarrow> Grant list) option"

text \<open>
  \<open>LocalBackend\<close>: the in-process lock manager, at the place of the state that \<open>get\<close> and \<open>put\<close>
  name. A request that is queued does not return on its own.
\<close>

definition settle :: "('lm \<Rightarrow> 's) \<Rightarrow> acquire_result \<times> 'lm \<Rightarrow> (error option \<times> 's) option" where
  "settle put out =
     (case out of
        (Granted, lm) \<Rightarrow> Some (None, put lm)
      | (Refused e, lm) \<Rightarrow> Some (Some e, put lm)
      | (Waiting _, lm) \<Rightarrow> None)"

definition LocalBackend :: "('s \<Rightarrow> LockManager) \<Rightarrow> (LockManager \<Rightarrow> 's \<Rightarrow> 's) \<Rightarrow> 's Backend" where
  "LocalBackend get put = \<lparr>
     Backend_Begin = (\<lambda>txn s. (None, s)),
     Guard_Acquire = (\<lambda>txn r m s. settle (\<lambda>lm. put lm s) (guard_Acquire (NewLockGuard txn) r m (get s))),
     Guard_AcquireContext = (\<lambda>ctx txn r m s.
       settle (\<lambda>lm. put lm s) (guard_AcquireContext (Some ctx) (NewLockGuard txn) r m (get s))),
     Guard_ReleaseAll = (\<lambda>txn s. put (snd (guard_ReleaseAll (NewLockGuard txn) (get s))) s),
     FenceGrants = None\<rparr>"

section \<open>The process\<close>

datatype ConcurrencyStrategy = StrategySaferCC | StrategyGlobalLock | StrategyNoCC

text \<open>
  \<open>env\<close>: the active storage, coordination backend and strategy, the libraries, the fence test
  switch of \<open>diagnostics.go\<close>, and the order in which a map is ranged over.
\<close>

record 's env =
  e_storage :: "'s Storage"
  e_coordination :: "'s Backend"
  e_strategy :: ConcurrencyStrategy
  e_lib :: userlib
  e_uuid :: uuid_lib
  e_disableFenceValidation :: bool
  e_order :: "nat \<Rightarrow> string list \<Rightarrow> string list"

record 's world =
  w_ext :: 's
  w_draws :: nat
  w_txnIDs :: uint64
  w_mutex :: "TxnID option"

type_synonym ('s, 'a) op = "'s world \<Rightarrow> ((error + 'a) \<times> 's world) option"

subsection \<open>Sequencing\<close>

definition returnE :: "'a \<Rightarrow> ('s, 'a) op" where
  "returnE x w = Some (Inr x, w)"

definition raiseE :: "error \<Rightarrow> ('s, 'a) op" where
  "raiseE e w = Some (Inl e, w)"

definition bindE :: "('s, 'a) op \<Rightarrow> ('a \<Rightarrow> ('s, 'b) op) \<Rightarrow> ('s, 'b) op" where
  "bindE m f w =
     (case m w of
        None \<Rightarrow> None
      | Some (Inl e, w') \<Rightarrow> Some (Inl e, w')
      | Some (Inr x, w') \<Rightarrow> f x w')"

definition liftE :: "error + 'a \<Rightarrow> ('s, 'a) op" where
  "liftE r w = Some (r, w)"

text \<open>\<open>if b { return errors.New(msg) }\<close>\<close>

definition fail_if :: "bool \<Rightarrow> string \<Rightarrow> ('s, unit) op" where
  "fail_if b msg = (if b then raiseE (ErrorMsg msg) else returnE ())"

text \<open>\<open>v, err := m; if err != nil { return errors.New(msg) }\<close>\<close>

definition or_fail :: "'a option \<Rightarrow> string \<Rightarrow> ('s, 'a) op" where
  "or_fail v msg = (case v of None \<Rightarrow> raiseE (ErrorMsg msg) | Some x \<Rightarrow> returnE x)"

text \<open>\<open>defer\<close>: the cleanup runs whenever the body returns, with an error or without.\<close>

definition deferE :: "('s world \<Rightarrow> 's world) \<Rightarrow> ('s, 'a) op \<Rightarrow> ('s, 'a) op" where
  "deferE cleanup m w = map_option (\<lambda>(r, w'). (r, cleanup w')) (m w)"

definition on_ext :: "('s \<Rightarrow> (error + 'a) \<times> 's) \<Rightarrow> ('s, 'a) op" where
  "on_ext f w = (case f (w_ext w) of (r, s) \<Rightarrow> Some (r, w\<lparr>w_ext := s\<rparr>))"

definition on_ext_err :: "('s \<Rightarrow> error option \<times> 's) \<Rightarrow> ('s, unit) op" where
  "on_ext_err f = on_ext (\<lambda>s. case f s of (None, s') \<Rightarrow> (Inr (), s') | (Some e, s') \<Rightarrow> (Inl e, s'))"

definition on_ext_wait :: "('s \<Rightarrow> (error option \<times> 's) option) \<Rightarrow> ('s, unit) op" where
  "on_ext_wait f w =
     map_option (\<lambda>(e, s). (case e of None \<Rightarrow> Inr () | Some x \<Rightarrow> Inl x, w\<lparr>w_ext := s\<rparr>)) (f (w_ext w))"

text \<open>A call that draws randomness.\<close>

definition draw :: "(nat \<Rightarrow> 'a) \<Rightarrow> ('s, 'a) op" where
  "draw f w = Some (Inr (f (w_draws w)), w\<lparr>w_draws := Suc (w_draws w)\<rparr>)"

definition draw_err :: "(nat \<Rightarrow> error + 'a) \<Rightarrow> ('s, 'a) op" where
  "draw_err f w = Some (f (w_draws w), w\<lparr>w_draws := Suc (w_draws w)\<rparr>)"

abbreviation random_bytes :: "'s env \<Rightarrow> nat \<Rightarrow> ('s, bytes) op" where
  "random_bytes E n \<equiv> draw (\<lambda>d. RandomBytes (e_lib E) d n)"

abbreviation new_uuid :: "'s env \<Rightarrow> ('s, uuid) op" where
  "new_uuid E \<equiv> draw (uuid_New (e_lib E))"

lemma bindE_returnE [simp]: "bindE (returnE x) f = f x"
  by (simp add: bindE_def returnE_def fun_eq_iff)

lemma bindE_assoc: "bindE (bindE m f) g = bindE m (\<lambda>x. bindE (f x) g)"
  by (auto simp: bindE_def fun_eq_iff split: option.splits sum.splits)

section \<open>Storage and guards\<close>

definition operationContext :: op_context where "operationContext = op_Background"

definition datastoreGet :: "'s env \<Rightarrow> op_context \<Rightarrow> uuid \<Rightarrow> ('s, bytes option) op" where
  "datastoreGet E ctx i = on_ext (Objects_Get (e_storage E) ctx i)"

definition keystoreGet :: "'s env \<Rightarrow> op_context \<Rightarrow> string \<Rightarrow> ('s, PublicKeyType option) op" where
  "keystoreGet E ctx name = on_ext (Keys_Get (e_storage E) ctx name)"

text \<open>
  \<open>runAtomicStorage\<close> with a callback that makes the given writes (\<open>datastoreSet\<close>,
  \<open>datastoreDelete\<close>, \<open>keystoreSet\<close>) in order and stops at the first error.
\<close>

definition runAtomicStorage :: "'s env \<Rightarrow> op_context \<Rightarrow> store_write list \<Rightarrow> ('s, unit) op" where
  "runAtomicStorage E ctx ws =
     on_ext_err (storage_RunAtomic ctx (e_storage E) (do_writes (e_storage E) ws))"

datatype guard = BackendGuard TxnID | GlobalMutexGuard TxnID | NoCCGuard

definition newOperationGuard :: "'s env \<Rightarrow> TxnID \<Rightarrow> ('s, guard) op" where
  "newOperationGuard E txn =
     (case e_strategy E of
        StrategyGlobalLock \<Rightarrow> returnE (GlobalMutexGuard txn)
      | StrategyNoCC \<Rightarrow> returnE NoCCGuard
      | StrategySaferCC \<Rightarrow>
          bindE (on_ext_err (Backend_Begin (e_coordination E) txn)) (\<lambda>_. returnE (BackendGuard txn)))"

text \<open>The guard locks the mutex once; a mutex that another guard holds makes it wait.\<close>

definition globalMutexGuard_Acquire :: "TxnID \<Rightarrow> ('s, unit) op" where
  "globalMutexGuard_Acquire g w =
     (case w_mutex w of
        None \<Rightarrow> Some (Inr (), w\<lparr>w_mutex := Some g\<rparr>)
      | Some h \<Rightarrow> if h = g then Some (Inr (), w) else None)"

definition globalMutexGuard_ReleaseAll :: "TxnID \<Rightarrow> 's world \<Rightarrow> 's world" where
  "globalMutexGuard_ReleaseAll g w = (if w_mutex w = Some g then w\<lparr>w_mutex := None\<rparr> else w)"

fun acquire_lock :: "'s env \<Rightarrow> guard \<Rightarrow> ResourceID \<Rightarrow> LockMode \<Rightarrow> ('s, unit) op" where
  "acquire_lock E (BackendGuard txn) r m = on_ext_wait (Guard_Acquire (e_coordination E) txn r m)"
| "acquire_lock E (GlobalMutexGuard g) r m = globalMutexGuard_Acquire g"
| "acquire_lock E NoCCGuard r m = returnE ()"

fun acquire_lock_ctx :: "'s env \<Rightarrow> op_context \<Rightarrow> guard \<Rightarrow> ResourceID \<Rightarrow> LockMode \<Rightarrow> ('s, unit) op" where
  "acquire_lock_ctx E ctx (BackendGuard txn) r m =
     on_ext_wait (Guard_AcquireContext (e_coordination E) (oc_ctx ctx) txn r m)"
| "acquire_lock_ctx E ctx (GlobalMutexGuard g) r m = globalMutexGuard_Acquire g"
| "acquire_lock_ctx E ctx NoCCGuard r m = returnE ()"

fun release_all_locks :: "'s env \<Rightarrow> guard \<Rightarrow> 's world \<Rightarrow> 's world" where
  "release_all_locks E (BackendGuard txn) w = w\<lparr>w_ext := Guard_ReleaseAll (e_coordination E) txn (w_ext w)\<rparr>"
| "release_all_locks E (GlobalMutexGuard g) w = globalMutexGuard_ReleaseAll g w"
| "release_all_locks E NoCCGuard w = w"

fun GrantsOf :: "'s env \<Rightarrow> guard \<Rightarrow> 's \<Rightarrow> Grant list" where
  "GrantsOf E (BackendGuard txn) s =
     (case FenceGrants (e_coordination E) of None \<Rightarrow> [] | Some f \<Rightarrow> f txn s)"
| "GrantsOf E _ s = []"

definition withFenceGrants :: "'s env \<Rightarrow> op_context \<Rightarrow> guard \<Rightarrow> ('s, op_context) op" where
  "withFenceGrants E ctx g w =
     (let c = WithGrants ctx (GrantsOf E g (w_ext w))
      in Some (Inr (if e_disableFenceValidation E then WithoutValidationForTest c else c), w))"

text \<open>
  \<open>allocateTxnID\<close>: the compare-and-swap loop, as the atomic step it ends with.
\<close>

definition allocateTxnID :: "('s, TxnID) op" where
  "allocateTxnID w =
     (if w_txnIDs w = - 1 then Some (Inl (ErrorMsg ''safer-cc: transaction ID space exhausted''), w)
      else Some (Inr (w_txnIDs w + 1), w\<lparr>w_txnIDs := w_txnIDs w + 1\<rparr>))"

text \<open>The frame of every locking operation: a fresh transaction, its guard, and the release.\<close>

definition with_guard :: "'s env \<Rightarrow> (guard \<Rightarrow> ('s, 'a) op) \<Rightarrow> ('s, 'a) op" where
  "with_guard E body =
     bindE allocateTxnID (\<lambda>txn.
     bindE (newOperationGuard E txn) (\<lambda>guard.
     deferE (release_all_locks E guard) (body guard)))"

end
