(* ===== verification/Client_Data.thy ===== *)
theory Client_Data
  imports Client_Env
begin

text \<open>
  The records of \<open>client/client.go\<close>, the JSON form of each (the field names are the Go field
  names), and the proof that each survives being marshalled and unmarshalled.
\<close>

section \<open>Records\<close>

abbreviation uuid_Nil :: uuid where "uuid_Nil \<equiv> 0"

record User =
  Username :: string
  NamespaceRoot :: bytes
  PKEPrivate :: private_key
  SignPrivate :: private_key

record Account =
  ac_UsernameHash :: bytes
  ac_NamespaceRoot :: bytes
  ac_PKEPrivate :: private_key
  ac_SignPrivate :: private_key

record AuthenticatedEnvelope =
  en_Ciphertext :: bytes
  en_MAC :: bytes

record NamespaceEntry =
  ne_IsOwner :: bool
  ne_FileID :: uuid
  ne_AccessBoxUUID :: uuid
  ne_AccessBoxEncKey :: bytes
  ne_AccessBoxMACKey :: bytes
  ne_AccessBoxStructureUUID :: uuid
  ne_AccessBoxStructureEncKey :: bytes
  ne_AccessBoxStructureMACKey :: bytes

record AccessBox =
  ab_FileID :: uuid
  ab_EpochID :: uuid
  ab_MetadataUUID :: uuid
  ab_MetadataEncKey :: bytes
  ab_MetadataMACKey :: bytes
  ab_FileRoot :: bytes
  ab_AccessBoxStructureUUID :: uuid
  ab_StatusUUID :: uuid
  ab_OwnerVerifyKeyName :: string

record FileStatusBody =
  fb_FileID :: uuid
  fb_EpochID :: uuid
  fb_CurrentAccessCommitment :: bytes
  fb_OwnerVerifyKeyName :: string

record FileStatus =
  fs_Body :: FileStatusBody
  fs_Signature :: bytes

record Metadata =
  md_FileID :: uuid
  md_EpochID :: uuid
  md_Version :: uint64
  md_TailUUID :: uuid
  md_ChunkCount :: uint64

record Chunk =
  ck_FileID :: uuid
  ck_EpochID :: uuid
  ck_Index :: uint64
  ck_PrevUUID :: uuid
  ck_Content :: bytes

record BranchBoxRecord =
  br_BoxUUID :: uuid
  br_BoxEncKey :: bytes
  br_BoxMACKey :: bytes

record AccessBoxStructure =
  as_FileID :: uuid
  as_CurrentEpoch :: uuid
  as_RecipientBoxes :: "(string \<times> BranchBoxRecord) list option"

record InvitationPayload =
  ip_SenderIdentity :: bytes
  ip_RecipientIdentity :: bytes
  ip_FileID :: uuid
  ip_AccessBoxUUID :: uuid
  ip_AccessBoxEncKey :: bytes
  ip_AccessBoxMACKey :: bytes

record Invitation =
  iv_WrappedRoot :: bytes
  iv_Ciphertext :: bytes
  iv_MAC :: bytes
  iv_Signature :: bytes

record InvitationSignedFields =
  sf_WrappedRoot :: bytes
  sf_Ciphertext :: bytes
  sf_MAC :: bytes

section \<open>Zero values\<close>

definition zero_Account :: Account where
  "zero_Account = \<lparr>ac_UsernameHash = [], ac_NamespaceRoot = [], ac_PKEPrivate = 0, ac_SignPrivate = 0\<rparr>"
definition zero_Envelope :: AuthenticatedEnvelope where
  "zero_Envelope = \<lparr>en_Ciphertext = [], en_MAC = []\<rparr>"
definition zero_NamespaceEntry :: NamespaceEntry where
  "zero_NamespaceEntry = \<lparr>ne_IsOwner = False, ne_FileID = 0, ne_AccessBoxUUID = 0, ne_AccessBoxEncKey = [],
     ne_AccessBoxMACKey = [], ne_AccessBoxStructureUUID = 0, ne_AccessBoxStructureEncKey = [],
     ne_AccessBoxStructureMACKey = []\<rparr>"
definition zero_AccessBox :: AccessBox where
  "zero_AccessBox = \<lparr>ab_FileID = 0, ab_EpochID = 0, ab_MetadataUUID = 0, ab_MetadataEncKey = [],
     ab_MetadataMACKey = [], ab_FileRoot = [], ab_AccessBoxStructureUUID = 0, ab_StatusUUID = 0,
     ab_OwnerVerifyKeyName = []\<rparr>"
definition zero_FileStatusBody :: FileStatusBody where
  "zero_FileStatusBody = \<lparr>fb_FileID = 0, fb_EpochID = 0, fb_CurrentAccessCommitment = [],
     fb_OwnerVerifyKeyName = []\<rparr>"
definition zero_FileStatus :: FileStatus where
  "zero_FileStatus = \<lparr>fs_Body = zero_FileStatusBody, fs_Signature = []\<rparr>"
definition zero_Metadata :: Metadata where
  "zero_Metadata = \<lparr>md_FileID = 0, md_EpochID = 0, md_Version = 0, md_TailUUID = 0, md_ChunkCount = 0\<rparr>"
definition zero_Chunk :: Chunk where
  "zero_Chunk = \<lparr>ck_FileID = 0, ck_EpochID = 0, ck_Index = 0, ck_PrevUUID = 0, ck_Content = []\<rparr>"
definition zero_BranchBoxRecord :: BranchBoxRecord where
  "zero_BranchBoxRecord = \<lparr>br_BoxUUID = 0, br_BoxEncKey = [], br_BoxMACKey = []\<rparr>"
definition zero_AccessBoxStructure :: AccessBoxStructure where
  "zero_AccessBoxStructure = \<lparr>as_FileID = 0, as_CurrentEpoch = 0, as_RecipientBoxes = None\<rparr>"
definition zero_InvitationPayload :: InvitationPayload where
  "zero_InvitationPayload = \<lparr>ip_SenderIdentity = [], ip_RecipientIdentity = [], ip_FileID = 0,
     ip_AccessBoxUUID = 0, ip_AccessBoxEncKey = [], ip_AccessBoxMACKey = []\<rparr>"
definition zero_Invitation :: Invitation where
  "zero_Invitation = \<lparr>iv_WrappedRoot = [], iv_Ciphertext = [], iv_MAC = [], iv_Signature = []\<rparr>"

section \<open>JSON forms\<close>

definition uuid_codec :: "uuid_lib \<Rightarrow> uuid codec" where
  "uuid_codec U = text_codec (uuid_String U) (uuid_Parse U)"

definition Account_codec :: "userlib \<Rightarrow> Account codec" where
  "Account_codec L = struct_codec
     [field ''UsernameHash'' bytes_codec ac_UsernameHash ac_UsernameHash_update,
      field ''NamespaceRoot'' bytes_codec ac_NamespaceRoot ac_NamespaceRoot_update,
      field ''PKEPrivate'' (key_codec L) ac_PKEPrivate ac_PKEPrivate_update,
      field ''SignPrivate'' (key_codec L) ac_SignPrivate ac_SignPrivate_update]"

definition Envelope_codec :: "AuthenticatedEnvelope codec" where
  "Envelope_codec = struct_codec
     [field ''Ciphertext'' bytes_codec en_Ciphertext en_Ciphertext_update,
      field ''MAC'' bytes_codec en_MAC en_MAC_update]"

definition NamespaceEntry_codec :: "uuid_lib \<Rightarrow> NamespaceEntry codec" where
  "NamespaceEntry_codec U = struct_codec
     [field ''IsOwner'' bool_codec ne_IsOwner ne_IsOwner_update,
      field ''FileID'' (uuid_codec U) ne_FileID ne_FileID_update,
      field ''AccessBoxUUID'' (uuid_codec U) ne_AccessBoxUUID ne_AccessBoxUUID_update,
      field ''AccessBoxEncKey'' bytes_codec ne_AccessBoxEncKey ne_AccessBoxEncKey_update,
      field ''AccessBoxMACKey'' bytes_codec ne_AccessBoxMACKey ne_AccessBoxMACKey_update,
      field ''AccessBoxStructureUUID'' (uuid_codec U) ne_AccessBoxStructureUUID ne_AccessBoxStructureUUID_update,
      field ''AccessBoxStructureEncKey'' bytes_codec ne_AccessBoxStructureEncKey ne_AccessBoxStructureEncKey_update,
      field ''AccessBoxStructureMACKey'' bytes_codec ne_AccessBoxStructureMACKey ne_AccessBoxStructureMACKey_update]"

definition AccessBox_codec :: "uuid_lib \<Rightarrow> AccessBox codec" where
  "AccessBox_codec U = struct_codec
     [field ''FileID'' (uuid_codec U) ab_FileID ab_FileID_update,
      field ''EpochID'' (uuid_codec U) ab_EpochID ab_EpochID_update,
      field ''MetadataUUID'' (uuid_codec U) ab_MetadataUUID ab_MetadataUUID_update,
      field ''MetadataEncKey'' bytes_codec ab_MetadataEncKey ab_MetadataEncKey_update,
      field ''MetadataMACKey'' bytes_codec ab_MetadataMACKey ab_MetadataMACKey_update,
      field ''FileRoot'' bytes_codec ab_FileRoot ab_FileRoot_update,
      field ''AccessBoxStructureUUID'' (uuid_codec U) ab_AccessBoxStructureUUID ab_AccessBoxStructureUUID_update,
      field ''StatusUUID'' (uuid_codec U) ab_StatusUUID ab_StatusUUID_update,
      field ''OwnerVerifyKeyName'' string_codec ab_OwnerVerifyKeyName ab_OwnerVerifyKeyName_update]"

definition FileStatusBody_codec :: "uuid_lib \<Rightarrow> FileStatusBody codec" where
  "FileStatusBody_codec U = struct_codec
     [field ''FileID'' (uuid_codec U) fb_FileID fb_FileID_update,
      field ''EpochID'' (uuid_codec U) fb_EpochID fb_EpochID_update,
      field ''CurrentAccessCommitment'' bytes_codec fb_CurrentAccessCommitment fb_CurrentAccessCommitment_update,
      field ''OwnerVerifyKeyName'' string_codec fb_OwnerVerifyKeyName fb_OwnerVerifyKeyName_update]"

definition FileStatus_codec :: "uuid_lib \<Rightarrow> FileStatus codec" where
  "FileStatus_codec U = struct_codec
     [field ''Body'' (FileStatusBody_codec U) fs_Body fs_Body_update,
      field ''Signature'' bytes_codec fs_Signature fs_Signature_update]"

definition Metadata_codec :: "uuid_lib \<Rightarrow> Metadata codec" where
  "Metadata_codec U = struct_codec
     [field ''FileID'' (uuid_codec U) md_FileID md_FileID_update,
      field ''EpochID'' (uuid_codec U) md_EpochID md_EpochID_update,
      field ''Version'' uint64_codec md_Version md_Version_update,
      field ''TailUUID'' (uuid_codec U) md_TailUUID md_TailUUID_update,
      field ''ChunkCount'' uint64_codec md_ChunkCount md_ChunkCount_update]"

definition Chunk_codec :: "uuid_lib \<Rightarrow> Chunk codec" where
  "Chunk_codec U = struct_codec
     [field ''FileID'' (uuid_codec U) ck_FileID ck_FileID_update,
      field ''EpochID'' (uuid_codec U) ck_EpochID ck_EpochID_update,
      field ''Index'' uint64_codec ck_Index ck_Index_update,
      field ''PrevUUID'' (uuid_codec U) ck_PrevUUID ck_PrevUUID_update,
      field ''Content'' bytes_codec ck_Content ck_Content_update]"

definition BranchBoxRecord_codec :: "uuid_lib \<Rightarrow> BranchBoxRecord codec" where
  "BranchBoxRecord_codec U = struct_codec
     [field ''BoxUUID'' (uuid_codec U) br_BoxUUID br_BoxUUID_update,
      field ''BoxEncKey'' bytes_codec br_BoxEncKey br_BoxEncKey_update,
      field ''BoxMACKey'' bytes_codec br_BoxMACKey br_BoxMACKey_update]"

definition AccessBoxStructure_codec :: "uuid_lib \<Rightarrow> AccessBoxStructure codec" where
  "AccessBoxStructure_codec U = struct_codec
     [field ''FileID'' (uuid_codec U) as_FileID as_FileID_update,
      field ''CurrentEpoch'' (uuid_codec U) as_CurrentEpoch as_CurrentEpoch_update,
      field ''RecipientBoxes'' (map_codec (BranchBoxRecord_codec U) zero_BranchBoxRecord)
        as_RecipientBoxes as_RecipientBoxes_update]"

definition InvitationPayload_codec :: "uuid_lib \<Rightarrow> InvitationPayload codec" where
  "InvitationPayload_codec U = struct_codec
     [field ''SenderIdentity'' bytes_codec ip_SenderIdentity ip_SenderIdentity_update,
      field ''RecipientIdentity'' bytes_codec ip_RecipientIdentity ip_RecipientIdentity_update,
      field ''FileID'' (uuid_codec U) ip_FileID ip_FileID_update,
      field ''AccessBoxUUID'' (uuid_codec U) ip_AccessBoxUUID ip_AccessBoxUUID_update,
      field ''AccessBoxEncKey'' bytes_codec ip_AccessBoxEncKey ip_AccessBoxEncKey_update,
      field ''AccessBoxMACKey'' bytes_codec ip_AccessBoxMACKey ip_AccessBoxMACKey_update]"

definition Invitation_codec :: "Invitation codec" where
  "Invitation_codec = struct_codec
     [field ''WrappedRoot'' bytes_codec iv_WrappedRoot iv_WrappedRoot_update,
      field ''Ciphertext'' bytes_codec iv_Ciphertext iv_Ciphertext_update,
      field ''MAC'' bytes_codec iv_MAC iv_MAC_update,
      field ''Signature'' bytes_codec iv_Signature iv_Signature_update]"

definition SignedFields_codec :: "InvitationSignedFields codec" where
  "SignedFields_codec = struct_codec
     [field ''WrappedRoot'' bytes_codec sf_WrappedRoot sf_WrappedRoot_update,
      field ''Ciphertext'' bytes_codec sf_Ciphertext sf_Ciphertext_update,
      field ''MAC'' bytes_codec sf_MAC sf_MAC_update]"

section \<open>Round trips\<close>

lemma codec_rt_uuid [simp]: "uuid_ok U \<Longrightarrow> codec_rt n (uuid_codec U) z u"
  unfolding uuid_codec_def by (intro codec_rt_text) (simp_all add: uuid_ok_def ascii_def)

lemmas codec_parts [simp] =
  codec_rt_parts codec_rt_uuid [unfolded codec_rt_def, THEN conjunct1]
  codec_rt_uuid [unfolded codec_rt_def, THEN conjunct2]

lemma field_simps [simp]:
  "fst (field n c get upd) = n" "fst (snd (field n c get upd)) r = fst c (get r)"
  "snd (snd (field n c get upd)) j r = map_option (\<lambda>v. upd (\<lambda>_. v) r) (snd c j (get r))"
  by (simp_all add: field_def)

lemma struct_names [simp]:
  "good_names [''UsernameHash'', ''NamespaceRoot'', ''PKEPrivate'', ''SignPrivate'']"
  "good_names [''Ciphertext'', ''MAC'']"
  "good_names [''IsOwner'', ''FileID'', ''AccessBoxUUID'', ''AccessBoxEncKey'', ''AccessBoxMACKey'', ''AccessBoxStructureUUID'', ''AccessBoxStructureEncKey'', ''AccessBoxStructureMACKey'']"
  "good_names [''FileID'', ''EpochID'', ''MetadataUUID'', ''MetadataEncKey'', ''MetadataMACKey'', ''FileRoot'', ''AccessBoxStructureUUID'', ''StatusUUID'', ''OwnerVerifyKeyName'']"
  "good_names [''FileID'', ''EpochID'', ''CurrentAccessCommitment'', ''OwnerVerifyKeyName'']"
  "good_names [''Body'', ''Signature'']"
  "good_names [''FileID'', ''EpochID'', ''Version'', ''TailUUID'', ''ChunkCount'']"
  "good_names [''FileID'', ''EpochID'', ''Index'', ''PrevUUID'', ''Content'']"
  "good_names [''BoxUUID'', ''BoxEncKey'', ''BoxMACKey'']"
  "good_names [''FileID'', ''CurrentEpoch'', ''RecipientBoxes'']"
  "good_names [''SenderIdentity'', ''RecipientIdentity'', ''FileID'', ''AccessBoxUUID'', ''AccessBoxEncKey'', ''AccessBoxMACKey'']"
  "good_names [''WrappedRoot'', ''Ciphertext'', ''MAC'', ''Signature'']"
  "good_names [''WrappedRoot'', ''Ciphertext'', ''MAC'']"
  by (simp_all add: good_names_def ascii_def)

lemma Envelope_rt: "codec_rt (Suc 0) Envelope_codec zero_Envelope x"
  unfolding Envelope_codec_def by (rule codec_rt_struct) (simp_all add: zero_Envelope_def)

lemma NamespaceEntry_rt: "uuid_ok U \<Longrightarrow> codec_rt (Suc 0) (NamespaceEntry_codec U) zero_NamespaceEntry x"
  unfolding NamespaceEntry_codec_def by (rule codec_rt_struct) (simp_all add: zero_NamespaceEntry_def)

lemma AccessBox_rt: "uuid_ok U \<Longrightarrow> valid_utf8 (ab_OwnerVerifyKeyName x) \<Longrightarrow> codec_rt (Suc 0) (AccessBox_codec U) zero_AccessBox x"
  unfolding AccessBox_codec_def by (rule codec_rt_struct) (simp_all add: zero_AccessBox_def)

lemma FileStatusBody_rt: "uuid_ok U \<Longrightarrow> valid_utf8 (fb_OwnerVerifyKeyName x) \<Longrightarrow> codec_rt (Suc 0) (FileStatusBody_codec U) zero_FileStatusBody x"
  unfolding FileStatusBody_codec_def by (rule codec_rt_struct) (simp_all add: zero_FileStatusBody_def)

lemma Metadata_rt: "uuid_ok U \<Longrightarrow> codec_rt (Suc 0) (Metadata_codec U) zero_Metadata x"
  unfolding Metadata_codec_def by (rule codec_rt_struct) (simp_all add: zero_Metadata_def)

lemma Chunk_rt: "uuid_ok U \<Longrightarrow> codec_rt (Suc 0) (Chunk_codec U) zero_Chunk x"
  unfolding Chunk_codec_def by (rule codec_rt_struct) (simp_all add: zero_Chunk_def)

lemma BranchBoxRecord_rt: "uuid_ok U \<Longrightarrow> codec_rt (Suc 0) (BranchBoxRecord_codec U) zero_BranchBoxRecord x"
  unfolding BranchBoxRecord_codec_def by (rule codec_rt_struct) (simp_all add: zero_BranchBoxRecord_def)

lemma InvitationPayload_rt: "uuid_ok U \<Longrightarrow> codec_rt (Suc 0) (InvitationPayload_codec U) zero_InvitationPayload x"
  unfolding InvitationPayload_codec_def by (rule codec_rt_struct) (simp_all add: zero_InvitationPayload_def)

lemma Invitation_rt: "codec_rt (Suc 0) Invitation_codec zero_Invitation x"
  unfolding Invitation_codec_def by (rule codec_rt_struct) (simp_all add: zero_Invitation_def)

lemma FileStatus_rt:
  "uuid_ok U \<Longrightarrow> valid_utf8 (fb_OwnerVerifyKeyName (fs_Body x)) \<Longrightarrow>
   codec_rt (Suc (Suc 0)) (FileStatus_codec U) zero_FileStatus x"
  unfolding FileStatus_codec_def using FileStatusBody_rt [of U "fs_Body x"]
  by (intro codec_rt_struct) (simp_all add: zero_FileStatus_def codec_rt_def)

lemma Account_rt: "lib_ok L \<Longrightarrow> codec_rt (Suc 100) (Account_codec L) zero_Account x"
  unfolding Account_codec_def using lib_okD(12) [of L]
  by (intro codec_rt_struct) (simp_all add: zero_Account_def codec_rt_def)

text \<open>A structure comes back with its recipients in order.\<close>

definition boxes_ok :: "(string \<times> BranchBoxRecord) list \<Rightarrow> bool" where
  "boxes_ok bs \<longleftrightarrow> distinct (map fst bs) \<and> (\<forall>(k, v) \<in> set bs. valid_utf8 k)"

lemma AccessBoxStructure_decode:
  assumes "uuid_ok U" "as_RecipientBoxes x = Some bs" "boxes_ok bs"
  shows "json_Unmarshal (AccessBoxStructure_codec U) (json_Marshal (AccessBoxStructure_codec U) x)
      zero_AccessBoxStructure = Some (x\<lparr>as_RecipientBoxes := Some (sort_key fst bs)\<rparr>)"
proof -
  let ?c = "map_codec (BranchBoxRecord_codec U) zero_BranchBoxRecord"
  have rt: "map_rt (Suc 0) (BranchBoxRecord_codec U) zero_BranchBoxRecord bs"
    using assms BranchBoxRecord_rt by (auto simp: map_rt_def boxes_ok_def)
  note m = codec_rt_map [OF rt]
  have pl: "plain_json (Suc (Suc (Suc 0))) (fst (AccessBoxStructure_codec U) x)"
    unfolding AccessBoxStructure_codec_def
    by (rule struct_plain) (use assms m(1) in simp_all)
  have "snd (AccessBoxStructure_codec U) (fst (AccessBoxStructure_codec U) x) zero_AccessBoxStructure
      = Some (x\<lparr>as_RecipientBoxes := Some (sort_key fst bs)\<rparr>)"
    unfolding AccessBoxStructure_codec_def
    by (subst struct_decode) (use assms m(2) in \<open>simp_all add: zero_AccessBoxStructure_def\<close>)
  then show ?thesis
    using Unmarshal_Marshal_gen [of "AccessBoxStructure_codec U" x "Suc (Suc (Suc 0))"] pl
    by (simp add: plain_json_def maxNestingDepth_def)
qed

lemma Unmarshal_structs [simp]:
  "json_Unmarshal Envelope_codec (json_Marshal Envelope_codec e) zero_Envelope = Some e"
  "json_Unmarshal Invitation_codec (json_Marshal Invitation_codec v) zero_Invitation = Some v"
  "uuid_ok U \<Longrightarrow> json_Unmarshal (NamespaceEntry_codec U) (json_Marshal (NamespaceEntry_codec U) ne) zero_NamespaceEntry = Some ne"
  "uuid_ok U \<Longrightarrow> valid_utf8 (ab_OwnerVerifyKeyName ab) \<Longrightarrow>
     json_Unmarshal (AccessBox_codec U) (json_Marshal (AccessBox_codec U) ab) zero_AccessBox = Some ab"
  "uuid_ok U \<Longrightarrow> valid_utf8 (fb_OwnerVerifyKeyName (fs_Body st)) \<Longrightarrow>
     json_Unmarshal (FileStatus_codec U) (json_Marshal (FileStatus_codec U) st) zero_FileStatus = Some st"
  "uuid_ok U \<Longrightarrow> json_Unmarshal (Metadata_codec U) (json_Marshal (Metadata_codec U) md) zero_Metadata = Some md"
  "uuid_ok U \<Longrightarrow> json_Unmarshal (Chunk_codec U) (json_Marshal (Chunk_codec U) ck) zero_Chunk = Some ck"
  "uuid_ok U \<Longrightarrow> json_Unmarshal (InvitationPayload_codec U) (json_Marshal (InvitationPayload_codec U) ip)
     zero_InvitationPayload = Some ip"
  "lib_ok L \<Longrightarrow> json_Unmarshal (Account_codec L) (json_Marshal (Account_codec L) ac) zero_Account = Some ac"
  using Unmarshal_Marshal [OF Envelope_rt] Unmarshal_Marshal [OF Invitation_rt]
    Unmarshal_Marshal [OF NamespaceEntry_rt] Unmarshal_Marshal [OF AccessBox_rt]
    Unmarshal_Marshal [OF FileStatus_rt] Unmarshal_Marshal [OF Metadata_rt] Unmarshal_Marshal [OF Chunk_rt]
    Unmarshal_Marshal [OF InvitationPayload_rt] Unmarshal_Marshal [OF Account_rt]
  by (simp_all add: maxNestingDepth_def)

end
