(* ===== verification/Client.thy ===== *)
theory Client
  imports Client_Data
begin

text \<open>
  The operations of \<open>client/client.go\<close> and \<open>client/diagnostics.go\<close>: accounts, files, sharing
  and revocation. Every function is translated with its checks in the order of the source and
  with the source's error messages. The callbacks passed to \<open>runAtomicStorage\<close> only write values
  computed before, so each is the list of its writes. The test hooks, which do nothing outside
  tests, are left out.
\<close>

definition bindS :: "error + 'a \<Rightarrow> ('a \<Rightarrow> error + 'b) \<Rightarrow> error + 'b" where
  "bindS r f = (case r of Inl e \<Rightarrow> Inl e | Inr x \<Rightarrow> f x)"

lemma bindS_simps [simp]: "bindS (Inl e) f = Inl e" "bindS (Inr x) f = f x"
  by (simp_all add: bindS_def)

definition symmetricKeySize :: nat where "symmetricKeySize = 16"

definition uuid_from :: "uuid_lib \<Rightarrow> bytes \<Rightarrow> error + uuid" where
  "uuid_from U b = (case uuid_FromBytes U b of None \<Rightarrow> Inl (ErrorMsg ''invalid UUID'') | Some u \<Rightarrow> Inr u)"

definition hex_EncodeToString :: "bytes \<Rightarrow> string" where
  "hex_EncodeToString b = concat (map (\<lambda>c. [hex_digit (byte c div 16), hex_digit (byte c mod 16)]) b)"

section \<open>Accounts\<close>

definition getUserUUID :: "'s env \<Rightarrow> string \<Rightarrow> error + uuid" where
  "getUserUUID E username = uuid_from (e_uuid E) (take 16 (Hash (e_lib E) (''user-record-'' @ username)))"

definition publicKeyName :: "'s env \<Rightarrow> string \<Rightarrow> string \<Rightarrow> string" where
  "publicKeyName E domain username =
     hex_EncodeToString (take 16 (Hash (e_lib E) (domain @ '':'' @ username)))"

definition getPKEKeyName :: "'s env \<Rightarrow> string \<Rightarrow> string" where
  "getPKEKeyName E username = publicKeyName E ''pke-public-key'' username"

definition getVerifyKeyName :: "'s env \<Rightarrow> string \<Rightarrow> string" where
  "getVerifyKeyName E username = publicKeyName E ''signature-verify-key'' username"

definition isUsernameTaken :: "'s env \<Rightarrow> op_context \<Rightarrow> string \<Rightarrow> uuid \<Rightarrow> ('s, bool) op" where
  "isUsernameTaken E ctx username accountUUID =
     bindE (datastoreGet E ctx accountUUID) (\<lambda>account.
     bindE (keystoreGet E ctx (getPKEKeyName E username)) (\<lambda>pke.
     bindE (keystoreGet E ctx (getVerifyKeyName E username)) (\<lambda>verify.
     returnE (account \<noteq> None \<or> pke \<noteq> None \<or> verify \<noteq> None))))"

definition deriveAccountKey :: "'s env \<Rightarrow> string \<Rightarrow> string \<Rightarrow> uuid \<Rightarrow> error + bytes \<times> bytes" where
  "deriveAccountKey E username password accountUUID =
     (let L = e_lib E; i = uuid_String (e_uuid E) accountUUID;
          salt = Hash L (''password-salt-'' @ username);
          passwordRoot = Argon2Key L password salt 16
      in bindS (HashKDF L passwordRoot (''account-enc'' @ i)) (\<lambda>enc.
         bindS (HashKDF L passwordRoot (''account-mac'' @ i)) (\<lambda>mac.
         Inr (take 16 enc, take 16 mac))))"

definition accountMACMessage :: "'s env \<Rightarrow> uuid \<Rightarrow> bytes \<Rightarrow> bytes" where
  "accountMACMessage E accountUUID ciphertext =
     ''authenticated-account:'' @ uuid_String (e_uuid E) accountUUID @ '':'' @ ciphertext"

definition emacAccount :: "'s env \<Rightarrow> Account \<Rightarrow> uuid \<Rightarrow> bytes \<Rightarrow> bytes \<Rightarrow> ('s, bytes) op" where
  "emacAccount E account accountUUID encKey macKey =
     bindE (fail_if (length encKey \<noteq> 16 \<or> length macKey \<noteq> 16) ''invalid account key length'') (\<lambda>_.
     bindE (random_bytes E 16) (\<lambda>iv.
     let accountBytes = json_Marshal (Account_codec (e_lib E)) account;
         ciphertext = SymEnc (e_lib E) encKey iv accountBytes
     in bindE (liftE (HMACEval (e_lib E) macKey (accountMACMessage E accountUUID ciphertext))) (\<lambda>mac.
        returnE (json_Marshal Envelope_codec \<lparr>en_Ciphertext = ciphertext, en_MAC = mac\<rparr>))))"

definition InitUserContext :: "'s env \<Rightarrow> op_context \<Rightarrow> string \<Rightarrow> string \<Rightarrow> ('s, User) op" where
  "InitUserContext E ctx username password =
     bindE (fail_if (username = []) ''username cannot be empty'') (\<lambda>_.
     bindE (liftE (getUserUUID E username)) (\<lambda>accountUUID.
     bindE (isUsernameTaken E ctx username accountUUID) (\<lambda>taken.
     bindE (fail_if taken ''username already exits'') (\<lambda>_.
     bindE (draw_err (PKEKeyGen (e_lib E))) (\<lambda>(pkePublic, pkePrivate).
     bindE (draw_err (DSKeyGen (e_lib E))) (\<lambda>(signPrivate, verifyPublic).
     bindE (random_bytes E 16) (\<lambda>namespaceRoot.
     let account = \<lparr>ac_UsernameHash = Hash (e_lib E) username, ac_NamespaceRoot = namespaceRoot,
                    ac_PKEPrivate = pkePrivate, ac_SignPrivate = signPrivate\<rparr>
     in bindE (liftE (deriveAccountKey E username password accountUUID)) (\<lambda>(encKey, macKey).
        bindE (emacAccount E account accountUUID encKey macKey) (\<lambda>encAccount.
        bindE (runAtomicStorage E ctx
                [KSet (getPKEKeyName E username) pkePublic,
                 KSet (getVerifyKeyName E username) verifyPublic,
                 DSet accountUUID encAccount]) (\<lambda>_.
        returnE \<lparr>Username = username, NamespaceRoot = namespaceRoot,
                 PKEPrivate = pkePrivate, SignPrivate = signPrivate\<rparr>))))))))))"

definition InitUser :: "'s env \<Rightarrow> string \<Rightarrow> string \<Rightarrow> ('s, User) op" where
  "InitUser E username password = InitUserContext E operationContext username password"

definition openAccount :: "'s env \<Rightarrow> bytes \<Rightarrow> uuid \<Rightarrow> bytes \<Rightarrow> bytes \<Rightarrow> ('s, Account) op" where
  "openAccount E envelopeBytes accountUUID encKey macKey =
     bindE (fail_if (length encKey \<noteq> symmetricKeySize) ''invalid account encryption key'') (\<lambda>_.
     bindE (fail_if (length macKey \<noteq> symmetricKeySize) ''invalid account MAC key'') (\<lambda>_.
     bindE (or_fail (json_Unmarshal Envelope_codec envelopeBytes zero_Envelope) ''invalid account envelope'') (\<lambda>envelope.
     bindE (fail_if (length (en_MAC envelope) \<noteq> HashSizeBytes) ''Invalid account MAC length'') (\<lambda>_.
     bindE (liftE (HMACEval (e_lib E) macKey (accountMACMessage E accountUUID (en_Ciphertext envelope)))) (\<lambda>expectedMAC.
     bindE (fail_if (\<not> HMACEqual (e_lib E) expectedMAC (en_MAC envelope)) ''account authentication failed'') (\<lambda>_.
     bindE (fail_if (length (en_Ciphertext envelope) < AESBlockSizeBytes) ''account ciphertext is too short'') (\<lambda>_.
     or_fail (json_Unmarshal (Account_codec (e_lib E)) (SymDec (e_lib E) encKey (en_Ciphertext envelope)) zero_Account)
       ''invalid account plaintext'')))))))"

definition GetUserContext :: "'s env \<Rightarrow> op_context \<Rightarrow> string \<Rightarrow> string \<Rightarrow> ('s, User) op" where
  "GetUserContext E ctx username password =
     bindE (fail_if (username = []) ''username cant be empty'') (\<lambda>_.
     bindE (liftE (getUserUUID E username)) (\<lambda>accountUUID.
     bindE (datastoreGet E ctx accountUUID) (\<lambda>found.
     bindE (or_fail found ''user account does not exits'') (\<lambda>envelopeBytes.
     bindE (liftE (deriveAccountKey E username password accountUUID)) (\<lambda>(encKey, macKey).
     bindE (openAccount E envelopeBytes accountUUID encKey macKey) (\<lambda>account.
     returnE \<lparr>Username = username, NamespaceRoot = ac_NamespaceRoot account,
              PKEPrivate = ac_PKEPrivate account, SignPrivate = ac_SignPrivate account\<rparr>))))))"

definition GetUser :: "'s env \<Rightarrow> string \<Rightarrow> string \<Rightarrow> ('s, User) op" where
  "GetUser E username password = GetUserContext E operationContext username password"

section \<open>Names, versions and keys\<close>

definition nextMetadataVersion :: "uint64 \<Rightarrow> error + uint64" where
  "nextMetadataVersion current =
     (if current = - 1 then Inl (ErrorMsg ''file content version exhausted'') else Inr (current + 1))"

definition canonicalNamespaceIdentity :: "string \<Rightarrow> string \<Rightarrow> bytes" where
  "canonicalNamespaceIdentity username filename =
     itoa (length username) @ '':'' @ username @ itoa (length filename) @ '':'' @ filename"

definition getNameSpaceEntryUUID :: "'s env \<Rightarrow> string \<Rightarrow> string \<Rightarrow> error + uuid" where
  "getNameSpaceEntryUUID E username filename =
     uuid_from (e_uuid E) (take 16 (Hash (e_lib E) (canonicalNamespaceIdentity username filename)))"

definition namespaceResourceID :: "'s env \<Rightarrow> string \<Rightarrow> string \<Rightarrow> error + ResourceID" where
  "namespaceResourceID E username filename =
     bindS (getNameSpaceEntryUUID E username filename) (\<lambda>nameUUID.
     Inr \<lparr>RType = NamespaceResource, RKey = uuid_String (e_uuid E) nameUUID\<rparr>)"

definition fileResourceID :: "'s env \<Rightarrow> uuid \<Rightarrow> ResourceID" where
  "fileResourceID E fileID = \<lparr>RType = FileResource, RKey = uuid_String (e_uuid E) fileID\<rparr>"

text \<open>The two keys derived from a root for two purposes.\<close>

definition derive_pair :: "'s env \<Rightarrow> bytes \<Rightarrow> string \<Rightarrow> bytes \<Rightarrow> bytes \<Rightarrow> error + bytes \<times> bytes" where
  "derive_pair E root msg encPurpose macPurpose =
     (if length root \<noteq> symmetricKeySize then Inl (ErrorMsg msg)
      else bindS (HashKDF (e_lib E) root encPurpose) (\<lambda>encResult.
           bindS (HashKDF (e_lib E) root macPurpose) (\<lambda>macResult.
           Inr (take 16 encResult, take 16 macResult))))"

definition deriveNamespaceEntryKeys :: "'s env \<Rightarrow> bytes \<Rightarrow> string \<Rightarrow> error + bytes \<times> bytes" where
  "deriveNamespaceEntryKeys E namespaceRoot filename =
     derive_pair E namespaceRoot ''Invalid namespace root''
       (''namespace-entry-enc:'' @ filename) (''namespace-entry-mac:'' @ filename)"

definition deriveChunkKeys :: "'s env \<Rightarrow> bytes \<Rightarrow> uuid \<Rightarrow> error + bytes \<times> bytes" where
  "deriveChunkKeys E fileRoot chunkUUID =
     derive_pair E fileRoot ''invalid file root''
       (''file-chunk-enc:'' @ uuid_String (e_uuid E) chunkUUID)
       (''file-chunk-mac:'' @ uuid_String (e_uuid E) chunkUUID)"

section \<open>Protected objects\<close>

definition datastoreObjectMACMessage :: "'s env \<Rightarrow> string \<Rightarrow> uuid \<Rightarrow> bytes \<Rightarrow> bytes" where
  "datastoreObjectMACMessage E objectType objectUUID ciphertext =
     objectType @ '':'' @ uuid_String (e_uuid E) objectUUID @ '':'' @ ciphertext"

definition protectDatastoreObject ::
  "'s env \<Rightarrow> string \<Rightarrow> uuid \<Rightarrow> 'o codec \<Rightarrow> 'o \<Rightarrow> bytes \<Rightarrow> bytes \<Rightarrow> ('s, bytes) op" where
  "protectDatastoreObject E objectType objectUUID codec obj encKey macKey =
     bindE (fail_if (objectType = []) ''object type cannot be empty'') (\<lambda>_.
     bindE (fail_if (objectUUID = uuid_Nil) ''object UUID cannot be nil'') (\<lambda>_.
     bindE (fail_if (length encKey \<noteq> symmetricKeySize \<or> length macKey \<noteq> symmetricKeySize)
              ''invalid object keys'') (\<lambda>_.
     bindE (random_bytes E AESBlockSizeBytes) (\<lambda>iv.
     let ciphertext = SymEnc (e_lib E) encKey iv (json_Marshal codec obj)
     in bindE (liftE (HMACEval (e_lib E) macKey (datastoreObjectMACMessage E objectType objectUUID ciphertext))) (\<lambda>mac.
        returnE (json_Marshal Envelope_codec \<lparr>en_Ciphertext = ciphertext, en_MAC = mac\<rparr>))))))"

definition loadDatastoreObject ::
  "'s env \<Rightarrow> op_context \<Rightarrow> string \<Rightarrow> uuid \<Rightarrow> bytes \<Rightarrow> bytes \<Rightarrow> 'o codec \<Rightarrow> 'o \<Rightarrow> ('s, 'o) op" where
  "loadDatastoreObject E ctx objectType objectUUID encKey macKey codec destination =
     bindE (fail_if (objectType = []) ''object type cannot be empty'') (\<lambda>_.
     bindE (fail_if (objectUUID = uuid_Nil) ''object UUID cannot be nil'') (\<lambda>_.
     bindE (fail_if (length encKey \<noteq> symmetricKeySize \<or> length macKey \<noteq> symmetricKeySize)
              ''invalid object keys'') (\<lambda>_.
     bindE (datastoreGet E ctx objectUUID) (\<lambda>found.
     bindE (or_fail found ''required datastore object is missing'') (\<lambda>envelopeBytes.
     bindE (or_fail (json_Unmarshal Envelope_codec envelopeBytes zero_Envelope) ''invalid datastore envelope'') (\<lambda>envelope.
     bindE (fail_if (length (en_MAC envelope) \<noteq> HashSizeBytes) ''invalid datastore MAC length'') (\<lambda>_.
     bindE (liftE (HMACEval (e_lib E) macKey
              (datastoreObjectMACMessage E objectType objectUUID (en_Ciphertext envelope)))) (\<lambda>expectedMAC.
     bindE (fail_if (\<not> HMACEqual (e_lib E) expectedMAC (en_MAC envelope)) ''datastore object authentication failed'') (\<lambda>_.
     bindE (fail_if (length (en_Ciphertext envelope) < AESBlockSizeBytes) ''datastore ciphertext is too short'') (\<lambda>_.
     or_fail (json_Unmarshal codec (SymDec (e_lib E) encKey (en_Ciphertext envelope)) destination)
       ''invalid datastore object plaintext''))))))))))"

definition namespaceEntryObjectType :: string where "namespaceEntryObjectType = ''namespace-entry''"
definition accessBoxObjectType :: string where "accessBoxObjectType = ''access-box''"
definition accessBoxStructureObjectType :: string where
  "accessBoxStructureObjectType = ''access-box-structure''"
definition metadataObjectType :: string where "metadataObjectType = ''metadata''"
definition chunkObjectType :: string where "chunkObjectType = ''chunk''"

definition getAccessBoxCommitment :: "'s env \<Rightarrow> AccessBox \<Rightarrow> bytes" where
  "getAccessBoxCommitment E accessBox =
     Hash (e_lib E) (json_Marshal (AccessBox_codec (e_uuid E)) accessBox)"

definition getFileStatusSignatureMessage :: "'s env \<Rightarrow> uuid \<Rightarrow> FileStatusBody \<Rightarrow> bytes" where
  "getFileStatusSignatureMessage E statusUUID body =
     ''file-status-signature:'' @ uuid_String (e_uuid E) statusUUID @ '':'' @
     json_Marshal (FileStatusBody_codec (e_uuid E)) body"

definition createFileStatus :: "'s env \<Rightarrow> User \<Rightarrow> uuid \<Rightarrow> AccessBox \<Rightarrow> ('s, FileStatus) op" where
  "createFileStatus E userdata statusUUID accessBox =
     (let body = \<lparr>fb_FileID = ab_FileID accessBox, fb_EpochID = ab_EpochID accessBox,
                  fb_CurrentAccessCommitment = getAccessBoxCommitment E accessBox,
                  fb_OwnerVerifyKeyName = ab_OwnerVerifyKeyName accessBox\<rparr>
      in bindE (draw_err (DSSign (e_lib E) (SignPrivate userdata)
                  (getFileStatusSignatureMessage E statusUUID body))) (\<lambda>signature.
         returnE \<lparr>fs_Body = body, fs_Signature = signature\<rparr>))"

definition verifyFileStatus :: "'s env \<Rightarrow> op_context \<Rightarrow> AccessBox \<Rightarrow> ('s, unit) op" where
  "verifyFileStatus E ctx accessBox =
     bindE (fail_if (ab_StatusUUID accessBox = uuid_Nil) ''invalid status uuid'') (\<lambda>_.
     bindE (datastoreGet E ctx (ab_StatusUUID accessBox)) (\<lambda>found.
     bindE (or_fail found ''file status is missing'') (\<lambda>statusBytes.
     bindE (or_fail (json_Unmarshal (FileStatus_codec (e_uuid E)) statusBytes zero_FileStatus) ''invalid file status'') (\<lambda>status.
     bindE (keystoreGet E ctx (ab_OwnerVerifyKeyName accessBox)) (\<lambda>foundKey.
     bindE (or_fail foundKey ''owner verification key is missing'') (\<lambda>verifyKey.
     bindE (fail_if (KeyType verifyKey \<noteq> ''DS'') ''Invalid owner verification key'') (\<lambda>_.
     bindE (fail_if (DSVerify (e_lib E) verifyKey
                (getFileStatusSignatureMessage E (ab_StatusUUID accessBox) (fs_Body status)) (fs_Signature status) \<noteq> None)
              ''invalid signature'') (\<lambda>_.
     bindE (fail_if (fb_FileID (fs_Body status) \<noteq> ab_FileID accessBox) ''file status FileID mismatch'') (\<lambda>_.
     bindE (fail_if (fb_EpochID (fs_Body status) \<noteq> ab_EpochID accessBox) ''file status epoch mismatch'') (\<lambda>_.
     bindE (fail_if (fb_OwnerVerifyKeyName (fs_Body status) \<noteq> ab_OwnerVerifyKeyName accessBox)
              ''file status owner mismatch'') (\<lambda>_.
     fail_if (\<not> HMACEqual (e_lib E) (getAccessBoxCommitment E accessBox) (fb_CurrentAccessCommitment (fs_Body status)))
       ''stale access box'')))))))))))"

section \<open>Resolving a file\<close>

definition loadNamespaceEntry :: "'s env \<Rightarrow> op_context \<Rightarrow> User option \<Rightarrow> string \<Rightarrow> ('s, NamespaceEntry) op" where
  "loadNamespaceEntry E ctx userdata filename =
     bindE (or_fail userdata ''user cannot be nil'') (\<lambda>user.
     bindE (liftE (getNameSpaceEntryUUID E (Username user) filename)) (\<lambda>nameUUID.
     bindE (liftE (deriveNamespaceEntryKeys E (NamespaceRoot user) filename)) (\<lambda>(namespaceEncKey, namespaceMACKey).
     bindE (loadDatastoreObject E ctx namespaceEntryObjectType nameUUID namespaceEncKey namespaceMACKey
              (NamespaceEntry_codec (e_uuid E)) zero_NamespaceEntry) (\<lambda>entry.
     bindE (fail_if (ne_FileID entry = uuid_Nil) ''invalid namespace FileID'') (\<lambda>_.
     bindE (fail_if (ne_AccessBoxUUID entry = uuid_Nil) ''invalid access box UUID'') (\<lambda>_.
     bindE (fail_if (length (ne_AccessBoxEncKey entry) \<noteq> symmetricKeySize) ''invalid access box encryption key'') (\<lambda>_.
     bindE (fail_if (length (ne_AccessBoxMACKey entry) \<noteq> symmetricKeySize) ''invalid access box MAC key'') (\<lambda>_.
     returnE entry))))))))"

definition validateFileAccessUnderLock :: "'s env \<Rightarrow> op_context \<Rightarrow> NamespaceEntry \<Rightarrow> ('s, AccessBox) op" where
  "validateFileAccessUnderLock E ctx entry =
     bindE (loadDatastoreObject E ctx accessBoxObjectType (ne_AccessBoxUUID entry) (ne_AccessBoxEncKey entry)
              (ne_AccessBoxMACKey entry) (AccessBox_codec (e_uuid E)) zero_AccessBox) (\<lambda>accessBox.
     bindE (fail_if (ab_FileID accessBox \<noteq> ne_FileID entry) ''access box FileID mismatch'') (\<lambda>_.
     bindE (fail_if (ab_EpochID accessBox = uuid_Nil) ''invalid access box epoch'') (\<lambda>_.
     bindE (fail_if (ab_MetadataUUID accessBox = uuid_Nil) ''invalid metadata UUID'') (\<lambda>_.
     bindE (fail_if (length (ab_MetadataEncKey accessBox) \<noteq> symmetricKeySize \<or>
                     length (ab_MetadataMACKey accessBox) \<noteq> symmetricKeySize) ''invalid metadata keys'') (\<lambda>_.
     bindE (fail_if (length (ab_FileRoot accessBox) \<noteq> symmetricKeySize) ''invalid file root'') (\<lambda>_.
     bindE (fail_if (ab_AccessBoxStructureUUID accessBox = uuid_Nil) ''invalid access box structure UUID'') (\<lambda>_.
     bindE (fail_if (ab_StatusUUID accessBox = uuid_Nil) ''invalid status UUID'') (\<lambda>_.
     bindE (fail_if (ab_OwnerVerifyKeyName accessBox = []) ''missing owner verification key name'') (\<lambda>_.
     bindE (verifyFileStatus E ctx accessBox) (\<lambda>_.
     returnE accessBox))))))))))"

definition validateInvitationAccessUnderLock ::
  "'s env \<Rightarrow> op_context \<Rightarrow> InvitationPayload \<Rightarrow> ('s, AccessBox) op" where
  "validateInvitationAccessUnderLock E ctx payload =
     bindE (loadDatastoreObject E ctx accessBoxObjectType (ip_AccessBoxUUID payload) (ip_AccessBoxEncKey payload)
              (ip_AccessBoxMACKey payload) (AccessBox_codec (e_uuid E)) zero_AccessBox) (\<lambda>accessBox.
     bindE (fail_if (ab_FileID accessBox \<noteq> ip_FileID payload) ''invitation and AccessBox FileID mismatch'') (\<lambda>_.
     bindE (verifyFileStatus E ctx accessBox) (\<lambda>_.
     returnE accessBox)))"

definition resolveFile ::
  "'s env \<Rightarrow> op_context \<Rightarrow> User option \<Rightarrow> string \<Rightarrow> ('s, NamespaceEntry \<times> AccessBox) op" where
  "resolveFile E ctx userdata filename =
     bindE (loadNamespaceEntry E ctx userdata filename) (\<lambda>entry.
     bindE (validateFileAccessUnderLock E ctx entry) (\<lambda>accessBox.
     returnE (entry, accessBox)))"

definition loadMetadata :: "'s env \<Rightarrow> op_context \<Rightarrow> AccessBox \<Rightarrow> ('s, Metadata) op" where
  "loadMetadata E ctx accessBox =
     bindE (loadDatastoreObject E ctx metadataObjectType (ab_MetadataUUID accessBox) (ab_MetadataEncKey accessBox)
              (ab_MetadataMACKey accessBox) (Metadata_codec (e_uuid E)) zero_Metadata) (\<lambda>metadata.
     bindE (fail_if (md_FileID metadata \<noteq> ab_FileID accessBox) ''metadata FileID mismatch'') (\<lambda>_.
     bindE (fail_if (md_EpochID metadata \<noteq> ab_EpochID accessBox) ''metadata epoch mismatch'') (\<lambda>_.
     bindE (fail_if (md_ChunkCount metadata = 0) ''metadata has zero chunks'') (\<lambda>_.
     bindE (fail_if (md_Version metadata = 0) ''metadata has invalid content version'') (\<lambda>_.
     bindE (fail_if (md_TailUUID metadata = uuid_Nil) ''metadata tail is nil'') (\<lambda>_.
     returnE metadata))))))"

text \<open>
  The loop of \<open>loadFileContentAndChunkUUIDs\<close>, from the tail of the chain to its base:
  \<open>remaining\<close> chunks are still to be read, the contents are collected in that order.
\<close>

fun load_chunks ::
  "'s env \<Rightarrow> op_context \<Rightarrow> AccessBox \<Rightarrow> nat \<Rightarrow> uuid \<Rightarrow> bytes list \<Rightarrow> uuid list \<Rightarrow> ('s, bytes list \<times> uuid list) op" where
  "load_chunks E ctx accessBox 0 currentUUID reversedContents chunkUUIDs =
     bindE (fail_if (currentUUID \<noteq> uuid_Nil) ''chunk chain has extra predecessor'') (\<lambda>_.
     returnE (reversedContents, chunkUUIDs))"
| "load_chunks E ctx accessBox (Suc remaining) currentUUID reversedContents chunkUUIDs =
     bindE (fail_if (currentUUID = uuid_Nil) ''chunk chain ended early'') (\<lambda>_.
     bindE (fail_if (currentUUID \<in> set chunkUUIDs) ''chunk chain contains a cycle'') (\<lambda>_.
     bindE (liftE (deriveChunkKeys E (ab_FileRoot accessBox) currentUUID)) (\<lambda>(chunkEncKey, chunkMACKey).
     bindE (loadDatastoreObject E ctx chunkObjectType currentUUID chunkEncKey chunkMACKey
              (Chunk_codec (e_uuid E)) zero_Chunk) (\<lambda>chunk.
     let expectedIndex = (of_nat remaining :: uint64) in
     bindE (fail_if (ck_FileID chunk \<noteq> ab_FileID accessBox) ''chunk FileID mismatch'') (\<lambda>_.
     bindE (fail_if (ck_EpochID chunk \<noteq> ab_EpochID accessBox) ''chunk epoch mismatch'') (\<lambda>_.
     bindE (fail_if (ck_Index chunk \<noteq> expectedIndex) ''chunk index mismatch'') (\<lambda>_.
     bindE (if expectedIndex = 0
            then fail_if (ck_PrevUUID chunk \<noteq> uuid_Nil) ''base chunk predecessor is not nil''
            else fail_if (ck_PrevUUID chunk = uuid_Nil) ''chunk chain is truncated'') (\<lambda>_.
     load_chunks E ctx accessBox remaining (ck_PrevUUID chunk) (reversedContents @ [ck_Content chunk])
       (chunkUUIDs @ [currentUUID])))))))))"

definition loadFileContentAndChunkUUIDs ::
  "'s env \<Rightarrow> op_context \<Rightarrow> AccessBox \<Rightarrow> Metadata \<Rightarrow> ('s, bytes \<times> uuid list) op" where
  "loadFileContentAndChunkUUIDs E ctx accessBox metadata =
     bindE (load_chunks E ctx accessBox (unat (md_ChunkCount metadata)) (md_TailUUID metadata) [] [])
       (\<lambda>(reversedContents, chunkUUIDs). returnE (concat (rev reversedContents), chunkUUIDs))"

end
