(* ===== verification/Client_Ops.thy ===== *)
theory Client_Ops
  imports Client
begin

text \<open>
  The file and sharing operations of \<open>client/client.go\<close>: \<open>StoreFile\<close>, \<open>AppendToFile\<close>,
  \<open>LoadFile\<close>, \<open>CreateInvitation\<close>, \<open>AcceptInvitation\<close> and \<open>RevokeAccess\<close>, with the locks they
  take, and the metadata reads of \<open>client/diagnostics.go\<close>.
\<close>

section \<open>Storing a new file\<close>

text \<open>The identifiers and keys drawn for a new file.\<close>

record file_ids =
  id_epochID :: uuid
  id_fileRoot :: bytes
  id_baseChunkUUID :: uuid
  id_metadataUUID :: uuid
  id_metadataEncKey :: bytes
  id_metadataMACKey :: bytes
  id_ownerAccessBoxUUID :: uuid
  id_ownerAccessBoxEncKey :: bytes
  id_ownerAccessBoxMACKey :: bytes
  id_structureUUID :: uuid
  id_structureEncKey :: bytes
  id_structureMACKey :: bytes
  id_statusUUID :: uuid

definition draw_file_ids :: "'s env \<Rightarrow> ('s, file_ids) op" where
  "draw_file_ids E =
     bindE (new_uuid E) (\<lambda>epochID.
     bindE (random_bytes E symmetricKeySize) (\<lambda>fileRoot.
     bindE (new_uuid E) (\<lambda>baseChunkUUID.
     bindE (new_uuid E) (\<lambda>metadataUUID.
     bindE (random_bytes E symmetricKeySize) (\<lambda>metadataEncKey.
     bindE (random_bytes E symmetricKeySize) (\<lambda>metadataMACKey.
     bindE (new_uuid E) (\<lambda>ownerAccessBoxUUID.
     bindE (random_bytes E symmetricKeySize) (\<lambda>ownerAccessBoxEncKey.
     bindE (random_bytes E symmetricKeySize) (\<lambda>ownerAccessBoxMACKey.
     bindE (new_uuid E) (\<lambda>structureUUID.
     bindE (random_bytes E symmetricKeySize) (\<lambda>structureEncKey.
     bindE (random_bytes E symmetricKeySize) (\<lambda>structureMACKey.
     bindE (new_uuid E) (\<lambda>statusUUID.
     returnE \<lparr>id_epochID = epochID, id_fileRoot = fileRoot, id_baseChunkUUID = baseChunkUUID,
       id_metadataUUID = metadataUUID, id_metadataEncKey = metadataEncKey, id_metadataMACKey = metadataMACKey,
       id_ownerAccessBoxUUID = ownerAccessBoxUUID, id_ownerAccessBoxEncKey = ownerAccessBoxEncKey,
       id_ownerAccessBoxMACKey = ownerAccessBoxMACKey, id_structureUUID = structureUUID,
       id_structureEncKey = structureEncKey, id_structureMACKey = structureMACKey,
       id_statusUUID = statusUUID\<rparr>)))))))))))))"

text \<open>The chunk and the metadata of a file that consists of one chunk.\<close>

definition base_chunk :: "uuid \<Rightarrow> uuid \<Rightarrow> bytes \<Rightarrow> Chunk" where
  "base_chunk fileID epochID content =
     \<lparr>ck_FileID = fileID, ck_EpochID = epochID, ck_Index = 0, ck_PrevUUID = uuid_Nil, ck_Content = content\<rparr>"

definition new_file_box :: "'s env \<Rightarrow> User \<Rightarrow> uuid \<Rightarrow> file_ids \<Rightarrow> AccessBox" where
  "new_file_box E userdata fileID ids =
     \<lparr>ab_FileID = fileID, ab_EpochID = id_epochID ids, ab_MetadataUUID = id_metadataUUID ids,
      ab_MetadataEncKey = id_metadataEncKey ids, ab_MetadataMACKey = id_metadataMACKey ids,
      ab_FileRoot = id_fileRoot ids, ab_AccessBoxStructureUUID = id_structureUUID ids,
      ab_StatusUUID = id_statusUUID ids, ab_OwnerVerifyKeyName = getVerifyKeyName E (Username userdata)\<rparr>"

definition new_file_entry :: "uuid \<Rightarrow> file_ids \<Rightarrow> NamespaceEntry" where
  "new_file_entry fileID ids =
     \<lparr>ne_IsOwner = True, ne_FileID = fileID, ne_AccessBoxUUID = id_ownerAccessBoxUUID ids,
      ne_AccessBoxEncKey = id_ownerAccessBoxEncKey ids, ne_AccessBoxMACKey = id_ownerAccessBoxMACKey ids,
      ne_AccessBoxStructureUUID = id_structureUUID ids, ne_AccessBoxStructureEncKey = id_structureEncKey ids,
      ne_AccessBoxStructureMACKey = id_structureMACKey ids\<rparr>"

text \<open>The six objects of a new file, and the writes that store them.\<close>

definition new_file_writes ::
  "'s env \<Rightarrow> User \<Rightarrow> bytes \<Rightarrow> uuid \<Rightarrow> file_ids \<Rightarrow> uuid \<Rightarrow> bytes \<times> bytes \<Rightarrow> ('s, store_write list) op" where
  "new_file_writes E userdata content fileID ids nameUUID namespaceKeys =
     bindE (liftE (deriveChunkKeys E (id_fileRoot ids) (id_baseChunkUUID ids))) (\<lambda>(chunkEncKey, chunkMACKey).
     bindE (protectDatastoreObject E chunkObjectType (id_baseChunkUUID ids) (Chunk_codec (e_uuid E))
              (base_chunk fileID (id_epochID ids) content) chunkEncKey chunkMACKey) (\<lambda>protectedChunk.
     bindE (protectDatastoreObject E metadataObjectType (id_metadataUUID ids) (Metadata_codec (e_uuid E))
              \<lparr>md_FileID = fileID, md_EpochID = id_epochID ids, md_Version = 1,
               md_TailUUID = id_baseChunkUUID ids, md_ChunkCount = 1\<rparr>
              (id_metadataEncKey ids) (id_metadataMACKey ids)) (\<lambda>protectedMetadata.
     let accessBox = new_file_box E userdata fileID ids in
     bindE (protectDatastoreObject E accessBoxObjectType (id_ownerAccessBoxUUID ids) (AccessBox_codec (e_uuid E))
              accessBox (id_ownerAccessBoxEncKey ids) (id_ownerAccessBoxMACKey ids)) (\<lambda>protectedAccessBox.
     bindE (createFileStatus E userdata (id_statusUUID ids) accessBox) (\<lambda>fileStatus.
     bindE (protectDatastoreObject E accessBoxStructureObjectType (id_structureUUID ids)
              (AccessBoxStructure_codec (e_uuid E))
              \<lparr>as_FileID = fileID, as_CurrentEpoch = id_epochID ids, as_RecipientBoxes = Some []\<rparr>
              (id_structureEncKey ids) (id_structureMACKey ids)) (\<lambda>protectedStructure.
     bindE (protectDatastoreObject E namespaceEntryObjectType nameUUID (NamespaceEntry_codec (e_uuid E))
              (new_file_entry fileID ids) (fst namespaceKeys) (snd namespaceKeys)) (\<lambda>protectedEntry.
     returnE
       [DSet (id_baseChunkUUID ids) protectedChunk,
        DSet (id_metadataUUID ids) protectedMetadata,
        DSet (id_ownerAccessBoxUUID ids) protectedAccessBox,
        DSet (id_statusUUID ids) (json_Marshal (FileStatus_codec (e_uuid E)) fileStatus),
        DSet (id_structureUUID ids) protectedStructure,
        DSet nameUUID protectedEntry])))))))"

definition storeNewFileLocked ::
  "'s env \<Rightarrow> User \<Rightarrow> op_context \<Rightarrow> string \<Rightarrow> bytes \<Rightarrow> uuid \<Rightarrow> ('s, unit) op" where
  "storeNewFileLocked E userdata ctx filename content fileID =
     bindE (liftE (getNameSpaceEntryUUID E (Username userdata) filename)) (\<lambda>nameUUID.
     bindE (liftE (deriveNamespaceEntryKeys E (NamespaceRoot userdata) filename)) (\<lambda>namespaceKeys.
     bindE (draw_file_ids E) (\<lambda>ids.
     bindE (new_file_writes E userdata content fileID ids nameUUID namespaceKeys) (\<lambda>ws.
     runAtomicStorage E ctx ws))))"

section \<open>Overwriting a file\<close>

text \<open>
  The loop that draws an identifier until it is not one of the old chunks'. It returns the
  identifier and the number of draws made.
\<close>

partial_function (option) fresh_uuid :: "'s env \<Rightarrow> uuid list \<Rightarrow> nat \<Rightarrow> (uuid \<times> nat) option" where
  "fresh_uuid E old d =
     (if uuid_New (e_lib E) d \<notin> set old then Some (uuid_New (e_lib E) d, Suc d)
      else fresh_uuid E old (Suc d))"

definition new_uuid_outside :: "'s env \<Rightarrow> uuid list \<Rightarrow> ('s, uuid) op" where
  "new_uuid_outside E old w =
     map_option (\<lambda>(u, d). (Inr u, w\<lparr>w_draws := d\<rparr>)) (fresh_uuid E old (w_draws w))"

definition overwriteExistingFileLocked ::
  "'s env \<Rightarrow> op_context \<Rightarrow> AccessBox \<Rightarrow> bytes \<Rightarrow> ('s, unit) op" where
  "overwriteExistingFileLocked E ctx accessBox content =
     bindE (loadMetadata E ctx accessBox) (\<lambda>metadata.
     bindE (loadFileContentAndChunkUUIDs E ctx accessBox metadata) (\<lambda>(_, oldChunkUUIDs).
     bindE (new_uuid_outside E oldChunkUUIDs) (\<lambda>newBaseChunkUUID.
     bindE (liftE (deriveChunkKeys E (ab_FileRoot accessBox) newBaseChunkUUID)) (\<lambda>(newChunkEncKey, newChunkMACKey).
     bindE (protectDatastoreObject E chunkObjectType newBaseChunkUUID (Chunk_codec (e_uuid E))
              (base_chunk (ab_FileID accessBox) (ab_EpochID accessBox) content)
              newChunkEncKey newChunkMACKey) (\<lambda>protectedNewChunk.
     bindE (liftE (nextMetadataVersion (md_Version metadata))) (\<lambda>newVersion.
     bindE (protectDatastoreObject E metadataObjectType (ab_MetadataUUID accessBox) (Metadata_codec (e_uuid E))
              \<lparr>md_FileID = ab_FileID accessBox, md_EpochID = ab_EpochID accessBox, md_Version = newVersion,
               md_TailUUID = newBaseChunkUUID, md_ChunkCount = 1\<rparr>
              (ab_MetadataEncKey accessBox) (ab_MetadataMACKey accessBox)) (\<lambda>protectedNewMetadata.
     runAtomicStorage E ctx
       ([DSet newBaseChunkUUID protectedNewChunk, DSet (ab_MetadataUUID accessBox) protectedNewMetadata] @
        map DDelete oldChunkUUIDs))))))))"

definition StoreFileContext :: "'s env \<Rightarrow> User \<Rightarrow> op_context \<Rightarrow> string \<Rightarrow> bytes \<Rightarrow> ('s, unit) op" where
  "StoreFileContext E userdata ctx filename content =
     with_guard E (\<lambda>guard.
     bindE (liftE (namespaceResourceID E (Username userdata) filename)) (\<lambda>nsResource.
     bindE (acquire_lock_ctx E ctx guard nsResource ExclusiveLock) (\<lambda>_.
     bindE (liftE (getNameSpaceEntryUUID E (Username userdata) filename)) (\<lambda>nameUUID.
     bindE (datastoreGet E ctx nameUUID) (\<lambda>found.
     if found \<noteq> None then
       bindE (loadNamespaceEntry E ctx (Some userdata) filename) (\<lambda>entry.
       bindE (acquire_lock_ctx E ctx guard (fileResourceID E (ne_FileID entry)) ExclusiveLock) (\<lambda>_.
       bindE (withFenceGrants E ctx guard) (\<lambda>ctx.
       bindE (validateFileAccessUnderLock E ctx entry) (\<lambda>accessBox.
       overwriteExistingFileLocked E ctx accessBox content))))
     else
       bindE (new_uuid E) (\<lambda>fileID.
       bindE (acquire_lock_ctx E ctx guard (fileResourceID E fileID) ExclusiveLock) (\<lambda>_.
       bindE (withFenceGrants E ctx guard) (\<lambda>ctx.
       storeNewFileLocked E userdata ctx filename content fileID))))))))"

definition StoreFile :: "'s env \<Rightarrow> User \<Rightarrow> string \<Rightarrow> bytes \<Rightarrow> ('s, unit) op" where
  "StoreFile E userdata filename content = StoreFileContext E userdata operationContext filename content"

section \<open>Appending\<close>

text \<open>\<open>AppendToFileContext\<close> once the metadata has been read.\<close>

definition append_chunk :: "'s env \<Rightarrow> op_context \<Rightarrow> AccessBox \<Rightarrow> Metadata \<Rightarrow> bytes \<Rightarrow> ('s, unit) op" where
  "append_chunk E ctx accessBox metadata content =
     bindE (fail_if (md_ChunkCount metadata = - 1) ''chunk count overflow'') (\<lambda>_.
     bindE (new_uuid E) (\<lambda>newChunkUUID.
     bindE (liftE (deriveChunkKeys E (ab_FileRoot accessBox) newChunkUUID)) (\<lambda>(newChunkEncKey, newChunkMACKey).
     bindE (protectDatastoreObject E chunkObjectType newChunkUUID (Chunk_codec (e_uuid E))
              \<lparr>ck_FileID = ab_FileID accessBox, ck_EpochID = ab_EpochID accessBox,
               ck_Index = md_ChunkCount metadata, ck_PrevUUID = md_TailUUID metadata, ck_Content = content\<rparr>
              newChunkEncKey newChunkMACKey) (\<lambda>protectedNewChunk.
     bindE (liftE (nextMetadataVersion (md_Version metadata))) (\<lambda>newVersion.
     bindE (protectDatastoreObject E metadataObjectType (ab_MetadataUUID accessBox) (Metadata_codec (e_uuid E))
              \<lparr>md_FileID = md_FileID metadata, md_EpochID = md_EpochID metadata, md_Version = newVersion,
               md_TailUUID = newChunkUUID, md_ChunkCount = md_ChunkCount metadata + 1\<rparr>
              (ab_MetadataEncKey accessBox) (ab_MetadataMACKey accessBox)) (\<lambda>protectedUpdatedMetadata.
     runAtomicStorage E ctx
       [DSet newChunkUUID protectedNewChunk, DSet (ab_MetadataUUID accessBox) protectedUpdatedMetadata]))))))"

definition AppendToFileContext :: "'s env \<Rightarrow> User \<Rightarrow> op_context \<Rightarrow> string \<Rightarrow> bytes \<Rightarrow> ('s, unit) op" where
  "AppendToFileContext E userdata ctx filename content =
     with_guard E (\<lambda>guard.
     bindE (liftE (namespaceResourceID E (Username userdata) filename)) (\<lambda>nsResource.
     bindE (acquire_lock_ctx E ctx guard nsResource SharedLock) (\<lambda>_.
     bindE (loadNamespaceEntry E ctx (Some userdata) filename) (\<lambda>entry.
     bindE (acquire_lock_ctx E ctx guard (fileResourceID E (ne_FileID entry)) ExclusiveLock) (\<lambda>_.
     bindE (withFenceGrants E ctx guard) (\<lambda>ctx.
     bindE (validateFileAccessUnderLock E ctx entry) (\<lambda>accessBox.
     bindE (loadMetadata E ctx accessBox) (\<lambda>metadata.
     if length content = 0 then returnE ()
     else append_chunk E ctx accessBox metadata content))))))))"

definition AppendToFile :: "'s env \<Rightarrow> User \<Rightarrow> string \<Rightarrow> bytes \<Rightarrow> ('s, unit) op" where
  "AppendToFile E userdata filename content = AppendToFileContext E userdata operationContext filename content"

section \<open>Loading\<close>

definition LoadFileContext :: "'s env \<Rightarrow> User \<Rightarrow> op_context \<Rightarrow> string \<Rightarrow> ('s, bytes) op" where
  "LoadFileContext E userdata ctx filename =
     with_guard E (\<lambda>guard.
     bindE (liftE (namespaceResourceID E (Username userdata) filename)) (\<lambda>nsResource.
     bindE (acquire_lock_ctx E ctx guard nsResource SharedLock) (\<lambda>_.
     bindE (loadNamespaceEntry E ctx (Some userdata) filename) (\<lambda>entry.
     bindE (acquire_lock_ctx E ctx guard (fileResourceID E (ne_FileID entry)) SharedLock) (\<lambda>_.
     bindE (validateFileAccessUnderLock E ctx entry) (\<lambda>accessBox.
     bindE (loadMetadata E ctx accessBox) (\<lambda>metadata.
     bindE (loadFileContentAndChunkUUIDs E ctx accessBox metadata) (\<lambda>(content, _).
     returnE content))))))))"

definition LoadFile :: "'s env \<Rightarrow> User \<Rightarrow> string \<Rightarrow> ('s, bytes) op" where
  "LoadFile E userdata filename = LoadFileContext E userdata operationContext filename"

text \<open>\<open>diagnostics.go\<close>: a consistent reading of a file's version and chunk count.\<close>

record FileMetadataSnapshot =
  sn_Version :: uint64
  sn_ChunkCount :: uint64

definition ReadFileMetadata :: "'s env \<Rightarrow> User \<Rightarrow> string \<Rightarrow> ('s, FileMetadataSnapshot) op" where
  "ReadFileMetadata E userdata filename =
     with_guard E (\<lambda>guard.
     bindE (liftE (namespaceResourceID E (Username userdata) filename)) (\<lambda>nsResource.
     bindE (acquire_lock E guard nsResource SharedLock) (\<lambda>_.
     bindE (loadNamespaceEntry E operationContext (Some userdata) filename) (\<lambda>entry.
     bindE (acquire_lock E guard (fileResourceID E (ne_FileID entry)) SharedLock) (\<lambda>_.
     bindE (validateFileAccessUnderLock E operationContext entry) (\<lambda>accessBox.
     bindE (loadMetadata E operationContext accessBox) (\<lambda>metadata.
     returnE \<lparr>sn_Version = md_Version metadata, sn_ChunkCount = md_ChunkCount metadata\<rparr>)))))))"

definition DebugFileVersionForBenchmark :: "'s env \<Rightarrow> User \<Rightarrow> string \<Rightarrow> ('s, uint64 \<times> uint64) op" where
  "DebugFileVersionForBenchmark E owner filename =
     bindE (resolveFile E operationContext (Some owner) filename) (\<lambda>(_, accessBox).
     bindE (loadMetadata E operationContext accessBox) (\<lambda>metadata.
     returnE (md_Version metadata, md_ChunkCount metadata)))"

end
