(* ===== verification/Client_Share.thy ===== *)
theory Client_Share
  imports Client_Ops
begin

text \<open>
  Sharing and revocation of \<open>client/client.go\<close>: \<open>CreateInvitation\<close>, \<open>AcceptInvitation\<close>,
  \<open>RevokeAccess\<close> and the authorization check used by the benchmarks.
\<close>

section \<open>Invitations\<close>

definition getInvitationIdentity :: "'s env \<Rightarrow> string \<Rightarrow> bytes" where
  "getInvitationIdentity E username = Hash (e_lib E) (''invitation-identity:'' @ username)"

definition deriveInvitationKeys :: "'s env \<Rightarrow> bytes \<Rightarrow> uuid \<Rightarrow> error + bytes \<times> bytes" where
  "deriveInvitationKeys E inviteRoot invitationUUID =
     derive_pair E inviteRoot ''invalid invitation root''
       (''invitation-enc:'' @ uuid_String (e_uuid E) invitationUUID)
       (''invitation-mac:'' @ uuid_String (e_uuid E) invitationUUID)"

definition getInvitationMACMessage :: "'s env \<Rightarrow> uuid \<Rightarrow> bytes \<Rightarrow> bytes" where
  "getInvitationMACMessage E invitationUUID ciphertext =
     ''invitation-ciphertext:'' @ uuid_String (e_uuid E) invitationUUID @ '':'' @ ciphertext"

definition getInvitationSignatureMessage :: "'s env \<Rightarrow> uuid \<Rightarrow> InvitationSignedFields \<Rightarrow> bytes" where
  "getInvitationSignatureMessage E invitationUUID signedFields =
     ''invitation-signature:'' @ uuid_String (e_uuid E) invitationUUID @ '':'' @
     json_Marshal SignedFields_codec signedFields"

definition buildInvitation ::
  "'s env \<Rightarrow> User option \<Rightarrow> PublicKeyType \<Rightarrow> uuid \<Rightarrow> InvitationPayload \<Rightarrow> ('s, bytes) op" where
  "buildInvitation E sender recipientPublicKey invitationUUID payload =
     bindE (or_fail sender ''sender cannot be nil'') (\<lambda>sender.
     bindE (fail_if (KeyType recipientPublicKey \<noteq> ''PKE'') ''invalid recipient PKE key'') (\<lambda>_.
     bindE (random_bytes E symmetricKeySize) (\<lambda>inviteRoot.
     bindE (liftE (deriveInvitationKeys E inviteRoot invitationUUID)) (\<lambda>(invitationEncKey, invitationMACKey).
     bindE (random_bytes E AESBlockSizeBytes) (\<lambda>iv.
     let ciphertext = SymEnc (e_lib E) invitationEncKey iv
                        (json_Marshal (InvitationPayload_codec (e_uuid E)) payload) in
     bindE (liftE (HMACEval (e_lib E) invitationMACKey (getInvitationMACMessage E invitationUUID ciphertext))) (\<lambda>mac.
     bindE (draw_err (PKEEnc (e_lib E) recipientPublicKey inviteRoot)) (\<lambda>wrappedRoot.
     bindE (draw_err (DSSign (e_lib E) (SignPrivate sender) (getInvitationSignatureMessage E invitationUUID
              \<lparr>sf_WrappedRoot = wrappedRoot, sf_Ciphertext = ciphertext, sf_MAC = mac\<rparr>))) (\<lambda>signature.
     returnE (json_Marshal Invitation_codec
       \<lparr>iv_WrappedRoot = wrappedRoot, iv_Ciphertext = ciphertext, iv_MAC = mac, iv_Signature = signature\<rparr>)))))))))"

definition loadOwnerAccessBoxStructure ::
  "'s env \<Rightarrow> op_context \<Rightarrow> NamespaceEntry \<Rightarrow> AccessBox \<Rightarrow> ('s, AccessBoxStructure) op" where
  "loadOwnerAccessBoxStructure E ctx entry accessBox =
     bindE (fail_if (\<not> ne_IsOwner entry) ''caller is not the owner'') (\<lambda>_.
     bindE (fail_if (ne_AccessBoxStructureUUID entry = uuid_Nil) ''missing structure UUID'') (\<lambda>_.
     bindE (fail_if (ne_AccessBoxStructureUUID entry \<noteq> ab_AccessBoxStructureUUID accessBox)
              ''structure UUID mismatch'') (\<lambda>_.
     bindE (fail_if (length (ne_AccessBoxStructureEncKey entry) \<noteq> symmetricKeySize \<or>
                     length (ne_AccessBoxStructureMACKey entry) \<noteq> symmetricKeySize) ''invalid structure keys'') (\<lambda>_.
     bindE (loadDatastoreObject E ctx accessBoxStructureObjectType (ne_AccessBoxStructureUUID entry)
              (ne_AccessBoxStructureEncKey entry) (ne_AccessBoxStructureMACKey entry)
              (AccessBoxStructure_codec (e_uuid E)) zero_AccessBoxStructure) (\<lambda>structure.
     bindE (fail_if (as_FileID structure \<noteq> ab_FileID accessBox) ''structure FileID mismatch'') (\<lambda>_.
     bindE (fail_if (as_CurrentEpoch structure \<noteq> ab_EpochID accessBox) ''structure epoch mismatch'') (\<lambda>_.
     bindE (fail_if (as_RecipientBoxes structure = None) ''invalid recipient map'') (\<lambda>_.
     returnE structure))))))))"

text \<open>The direct shares of a structure that has passed the check above.\<close>

definition boxes_of :: "AccessBoxStructure \<Rightarrow> (string \<times> BranchBoxRecord) list" where
  "boxes_of structure = (case as_RecipientBoxes structure of None \<Rightarrow> [] | Some bs \<Rightarrow> bs)"

text \<open>
  The branch box an owner's invitation hands out, with the writes that store it: a recipient
  that is tracked already keeps its record, any other gets a new one in the structure.
\<close>

definition owner_branch_box ::
  "'s env \<Rightarrow> op_context \<Rightarrow> NamespaceEntry \<Rightarrow> AccessBox \<Rightarrow> string \<Rightarrow> ('s, BranchBoxRecord \<times> store_write list) op" where
  "owner_branch_box E ctx entry accessBox recipientUsername =
     bindE (loadOwnerAccessBoxStructure E ctx entry accessBox) (\<lambda>structure.
     bindE (case map_of (boxes_of structure) recipientUsername of
              Some record \<Rightarrow> returnE (record, [])
            | None \<Rightarrow>
                bindE (new_uuid E) (\<lambda>boxUUID.
                bindE (random_bytes E symmetricKeySize) (\<lambda>boxEncKey.
                bindE (random_bytes E symmetricKeySize) (\<lambda>boxMACKey.
                let record = \<lparr>br_BoxUUID = boxUUID, br_BoxEncKey = boxEncKey, br_BoxMACKey = boxMACKey\<rparr>;
                    structure' = structure\<lparr>as_RecipientBoxes :=
                      Some (AList.update recipientUsername record (boxes_of structure))\<rparr>
                in bindE (protectDatastoreObject E accessBoxStructureObjectType (ab_AccessBoxStructureUUID accessBox)
                            (AccessBoxStructure_codec (e_uuid E)) structure'
                            (ne_AccessBoxStructureEncKey entry) (ne_AccessBoxStructureMACKey entry)) (\<lambda>protectedStructure.
                   returnE (record, [DSet (ne_AccessBoxStructureUUID entry) protectedStructure])))))) (\<lambda>(record, structureWrites).
     bindE (protectDatastoreObject E accessBoxObjectType (br_BoxUUID record) (AccessBox_codec (e_uuid E))
              accessBox (br_BoxEncKey record) (br_BoxMACKey record)) (\<lambda>protectedBranchBox.
     returnE (record, DSet (br_BoxUUID record) protectedBranchBox # structureWrites))))"

definition granted_box ::
  "'s env \<Rightarrow> op_context \<Rightarrow> NamespaceEntry \<Rightarrow> AccessBox \<Rightarrow> string \<Rightarrow> ('s, BranchBoxRecord \<times> store_write list) op" where
  "granted_box E ctx entry accessBox recipientUsername =
     (if ne_IsOwner entry then owner_branch_box E ctx entry accessBox recipientUsername
      else returnE (\<lparr>br_BoxUUID = ne_AccessBoxUUID entry, br_BoxEncKey = ne_AccessBoxEncKey entry,
                     br_BoxMACKey = ne_AccessBoxMACKey entry\<rparr>, []))"

definition invitation_payload ::
  "'s env \<Rightarrow> string \<Rightarrow> string \<Rightarrow> AccessBox \<Rightarrow> BranchBoxRecord \<Rightarrow> InvitationPayload" where
  "invitation_payload E sender recipientUsername accessBox box =
     \<lparr>ip_SenderIdentity = getInvitationIdentity E sender,
      ip_RecipientIdentity = getInvitationIdentity E recipientUsername,
      ip_FileID = ab_FileID accessBox, ip_AccessBoxUUID = br_BoxUUID box,
      ip_AccessBoxEncKey = br_BoxEncKey box, ip_AccessBoxMACKey = br_BoxMACKey box\<rparr>"

definition CreateInvitation :: "'s env \<Rightarrow> User \<Rightarrow> string \<Rightarrow> string \<Rightarrow> ('s, uuid) op" where
  "CreateInvitation E userdata filename recipientUsername =
     with_guard E (\<lambda>guard.
     bindE (liftE (namespaceResourceID E (Username userdata) filename)) (\<lambda>nsResource.
     bindE (acquire_lock E guard nsResource SharedLock) (\<lambda>_.
     bindE (loadNamespaceEntry E operationContext (Some userdata) filename) (\<lambda>entry.
     bindE (acquire_lock E guard (fileResourceID E (ne_FileID entry)) ExclusiveLock) (\<lambda>_.
     bindE (withFenceGrants E operationContext guard) (\<lambda>ctx.
     bindE (validateFileAccessUnderLock E ctx entry) (\<lambda>accessBox.
     bindE (keystoreGet E ctx (getPKEKeyName E recipientUsername)) (\<lambda>foundPKE.
     bindE (or_fail foundPKE ''recipient does not exist'') (\<lambda>recipientPKEKey.
     bindE (fail_if (KeyType recipientPKEKey \<noteq> ''PKE'') ''recipient does not exist'') (\<lambda>_.
     bindE (keystoreGet E ctx (getVerifyKeyName E recipientUsername)) (\<lambda>foundVerify.
     bindE (or_fail foundVerify ''recipient does not exist'') (\<lambda>recipientVerifyKey.
     bindE (fail_if (KeyType recipientVerifyKey \<noteq> ''DS'') ''recipient does not exist'') (\<lambda>_.
     bindE (new_uuid E) (\<lambda>invitationUUID.
     bindE (granted_box E ctx entry accessBox recipientUsername) (\<lambda>(box, boxWrites).
     bindE (buildInvitation E (Some userdata) recipientPKEKey invitationUUID
              (invitation_payload E (Username userdata) recipientUsername accessBox box)) (\<lambda>invitationBytes.
     bindE (runAtomicStorage E ctx (boxWrites @ [DSet invitationUUID invitationBytes])) (\<lambda>_.
     returnE invitationUUID)))))))))))))))))"

text \<open>The checks of \<open>openInvitation\<close> on the decrypted payload.\<close>

definition check_payload ::
  "'s env \<Rightarrow> User \<Rightarrow> string \<Rightarrow> InvitationPayload \<Rightarrow> ('s, InvitationPayload) op" where
  "check_payload E userdata senderUsername payload =
     bindE (fail_if (length (ip_SenderIdentity payload) \<noteq> HashSizeBytes \<or>
              \<not> HMACEqual (e_lib E) (ip_SenderIdentity payload) (getInvitationIdentity E senderUsername))
              ''invitation sender mismatch'') (\<lambda>_.
     bindE (fail_if (length (ip_RecipientIdentity payload) \<noteq> HashSizeBytes \<or>
              \<not> HMACEqual (e_lib E) (ip_RecipientIdentity payload) (getInvitationIdentity E (Username userdata)))
              ''invitation recipient mismatch'') (\<lambda>_.
     bindE (fail_if (ip_FileID payload = uuid_Nil) ''invalid invitation FileID'') (\<lambda>_.
     bindE (fail_if (ip_AccessBoxUUID payload = uuid_Nil) ''invalid invitation AccessBox UUID'') (\<lambda>_.
     bindE (fail_if (length (ip_AccessBoxEncKey payload) \<noteq> symmetricKeySize \<or>
                     length (ip_AccessBoxMACKey payload) \<noteq> symmetricKeySize)
              ''invalid invitation AccessBox keys'') (\<lambda>_.
     returnE payload)))))"

text \<open>The signed, authenticated and encrypted body of an invitation.\<close>

definition open_body ::
  "'s env \<Rightarrow> User \<Rightarrow> PublicKeyType \<Rightarrow> uuid \<Rightarrow> Invitation \<Rightarrow> ('s, InvitationPayload) op" where
  "open_body E userdata senderVerifyKey invitationPtr invitation =
     bindE (fail_if (DSVerify (e_lib E) senderVerifyKey (getInvitationSignatureMessage E invitationPtr
                \<lparr>sf_WrappedRoot = iv_WrappedRoot invitation, sf_Ciphertext = iv_Ciphertext invitation,
                 sf_MAC = iv_MAC invitation\<rparr>) (iv_Signature invitation) \<noteq> None)
              ''invalid invitation signature'') (\<lambda>_.
     bindE (case PKEDec (e_lib E) (PKEPrivate userdata) (iv_WrappedRoot invitation) of
              Inl _ \<Rightarrow> raiseE (ErrorMsg ''cannot decrypt invitation root'')
            | Inr r \<Rightarrow> returnE r) (\<lambda>inviteRoot.
     bindE (fail_if (length inviteRoot \<noteq> symmetricKeySize) ''invalid invitation root'') (\<lambda>_.
     bindE (liftE (deriveInvitationKeys E inviteRoot invitationPtr)) (\<lambda>(invitationEncKey, invitationMACKey).
     bindE (fail_if (length (iv_MAC invitation) \<noteq> HashSizeBytes) ''invalid invitation MAC length'') (\<lambda>_.
     bindE (liftE (HMACEval (e_lib E) invitationMACKey
              (getInvitationMACMessage E invitationPtr (iv_Ciphertext invitation)))) (\<lambda>expectedMAC.
     bindE (fail_if (\<not> HMACEqual (e_lib E) expectedMAC (iv_MAC invitation)) ''invitation authentication failed'') (\<lambda>_.
     bindE (fail_if (length (iv_Ciphertext invitation) < AESBlockSizeBytes) ''invitation ciphertext is too short'') (\<lambda>_.
     or_fail (json_Unmarshal (InvitationPayload_codec (e_uuid E))
               (SymDec (e_lib E) invitationEncKey (iv_Ciphertext invitation)) zero_InvitationPayload)
       ''invalid invitation payload''))))))))"

definition openInvitation ::
  "'s env \<Rightarrow> op_context \<Rightarrow> User option \<Rightarrow> string \<Rightarrow> uuid \<Rightarrow> ('s, InvitationPayload) op" where
  "openInvitation E ctx userdata senderUsername invitationPtr =
     bindE (or_fail userdata ''recipient cannot be nil'') (\<lambda>userdata.
     bindE (fail_if (invitationPtr = uuid_Nil) ''invitation UUID cannot be nil'') (\<lambda>_.
     bindE (datastoreGet E ctx invitationPtr) (\<lambda>found.
     bindE (or_fail found ''invitation is missing'') (\<lambda>invitationBytes.
     bindE (or_fail (json_Unmarshal Invitation_codec invitationBytes zero_Invitation) ''invalid invitation'') (\<lambda>invitation.
     bindE (keystoreGet E ctx (getVerifyKeyName E senderUsername)) (\<lambda>foundKey.
     bindE (or_fail foundKey ''sender does not exist'') (\<lambda>senderVerifyKey.
     bindE (fail_if (KeyType senderVerifyKey \<noteq> ''DS'') ''sender does not exist'') (\<lambda>_.
     bindE (open_body E userdata senderVerifyKey invitationPtr invitation) (\<lambda>payload.
     check_payload E userdata senderUsername payload)))))))))"

definition shared_entry :: "InvitationPayload \<Rightarrow> NamespaceEntry" where
  "shared_entry payload =
     \<lparr>ne_IsOwner = False, ne_FileID = ip_FileID payload, ne_AccessBoxUUID = ip_AccessBoxUUID payload,
      ne_AccessBoxEncKey = ip_AccessBoxEncKey payload, ne_AccessBoxMACKey = ip_AccessBoxMACKey payload,
      ne_AccessBoxStructureUUID = uuid_Nil, ne_AccessBoxStructureEncKey = [],
      ne_AccessBoxStructureMACKey = []\<rparr>"

definition AcceptInvitation :: "'s env \<Rightarrow> User option \<Rightarrow> string \<Rightarrow> uuid \<Rightarrow> string \<Rightarrow> ('s, unit) op" where
  "AcceptInvitation E receiver senderUsername invitationPtr filename =
     bindE (or_fail receiver ''recipient cannot be nil'') (\<lambda>userdata.
     with_guard E (\<lambda>guard.
     bindE (liftE (namespaceResourceID E (Username userdata) filename)) (\<lambda>nsResource.
     bindE (acquire_lock E guard nsResource ExclusiveLock) (\<lambda>_.
     bindE (withFenceGrants E operationContext guard) (\<lambda>ctx.
     bindE (liftE (getNameSpaceEntryUUID E (Username userdata) filename)) (\<lambda>nameUUID.
     bindE (datastoreGet E ctx nameUUID) (\<lambda>occupied.
     bindE (fail_if (occupied \<noteq> None) ''filename is already in use'') (\<lambda>_.
     bindE (liftE (deriveNamespaceEntryKeys E (NamespaceRoot userdata) filename)) (\<lambda>(namespaceEncKey, namespaceMACKey).
     bindE (openInvitation E ctx (Some userdata) senderUsername invitationPtr) (\<lambda>payload.
     bindE (acquire_lock E guard (fileResourceID E (ip_FileID payload)) SharedLock) (\<lambda>_.
     bindE (validateInvitationAccessUnderLock E ctx payload) (\<lambda>_.
     bindE (protectDatastoreObject E namespaceEntryObjectType nameUUID (NamespaceEntry_codec (e_uuid E))
              (shared_entry payload) namespaceEncKey namespaceMACKey) (\<lambda>protectedNamespaceEntry.
     runAtomicStorage E ctx [DSet nameUUID protectedNamespaceEntry, DDelete invitationPtr])))))))))))))"

section \<open>Revocation\<close>

text \<open>
  The new epoch of a file: fresh epoch, root and metadata keys, the whole content in one chunk
  under the new root, the metadata with the version it had, and the new access box.
\<close>

definition rotate_file ::
  "'s env \<Rightarrow> AccessBox \<Rightarrow> Metadata \<Rightarrow> bytes \<Rightarrow> ('s, AccessBox \<times> store_write list) op" where
  "rotate_file E current metadata fileContent =
     bindE (new_uuid E) (\<lambda>newEpochID.
     bindE (random_bytes E symmetricKeySize) (\<lambda>newFileRoot.
     bindE (new_uuid E) (\<lambda>newMetadataUUID.
     bindE (random_bytes E symmetricKeySize) (\<lambda>newMetadataEncKey.
     bindE (random_bytes E symmetricKeySize) (\<lambda>newMetadataMACKey.
     bindE (new_uuid E) (\<lambda>newBaseChunkUUID.
     bindE (liftE (deriveChunkKeys E newFileRoot newBaseChunkUUID)) (\<lambda>(newChunkEncKey, newChunkMACKey).
     bindE (protectDatastoreObject E chunkObjectType newBaseChunkUUID (Chunk_codec (e_uuid E))
              (base_chunk (ab_FileID current) newEpochID fileContent) newChunkEncKey newChunkMACKey) (\<lambda>protectedNewChunk.
     bindE (protectDatastoreObject E metadataObjectType newMetadataUUID (Metadata_codec (e_uuid E))
              \<lparr>md_FileID = ab_FileID current, md_EpochID = newEpochID, md_Version = md_Version metadata,
               md_TailUUID = newBaseChunkUUID, md_ChunkCount = 1\<rparr> newMetadataEncKey newMetadataMACKey) (\<lambda>protectedNewMetadata.
     returnE (current\<lparr>ab_EpochID := newEpochID, ab_MetadataUUID := newMetadataUUID,
                ab_MetadataEncKey := newMetadataEncKey, ab_MetadataMACKey := newMetadataMACKey,
                ab_FileRoot := newFileRoot\<rparr>,
              [DSet newBaseChunkUUID protectedNewChunk, DSet newMetadataUUID protectedNewMetadata]))))))))))"

text \<open>The branch boxes of the recipients that keep their access, in the order of the range loop.\<close>

fun surviving_writes ::
  "'s env \<Rightarrow> AccessBox \<Rightarrow> (string \<times> BranchBoxRecord) list \<Rightarrow> string \<Rightarrow> string list \<Rightarrow> ('s, store_write list) op" where
  "surviving_writes E newAccessBox boxes recipientUsername [] = returnE []"
| "surviving_writes E newAccessBox boxes recipientUsername (directRecipient # rest) =
     (if directRecipient = recipientUsername then surviving_writes E newAccessBox boxes recipientUsername rest
      else case map_of boxes directRecipient of
        None \<Rightarrow> surviving_writes E newAccessBox boxes recipientUsername rest
      | Some record \<Rightarrow>
          bindE (protectDatastoreObject E accessBoxObjectType (br_BoxUUID record) (AccessBox_codec (e_uuid E))
                   newAccessBox (br_BoxEncKey record) (br_BoxMACKey record)) (\<lambda>protectedBranchBox.
          bindE (surviving_writes E newAccessBox boxes recipientUsername rest) (\<lambda>writes.
          returnE (DSet (br_BoxUUID record) protectedBranchBox # writes))))"

definition range_order :: "'s env \<Rightarrow> string list \<Rightarrow> ('s, string list) op" where
  "range_order E ks = draw (\<lambda>d. e_order E d ks)"

definition revoke_writes ::
  "'s env \<Rightarrow> User \<Rightarrow> NamespaceEntry \<Rightarrow> AccessBox \<Rightarrow> AccessBoxStructure \<Rightarrow> string \<Rightarrow> BranchBoxRecord
   \<Rightarrow> uuid list \<Rightarrow> AccessBox \<times> store_write list \<Rightarrow> ('s, store_write list) op" where
  "revoke_writes E userdata entry current structure recipientUsername revokedRecord oldChunkUUIDs rotated =
     (case rotated of (newAccessBox, fileWrites) \<Rightarrow>
     bindE (protectDatastoreObject E accessBoxObjectType (ne_AccessBoxUUID entry) (AccessBox_codec (e_uuid E))
              newAccessBox (ne_AccessBoxEncKey entry) (ne_AccessBoxMACKey entry)) (\<lambda>protectedOwnerAccessBox.
     bindE (range_order E (map fst (boxes_of structure))) (\<lambda>order.
     bindE (surviving_writes E newAccessBox (boxes_of structure) recipientUsername order) (\<lambda>survivingWrites.
     bindE (protectDatastoreObject E accessBoxStructureObjectType (ne_AccessBoxStructureUUID entry)
              (AccessBoxStructure_codec (e_uuid E))
              (structure\<lparr>as_RecipientBoxes := Some (AList.delete recipientUsername (boxes_of structure)),
                 as_CurrentEpoch := ab_EpochID newAccessBox\<rparr>)
              (ne_AccessBoxStructureEncKey entry) (ne_AccessBoxStructureMACKey entry)) (\<lambda>protectedUpdatedStructure.
     bindE (createFileStatus E userdata (ab_StatusUUID current) newAccessBox) (\<lambda>newFileStatus.
     returnE
       (fileWrites @ [DSet (ne_AccessBoxUUID entry) protectedOwnerAccessBox] @ survivingWrites @
        [DSet (ne_AccessBoxStructureUUID entry) protectedUpdatedStructure,
         DSet (ab_StatusUUID current) (json_Marshal (FileStatus_codec (e_uuid E)) newFileStatus),
         DDelete (br_BoxUUID revokedRecord), DDelete (ab_MetadataUUID current)] @
        map DDelete oldChunkUUIDs)))))))"

definition RevokeAccess :: "'s env \<Rightarrow> User \<Rightarrow> string \<Rightarrow> string \<Rightarrow> ('s, unit) op" where
  "RevokeAccess E userdata filename recipientUsername =
     with_guard E (\<lambda>guard.
     bindE (liftE (namespaceResourceID E (Username userdata) filename)) (\<lambda>nsResource.
     bindE (acquire_lock E guard nsResource SharedLock) (\<lambda>_.
     bindE (loadNamespaceEntry E operationContext (Some userdata) filename) (\<lambda>entry.
     bindE (fail_if (\<not> ne_IsOwner entry) ''only the file owner can revoke access'') (\<lambda>_.
     bindE (acquire_lock E guard (fileResourceID E (ne_FileID entry)) ExclusiveLock) (\<lambda>_.
     bindE (withFenceGrants E operationContext guard) (\<lambda>ctx.
     bindE (validateFileAccessUnderLock E ctx entry) (\<lambda>currentAccessBox.
     bindE (loadOwnerAccessBoxStructure E ctx entry currentAccessBox) (\<lambda>structure.
     bindE (or_fail (map_of (boxes_of structure) recipientUsername) ''recipient is not a direct share'') (\<lambda>revokedRecord.
     bindE (loadMetadata E ctx currentAccessBox) (\<lambda>metadata.
     bindE (loadFileContentAndChunkUUIDs E ctx currentAccessBox metadata) (\<lambda>(fileContent, oldChunkUUIDs).
     bindE (rotate_file E currentAccessBox metadata fileContent) (\<lambda>rotated.
     bindE (revoke_writes E userdata entry currentAccessBox structure recipientUsername revokedRecord
              oldChunkUUIDs rotated) (\<lambda>ws.
     runAtomicStorage E ctx ws))))))))))))))"

section \<open>The authorization check of the benchmarks\<close>

text \<open>The empty string means that every check passed; a failed read is part of the report.\<close>

definition report :: "('s, 'a) op \<Rightarrow> string \<Rightarrow> ('a \<Rightarrow> ('s, string) op) \<Rightarrow> ('s, string) op" where
  "report m prefix f w =
     (case m w of
        None \<Rightarrow> None
      | Some (Inl e, w') \<Rightarrow> Some (Inr (prefix @ err_Error e), w')
      | Some (Inr x, w') \<Rightarrow> f x w')"

fun check_branches :: "'s env \<Rightarrow> op_context \<Rightarrow> AccessBoxStructure \<Rightarrow> string list \<Rightarrow> ('s, string) op" where
  "check_branches E ctx structure [] = returnE []"
| "check_branches E ctx structure (recipient # rest) =
     (case map_of (boxes_of structure) recipient of
        None \<Rightarrow> check_branches E ctx structure rest
      | Some record \<Rightarrow>
          report (loadDatastoreObject E ctx accessBoxObjectType (br_BoxUUID record) (br_BoxEncKey record)
                    (br_BoxMACKey record) (AccessBox_codec (e_uuid E)) zero_AccessBox)
            (''recipient '' @ recipient @ '' branch AccessBox: '') (\<lambda>branchBox.
          if ab_EpochID branchBox \<noteq> as_CurrentEpoch structure
          then returnE (''recipient '' @ recipient @ '' branch AccessBox is stamped with a stale epoch'')
          else check_branches E ctx structure rest))"

definition CheckAuthorizationInvariantsForBenchmark :: "'s env \<Rightarrow> User \<Rightarrow> string \<Rightarrow> uint64 \<Rightarrow> ('s, string) op" where
  "CheckAuthorizationInvariantsForBenchmark E owner filename expectedVersion =
     (let ctx = operationContext in
      report (resolveFile E ctx (Some owner) filename) ''resolveFile: '' (\<lambda>(entry, accessBox).
      if \<not> ne_IsOwner entry then returnE ''caller is not the owner''
      else report (loadOwnerAccessBoxStructure E ctx entry accessBox) ''loadOwnerAccessBoxStructure: '' (\<lambda>structure.
      if as_CurrentEpoch structure \<noteq> ab_EpochID accessBox
      then returnE ''AccessBoxStructure.CurrentEpoch does not match owner AccessBox.EpochID''
      else report (loadMetadata E ctx accessBox) ''loadMetadata: '' (\<lambda>metadata.
      if md_EpochID metadata \<noteq> ab_EpochID accessBox
      then returnE ''Metadata.EpochID does not match the current epoch''
      else if md_Version metadata \<noteq> expectedVersion
      then returnE (''Metadata.Version = '' @ itoa (unat (md_Version metadata)) @ '', expected '' @ itoa (unat expectedVersion))
      else bindE (range_order E (map fst (boxes_of structure))) (\<lambda>order.
           check_branches E ctx structure order)))))"

end
