(* ===== verification/Client_Ideal.thy ===== *)
theory Client_Ideal
  imports Client_Share
begin

text \<open>
  The client over an ideal store: the objects and public keys are two maps, reads never fail, a
  group of writes is applied at once, and locks are not needed because nobody else runs. This is
  the specification level: what an operation does to the two maps. The theory executes the
  operations there symbolically, and describes a stored file as a predicate on the maps.
\<close>

section \<open>The ideal store\<close>

definition ideal_storage :: "store_view Storage" where
  "ideal_storage = \<lparr>
     Objects_Get = (\<lambda>c i v. (Inr (fst v i), v)),
     Objects_Put = (\<lambda>c i b v. (None, apply_write (DSet i b) v)),
     Objects_Delete = (\<lambda>c i v. (None, apply_write (DDelete i) v)),
     Keys_Get = (\<lambda>c n v. (Inr (snd v n), v)),
     Keys_Put = (\<lambda>c n k v. if snd v n = None then (None, apply_write (KSet n k) v)
                           else (Some (ErrorMsg ''that entry in the Keystore has been taken''), v)),
     Atomic = Some (\<lambda>c f v. case f c v of (None, v') \<Rightarrow> (None, v') | (Some e, v') \<Rightarrow> (Some e, v))\<rparr>"

definition ideal_env :: "store_view env \<Rightarrow> bool" where
  "ideal_env E \<longleftrightarrow> e_storage E = ideal_storage \<and> e_strategy E = StrategyNoCC \<and>
     lib_ok (e_lib E) \<and> uuid_ok (e_uuid E)"

lemma ideal_envD:
  assumes "ideal_env E"
  shows "e_storage E = ideal_storage" "e_strategy E = StrategyNoCC" "lib_ok (e_lib E)" "uuid_ok (e_uuid E)"
  using assms by (simp_all add: ideal_env_def)

lemma do_write_ideal:
  "do_write ideal_storage c w v = (if can_write w v then (None, apply_write w v)
     else (Some (ErrorMsg ''that entry in the Keystore has been taken''), v))"
  by (cases w; cases v) (simp_all add: ideal_storage_def)

lemma do_writes_ideal:
  "can_writes ws v \<Longrightarrow> do_writes ideal_storage ws c v = (None, apply_writes ws v)"
  "\<not> can_writes ws v \<Longrightarrow> \<exists>e v'. do_writes ideal_storage ws c v = (Some e, v')"
  by (induction ws arbitrary: v) (auto simp: do_write_ideal)

section \<open>Executing\<close>

named_theorems exec \<open>one step of an operation\<close>

lemma bindE_simps [exec]:
  "bindE (fail_if b msg) f1 w = (if b then Some (Inl (ErrorMsg msg), w) else f1 () w)"
  "bindE (liftE r) f2 w = (case r of Inl e \<Rightarrow> Some (Inl e, w) | Inr x \<Rightarrow> f2 x w)"
  "bindE (draw g) f3 w = f3 (g (w_draws w)) (w\<lparr>w_draws := Suc (w_draws w)\<rparr>)"
  "bindE (draw_err h) f4 w =
     (case h (w_draws w) of Inl e \<Rightarrow> Some (Inl e, w\<lparr>w_draws := Suc (w_draws w)\<rparr>)
      | Inr x \<Rightarrow> f4 x (w\<lparr>w_draws := Suc (w_draws w)\<rparr>))"
  "bindE (or_fail v msg) f5 w = (case v of None \<Rightarrow> Some (Inl (ErrorMsg msg), w) | Some x \<Rightarrow> f5 x w)"
  "bindE (raiseE e) f6 w = Some (Inl e, w)"
  "returnE y w = Some (Inr y, w)"
  "raiseE e' w = Some (Inl e', w)"
  by (simp_all add: bindE_def fail_if_def liftE_def draw_def draw_err_def or_fail_def raiseE_def returnE_def
      split: option.split sum.split)

lemma bindE_run: "m w = Some (Inr x, w') \<Longrightarrow> bindE m f w = f x w'"
  and bindE_err: "m w = Some (Inl e, w') \<Longrightarrow> bindE m f w = Some (Inl e, w')"
  by (simp_all add: bindE_def)

lemma last_simps [exec]:
  "fail_if b msg w = (if b then Some (Inl (ErrorMsg msg), w) else Some (Inr (), w))"
  "or_fail v msg w = (case v of None \<Rightarrow> Some (Inl (ErrorMsg msg), w) | Some x \<Rightarrow> Some (Inr x, w))"
  by (simp_all add: fail_if_def or_fail_def raiseE_def returnE_def split: option.split)

lemma ideal_get [exec]:
  assumes "ideal_env E"
  shows "datastoreGet E c i w = Some (Inr (fst (w_ext w) i), w)"
    "keystoreGet E c n w = Some (Inr (snd (w_ext w) n), w)"
    "bindE (datastoreGet E c i) f w = f (fst (w_ext w) i) w"
    "bindE (keystoreGet E c n) g w = g (snd (w_ext w) n) w"
  using assms
  by (simp_all add: datastoreGet_def keystoreGet_def on_ext_def ideal_env_def ideal_storage_def bindE_def)

lemma ideal_RunAtomic [exec]:
  assumes "ideal_env E" "can_writes ws (w_ext w)"
  shows "runAtomicStorage E c ws w = Some (Inr (), w\<lparr>w_ext := apply_writes ws (w_ext w)\<rparr>)"
    "bindE (runAtomicStorage E c ws) f w = f () (w\<lparr>w_ext := apply_writes ws (w_ext w)\<rparr>)"
proof -
  have "storage_RunAtomic c ideal_storage (do_writes ideal_storage ws) (w_ext w) =
      (None, apply_writes ws (w_ext w))"
    using do_writes_ideal(1) [OF assms(2), of c]
    by (simp add: storage_RunAtomic_def) (simp add: ideal_storage_def)
  then show "runAtomicStorage E c ws w = Some (Inr (), w\<lparr>w_ext := apply_writes ws (w_ext w)\<rparr>)"
    using assms(1) by (simp add: runAtomicStorage_def on_ext_err_def on_ext_def ideal_env_def)
  then show "bindE (runAtomicStorage E c ws) f w = f () (w\<lparr>w_ext := apply_writes ws (w_ext w)\<rparr>)"
    by (simp add: bindE_def)
qed

text \<open>Without coordination a guard does nothing; the operation only counts its transaction.\<close>

lemma with_guard_ideal [exec]:
  assumes "ideal_env E" "w_txnIDs w \<noteq> - 1"
  shows "with_guard E body w = body NoCCGuard (w\<lparr>w_txnIDs := w_txnIDs w + 1\<rparr>)"
  using assms
  by (simp add: with_guard_def newOperationGuard_def ideal_env_def bindE_def allocateTxnID_def deferE_def
      returnE_def option.map_id0)

lemma no_lock [exec]:
  "bindE (acquire_lock E NoCCGuard r m) f = f ()" "bindE (acquire_lock_ctx E c NoCCGuard r m) f = f ()"
  by simp_all

lemma no_grants [exec]:
  "bindE (withFenceGrants E c NoCCGuard) f w =
     f (if e_disableFenceValidation E then WithoutValidationForTest c else c) w"
  by (simp add: withFenceGrants_def bindE_def WithGrants_def)

section \<open>Sealed objects\<close>

text \<open>
  \<open>sealed E objs ty i c x ek mk\<close>: under the identifier \<open>i\<close> the store has an envelope for an
  object of type \<open>ty\<close> that the MAC key \<open>mk\<close> authenticates and the key \<open>ek\<close> decrypts to \<open>x\<close>.
\<close>

definition sealed ::
  "'s env \<Rightarrow> objects \<Rightarrow> string \<Rightarrow> uuid \<Rightarrow> 'o codec \<Rightarrow> 'o \<Rightarrow> bytes \<Rightarrow> bytes \<Rightarrow> bool" where
  "sealed E objs ty i c x ek mk \<longleftrightarrow>
     i \<noteq> uuid_Nil \<and> length ek = symmetricKeySize \<and> length mk = symmetricKeySize \<and>
     (\<exists>ct mac. objs i = Some (json_Marshal Envelope_codec \<lparr>en_Ciphertext = ct, en_MAC = mac\<rparr>) \<and>
        HMACEval (e_lib E) mk (datastoreObjectMACMessage E ty i ct) = Inr mac \<and>
        length mac = HashSizeBytes \<and> AESBlockSizeBytes \<le> length ct \<and>
        SymDec (e_lib E) ek ct = json_Marshal c x)"

lemma sealed_cong: "objs' i = objs i \<Longrightarrow> sealed E objs' ty i c x ek mk = sealed E objs ty i c x ek mk"
  by (simp add: sealed_def)

definition seal ::
  "'s env \<Rightarrow> string \<Rightarrow> uuid \<Rightarrow> 'o codec \<Rightarrow> 'o \<Rightarrow> bytes \<Rightarrow> bytes \<Rightarrow> nat \<Rightarrow> bytes" where
  "seal E ty i c x ek mk d =
     (let ct = SymEnc (e_lib E) ek (RandomBytes (e_lib E) d AESBlockSizeBytes) (json_Marshal c x)
      in json_Marshal Envelope_codec \<lparr>en_Ciphertext = ct,
           en_MAC = projr (HMACEval (e_lib E) mk (datastoreObjectMACMessage E ty i ct))\<rparr>)"

lemma sealed_seal:
  assumes "lib_ok (e_lib E)" "objs i = Some (seal E ty i c x ek mk d)" "i \<noteq> uuid_Nil"
    "length ek = symmetricKeySize" "length mk = symmetricKeySize"
  shows "sealed E objs ty i c x ek mk"
proof -
  let ?ct = "SymEnc (e_lib E) ek (RandomBytes (e_lib E) d AESBlockSizeBytes) (json_Marshal c x)"
  obtain mac where mac: "HMACEval (e_lib E) mk (datastoreObjectMACMessage E ty i ?ct) = Inr mac"
      "length mac = HashSizeBytes"
    using lib_okD(6) [OF assms(1), of mk] assms(5) by (auto simp: symmetricKeySize_def)
  have iv: "length (RandomBytes (e_lib E) d AESBlockSizeBytes) = AESBlockSizeBytes"
    by (rule lib_okD(8) [OF assms(1)])
  have k: "length ek = 16" using assms(4) by (simp add: symmetricKeySize_def)
  show ?thesis
    using assms mac lib_okD(4,5) [OF assms(1) k iv]
    by (auto simp: sealed_def seal_def)
qed

lemma protect_ideal [exec]:
  assumes "lib_ok (e_lib E)" "ty \<noteq> []" "i \<noteq> uuid_Nil" "length ek = symmetricKeySize" "length mk = symmetricKeySize"
  shows "protectDatastoreObject E ty i c x ek mk w =
      Some (Inr (seal E ty i c x ek mk (w_draws w)), w\<lparr>w_draws := Suc (w_draws w)\<rparr>)"
    "bindE (protectDatastoreObject E ty i c x ek mk) f w =
      f (seal E ty i c x ek mk (w_draws w)) (w\<lparr>w_draws := Suc (w_draws w)\<rparr>)"
proof -
  let ?ct = "SymEnc (e_lib E) ek (RandomBytes (e_lib E) (w_draws w) AESBlockSizeBytes) (json_Marshal c x)"
  obtain mac where mac: "HMACEval (e_lib E) mk (datastoreObjectMACMessage E ty i ?ct) = Inr mac"
    using lib_okD(6) [OF assms(1), of mk] assms(5) by (auto simp: symmetricKeySize_def)
  then show *: "protectDatastoreObject E ty i c x ek mk w =
      Some (Inr (seal E ty i c x ek mk (w_draws w)), w\<lparr>w_draws := Suc (w_draws w)\<rparr>)"
    using assms by (simp add: protectDatastoreObject_def exec Let_def seal_def)
  show "bindE (protectDatastoreObject E ty i c x ek mk) f w =
      f (seal E ty i c x ek mk (w_draws w)) (w\<lparr>w_draws := Suc (w_draws w)\<rparr>)"
    using * by (simp add: bindE_def)
qed

lemma load_sealed:
  assumes "ideal_env E" "sealed E (fst (w_ext w)) ty i c x ek mk" "ty \<noteq> []"
    "json_Unmarshal c (json_Marshal c x) z = Some y"
  shows "loadDatastoreObject E ctx ty i ek mk c z w = Some (Inr y, w)"
proof -
  from assms(2) obtain ct mac where s: "i \<noteq> uuid_Nil" "length ek = symmetricKeySize" "length mk = symmetricKeySize"
      "fst (w_ext w) i = Some (json_Marshal Envelope_codec \<lparr>en_Ciphertext = ct, en_MAC = mac\<rparr>)"
      "HMACEval (e_lib E) mk (datastoreObjectMACMessage E ty i ct) = Inr mac"
      "length mac = HashSizeBytes" "AESBlockSizeBytes \<le> length ct" "SymDec (e_lib E) ek ct = json_Marshal c x"
    by (auto simp: sealed_def)
  show ?thesis
    using s assms(3,4) lib_okD(7) [OF ideal_envD(3) [OF assms(1)]]
    by (simp add: loadDatastoreObject_def exec assms(1))
qed

lemma load_missing:
  assumes "ideal_env E" "fst (w_ext w) i = None" "ty \<noteq> []" "i \<noteq> uuid_Nil"
    "length ek = symmetricKeySize" "length mk = symmetricKeySize"
  shows "loadDatastoreObject E ctx ty i ek mk c z w =
      Some (Inl (ErrorMsg ''required datastore object is missing''), w)"
  using assms by (simp add: loadDatastoreObject_def exec)

lemma object_types [simp]:
  "namespaceEntryObjectType \<noteq> []" "accessBoxObjectType \<noteq> []" "accessBoxStructureObjectType \<noteq> []"
  "metadataObjectType \<noteq> []" "chunkObjectType \<noteq> []"
  by (simp_all add: namespaceEntryObjectType_def accessBoxObjectType_def accessBoxStructureObjectType_def
      metadataObjectType_def chunkObjectType_def)

section \<open>Derived keys and names\<close>

lemma derive_pair_ok:
  assumes "lib_ok (e_lib E)" "length root = symmetricKeySize"
  obtains ek mk where "derive_pair E root msg p q = Inr (ek, mk)"
    "length ek = symmetricKeySize" "length mk = symmetricKeySize"
proof -
  from assms obtain r1 r2 where "HashKDF (e_lib E) root p = Inr r1" "length r1 = HashSizeBytes"
      "HashKDF (e_lib E) root q = Inr r2" "length r2 = HashSizeBytes"
    using lib_okD(3) [OF assms(1), of root] by (metis symmetricKeySize_def)
  then show thesis using assms(2) that [of "take 16 r1" "take 16 r2"]
    by (simp add: derive_pair_def symmetricKeySize_def HashSizeBytes_def)
qed

lemma derive_pair_length:
  assumes "lib_ok (e_lib E)" "derive_pair E root msg p q = Inr (ek, mk)"
  shows "length root = symmetricKeySize" "length ek = symmetricKeySize" "length mk = symmetricKeySize"
proof -
  show r: "length root = symmetricKeySize" using assms(2) by (auto simp: derive_pair_def split: if_splits)
  show "length ek = symmetricKeySize" "length mk = symmetricKeySize"
    using derive_pair_ok [OF assms(1) r, of msg p q] assms(2) by auto
qed

lemma hash_uuid:
  assumes "lib_ok (e_lib E)" "uuid_ok (e_uuid E)"
  obtains u where "uuid_from (e_uuid E) (take 16 (Hash (e_lib E) b)) = Inr u"
proof -
  have "length (take 16 (Hash (e_lib E) b)) = 16"
    using lib_okD(1) [OF assms(1), of b] by (simp add: HashSizeBytes_def)
  then have "uuid_FromBytes (e_uuid E) (take 16 (Hash (e_lib E) b)) \<noteq> None"
    using assms(2) unfolding uuid_ok_def by blast
  then show thesis using that by (auto simp: uuid_from_def)
qed

lemma hex_ascii: "ascii (hex_EncodeToString b)"
proof -
  have "byte (hex_digit n) < 128" if "n < 16" for n
    using that by (auto simp: hex_digit_def)
  moreover have "byte c div 16 < 16" for c using nat_of_char_less_256 [of c] by linarith
  ultimately show ?thesis by (auto simp: hex_EncodeToString_def ascii_def list_all_iff)
qed

lemma key_name_valid [simp]: "valid_utf8 (publicKeyName E d u)"
  unfolding publicKeyName_def by (rule ascii_valid [OF hex_ascii])

lemma verify_name_valid [simp]: "valid_utf8 (getVerifyKeyName E u)"
  by (simp add: getVerifyKeyName_def)

end
