(* ===== verification/Client_Files.thy ===== *)
theory Client_Files
  imports Client_Ideal
begin

text \<open>
  A file as it is stored (\<open>file_at\<close>), and what the file operations do to it on the ideal store:
  loading returns the concatenated chunks, storing creates or replaces the content, appending
  extends it; every change advances the version by one.
\<close>

section \<open>A stored file\<close>

definition entry_at :: "'s env \<Rightarrow> objects \<Rightarrow> User \<Rightarrow> string \<Rightarrow> NamespaceEntry \<Rightarrow> bool" where
  "entry_at E objs u fn ne \<longleftrightarrow>
     (\<exists>nm ek mk. getNameSpaceEntryUUID E (Username u) fn = Inr nm \<and>
        deriveNamespaceEntryKeys E (NamespaceRoot u) fn = Inr (ek, mk) \<and>
        sealed E objs namespaceEntryObjectType nm (NamespaceEntry_codec (e_uuid E)) ne ek mk) \<and>
     ne_FileID ne \<noteq> uuid_Nil"

definition status_at :: "'s env \<Rightarrow> store_view \<Rightarrow> AccessBox \<Rightarrow> bool" where
  "status_at E V ab \<longleftrightarrow>
     (\<exists>st vk. fst V (ab_StatusUUID ab) = Some (json_Marshal (FileStatus_codec (e_uuid E)) st) \<and>
        snd V (ab_OwnerVerifyKeyName ab) = Some vk \<and> KeyType vk = ''DS'' \<and>
        DSVerify (e_lib E) vk (getFileStatusSignatureMessage E (ab_StatusUUID ab) (fs_Body st)) (fs_Signature st) = None \<and>
        fb_FileID (fs_Body st) = ab_FileID ab \<and> fb_EpochID (fs_Body st) = ab_EpochID ab \<and>
        fb_OwnerVerifyKeyName (fs_Body st) = ab_OwnerVerifyKeyName ab \<and>
        fb_CurrentAccessCommitment (fs_Body st) = getAccessBoxCommitment E ab)"

definition box_wf :: "AccessBox \<Rightarrow> bool" where
  "box_wf ab \<longleftrightarrow> ab_EpochID ab \<noteq> uuid_Nil \<and> ab_MetadataUUID ab \<noteq> uuid_Nil \<and>
     length (ab_MetadataEncKey ab) = symmetricKeySize \<and> length (ab_MetadataMACKey ab) = symmetricKeySize \<and>
     length (ab_FileRoot ab) = symmetricKeySize \<and> ab_AccessBoxStructureUUID ab \<noteq> uuid_Nil \<and>
     ab_StatusUUID ab \<noteq> uuid_Nil \<and> ab_OwnerVerifyKeyName ab \<noteq> [] \<and> valid_utf8 (ab_OwnerVerifyKeyName ab)"

definition box_sealed :: "'s env \<Rightarrow> objects \<Rightarrow> uuid \<Rightarrow> bytes \<Rightarrow> bytes \<Rightarrow> AccessBox \<Rightarrow> bool" where
  "box_sealed E objs i ek mk ab \<longleftrightarrow> sealed E objs accessBoxObjectType i (AccessBox_codec (e_uuid E)) ab ek mk"

definition box_at :: "'s env \<Rightarrow> store_view \<Rightarrow> NamespaceEntry \<Rightarrow> AccessBox \<Rightarrow> bool" where
  "box_at E V ne ab \<longleftrightarrow>
     box_sealed E (fst V) (ne_AccessBoxUUID ne) (ne_AccessBoxEncKey ne) (ne_AccessBoxMACKey ne) ab \<and>
     ab_FileID ab = ne_FileID ne \<and> box_wf ab \<and> status_at E V ab"

definition meta_at :: "'s env \<Rightarrow> objects \<Rightarrow> AccessBox \<Rightarrow> Metadata \<Rightarrow> bool" where
  "meta_at E objs ab md \<longleftrightarrow>
     sealed E objs metadataObjectType (ab_MetadataUUID ab) (Metadata_codec (e_uuid E)) md
       (ab_MetadataEncKey ab) (ab_MetadataMACKey ab) \<and>
     md_FileID md = ab_FileID ab \<and> md_EpochID md = ab_EpochID ab \<and> md_ChunkCount md \<noteq> 0 \<and>
     md_Version md \<noteq> 0 \<and> md_TailUUID md \<noteq> uuid_Nil"

definition chunk_at :: "'s env \<Rightarrow> objects \<Rightarrow> AccessBox \<Rightarrow> uuid \<Rightarrow> Chunk \<Rightarrow> bool" where
  "chunk_at E objs ab u ck \<longleftrightarrow>
     (\<exists>ek mk. deriveChunkKeys E (ab_FileRoot ab) u = Inr (ek, mk) \<and>
        sealed E objs chunkObjectType u (Chunk_codec (e_uuid E)) ck ek mk) \<and>
     ck_FileID ck = ab_FileID ab \<and> ck_EpochID ck = ab_EpochID ab"

text \<open>The chain of chunks from its tail: identifiers and contents, the tail first.\<close>

inductive chunk_chain ::
  "'s env \<Rightarrow> objects \<Rightarrow> AccessBox \<Rightarrow> nat \<Rightarrow> uuid \<Rightarrow> uuid list \<Rightarrow> bytes list \<Rightarrow> bool"
  for E objs ab where
  chain_end: "chunk_chain E objs ab 0 uuid_Nil [] []"
| chain_more: "chunk_at E objs ab u ck \<Longrightarrow> ck_Index ck = of_nat n \<Longrightarrow>
     (of_nat n = (0 :: uint64)) = (ck_PrevUUID ck = uuid_Nil) \<Longrightarrow> u \<notin> set us \<Longrightarrow>
     chunk_chain E objs ab n (ck_PrevUUID ck) us cs \<Longrightarrow>
     chunk_chain E objs ab (Suc n) u (u # us) (ck_Content ck # cs)"

inductive_simps chunk_chain_0 [simp]: "chunk_chain E objs ab 0 u us cs"
inductive_simps chunk_chain_Suc: "chunk_chain E objs ab (Suc n) u us cs"

definition file_at ::
  "'s env \<Rightarrow> store_view \<Rightarrow> User \<Rightarrow> string \<Rightarrow> NamespaceEntry \<Rightarrow> AccessBox \<Rightarrow> Metadata \<Rightarrow> uuid list \<Rightarrow> bytes list \<Rightarrow> bool" where
  "file_at E V u fn ne ab md us cs \<longleftrightarrow>
     entry_at E (fst V) u fn ne \<and> box_at E V ne ab \<and> meta_at E (fst V) ab md \<and>
     chunk_chain E (fst V) ab (unat (md_ChunkCount md)) (md_TailUUID md) us cs"

section \<open>Reading\<close>

lemma entry_keys:
  assumes "ideal_env E" "entry_at E objs u fn ne"
  obtains nm ek mk where "getNameSpaceEntryUUID E (Username u) fn = Inr nm"
    "deriveNamespaceEntryKeys E (NamespaceRoot u) fn = Inr (ek, mk)"
    "sealed E objs namespaceEntryObjectType nm (NamespaceEntry_codec (e_uuid E)) ne ek mk"
  using assms by (auto simp: entry_at_def)

lemma loadNamespaceEntry_ideal:
  assumes "ideal_env E" "entry_at E (fst (w_ext w)) u fn ne"
    "ne_AccessBoxUUID ne \<noteq> uuid_Nil" "length (ne_AccessBoxEncKey ne) = symmetricKeySize"
    "length (ne_AccessBoxMACKey ne) = symmetricKeySize"
  shows "loadNamespaceEntry E ctx (Some u) fn w = Some (Inr ne, w)"
proof -
  obtain nm ek mk where k: "getNameSpaceEntryUUID E (Username u) fn = Inr nm"
    "deriveNamespaceEntryKeys E (NamespaceRoot u) fn = Inr (ek, mk)"
    "sealed E (fst (w_ext w)) namespaceEntryObjectType nm (NamespaceEntry_codec (e_uuid E)) ne ek mk"
    using entry_keys [OF assms(1,2)] .
  have "loadDatastoreObject E ctx namespaceEntryObjectType nm ek mk (NamespaceEntry_codec (e_uuid E))
      zero_NamespaceEntry w = Some (Inr ne, w)"
    by (rule load_sealed [OF assms(1) k(3)]) (simp_all add: ideal_envD(4) [OF assms(1)])
  then show ?thesis
    using assms(2-) k by (simp add: loadNamespaceEntry_def exec bindE_run entry_at_def)
qed

lemma verifyFileStatus_ideal:
  assumes "ideal_env E" "status_at E (w_ext w) ab" "box_wf ab"
  shows "verifyFileStatus E ctx ab w = Some (Inr (), w)"
proof -
  obtain st vk where "fst (w_ext w) (ab_StatusUUID ab) = Some (json_Marshal (FileStatus_codec (e_uuid E)) st)"
    "snd (w_ext w) (ab_OwnerVerifyKeyName ab) = Some vk" "KeyType vk = ''DS''"
    "DSVerify (e_lib E) vk (getFileStatusSignatureMessage E (ab_StatusUUID ab) (fs_Body st)) (fs_Signature st) = None"
    "fb_FileID (fs_Body st) = ab_FileID ab" "fb_EpochID (fs_Body st) = ab_EpochID ab"
    "fb_OwnerVerifyKeyName (fs_Body st) = ab_OwnerVerifyKeyName ab"
    "fb_CurrentAccessCommitment (fs_Body st) = getAccessBoxCommitment E ab"
    using assms(2) by (auto simp: status_at_def)
  then show ?thesis
    using assms(1,3) lib_okD(7) [OF ideal_envD(3) [OF assms(1)]]
    by (simp add: verifyFileStatus_def exec ideal_envD(4) box_wf_def)
qed

lemma validateFileAccess_ideal:
  assumes "ideal_env E" "box_at E (w_ext w) ne ab"
  shows "validateFileAccessUnderLock E ctx ne w = Some (Inr ab, w)"
proof -
  from assms(2) have b: "sealed E (fst (w_ext w)) accessBoxObjectType (ne_AccessBoxUUID ne)
      (AccessBox_codec (e_uuid E)) ab (ne_AccessBoxEncKey ne) (ne_AccessBoxMACKey ne)"
    "ab_FileID ab = ne_FileID ne" "box_wf ab" "status_at E (w_ext w) ab"
    by (simp_all add: box_at_def box_sealed_def)
  have "loadDatastoreObject E ctx accessBoxObjectType (ne_AccessBoxUUID ne) (ne_AccessBoxEncKey ne)
      (ne_AccessBoxMACKey ne) (AccessBox_codec (e_uuid E)) zero_AccessBox w = Some (Inr ab, w)"
    using b(3) by (intro load_sealed [OF assms(1) b(1)]) (simp_all add: ideal_envD(4) [OF assms(1)] box_wf_def)
  then show ?thesis
    using b verifyFileStatus_ideal [OF assms(1) b(4,3), of ctx]
    by (simp add: validateFileAccessUnderLock_def exec bindE_run box_wf_def)
qed

lemma loadMetadata_ideal:
  assumes "ideal_env E" "meta_at E (fst (w_ext w)) ab md"
  shows "loadMetadata E ctx ab w = Some (Inr md, w)"
proof -
  have "loadDatastoreObject E ctx metadataObjectType (ab_MetadataUUID ab) (ab_MetadataEncKey ab)
      (ab_MetadataMACKey ab) (Metadata_codec (e_uuid E)) zero_Metadata w = Some (Inr md, w)"
    using assms(2) by (intro load_sealed [OF assms(1)]) (simp_all add: ideal_envD(4) [OF assms(1)] meta_at_def)
  then show ?thesis using assms(2) by (simp add: loadMetadata_def exec bindE_run meta_at_def)
qed

lemma load_chunk_ideal:
  assumes "ideal_env E" "chunk_at E (fst (w_ext w)) ab u ck"
  obtains ek mk where "deriveChunkKeys E (ab_FileRoot ab) u = Inr (ek, mk)" "u \<noteq> uuid_Nil"
    "loadDatastoreObject E ctx chunkObjectType u ek mk (Chunk_codec (e_uuid E)) zero_Chunk w = Some (Inr ck, w)"
proof -
  from assms(2) obtain ek mk where k: "deriveChunkKeys E (ab_FileRoot ab) u = Inr (ek, mk)"
      "sealed E (fst (w_ext w)) chunkObjectType u (Chunk_codec (e_uuid E)) ck ek mk"
    by (auto simp: chunk_at_def)
  have "loadDatastoreObject E ctx chunkObjectType u ek mk (Chunk_codec (e_uuid E)) zero_Chunk w = Some (Inr ck, w)"
    by (rule load_sealed [OF assms(1) k(2)]) (simp_all add: ideal_envD(4) [OF assms(1)])
  with k that show thesis by (auto simp: sealed_def)
qed

lemma load_chunks_ideal:
  assumes "ideal_env E" "chunk_chain E (fst (w_ext w)) ab n u us cs" "set us \<inter> set accU = {}"
  shows "load_chunks E ctx ab n u accC accU w = Some (Inr (accC @ cs, accU @ us), w)"
  using assms(2,3)
proof (induction arbitrary: accC accU rule: chunk_chain.induct)
  case chain_end
  then show ?case by (simp add: exec)
next
  case (chain_more u ck n us cs)
  obtain ek mk where k: "deriveChunkKeys E (ab_FileRoot ab) u = Inr (ek, mk)" "u \<noteq> uuid_Nil"
    "loadDatastoreObject E ctx chunkObjectType u ek mk (Chunk_codec (e_uuid E)) zero_Chunk w = Some (Inr ck, w)"
    using load_chunk_ideal [OF assms(1) chain_more(1)] .
  have "load_chunks E ctx ab n (ck_PrevUUID ck) (accC @ [ck_Content ck]) (accU @ [u]) w =
      Some (Inr ((accC @ [ck_Content ck]) @ cs, (accU @ [u]) @ us), w)"
    using chain_more.prems chain_more(4) by (intro chain_more.IH) auto
  with chain_more k show ?case by (simp add: exec bindE_run chunk_at_def Let_def)
qed

lemma loadContent_ideal:
  assumes "ideal_env E" "chunk_chain E (fst (w_ext w)) ab (unat (md_ChunkCount md)) (md_TailUUID md) us cs"
  shows "loadFileContentAndChunkUUIDs E ctx ab md w = Some (Inr (concat (rev cs), us), w)"
  using load_chunks_ideal [OF assms, of "[]" ctx "[]"]
  by (simp add: loadFileContentAndChunkUUIDs_def bindE_run exec)

lemma file_at_parts:
  assumes "file_at E V u fn ne ab md us cs"
  shows "entry_at E (fst V) u fn ne" "box_at E V ne ab" "meta_at E (fst V) ab md"
    "chunk_chain E (fst V) ab (unat (md_ChunkCount md)) (md_TailUUID md) us cs"
    "ne_AccessBoxUUID ne \<noteq> uuid_Nil" "length (ne_AccessBoxEncKey ne) = symmetricKeySize"
    "length (ne_AccessBoxMACKey ne) = symmetricKeySize"
  using assms by (simp_all add: file_at_def box_at_def box_sealed_def sealed_def)

definition bump :: "'s world \<Rightarrow> 's world" where
  "bump w = w\<lparr>w_txnIDs := w_txnIDs w + 1\<rparr>"

lemma bump_simps [simp]:
  "w_ext (bump w) = w_ext w" "w_draws (bump w) = w_draws w" "w_txnIDs (bump w) = w_txnIDs w + 1"
  by (simp_all add: bump_def)

lemma namespaceResource_ok:
  "getNameSpaceEntryUUID E n fn = Inr i \<Longrightarrow> \<exists>r. namespaceResourceID E n fn = Inr r"
  by (simp add: namespaceResourceID_def)

text \<open>The reads at the start of every operation on an existing file.\<close>

lemma file_reads:
  assumes "ideal_env E" "file_at E (w_ext w) u fn ne ab md us cs"
  shows "\<exists>r. namespaceResourceID E (Username u) fn = Inr r"
    "loadNamespaceEntry E ctx (Some u) fn w = Some (Inr ne, w)"
    "validateFileAccessUnderLock E ctx ne w = Some (Inr ab, w)"
    "loadMetadata E ctx ab w = Some (Inr md, w)"
    "loadFileContentAndChunkUUIDs E ctx ab md w = Some (Inr (concat (rev cs), us), w)"
proof -
  note p = file_at_parts [OF assms(2)]
  show "\<exists>r. namespaceResourceID E (Username u) fn = Inr r"
    using p(1) namespaceResource_ok by (auto simp: entry_at_def)
  show "loadNamespaceEntry E ctx (Some u) fn w = Some (Inr ne, w)"
    by (rule loadNamespaceEntry_ideal [OF assms(1) p(1,5,6,7)])
  show "validateFileAccessUnderLock E ctx ne w = Some (Inr ab, w)"
    by (rule validateFileAccess_ideal [OF assms(1) p(2)])
  show "loadMetadata E ctx ab w = Some (Inr md, w)" by (rule loadMetadata_ideal [OF assms(1) p(3)])
  show "loadFileContentAndChunkUUIDs E ctx ab md w = Some (Inr (concat (rev cs), us), w)"
    by (rule loadContent_ideal [OF assms(1) p(4)])
qed

lemma LoadFile_ideal:
  assumes "ideal_env E" "file_at E (w_ext w) u fn ne ab md us cs" "w_txnIDs w \<noteq> - 1"
  shows "LoadFileContext E u ctx fn w = Some (Inr (concat (rev cs)), bump w)"
proof -
  have f: "file_at E (w_ext (bump w)) u fn ne ab md us cs" using assms(2) by simp
  obtain r where r: "namespaceResourceID E (Username u) fn = Inr r" using file_reads(1) [OF assms(1) f] ..
  show ?thesis
    by (simp add: LoadFileContext_def exec assms(1,3) r bindE_run bump_def [symmetric]
        file_reads(2-) [OF assms(1) f])
qed

section \<open>Fresh identifiers\<close>

text \<open>
  The draws from \<open>d\<close> up to \<open>e\<close> give identifiers that are different from each other and not in
  use. (This is the assumption the program makes of random identifiers; it nowhere checks for a
  collision except against the chunks it is about to delete.) \<open>away\<close>: they do not hit \<open>i\<close> either.
\<close>

definition fresh_ids :: "'s env \<Rightarrow> objects \<Rightarrow> nat \<Rightarrow> nat \<Rightarrow> bool" where
  "fresh_ids E objs d e \<longleftrightarrow> inj_on (uuid_New (e_lib E)) {d ..< e} \<and>
     (\<forall>a \<in> {d ..< e}. objs (uuid_New (e_lib E) a) = None)"

definition away :: "'s env \<Rightarrow> nat \<Rightarrow> nat \<Rightarrow> uuid \<Rightarrow> bool" where
  "away E d e i \<longleftrightarrow> i \<notin> uuid_New (e_lib E) ` {d ..< e}"

lemma awayD:
  "away E d e i \<Longrightarrow> d \<le> a \<Longrightarrow> a < e \<Longrightarrow> uuid_New (e_lib E) a \<noteq> i"
  "away E d e i \<Longrightarrow> d \<le> a \<Longrightarrow> a < e \<Longrightarrow> i \<noteq> uuid_New (e_lib E) a"
  by (auto simp: away_def)

lemma away_mono: "away E d e i \<Longrightarrow> d \<le> d' \<Longrightarrow> e' \<le> e \<Longrightarrow> away E d' e' i"
  by (auto simp: away_def)

lemma fresh_ids_eq:
  "fresh_ids E objs d e \<Longrightarrow> d \<le> a \<Longrightarrow> a < e \<Longrightarrow> d \<le> b \<Longrightarrow> b < e \<Longrightarrow>
     uuid_New (e_lib E) a = uuid_New (e_lib E) b \<longleftrightarrow> a = b"
  by (auto simp: fresh_ids_def inj_on_def)

lemma fresh_ids_unused: "fresh_ids E objs d e \<Longrightarrow> d \<le> a \<Longrightarrow> a < e \<Longrightarrow> objs (uuid_New (e_lib E) a) = None"
  by (simp add: fresh_ids_def)

lemma fresh_ids_away: "fresh_ids E objs d e \<Longrightarrow> objs i \<noteq> None \<Longrightarrow> away E d e i"
  by (auto simp: fresh_ids_def away_def)

lemma fresh_ids_drawn:
  "fresh_ids E objs d e \<Longrightarrow> d' \<le> e \<Longrightarrow> i \<in> uuid_New (e_lib E) ` {d ..< d'} \<Longrightarrow> away E d' e i"
  by (fastforce simp: away_def fresh_ids_def inj_on_def)

lemma fresh_ids_mono: "fresh_ids E objs d e \<Longrightarrow> d \<le> d' \<Longrightarrow> e' \<le> e \<Longrightarrow> fresh_ids E objs d' e'"
  by (auto simp: fresh_ids_def inj_on_def)

text \<open>A later store that gained only the identifiers drawn meanwhile, and perhaps others.\<close>

lemma fresh_ids_after:
  assumes f: "fresh_ids E objs d e" "d \<le> d'" "d' \<le> e"
    and new: "\<And>i. objs' i \<noteq> None \<Longrightarrow> objs i \<noteq> None \<or> i \<in> uuid_New (e_lib E) ` {d ..< d'} \<or> i \<in> X"
    and X: "\<And>i. i \<in> X \<Longrightarrow> away E d' e i"
  shows "fresh_ids E objs' d' e"
proof -
  have "objs' (uuid_New (e_lib E) a) = None" if "d' \<le> a" "a < e" for a
  proof (rule ccontr)
    assume "\<not> ?thesis"
    from new [OF this] have "away E d' e (uuid_New (e_lib E) a)"
    proof (elim disjE)
      assume "objs (uuid_New (e_lib E) a) \<noteq> None"
      from away_mono [OF fresh_ids_away [OF f(1) this] f(2) order_refl] show ?thesis .
    qed (fact X fresh_ids_drawn [OF f(1,3)])+
    with that show False by (auto simp: away_def)
  qed
  with fresh_ids_mono [OF f(1,2) order_refl] show ?thesis by (simp add: fresh_ids_def)
qed

section \<open>Storing a new file\<close>

definition user_ok :: "'s env \<Rightarrow> store_view \<Rightarrow> User \<Rightarrow> bool" where
  "user_ok E V u \<longleftrightarrow> length (NamespaceRoot u) = symmetricKeySize \<and>
     (\<exists>vk. snd V (getVerifyKeyName E (Username u)) = Some vk \<and> ds_pair (e_lib E) vk (SignPrivate u))"

definition ids_at :: "'s env \<Rightarrow> nat \<Rightarrow> file_ids" where
  "ids_at E d =
     \<lparr>id_epochID = uuid_New (e_lib E) d, id_fileRoot = RandomBytes (e_lib E) (d + 1) symmetricKeySize,
      id_baseChunkUUID = uuid_New (e_lib E) (d + 2), id_metadataUUID = uuid_New (e_lib E) (d + 3),
      id_metadataEncKey = RandomBytes (e_lib E) (d + 4) symmetricKeySize,
      id_metadataMACKey = RandomBytes (e_lib E) (d + 5) symmetricKeySize,
      id_ownerAccessBoxUUID = uuid_New (e_lib E) (d + 6),
      id_ownerAccessBoxEncKey = RandomBytes (e_lib E) (d + 7) symmetricKeySize,
      id_ownerAccessBoxMACKey = RandomBytes (e_lib E) (d + 8) symmetricKeySize,
      id_structureUUID = uuid_New (e_lib E) (d + 9),
      id_structureEncKey = RandomBytes (e_lib E) (d + 10) symmetricKeySize,
      id_structureMACKey = RandomBytes (e_lib E) (d + 11) symmetricKeySize,
      id_statusUUID = uuid_New (e_lib E) (d + 12)\<rparr>"

lemma draw_file_ids_ideal [exec]:
  "draw_file_ids E w = Some (Inr (ids_at E (w_draws w)), w\<lparr>w_draws := w_draws w + 13\<rparr>)"
  by (simp add: draw_file_ids_def exec ids_at_def numeral_eq_Suc)

lemma createFileStatus_ideal:
  assumes "ds_pair (e_lib E) vk (SignPrivate u)"
  obtains st where "createFileStatus E u i ab w = Some (Inr st, w\<lparr>w_draws := Suc (w_draws w)\<rparr>)"
    "\<And>V. fst V i = Some (json_Marshal (FileStatus_codec (e_uuid E)) st) \<Longrightarrow> ab_StatusUUID ab = i \<Longrightarrow>
       snd V (ab_OwnerVerifyKeyName ab) = Some vk \<Longrightarrow> status_at E V ab"
proof -
  define body where "body = \<lparr>fb_FileID = ab_FileID ab, fb_EpochID = ab_EpochID ab,
    fb_CurrentAccessCommitment = getAccessBoxCommitment E ab, fb_OwnerVerifyKeyName = ab_OwnerVerifyKeyName ab\<rparr>"
  obtain sig where sig: "DSSign (e_lib E) (SignPrivate u) (getFileStatusSignatureMessage E i body) (w_draws w) = Inr sig"
      "DSVerify (e_lib E) vk (getFileStatusSignatureMessage E i body) sig = None"
    using assms by (auto simp: ds_pair_def)
  have kt: "KeyType vk = ''DS''" using assms by (simp add: ds_pair_def)
  define st where "st = \<lparr>fs_Body = body, fs_Signature = sig\<rparr>"
  show thesis
  proof (rule that [of st])
    show "createFileStatus E u i ab w = Some (Inr st, w\<lparr>w_draws := Suc (w_draws w)\<rparr>)"
      using sig by (simp add: createFileStatus_def exec body_def [symmetric] st_def)
    fix V :: store_view
    assume V: "fst V i = Some (json_Marshal (FileStatus_codec (e_uuid E)) st)" "ab_StatusUUID ab = i"
      "snd V (ab_OwnerVerifyKeyName ab) = Some vk"
    show "status_at E V ab"
      unfolding status_at_def
      by (rule exI [of _ st], rule exI [of _ vk]) (use V sig kt in \<open>simp add: st_def body_def\<close>)
  qed
qed

lemma hash_hex_not_Nil:
  assumes "lib_ok (e_lib E)" shows "publicKeyName E domain n \<noteq> []"
proof -
  have "length (Hash (e_lib E) (domain @ '':'' @ n)) = 64"
    using lib_okD(1) [OF assms] by (simp add: HashSizeBytes_def)
  then have "take 16 (Hash (e_lib E) (domain @ '':'' @ n)) \<noteq> []" by auto
  then show ?thesis by (cases "take 16 (Hash (e_lib E) (domain @ '':'' @ n))") (auto simp: publicKeyName_def hex_EncodeToString_def)
qed

lemma ids_lengths:
  assumes "lib_ok (e_lib E)"
  shows "length (id_fileRoot (ids_at E d)) = symmetricKeySize"
    "length (id_metadataEncKey (ids_at E d)) = symmetricKeySize" "length (id_metadataMACKey (ids_at E d)) = symmetricKeySize"
    "length (id_ownerAccessBoxEncKey (ids_at E d)) = symmetricKeySize"
    "length (id_ownerAccessBoxMACKey (ids_at E d)) = symmetricKeySize"
    "length (id_structureEncKey (ids_at E d)) = symmetricKeySize"
    "length (id_structureMACKey (ids_at E d)) = symmetricKeySize"
    "id_epochID (ids_at E d) \<noteq> uuid_Nil" "id_baseChunkUUID (ids_at E d) \<noteq> uuid_Nil"
    "id_metadataUUID (ids_at E d) \<noteq> uuid_Nil" "id_ownerAccessBoxUUID (ids_at E d) \<noteq> uuid_Nil"
    "id_structureUUID (ids_at E d) \<noteq> uuid_Nil" "id_statusUUID (ids_at E d) \<noteq> uuid_Nil"
  using lib_okD(8,9) [OF assms] by (simp_all add: ids_at_def)

lemma box_wf_new:
  assumes "lib_ok (e_lib E)" shows "box_wf (new_file_box E u fid (ids_at E d))"
  using ids_lengths [OF assms, of d] hash_hex_not_Nil [OF assms]
  by (simp add: box_wf_def new_file_box_def getVerifyKeyName_def)

lemma apply_write_proj [simp]:
  "fst (apply_write (DSet i b) V) = (fst V)(i \<mapsto> b)" "snd (apply_write (DSet i b) V) = snd V"
  "fst (apply_write (DDelete i) V) = (fst V)(i := None)" "snd (apply_write (DDelete i) V) = snd V"
  "fst (apply_write (KSet n k) V) = fst V" "snd (apply_write (KSet n k) V) = (snd V)(n \<mapsto> k)"
  by (cases V; simp)+

lemma can_write_objects [simp]: "can_write (DSet i b) V" "can_write (DDelete i) V" by simp_all

text \<open>The writes of a new file, with the keys of its chunk and its signed status.\<close>

definition new_file_ws ::
  "'s env \<Rightarrow> User \<Rightarrow> bytes \<Rightarrow> uuid \<Rightarrow> file_ids \<Rightarrow> uuid \<Rightarrow> bytes \<times> bytes \<Rightarrow> bytes \<times> bytes \<Rightarrow> FileStatus \<Rightarrow> nat \<Rightarrow> store_write list" where
  "new_file_ws E u content fid ids nm nk ck st d =
     [DSet (id_baseChunkUUID ids) (seal E chunkObjectType (id_baseChunkUUID ids) (Chunk_codec (e_uuid E))
        (base_chunk fid (id_epochID ids) content) (fst ck) (snd ck) d),
      DSet (id_metadataUUID ids) (seal E metadataObjectType (id_metadataUUID ids) (Metadata_codec (e_uuid E))
        \<lparr>md_FileID = fid, md_EpochID = id_epochID ids, md_Version = 1,
         md_TailUUID = id_baseChunkUUID ids, md_ChunkCount = 1\<rparr>
        (id_metadataEncKey ids) (id_metadataMACKey ids) (d + 1)),
      DSet (id_ownerAccessBoxUUID ids) (seal E accessBoxObjectType (id_ownerAccessBoxUUID ids)
        (AccessBox_codec (e_uuid E)) (new_file_box E u fid ids)
        (id_ownerAccessBoxEncKey ids) (id_ownerAccessBoxMACKey ids) (d + 2)),
      DSet (id_statusUUID ids) (json_Marshal (FileStatus_codec (e_uuid E)) st),
      DSet (id_structureUUID ids) (seal E accessBoxStructureObjectType (id_structureUUID ids)
        (AccessBoxStructure_codec (e_uuid E))
        \<lparr>as_FileID = fid, as_CurrentEpoch = id_epochID ids, as_RecipientBoxes = Some []\<rparr>
        (id_structureEncKey ids) (id_structureMACKey ids) (d + 4)),
      DSet nm (seal E namespaceEntryObjectType nm (NamespaceEntry_codec (e_uuid E))
        (new_file_entry fid ids) (fst nk) (snd nk) (d + 5))]"

lemma new_file_writes_ideal:
  assumes I: "ideal_env E" and "ds_pair (e_lib E) vk (SignPrivate u)" "nm \<noteq> uuid_Nil"
    and keys: "length nek = symmetricKeySize" "length nmk = symmetricKeySize"
    and ids: "ids = ids_at E d"
  obtains cek cmk st where
    "deriveChunkKeys E (id_fileRoot ids) (id_baseChunkUUID ids) = Inr (cek, cmk)"
    "length cek = symmetricKeySize" "length cmk = symmetricKeySize"
    "\<And>V. fst V (id_statusUUID ids) = Some (json_Marshal (FileStatus_codec (e_uuid E)) st) \<Longrightarrow>
       snd V (getVerifyKeyName E (Username u)) = Some vk \<Longrightarrow> status_at E V (new_file_box E u fid ids)"
    "new_file_writes E u content fid ids nm (nek, nmk) w =
       Some (Inr (new_file_ws E u content fid ids nm (nek, nmk) (cek, cmk) st (w_draws w)),
             w\<lparr>w_draws := w_draws w + 6\<rparr>)"
proof -
  note L = ideal_envD(3) [OF I]
  note len = ids_lengths [OF L, of d, folded ids]
  obtain cek cmk where ck: "deriveChunkKeys E (id_fileRoot ids) (id_baseChunkUUID ids) = Inr (cek, cmk)"
    "length cek = symmetricKeySize" "length cmk = symmetricKeySize"
    using derive_pair_ok [OF L len(1)] unfolding deriveChunkKeys_def by metis
  let ?w = "w\<lparr>w_draws := Suc (Suc (Suc (w_draws w)))\<rparr>"
  obtain st where st: "createFileStatus E u (id_statusUUID ids) (new_file_box E u fid ids) ?w =
      Some (Inr st, w\<lparr>w_draws := w_draws w + 4\<rparr>)"
    "\<And>V. fst V (id_statusUUID ids) = Some (json_Marshal (FileStatus_codec (e_uuid E)) st) \<Longrightarrow>
       snd V (getVerifyKeyName E (Username u)) = Some vk \<Longrightarrow> status_at E V (new_file_box E u fid ids)"
    using createFileStatus_ideal [OF assms(2), of "id_statusUUID ids" "new_file_box E u fid ids" ?w]
    by (simp add: new_file_box_def numeral_eq_Suc) metis
  have "new_file_writes E u content fid ids nm (nek, nmk) w =
      Some (Inr (new_file_ws E u content fid ids nm (nek, nmk) (cek, cmk) st (w_draws w)),
            w\<lparr>w_draws := w_draws w + 6\<rparr>)"
    using ck len keys assms(3)
    by (simp add: new_file_writes_def new_file_ws_def exec L Let_def bindE_run st(1) numeral_eq_Suc)
  from that [OF ck st(2) this] show thesis .
qed

lemma new_file_at:
  assumes I: "ideal_env E" and fresh: "fresh_ids E (fst V) d e" and far: "away E d e nm" and e: "d + 19 \<le> e"
    and u: "snd V (getVerifyKeyName E (Username u)) = Some vk"
    and nm: "getNameSpaceEntryUUID E (Username u) fn = Inr nm" "nm \<noteq> uuid_Nil"
    and nk: "deriveNamespaceEntryKeys E (NamespaceRoot u) fn = Inr (nek, nmk)"
      "length nek = symmetricKeySize" "length nmk = symmetricKeySize"
    and fid: "fid \<noteq> uuid_Nil" and ids: "ids = ids_at E d"
    and ck: "deriveChunkKeys E (id_fileRoot ids) (id_baseChunkUUID ids) = Inr (cek, cmk)"
      "length cek = symmetricKeySize" "length cmk = symmetricKeySize"
    and st: "\<And>V. fst V (id_statusUUID ids) = Some (json_Marshal (FileStatus_codec (e_uuid E)) st) \<Longrightarrow>
       snd V (getVerifyKeyName E (Username u)) = Some vk \<Longrightarrow> status_at E V (new_file_box E u fid ids)"
  shows "\<exists>md. file_at E (apply_writes (new_file_ws E u content fid ids nm (nek, nmk) (cek, cmk) st k) V) u fn
      (new_file_entry fid ids) (new_file_box E u fid ids) md [id_baseChunkUUID ids] [content] \<and> md_Version md = 1"
proof -
  note L = ideal_envD(3) [OF I]
  note len = ids_lengths [OF L, of d, folded ids]
  let ?V = "apply_writes (new_file_ws E u content fid ids nm (nek, nmk) (cek, cmk) st k) V"
  let ?ab = "new_file_box E u fid ids"
  let ?md = "\<lparr>md_FileID = fid, md_EpochID = id_epochID ids, md_Version = 1,
    md_TailUUID = id_baseChunkUUID ids, md_ChunkCount = 1\<rparr>"
  have dist: "distinct [id_baseChunkUUID ids, id_metadataUUID ids, id_ownerAccessBoxUUID ids, id_statusUUID ids,
      id_structureUUID ids, nm]"
    using e by (simp add: ids ids_at_def awayD [OF far] fresh_ids_eq [OF fresh])
  have g: "snd ?V = snd V"
    "fst ?V (id_baseChunkUUID ids) = Some (seal E chunkObjectType (id_baseChunkUUID ids) (Chunk_codec (e_uuid E))
        (base_chunk fid (id_epochID ids) content) cek cmk k)"
    "fst ?V (id_metadataUUID ids) = Some (seal E metadataObjectType (id_metadataUUID ids) (Metadata_codec (e_uuid E)) ?md
        (id_metadataEncKey ids) (id_metadataMACKey ids) (k + 1))"
    "fst ?V (id_ownerAccessBoxUUID ids) = Some (seal E accessBoxObjectType (id_ownerAccessBoxUUID ids)
        (AccessBox_codec (e_uuid E)) ?ab (id_ownerAccessBoxEncKey ids) (id_ownerAccessBoxMACKey ids) (k + 2))"
    "fst ?V (id_statusUUID ids) = Some (json_Marshal (FileStatus_codec (e_uuid E)) st)"
    "fst ?V nm = Some (seal E namespaceEntryObjectType nm (NamespaceEntry_codec (e_uuid E))
        (new_file_entry fid ids) nek nmk (k + 5))"
    using dist by (simp_all add: new_file_ws_def)
  have "entry_at E (fst ?V) u fn (new_file_entry fid ids)"
    using sealed_seal [where objs = "fst ?V", OF L g(6) nm(2) nk(2,3)] nm nk fid by (simp add: entry_at_def new_file_entry_def)
  moreover have "box_at E ?V (new_file_entry fid ids) ?ab"
    using sealed_seal [where objs = "fst ?V", OF L g(4) len(11,4,5)] box_wf_new [OF L, of u fid d] st [of ?V] g(1,5) u
    by (simp add: box_at_def box_sealed_def new_file_entry_def ids) (simp add: new_file_box_def)
  moreover have "meta_at E (fst ?V) ?ab ?md"
    using sealed_seal [where objs = "fst ?V", OF L g(3) len(10,2,3)] len by (simp add: meta_at_def new_file_box_def)
  moreover have "chunk_at E (fst ?V) ?ab (id_baseChunkUUID ids) (base_chunk fid (id_epochID ids) content)"
    using sealed_seal [where objs = "fst ?V", OF L g(2) len(9) ck(2,3)] ck(1) by (simp add: chunk_at_def new_file_box_def base_chunk_def)
  then have "chunk_chain E (fst ?V) ?ab (unat (1 :: uint64)) (id_baseChunkUUID ids) [id_baseChunkUUID ids] [content]"
    using chain_more [of E "fst ?V" ?ab "id_baseChunkUUID ids" "base_chunk fid (id_epochID ids) content" 0 "[]" "[]"]
    by (simp add: base_chunk_def)
  ultimately have "file_at E ?V u fn (new_file_entry fid ids) ?ab ?md [id_baseChunkUUID ids] [content]"
    by (simp add: file_at_def)
  then show ?thesis by (intro exI [of _ ?md]) simp
qed

text \<open>The identifiers of the objects of a file; a well-formed file has different ones.\<close>

definition file_objects :: "uuid \<Rightarrow> NamespaceEntry \<Rightarrow> AccessBox \<Rightarrow> uuid list \<Rightarrow> uuid list" where
  "file_objects nm ne ab us =
     nm # ne_AccessBoxUUID ne # ab_StatusUUID ab # ab_MetadataUUID ab # ab_AccessBoxStructureUUID ab # us"

definition file_wf ::
  "'s env \<Rightarrow> store_view \<Rightarrow> User \<Rightarrow> string \<Rightarrow> NamespaceEntry \<Rightarrow> AccessBox \<Rightarrow> Metadata \<Rightarrow> uuid list \<Rightarrow> bytes list \<Rightarrow> bool" where
  "file_wf E V u fn ne ab md us cs \<longleftrightarrow> file_at E V u fn ne ab md us cs \<and>
     (\<exists>nm. getNameSpaceEntryUUID E (Username u) fn = Inr nm \<and> distinct (file_objects nm ne ab us))"

text \<open>
  The owner's side: the structure that the owner's entry points to has a branch box record for
  every direct recipient.
\<close>

definition owner_at ::
  "'s env \<Rightarrow> objects \<Rightarrow> User \<Rightarrow> NamespaceEntry \<Rightarrow> AccessBox \<Rightarrow> (string \<Rightarrow> BranchBoxRecord option) \<Rightarrow> bool" where
  "owner_at E objs u ne ab shares \<longleftrightarrow> ne_IsOwner ne \<and>
     ne_AccessBoxStructureUUID ne = ab_AccessBoxStructureUUID ab \<and>
     ab_OwnerVerifyKeyName ab = getVerifyKeyName E (Username u) \<and>
     (\<exists>bs. boxes_ok bs \<and> map_of bs = shares \<and>
        sealed E objs accessBoxStructureObjectType (ne_AccessBoxStructureUUID ne) (AccessBoxStructure_codec (e_uuid E))
          \<lparr>as_FileID = ab_FileID ab, as_CurrentEpoch = ab_EpochID ab, as_RecipientBoxes = Some bs\<rparr>
          (ne_AccessBoxStructureEncKey ne) (ne_AccessBoxStructureMACKey ne))"

lemma new_structure_at:
  assumes L: "lib_ok (e_lib E)" and fresh: "fresh_ids E (fst V) d e" and far: "away E d e nm" and e: "d + 19 \<le> e"
    and ids: "ids = ids_at E d"
  shows "owner_at E (fst (apply_writes (new_file_ws E u content fid ids nm nk ck st k) V)) u
    (new_file_entry fid ids) (new_file_box E u fid ids) Map.empty"
proof -
  note len = ids_lengths [OF L, of d, folded ids]
  let ?V = "apply_writes (new_file_ws E u content fid ids nm nk ck st k) V"
  have "nm \<noteq> id_structureUUID ids" using awayD(2) [OF far, of "d + 9"] e by (simp add: ids ids_at_def)
  then have g: "fst ?V (id_structureUUID ids) = Some (seal E accessBoxStructureObjectType (id_structureUUID ids)
      (AccessBoxStructure_codec (e_uuid E))
      \<lparr>as_FileID = fid, as_CurrentEpoch = id_epochID ids, as_RecipientBoxes = Some []\<rparr>
      (id_structureEncKey ids) (id_structureMACKey ids) (k + 4))"
    by (simp add: new_file_ws_def)
  have "boxes_ok []" by (simp add: boxes_ok_def)
  then show ?thesis
    using sealed_seal [where objs = "fst ?V", OF L g len(12,6,7)]
    by (auto simp: owner_at_def new_file_entry_def new_file_box_def intro!: exI [of _ "[]"])
qed

lemma storeNewFile_ideal:
  assumes I: "ideal_env E" and u: "user_ok E (w_ext w) u"
    and nm: "getNameSpaceEntryUUID E (Username u) fn = Inr nm" "nm \<noteq> uuid_Nil"
    and fresh: "fresh_ids E (fst (w_ext w)) (w_draws w) e" and far: "away E (w_draws w) e nm" and e': "w_draws w + 19 \<le> e"
    and fid: "fid \<noteq> uuid_Nil"
  obtains ws d' md where
    "storeNewFileLocked E u ctx fn content fid w =
       Some (Inr (), w\<lparr>w_draws := d', w_ext := apply_writes ws (w_ext w)\<rparr>)"
    "file_wf E (apply_writes ws (w_ext w)) u fn (new_file_entry fid (ids_at E (w_draws w)))
       (new_file_box E u fid (ids_at E (w_draws w))) md [id_baseChunkUUID (ids_at E (w_draws w))] [content]"
    "md_Version md = 1" "w_draws w \<le> d'"
    "\<And>i. i \<noteq> nm \<Longrightarrow> i \<notin> uuid_New (e_lib E) ` {w_draws w ..< d'} \<Longrightarrow>
       fst (apply_writes ws (w_ext w)) i = fst (w_ext w) i"
    "snd (apply_writes ws (w_ext w)) = snd (w_ext w)" "w_draws w + 19 = d'"
    "owner_at E (fst (apply_writes ws (w_ext w))) u (new_file_entry fid (ids_at E (w_draws w)))
       (new_file_box E u fid (ids_at E (w_draws w))) Map.empty"
proof -
  note L = ideal_envD(3) [OF I]
  define d where "d = w_draws w"
  define ids where "ids = ids_at E d"
  from u obtain vk where vk: "snd (w_ext w) (getVerifyKeyName E (Username u)) = Some vk"
      "ds_pair (e_lib E) vk (SignPrivate u)" and root: "length (NamespaceRoot u) = symmetricKeySize"
    by (auto simp: user_ok_def)
  obtain nek nmk where nk: "deriveNamespaceEntryKeys E (NamespaceRoot u) fn = Inr (nek, nmk)"
      "length nek = symmetricKeySize" "length nmk = symmetricKeySize"
    using derive_pair_ok [OF L root] unfolding deriveNamespaceEntryKeys_def by metis
  obtain cek cmk st where c: "deriveChunkKeys E (id_fileRoot ids) (id_baseChunkUUID ids) = Inr (cek, cmk)"
    "length cek = symmetricKeySize" "length cmk = symmetricKeySize"
    "\<And>V. fst V (id_statusUUID ids) = Some (json_Marshal (FileStatus_codec (e_uuid E)) st) \<Longrightarrow>
       snd V (getVerifyKeyName E (Username u)) = Some vk \<Longrightarrow> status_at E V (new_file_box E u fid ids)"
    "new_file_writes E u content fid ids nm (nek, nmk) (w\<lparr>w_draws := d + 13\<rparr>) =
       Some (Inr (new_file_ws E u content fid ids nm (nek, nmk) (cek, cmk) st (d + 13)),
             w\<lparr>w_draws := d + 19\<rparr>)"
    using new_file_writes_ideal [OF I vk(2) nm(2) nk(2,3) ids_def, of fid content "w\<lparr>w_draws := d + 13\<rparr>"]
    by (simp add: numeral_eq_Suc) metis
  define ws where "ws = new_file_ws E u content fid ids nm (nek, nmk) (cek, cmk) st (d + 13)"
  have can: "can_writes ws V" for V by (simp add: ws_def new_file_ws_def)
  obtain md where md: "file_at E (apply_writes ws (w_ext w)) u fn (new_file_entry fid ids) (new_file_box E u fid ids) md
      [id_baseChunkUUID ids] [content]" "md_Version md = 1"
    using new_file_at [OF I fresh [folded d_def] far [folded d_def] e' [folded d_def] vk(1) nm nk fid ids_def c(1-4)]
    unfolding ws_def by metis
  have dist: "distinct (file_objects nm (new_file_entry fid ids) (new_file_box E u fid ids) [id_baseChunkUUID ids])"
    using e' awayD [OF far]
    by (simp add: d_def file_objects_def new_file_entry_def new_file_box_def ids_def ids_at_def
        fresh_ids_eq [OF fresh])
  show thesis
  proof (rule that [of ws "d + 19" md])
    show "storeNewFileLocked E u ctx fn content fid w =
        Some (Inr (), w\<lparr>w_draws := d + 19, w_ext := apply_writes ws (w_ext w)\<rparr>)"
      using nm(1) nk(1) c(5) can
      by (simp add: storeNewFileLocked_def exec bindE_run d_def [symmetric] ids_def [symmetric] ws_def [symmetric] I)
    show "file_wf E (apply_writes ws (w_ext w)) u fn (new_file_entry fid (ids_at E (w_draws w)))
       (new_file_box E u fid (ids_at E (w_draws w))) md [id_baseChunkUUID (ids_at E (w_draws w))] [content]"
      using md(1) nm(1) dist by (simp add: file_wf_def d_def [symmetric] ids_def [symmetric])
    show "md_Version md = 1" by (rule md(2))
    show "w_draws w \<le> d + 19" by (simp add: d_def)
    show "fst (apply_writes ws (w_ext w)) i = fst (w_ext w) i"
      if "i \<noteq> nm" "i \<notin> uuid_New (e_lib E) ` {w_draws w ..< d + 19}" for i
      using that by (auto simp: ws_def new_file_ws_def ids_def ids_at_def d_def)
    show "snd (apply_writes ws (w_ext w)) = snd (w_ext w)" by (simp add: ws_def new_file_ws_def)
    show "w_draws w + 19 = d + 19" by (simp add: d_def)
    show "owner_at E (fst (apply_writes ws (w_ext w))) u (new_file_entry fid (ids_at E (w_draws w)))
       (new_file_box E u fid (ids_at E (w_draws w))) Map.empty"
      using new_structure_at [OF L fresh far e' refl, of u content fid] by (simp add: ws_def ids_def d_def)
  qed
qed

lemma StoreFile_new_ideal:
  assumes I: "ideal_env E" and u: "user_ok E (w_ext w) u" and txn: "w_txnIDs w \<noteq> - 1"
    and nm: "getNameSpaceEntryUUID E (Username u) fn = Inr nm" "nm \<noteq> uuid_Nil" "fst (w_ext w) nm = None"
    and fresh: "fresh_ids E (fst (w_ext w)) (w_draws w) e" and far: "away E (w_draws w) e nm" and e: "w_draws w + 20 \<le> e"
  obtains w' ne ab md us where
    "StoreFileContext E u ctx fn content w = Some (Inr (), w')"
    "file_wf E (w_ext w') u fn ne ab md us [content]" "md_Version md = 1" "ne_IsOwner ne"
    "\<And>i. i \<noteq> nm \<Longrightarrow> i \<notin> uuid_New (e_lib E) ` {w_draws w ..< w_draws w'} \<Longrightarrow>
       fst (w_ext w') i = fst (w_ext w) i"
    "snd (w_ext w') = snd (w_ext w)" "w_draws w' = w_draws w + 20" "w_txnIDs w' = w_txnIDs w + 1"
    "owner_at E (fst (w_ext w')) u ne ab Map.empty"
    "ab_AccessBoxStructureUUID ab \<in> uuid_New (e_lib E) ` {w_draws w ..< w_draws w'}"
proof -
  define w0 where "w0 = (bump w)\<lparr>w_draws := Suc (w_draws w)\<rparr>"
  have fid: "uuid_New (e_lib E) (w_draws w) \<noteq> uuid_Nil" by (rule lib_okD(9) [OF ideal_envD(3) [OF I]])
  have w0: "w_ext w0 = w_ext w" "w_draws w0 = Suc (w_draws w)" by (simp_all add: w0_def)
  have u0: "user_ok E (w_ext w0) u" using u w0 by simp
  have fresh0: "fresh_ids E (fst (w_ext w0)) (w_draws w0) e" using fresh_ids_mono [OF fresh] w0 by simp
  have far0: "away E (w_draws w0) e nm" using away_mono [OF far] w0 by simp
  have e0: "w_draws w0 + 19 \<le> e" using e w0 by simp
  define ctx' where "ctx' = (if e_disableFenceValidation E then WithoutValidationForTest ctx else ctx)"
  obtain ws d' md where r: "storeNewFileLocked E u ctx' fn content (uuid_New (e_lib E) (w_draws w)) w0 =
       Some (Inr (), w0\<lparr>w_draws := d', w_ext := apply_writes ws (w_ext w0)\<rparr>)"
    "file_wf E (apply_writes ws (w_ext w0)) u fn (new_file_entry (uuid_New (e_lib E) (w_draws w)) (ids_at E (w_draws w0)))
       (new_file_box E u (uuid_New (e_lib E) (w_draws w)) (ids_at E (w_draws w0))) md
       [id_baseChunkUUID (ids_at E (w_draws w0))] [content]"
    "md_Version md = 1" "w_draws w0 \<le> d'"
    "\<And>i. i \<noteq> nm \<Longrightarrow> i \<notin> uuid_New (e_lib E) ` {w_draws w0 ..< d'} \<Longrightarrow>
       fst (apply_writes ws (w_ext w0)) i = fst (w_ext w0) i"
    "snd (apply_writes ws (w_ext w0)) = snd (w_ext w0)" "w_draws w0 + 19 = d'"
    "owner_at E (fst (apply_writes ws (w_ext w0))) u (new_file_entry (uuid_New (e_lib E) (w_draws w)) (ids_at E (w_draws w0)))
       (new_file_box E u (uuid_New (e_lib E) (w_draws w)) (ids_at E (w_draws w0))) Map.empty"
    using storeNewFile_ideal [OF I u0 nm(1,2) fresh0 far0 e0 fid, of ctx' content] by metis
  obtain rs where rs: "namespaceResourceID E (Username u) fn = Inr rs" using namespaceResource_ok [OF nm(1)] ..
  have run: "StoreFileContext E u ctx fn content w = Some (Inr (), w0\<lparr>w_draws := d', w_ext := apply_writes ws (w_ext w0)\<rparr>)"
    using nm(1,3) rs r(1)
    by (simp add: StoreFileContext_def exec I txn bump_def [symmetric] w0_def [symmetric] ctx'_def [symmetric])
  have frame: "fst (apply_writes ws (w_ext w0)) i = fst (w_ext w) i"
    if "i \<noteq> nm" "i \<notin> uuid_New (e_lib E) ` {w_draws w ..< d'}" for i
    using r(5) [OF that(1)] that(2) w0 by (auto simp: image_iff)
  have owner: "ne_IsOwner (new_file_entry fid ids)" for fid ids by (simp add: new_file_entry_def)
  have str: "ab_AccessBoxStructureUUID (new_file_box E u fid (ids_at E (w_draws w0))) \<in> uuid_New (e_lib E) ` {w_draws w ..< d'}" for fid
    using r(7) w0 by (auto simp: new_file_box_def ids_at_def)
  show thesis
    by (rule that [OF run, OF _ r(3) owner]) (use r(2,4,6,7,8) w0 frame str in \<open>simp_all add: w0_def\<close>)
qed

end
