(* ===== verification/Client_Update.thy ===== *)
theory Client_Update
  imports Client_Files
begin

text \<open>
  Overwriting and appending on the ideal store, and the loop that looks for an unused chunk
  identifier.
\<close>

section \<open>What a file depends on\<close>

lemma entry_at_cong:
  assumes "getNameSpaceEntryUUID E (Username u) fn = Inr nm" "objs' nm = objs nm"
  shows "entry_at E objs' u fn ne = entry_at E objs u fn ne"
  using assms by (simp add: entry_at_def sealed_def)

lemma status_at_cong:
  assumes "fst V' (ab_StatusUUID ab) = fst V (ab_StatusUUID ab)"
    "snd V' (ab_OwnerVerifyKeyName ab) = snd V (ab_OwnerVerifyKeyName ab)"
  shows "status_at E V' ab = status_at E V ab"
  using assms by (simp add: status_at_def)

lemma box_at_cong:
  assumes "fst V' (ne_AccessBoxUUID ne) = fst V (ne_AccessBoxUUID ne)"
    "fst V' (ab_StatusUUID ab) = fst V (ab_StatusUUID ab)" "snd V' = snd V"
  shows "box_at E V' ne ab = box_at E V ne ab"
  using assms by (simp add: box_at_def box_sealed_def sealed_def status_at_def)

lemma meta_at_cong:
  "objs' (ab_MetadataUUID ab) = objs (ab_MetadataUUID ab) \<Longrightarrow> meta_at E objs' ab md = meta_at E objs ab md"
  by (simp add: meta_at_def sealed_def)

lemma chunk_at_cong: "objs' i = objs i \<Longrightarrow> chunk_at E objs' ab i ck = chunk_at E objs ab i ck"
  by (simp add: chunk_at_def sealed_def)

lemma chunk_chain_cong:
  assumes "chunk_chain E objs ab n i us cs" "\<And>j. j \<in> set us \<Longrightarrow> objs' j = objs j"
  shows "chunk_chain E objs' ab n i us cs"
  using assms
proof (induction rule: chunk_chain.induct)
  case (chain_more i ck n us cs)
  then show ?case using chunk_at_cong [of objs' i objs] by (intro chunk_chain.chain_more) auto
qed (rule chain_end)

lemma chunk_chain_used: "chunk_chain E objs ab n i us cs \<Longrightarrow> j \<in> set us \<Longrightarrow> objs j \<noteq> None"
  by (induction rule: chunk_chain.induct) (auto simp: chunk_at_def sealed_def)

lemma chunk_chain_length: "chunk_chain E objs ab n i us cs \<Longrightarrow> length us = n \<and> length cs = n \<and> distinct us"
  by (induction rule: chunk_chain.induct) auto

lemma apply_writes_append [simp]: "apply_writes (xs @ ys) V = apply_writes ys (apply_writes xs V)"
  by (simp add: apply_writes_def)

lemma can_writes_append [simp]:
  "can_writes (xs @ ys) V \<longleftrightarrow> can_writes xs V \<and> can_writes ys (apply_writes xs V)"
  by (induction xs arbitrary: V) auto

lemma apply_deletes:
  "fst (apply_writes (map DDelete is) V) i = (if i \<in> set is then None else fst V i)"
  "snd (apply_writes (map DDelete is) V) = snd V"
  by (induction "is" arbitrary: V) auto

lemma can_deletes [simp]: "can_writes (map DDelete is) V"
  by (induction "is" arbitrary: V) auto

section \<open>An identifier outside the old chunks\<close>

lemma fresh_uuid_step:
  "fresh_uuid E old d = (if uuid_New (e_lib E) d \<notin> set old then Some (uuid_New (e_lib E) d, Suc d)
     else fresh_uuid E old (Suc d))"
  by (rule fresh_uuid.simps)

text \<open>If one of the next draws is outside the list, the loop returns at or before that draw.\<close>

lemma fresh_uuid_within:
  assumes "uuid_New (e_lib E) (d + k) \<notin> set old"
  shows "\<exists>j \<le> k. fresh_uuid E old d = Some (uuid_New (e_lib E) (d + j), Suc (d + j)) \<and>
    uuid_New (e_lib E) (d + j) \<notin> set old \<and> (\<forall>i < j. uuid_New (e_lib E) (d + i) \<in> set old)"
  using assms
proof (induction k arbitrary: d)
  case 0
  then show ?case by (simp add: fresh_uuid_step [of E old d])
next
  case (Suc k)
  show ?case
  proof (cases "uuid_New (e_lib E) d \<notin> set old")
    case True
    then show ?thesis by (intro exI [of _ 0]) (simp add: fresh_uuid_step [of E old d])
  next
    case False
    from Suc.IH [of "Suc d"] Suc.prems obtain j where "j \<le> k"
      "fresh_uuid E old (Suc d) = Some (uuid_New (e_lib E) (Suc d + j), Suc (Suc d + j))"
      "uuid_New (e_lib E) (Suc d + j) \<notin> set old" "\<forall>i < j. uuid_New (e_lib E) (Suc d + i) \<in> set old" by auto
    with False show ?thesis
      by (intro exI [of _ "Suc j"]) (auto simp: fresh_uuid_step [of E old d] less_Suc_eq_0_disj)
  qed
qed

text \<open>Among pairwise different draws, one more than there are old identifiers, one is new.\<close>

lemma distinct_draws_escape:
  assumes "inj_on g {d .. d + length old}"
  obtains k where "k \<le> length old" "g (d + k) \<notin> set old"
proof (rule ccontr)
  assume "\<not> thesis"
  with that have *: "g (d + k) \<in> set old" if "k \<le> length old" for k using \<open>k \<le> length old\<close> by blast
  have "g ` {d .. d + length old} \<subseteq> set old"
  proof
    fix y assume "y \<in> g ` {d .. d + length old}"
    then obtain a where "y = g a" "d \<le> a" "a \<le> d + length old" by auto
    then show "y \<in> set old" using * [of "a - d"] by simp
  qed
  then have "card (g ` {d .. d + length old}) \<le> card (set old)" by (intro card_mono) simp_all
  moreover have "card (g ` {d .. d + length old}) = Suc (length old)"
    using card_image [OF assms] by simp
  ultimately show False using card_length [of old] by simp
qed

section \<open>Overwriting\<close>

lemma new_uuid_outside_fresh:
  assumes "uuid_New (e_lib E) (w_draws w) \<notin> set old"
  shows "new_uuid_outside E old w = Some (Inr (uuid_New (e_lib E) (w_draws w)), w\<lparr>w_draws := Suc (w_draws w)\<rparr>)"
  using assms by (simp add: new_uuid_outside_def fresh_uuid_step [of E old "w_draws w"])

lemma version_next_nonzero: "(v :: uint64) \<noteq> - 1 \<Longrightarrow> v + 1 \<noteq> 0"
  by (simp add: eq_neg_iff_add_eq_0)

lemma box_keys:
  assumes "lib_ok (e_lib E)" "box_wf ab"
  obtains ek mk where "deriveChunkKeys E (ab_FileRoot ab) i = Inr (ek, mk)"
    "length ek = symmetricKeySize" "length mk = symmetricKeySize"
  using derive_pair_ok [OF assms(1), of "ab_FileRoot ab"] assms(2)
  unfolding deriveChunkKeys_def box_wf_def by metis

text \<open>The two objects that an overwrite and an append store: a chunk and the new metadata.\<close>

lemma chunk_stored:
  assumes "lib_ok (e_lib E)" "deriveChunkKeys E (ab_FileRoot ab) i = Inr (ek, mk)" "i \<noteq> uuid_Nil"
    "objs i = Some (seal E chunkObjectType i (Chunk_codec (e_uuid E)) ck ek mk d)"
    "ck_FileID ck = ab_FileID ab" "ck_EpochID ck = ab_EpochID ab"
  shows "chunk_at E objs ab i ck"
  using assms sealed_seal [where objs = objs, OF assms(1,4,3)] derive_pair_length [OF assms(1)]
  unfolding deriveChunkKeys_def chunk_at_def by metis

lemma meta_stored:
  assumes "lib_ok (e_lib E)" "box_wf ab" "md_TailUUID md \<noteq> uuid_Nil" "md_ChunkCount md \<noteq> 0" "md_Version md \<noteq> 0"
    "md_FileID md = ab_FileID ab" "md_EpochID md = ab_EpochID ab"
    "objs (ab_MetadataUUID ab) = Some (seal E metadataObjectType (ab_MetadataUUID ab) (Metadata_codec (e_uuid E)) md
       (ab_MetadataEncKey ab) (ab_MetadataMACKey ab) d)"
  shows "meta_at E objs ab md"
  using assms sealed_seal [where objs = objs, OF assms(1,8)] by (simp add: meta_at_def box_wf_def)

lemma single_chain:
  assumes "chunk_at E objs ab i (base_chunk fid ep content)"
  shows "chunk_chain E objs ab 1 i [i] [content]"
  using chain_more [OF assms, of 0 "[]" "[]"] by (simp add: base_chunk_def)

definition overwritten_md :: "AccessBox \<Rightarrow> Metadata \<Rightarrow> uuid \<Rightarrow> Metadata" where
  "overwritten_md ab md i =
     \<lparr>md_FileID = ab_FileID ab, md_EpochID = ab_EpochID ab, md_Version = md_Version md + 1,
      md_TailUUID = i, md_ChunkCount = 1\<rparr>"

definition overwrite_ws ::
  "'s env \<Rightarrow> AccessBox \<Rightarrow> Metadata \<Rightarrow> uuid list \<Rightarrow> bytes \<Rightarrow> uuid \<Rightarrow> bytes \<times> bytes \<Rightarrow> nat \<Rightarrow> store_write list" where
  "overwrite_ws E ab md us content i ck d =
     [DSet i (seal E chunkObjectType i (Chunk_codec (e_uuid E)) (base_chunk (ab_FileID ab) (ab_EpochID ab) content)
        (fst ck) (snd ck) d),
      DSet (ab_MetadataUUID ab) (seal E metadataObjectType (ab_MetadataUUID ab) (Metadata_codec (e_uuid E))
        (overwritten_md ab md i) (ab_MetadataEncKey ab) (ab_MetadataMACKey ab) (Suc d))] @ map DDelete us"

lemma overwrite_ideal:
  assumes I: "ideal_env E" and f: "file_at E (w_ext w) u fn ne ab md us cs"
    and v: "md_Version md \<noteq> - 1" and new: "uuid_New (e_lib E) (w_draws w) \<notin> set us"
    and ck: "deriveChunkKeys E (ab_FileRoot ab) (uuid_New (e_lib E) (w_draws w)) = Inr (ek, mk)"
  shows "overwriteExistingFileLocked E ctx ab content w = Some (Inr (),
     w\<lparr>w_draws := w_draws w + 3, w_ext := apply_writes
         (overwrite_ws E ab md us content (uuid_New (e_lib E) (w_draws w)) (ek, mk) (Suc (w_draws w))) (w_ext w)\<rparr>)"
proof -
  note L = ideal_envD(3) [OF I]
  note p = file_at_parts [OF f] and r = file_reads [OF I f]
  have b: "ab_MetadataUUID ab \<noteq> uuid_Nil" "length (ab_MetadataEncKey ab) = symmetricKeySize"
    "length (ab_MetadataMACKey ab) = symmetricKeySize" using p(2) by (simp_all add: box_at_def box_wf_def)
  have ckl: "length ek = symmetricKeySize" "length mk = symmetricKeySize"
    using derive_pair_length [OF L ck [unfolded deriveChunkKeys_def]] by simp_all
  have can: "can_writes (overwrite_ws E ab md us content i k d) V" for i k d V by (simp add: overwrite_ws_def)
  show ?thesis
    using can [unfolded overwrite_ws_def overwritten_md_def]
    by (simp add: overwriteExistingFileLocked_def bindE_run r new_uuid_outside_fresh new exec ck L b ckl
        lib_okD(9) [OF L] v nextMetadataVersion_def overwrite_ws_def overwritten_md_def I numeral_eq_Suc)
qed

lemma overwrite_file:
  assumes I: "ideal_env E" and f: "file_wf E V u fn ne ab md us cs" and v: "md_Version md \<noteq> - 1"
    and i: "i \<noteq> uuid_Nil" "i \<notin> set (file_objects nm ne ab us)"
    and nm: "getNameSpaceEntryUUID E (Username u) fn = Inr nm"
    and ck: "deriveChunkKeys E (ab_FileRoot ab) i = Inr (ek, mk)"
  shows "file_wf E (apply_writes (overwrite_ws E ab md us content i (ek, mk) d) V) u fn ne ab
      (overwritten_md ab md i) [i] [content]"
proof -
  note L = ideal_envD(3) [OF I]
  let ?V = "apply_writes (overwrite_ws E ab md us content i (ek, mk) d) V"
  have f': "file_at E V u fn ne ab md us cs" using f by (simp add: file_wf_def)
  note p = file_at_parts [OF f']
  have dist: "distinct (file_objects nm ne ab us)" using f nm by (simp add: file_wf_def)
  have g: "fst ?V j = (if j \<in> set us then None else if j = ab_MetadataUUID ab then
        Some (seal E metadataObjectType (ab_MetadataUUID ab) (Metadata_codec (e_uuid E))
          (overwritten_md ab md i) (ab_MetadataEncKey ab) (ab_MetadataMACKey ab) (Suc d))
      else if j = i then Some (seal E chunkObjectType i (Chunk_codec (e_uuid E))
          (base_chunk (ab_FileID ab) (ab_EpochID ab) content) ek mk d) else fst V j)" "snd ?V = snd V" for j
    by (simp_all add: overwrite_ws_def apply_deletes)
  have o: "fst ?V nm = fst V nm" "fst ?V (ne_AccessBoxUUID ne) = fst V (ne_AccessBoxUUID ne)"
    "fst ?V (ab_StatusUUID ab) = fst V (ab_StatusUUID ab)"
    using dist i(2) by (auto simp: g file_objects_def)
  have wf: "box_wf ab" using p(2) by (simp add: box_at_def)
  have "chunk_at E (fst ?V) ab i (base_chunk (ab_FileID ab) (ab_EpochID ab) content)"
    using i by (intro chunk_stored [OF L ck i(1)]) (simp_all add: g base_chunk_def file_objects_def)
  then have chain: "chunk_chain E (fst ?V) ab (unat (md_ChunkCount (overwritten_md ab md i)))
      (md_TailUUID (overwritten_md ab md i)) [i] [content]"
    using single_chain by (simp add: overwritten_md_def)
  have v1: "md_Version md + 1 \<noteq> 0" using v by (rule version_next_nonzero)
  have meta: "meta_at E (fst ?V) ab (overwritten_md ab md i)"
    using dist by (intro meta_stored [OF L wf]) (simp_all add: g overwritten_md_def i(1) file_objects_def v1)
  have "file_at E ?V u fn ne ab (overwritten_md ab md i) [i] [content]"
    using p(1,2) entry_at_cong [of E u fn nm "fst ?V" "fst V" ne, OF nm o(1)]
      box_at_cong [of ?V ne V ab E, OF o(2,3) g(2)] meta chain by (simp add: file_at_def)
  then show ?thesis using nm dist i(2) by (auto simp: file_wf_def file_objects_def)
qed

lemma entry_found: "entry_at E objs u fn ne \<Longrightarrow> getNameSpaceEntryUUID E (Username u) fn = Inr nm \<Longrightarrow> objs nm \<noteq> None"
  by (auto simp: entry_at_def sealed_def)

lemma file_objects_used:
  assumes "file_at E V u fn ne ab md us cs" "getNameSpaceEntryUUID E (Username u) fn = Inr nm" "fst V i = None"
  shows "i \<notin> {nm, ne_AccessBoxUUID ne, ab_StatusUUID ab, ab_MetadataUUID ab} \<union> set us"
  using entry_found [OF file_at_parts(1) [OF assms(1)] assms(2)] chunk_chain_used [OF file_at_parts(4) [OF assms(1)], of i]
    file_at_parts(2,3) [OF assms(1)] assms(3)
  by (auto simp: box_at_def box_sealed_def status_at_def meta_at_def sealed_def)

text \<open>
  \<open>StoreFile\<close> on a name that exists replaces the content and advances the version by one. Of the
  store it changes the metadata and the chunks: the old ones are gone, one new one is there.
\<close>

lemma StoreFile_over_ideal:
  assumes I: "ideal_env E" and f: "file_wf E (w_ext w) u fn ne ab md us cs" and txn: "w_txnIDs w \<noteq> - 1"
    and v: "md_Version md \<noteq> - 1" and fresh: "fst (w_ext w) (uuid_New (e_lib E) (w_draws w)) = None"
    and far: "uuid_New (e_lib E) (w_draws w) \<noteq> ab_AccessBoxStructureUUID ab"
  obtains w' md' i where
    "StoreFileContext E u ctx fn content w = Some (Inr (), w')"
    "file_wf E (w_ext w') u fn ne ab md' [i] [content]" "md_Version md' = md_Version md + 1"
    "\<And>j. j \<noteq> ab_MetadataUUID ab \<Longrightarrow> j \<notin> set us \<Longrightarrow> j \<noteq> uuid_New (e_lib E) (w_draws w) \<Longrightarrow>
       fst (w_ext w') j = fst (w_ext w) j"
    "snd (w_ext w') = snd (w_ext w)" "w_draws w' = w_draws w + 3" "w_txnIDs w' = w_txnIDs w + 1"
    "\<And>j. j \<in> set us \<Longrightarrow> fst (w_ext w') j = None" "i = uuid_New (e_lib E) (w_draws w)"
proof -
  note L = ideal_envD(3) [OF I]
  define i where "i = uuid_New (e_lib E) (w_draws w)"
  from f obtain nm where f': "file_at E (w_ext w) u fn ne ab md us cs"
      and nm: "getNameSpaceEntryUUID E (Username u) fn = Inr nm" by (auto simp: file_wf_def)
  have fb: "file_at E (w_ext (bump w)) u fn ne ab md us cs" using f' by simp
  note r = file_reads [OF I fb]
  have iN: "i \<noteq> uuid_Nil" unfolding i_def by (rule lib_okD(9) [OF L])
  have "i \<notin> {nm, ne_AccessBoxUUID ne, ab_StatusUUID ab, ab_MetadataUUID ab} \<union> set us"
    by (rule file_objects_used [OF f' nm fresh [folded i_def]])
  then have iF: "i \<notin> set (file_objects nm ne ab us)" using far by (auto simp: file_objects_def i_def)
  then have new: "uuid_New (e_lib E) (w_draws (bump w)) \<notin> set us" by (simp add: file_objects_def i_def)
  obtain ek mk where ck: "deriveChunkKeys E (ab_FileRoot ab) i = Inr (ek, mk)"
    using box_keys [OF L] file_at_parts(2) [OF f'] unfolding box_at_def by metis
  have ck': "deriveChunkKeys E (ab_FileRoot ab) (uuid_New (e_lib E) (w_draws (bump w))) = Inr (ek, mk)"
    using ck by (simp add: i_def)
  define ws where "ws = overwrite_ws E ab md us content i (ek, mk) (Suc (w_draws w))"
  define w' where "w' = (bump w)\<lparr>w_draws := w_draws w + 3, w_ext := apply_writes ws (w_ext w)\<rparr>"
  have run: "overwriteExistingFileLocked E c ab content (bump w) = Some (Inr (), w')" for c
    using overwrite_ideal [OF I fb v new ck', of c content] by (simp add: w'_def ws_def i_def)
  obtain rs where rs: "namespaceResourceID E (Username u) fn = Inr rs" using r(1) ..
  obtain b where b: "fst (w_ext w) nm = Some b" using entry_found [OF file_at_parts(1) [OF f'] nm] by auto
  show thesis
  proof (rule that [of w' "overwritten_md ab md i" i])
    show "StoreFileContext E u ctx fn content w = Some (Inr (), w')"
      by (simp add: StoreFileContext_def exec I txn rs nm b bindE_run bump_def [symmetric] r(2,3) run)
    show "file_wf E (w_ext w') u fn ne ab (overwritten_md ab md i) [i] [content]"
      using overwrite_file [OF I f v iN iF nm ck] by (simp add: w'_def ws_def)
    show "md_Version (overwritten_md ab md i) = md_Version md + 1" by (simp add: overwritten_md_def)
    show "fst (w_ext w') j = fst (w_ext w) j"
      if "j \<noteq> ab_MetadataUUID ab" "j \<notin> set us" "j \<noteq> uuid_New (e_lib E) (w_draws w)" for j
      using that by (simp add: w'_def ws_def overwrite_ws_def apply_deletes i_def)
    show "fst (w_ext w') j = None" if "j \<in> set us" for j
      using that by (simp add: w'_def ws_def overwrite_ws_def apply_deletes)
  qed (simp_all add: w'_def ws_def overwrite_ws_def apply_deletes i_def)
qed

section \<open>Appending\<close>

definition appended_md :: "Metadata \<Rightarrow> uuid \<Rightarrow> Metadata" where
  "appended_md md i =
     \<lparr>md_FileID = md_FileID md, md_EpochID = md_EpochID md, md_Version = md_Version md + 1,
      md_TailUUID = i, md_ChunkCount = md_ChunkCount md + 1\<rparr>"

definition append_ws ::
  "'s env \<Rightarrow> AccessBox \<Rightarrow> Metadata \<Rightarrow> bytes \<Rightarrow> uuid \<Rightarrow> bytes \<times> bytes \<Rightarrow> nat \<Rightarrow> store_write list" where
  "append_ws E ab md content i ck d =
     [DSet i (seal E chunkObjectType i (Chunk_codec (e_uuid E))
        \<lparr>ck_FileID = ab_FileID ab, ck_EpochID = ab_EpochID ab, ck_Index = md_ChunkCount md,
         ck_PrevUUID = md_TailUUID md, ck_Content = content\<rparr> (fst ck) (snd ck) d),
      DSet (ab_MetadataUUID ab) (seal E metadataObjectType (ab_MetadataUUID ab) (Metadata_codec (e_uuid E))
        (appended_md md i) (ab_MetadataEncKey ab) (ab_MetadataMACKey ab) (Suc d))]"

lemma append_chunk_ideal:
  assumes I: "ideal_env E" and b: "box_wf ab" and v: "md_Version md \<noteq> - 1" "md_ChunkCount md \<noteq> - 1"
    and ck: "deriveChunkKeys E (ab_FileRoot ab) (uuid_New (e_lib E) (w_draws w)) = Inr (ek, mk)"
  shows "append_chunk E ctx ab md content w = Some (Inr (),
     w\<lparr>w_draws := w_draws w + 3, w_ext := apply_writes
         (append_ws E ab md content (uuid_New (e_lib E) (w_draws w)) (ek, mk) (Suc (w_draws w))) (w_ext w)\<rparr>)"
proof -
  note L = ideal_envD(3) [OF I]
  have ckl: "length ek = symmetricKeySize" "length mk = symmetricKeySize"
    using derive_pair_length [OF L ck [unfolded deriveChunkKeys_def]] by simp_all
  show ?thesis
    using b by (simp add: append_chunk_def exec ck L ckl lib_okD(9) [OF L] v nextMetadataVersion_def append_ws_def
        appended_md_def I numeral_eq_Suc box_wf_def)
qed

lemma append_file:
  assumes I: "ideal_env E" and f: "file_wf E V u fn ne ab md us cs"
    and v: "md_Version md \<noteq> - 1" "md_ChunkCount md \<noteq> - 1"
    and i: "i \<noteq> uuid_Nil" "i \<notin> set (file_objects nm ne ab us)"
    and nm: "getNameSpaceEntryUUID E (Username u) fn = Inr nm"
    and ck: "deriveChunkKeys E (ab_FileRoot ab) i = Inr (ek, mk)"
  shows "file_wf E (apply_writes (append_ws E ab md content i (ek, mk) d) V) u fn ne ab
      (appended_md md i) (i # us) (content # cs)"
proof -
  note L = ideal_envD(3) [OF I]
  let ?V = "apply_writes (append_ws E ab md content i (ek, mk) d) V"
  let ?ck = "\<lparr>ck_FileID = ab_FileID ab, ck_EpochID = ab_EpochID ab, ck_Index = md_ChunkCount md,
         ck_PrevUUID = md_TailUUID md, ck_Content = content\<rparr>"
  have f': "file_at E V u fn ne ab md us cs" using f by (simp add: file_wf_def)
  note p = file_at_parts [OF f']
  have dist: "distinct (file_objects nm ne ab us)" using f nm by (simp add: file_wf_def)
  have g: "fst ?V j = (if j = ab_MetadataUUID ab then
        Some (seal E metadataObjectType (ab_MetadataUUID ab) (Metadata_codec (e_uuid E))
          (appended_md md i) (ab_MetadataEncKey ab) (ab_MetadataMACKey ab) (Suc d))
      else if j = i then Some (seal E chunkObjectType i (Chunk_codec (e_uuid E)) ?ck ek mk d) else fst V j)"
    "snd ?V = snd V" for j
    by (simp_all add: append_ws_def)
  have o: "fst ?V nm = fst V nm" "fst ?V (ne_AccessBoxUUID ne) = fst V (ne_AccessBoxUUID ne)"
    "fst ?V (ab_StatusUUID ab) = fst V (ab_StatusUUID ab)" "\<And>j. j \<in> set us \<Longrightarrow> fst ?V j = fst V j"
    using dist i(2) by (auto simp: g file_objects_def)
  have wf: "box_wf ab" using p(2) by (simp add: box_at_def)
  have m: "md_ChunkCount md \<noteq> 0" "md_TailUUID md \<noteq> uuid_Nil" "md_FileID md = ab_FileID ab" "md_EpochID md = ab_EpochID ab"
    using p(3) by (simp_all add: meta_at_def)
  have "chunk_at E (fst ?V) ab i ?ck"
    using i by (intro chunk_stored [OF L ck i(1)]) (simp_all add: g file_objects_def)
  then have "chunk_chain E (fst ?V) ab (Suc (unat (md_ChunkCount md))) i (i # us) (ck_Content ?ck # cs)"
    using m i(2) chunk_chain_cong [OF p(4) o(4)] by (intro chain_more) (simp_all add: file_objects_def)
  moreover have "unat (md_ChunkCount md + 1) = Suc (unat (md_ChunkCount md))"
    using unatSuc [of "md_ChunkCount md"] version_next_nonzero [OF v(2)] by (simp add: add.commute)
  ultimately have chain: "chunk_chain E (fst ?V) ab (unat (md_ChunkCount (appended_md md i)))
      (md_TailUUID (appended_md md i)) (i # us) (content # cs)"
    by (simp add: appended_md_def)
  have meta: "meta_at E (fst ?V) ab (appended_md md i)"
    using dist m version_next_nonzero [OF v(1)] version_next_nonzero [OF v(2)]
    by (intro meta_stored [OF L wf]) (simp_all add: g appended_md_def i(1) file_objects_def)
  have "file_at E ?V u fn ne ab (appended_md md i) (i # us) (content # cs)"
    using p(1,2) entry_at_cong [of E u fn nm "fst ?V" "fst V" ne, OF nm o(1)]
      box_at_cong [of ?V ne V ab E, OF o(2,3) g(2)] meta chain by (simp add: file_at_def)
  then show ?thesis using nm dist i(2) by (auto simp: file_wf_def file_objects_def)
qed

text \<open>\<open>AppendToFile\<close> adds one chunk and advances the version by one.\<close>

lemma AppendToFile_ideal:
  assumes I: "ideal_env E" and f: "file_wf E (w_ext w) u fn ne ab md us cs" and txn: "w_txnIDs w \<noteq> - 1"
    and v: "md_Version md \<noteq> - 1" "md_ChunkCount md \<noteq> - 1" and c: "content \<noteq> []"
    and fresh: "fst (w_ext w) (uuid_New (e_lib E) (w_draws w)) = None"
    and far: "uuid_New (e_lib E) (w_draws w) \<noteq> ab_AccessBoxStructureUUID ab"
  obtains w' md' i where
    "AppendToFileContext E u ctx fn content w = Some (Inr (), w')"
    "file_wf E (w_ext w') u fn ne ab md' (i # us) (content # cs)"
    "md_Version md' = md_Version md + 1" "md_ChunkCount md' = md_ChunkCount md + 1"
    "\<And>j. j \<noteq> ab_MetadataUUID ab \<Longrightarrow> j \<noteq> uuid_New (e_lib E) (w_draws w) \<Longrightarrow> fst (w_ext w') j = fst (w_ext w) j"
    "snd (w_ext w') = snd (w_ext w)" "w_draws w' = w_draws w + 3" "w_txnIDs w' = w_txnIDs w + 1"
    "i = uuid_New (e_lib E) (w_draws w)"
proof -
  note L = ideal_envD(3) [OF I]
  define i where "i = uuid_New (e_lib E) (w_draws w)"
  from f obtain nm where f': "file_at E (w_ext w) u fn ne ab md us cs"
      and nm: "getNameSpaceEntryUUID E (Username u) fn = Inr nm" by (auto simp: file_wf_def)
  have fb: "file_at E (w_ext (bump w)) u fn ne ab md us cs" using f' by simp
  note r = file_reads [OF I fb]
  have iN: "i \<noteq> uuid_Nil" unfolding i_def by (rule lib_okD(9) [OF L])
  have wf: "box_wf ab" using file_at_parts(2) [OF f'] by (simp add: box_at_def)
  have "i \<notin> {nm, ne_AccessBoxUUID ne, ab_StatusUUID ab, ab_MetadataUUID ab} \<union> set us"
    by (rule file_objects_used [OF f' nm fresh [folded i_def]])
  then have iF: "i \<notin> set (file_objects nm ne ab us)" using far by (auto simp: file_objects_def i_def)
  obtain ek mk where ck: "deriveChunkKeys E (ab_FileRoot ab) i = Inr (ek, mk)" using box_keys [OF L wf] by metis
  have ck': "deriveChunkKeys E (ab_FileRoot ab) (uuid_New (e_lib E) (w_draws (bump w))) = Inr (ek, mk)"
    using ck by (simp add: i_def)
  define ws where "ws = append_ws E ab md content i (ek, mk) (Suc (w_draws w))"
  define w' where "w' = (bump w)\<lparr>w_draws := w_draws w + 3, w_ext := apply_writes ws (w_ext w)\<rparr>"
  have run: "append_chunk E c ab md content (bump w) = Some (Inr (), w')" for c
    using append_chunk_ideal [OF I wf v ck', of c content] by (simp add: w'_def ws_def i_def)
  obtain rs where rs: "namespaceResourceID E (Username u) fn = Inr rs" using r(1) ..
  show thesis
  proof (rule that [of w' "appended_md md i" i])
    show "AppendToFileContext E u ctx fn content w = Some (Inr (), w')"
      using c by (simp add: AppendToFileContext_def exec I txn rs bindE_run bump_def [symmetric] r(2-4) run)
    show "file_wf E (w_ext w') u fn ne ab (appended_md md i) (i # us) (content # cs)"
      using append_file [OF I f v iN iF nm ck] by (simp add: w'_def ws_def)
    show "fst (w_ext w') j = fst (w_ext w) j"
      if "j \<noteq> ab_MetadataUUID ab" "j \<noteq> uuid_New (e_lib E) (w_draws w)" for j
      using that by (simp add: w'_def ws_def append_ws_def i_def)
  qed (simp_all add: w'_def ws_def append_ws_def appended_md_def i_def)
qed

end
