(* ===== verification/Client_Refine.thy ===== *)
theory Client_Refine
  imports Client_Update
begin

text \<open>
  The client on a real store against the client on the ideal store. \<open>sim\<close> relates an operation
  on a backend to the same operation on the ideal store: what it returns, what it leaves in the
  store, and that a failed operation has left the store alone or done all of its work. The locale
  \<open>client_backend\<close> has the laws of a backend that this needs; it derives the relation for every
  operation of the client.
\<close>

section \<open>Simulation\<close>

definition pr :: "('s \<Rightarrow> store_view) \<Rightarrow> 's world \<Rightarrow> store_view world" where
  "pr V w = \<lparr>w_ext = V (w_ext w), w_draws = w_draws w, w_txnIDs = w_txnIDs w, w_mutex = None\<rparr>"

lemma pr_simps [simp]:
  "w_ext (pr V w) = V (w_ext w)" "w_draws (pr V w) = w_draws w" "w_txnIDs (pr V w) = w_txnIDs w"
  "pr V (w\<lparr>w_draws := d\<rparr>) = (pr V w)\<lparr>w_draws := d\<rparr>" "pr V (w\<lparr>w_txnIDs := x\<rparr>) = (pr V w)\<lparr>w_txnIDs := x\<rparr>"
  "pr V (w\<lparr>w_ext := s\<rparr>) = (pr V w)\<lparr>w_ext := V s\<rparr>" "pr V (w\<lparr>w_mutex := m\<rparr>) = pr V w"
  "(pr V w)\<lparr>w_ext := V (w_ext w)\<rparr> = pr V w"
  by (simp_all add: pr_def)

text \<open>
  From a state with \<open>P\<close>: a success ends in \<open>Q\<close> and is the ideal one; an error ends in \<open>R\<close> with the
  store as it was, or with all that the ideal operation does (unless \<open>ro\<close>: the operation only
  reads). If the backend never fails (\<open>tot\<close>), also the errors and the waiting are the ideal ones.
\<close>

definition agrees ::
  "('s \<Rightarrow> store_view) \<Rightarrow> bool \<Rightarrow> bool \<Rightarrow> ('s \<Rightarrow> bool) \<Rightarrow> ('s \<Rightarrow> bool) \<Rightarrow> store_view
   \<Rightarrow> ((error + 'a) \<times> 's world) option \<Rightarrow> ((error + 'a) \<times> store_view world) option \<Rightarrow> bool" where
  "agrees V tot ro Q R v out out' \<longleftrightarrow>
     (case out of
        None \<Rightarrow> tot \<longrightarrow> out' = None
      | Some (Inr x, w1) \<Rightarrow> Q (w_ext w1) \<and> out' = Some (Inr x, pr V w1) \<and> (ro \<longrightarrow> V (w_ext w1) = v)
      | Some (Inl e, w1) \<Rightarrow> R (w_ext w1) \<and>
          (V (w_ext w1) = v \<or> \<not> ro \<and> (\<exists>x w2. out' = Some (Inr x, w2) \<and> w_ext w2 = V (w_ext w1))) \<and>
          (tot \<longrightarrow> out' = Some (Inl e, pr V w1)))"

lemma agrees_simps [simp]:
  "agrees V tot ro Q R v None out1 \<longleftrightarrow> (tot \<longrightarrow> out1 = None)"
  "agrees V tot ro Q R v (Some (Inr x, w1)) out2 \<longleftrightarrow>
     Q (w_ext w1) \<and> out2 = Some (Inr x, pr V w1) \<and> (ro \<longrightarrow> V (w_ext w1) = v)"
  "agrees V tot ro Q R v (Some (Inl e, w2)) out3 \<longleftrightarrow> R (w_ext w2) \<and>
     (V (w_ext w2) = v \<or> \<not> ro \<and> (\<exists>x w3. out3 = Some (Inr x, w3) \<and> w_ext w3 = V (w_ext w2))) \<and>
     (tot \<longrightarrow> out3 = Some (Inl e, pr V w2))"
  by (simp_all add: agrees_def)

definition sim ::
  "('s \<Rightarrow> store_view) \<Rightarrow> bool \<Rightarrow> bool \<Rightarrow> ('s \<Rightarrow> bool) \<Rightarrow> ('s \<Rightarrow> bool) \<Rightarrow> ('s \<Rightarrow> bool)
   \<Rightarrow> ('s, 'a) op \<Rightarrow> (store_view, 'a) op \<Rightarrow> bool" where
  "sim V tot ro P Q R m m' \<longleftrightarrow>
     (\<forall>w. P (w_ext w) \<longrightarrow> agrees V tot ro Q R (V (w_ext w)) (m w) (m' (pr V w)))"

lemma simI:
  "(\<And>w. P (w_ext w) \<Longrightarrow> agrees V tot ro Q R (V (w_ext w)) (m w) (m' (pr V w))) \<Longrightarrow> sim V tot ro P Q R m m'"
  by (simp add: sim_def)

lemma simD: "sim V tot ro P Q R m m' \<Longrightarrow> P (w_ext w) \<Longrightarrow> agrees V tot ro Q R (V (w_ext w)) (m w) (m' (pr V w))"
  by (simp add: sim_def)

lemma out_cases:
  obtains (nothing) "out = None" | (failed) e w where "out = Some (Inl e, w)" | (done_) x w where "out = Some (Inr x, w)"
  by (cases out) (auto, metis sum.exhaust)

text \<open>Sequencing after a reading step; \<open>G\<close> is what is known of the values that step may return.\<close>

lemma sim_bind_res:
  assumes "sim V tot True P Q R m m'" "\<And>w w1 x. m w = Some (Inr x, w1) \<Longrightarrow> G x"
    "\<And>x. G x \<Longrightarrow> sim V tot ro Q Q' R (f x) (f' x)"
  shows "sim V tot ro P Q' R (bindE m f) (bindE m' f')"
proof (rule simI)
  fix w :: "'a world"
  assume "P (w_ext w)"
  note m = simD [OF assms(1) this]
  show "agrees V tot ro Q' R (V (w_ext w)) (bindE m f w) (bindE m' f' (pr V w))"
  proof (cases "m w" rule: out_cases)
    case nothing
    with m show ?thesis by (simp add: bindE_def)
  next
    case (failed e w1)
    with m show ?thesis by (auto simp: bindE_def)
  next
    case (done_ x w1)
    with m have "Q (w_ext w1)" "V (w_ext w1) = V (w_ext w)" "m' (pr V w) = Some (Inr x, pr V w1)" by simp_all
    with simD [OF assms(3) [OF assms(2) [OF done_]], of w1] done_ show ?thesis by (simp add: bindE_def)
  qed
qed

lemma sim_bind:
  assumes "sim V tot True P Q R m m'" "\<And>x. sim V tot ro Q Q' R (f x) (f' x)"
  shows "sim V tot ro P Q' R (bindE m f) (bindE m' f')"
  by (rule sim_bind_res [where G = "\<lambda>_. True", OF assms(1) _ assms(2)]) simp

lemma sim_ro:
  assumes "sim V tot True P Q R m m'" shows "sim V tot False P Q R m m'"
proof (rule simI)
  fix w :: "'a world"
  assume "P (w_ext w)"
  from simD [OF assms this] show "agrees V tot False Q R (V (w_ext w)) (m w) (m' (pr V w))"
    by (cases "m w" rule: out_cases) auto
qed

lemma sim_weaken:
  assumes "sim V tot ro P Q R m m'" "\<And>s. P0 s \<Longrightarrow> P s" "\<And>s. Q s \<Longrightarrow> Q0 s" "\<And>s. R s \<Longrightarrow> R0 s"
  shows "sim V tot ro P0 Q0 R0 m m'"
proof (rule simI)
  fix w :: "'a world"
  assume "P0 (w_ext w)"
  from simD [OF assms(1) assms(2) [OF this]] assms(3,4)
  show "agrees V tot ro Q0 R0 (V (w_ext w)) (m w) (m' (pr V w))"
    by (cases "m w" rule: out_cases) auto
qed

lemma sim_post: "sim V tot ro P Q R m m' \<Longrightarrow> (\<And>s. Q s \<Longrightarrow> Q0 s) \<Longrightarrow> sim V tot ro P Q0 R m m'"
  by (rule sim_weaken)

text \<open>A reading step at a known view, and what it returns there.\<close>

lemma sim_view: "(\<And>v. sim V tot ro (\<lambda>s. P s \<and> V s = v) Q R m m') \<Longrightarrow> sim V tot ro P Q R m m'"
  by (simp add: sim_def)

lemma sim_at:
  assumes "sim V tot True P P R m m'"
  shows "sim V tot True (\<lambda>s. P s \<and> V s = v) (\<lambda>s. P s \<and> V s = v) R m m'"
proof (rule simI)
  fix w :: "'a world"
  assume "P (w_ext w) \<and> V (w_ext w) = v"
  with simD [OF assms, of w]
  show "agrees V tot True (\<lambda>s. P s \<and> V s = v) R (V (w_ext w)) (m w) (m' (pr V w))"
    by (cases "m w" rule: out_cases) auto
qed

lemma sim_bind_at:
  assumes "sim V tot True P P R m m'" "\<And>w w1 x. w_ext w = v \<Longrightarrow> m' w = Some (Inr x, w1) \<Longrightarrow> G x"
    "\<And>x. G x \<Longrightarrow> sim V tot ro (\<lambda>s. P s \<and> V s = v) Q' R (f x) (f' x)"
  shows "sim V tot ro (\<lambda>s. P s \<and> V s = v) Q' R (bindE m f) (bindE m' f')"
proof (rule simI)
  fix w :: "'a world"
  assume w: "P (w_ext w) \<and> V (w_ext w) = v"
  then have m: "agrees V tot True P R v (m w) (m' (pr V w))" using simD [OF assms(1), of w] by simp
  show "agrees V tot ro Q' R (V (w_ext w)) (bindE m f w) (bindE m' f' (pr V w))"
  proof (cases "m w" rule: out_cases)
    case nothing
    with m show ?thesis by (simp add: bindE_def)
  next
    case (failed e w1)
    with m w show ?thesis by (auto simp: bindE_def)
  next
    case (done_ x w1)
    with m have 1: "P (w_ext w1)" "V (w_ext w1) = v" "m' (pr V w) = Some (Inr x, pr V w1)" by simp_all
    have "G x" using assms(2) [OF _ 1(3)] w by simp
    from simD [OF assms(3) [OF this], of w1] 1 done_ w show ?thesis by (simp add: bindE_def)
  qed
qed

lemma sim_return: "sim V tot ro P P R (returnE x) (returnE x)"
  by (simp add: sim_def returnE_def)

lemma sim_raise: "(\<And>s. P s \<Longrightarrow> R s) \<Longrightarrow> sim V tot ro P Q R (raiseE e) (raiseE e)"
  by (simp add: sim_def raiseE_def)

lemma sim_then_return:
  assumes "sim V tot False P Q R m m'"
  shows "sim V tot False P Q R (bindE m (\<lambda>_. returnE x)) (bindE m' (\<lambda>_. returnE x))"
proof (rule simI)
  fix w :: "'a world"
  assume "P (w_ext w)"
  from simD [OF assms this]
  show "agrees V tot False Q R (V (w_ext w)) (bindE m (\<lambda>_. returnE x) w) (bindE m' (\<lambda>_. returnE x) (pr V w))"
    by (cases "m w" rule: out_cases) (auto simp: bindE_def returnE_def)
qed

lemma sim_fail_if: "(\<And>s. P s \<Longrightarrow> R s) \<Longrightarrow> sim V tot ro P P R (fail_if b msg) (fail_if b msg)"
  by (simp add: sim_def fail_if_def raiseE_def returnE_def)

lemma sim_or_fail: "(\<And>s. P s \<Longrightarrow> R s) \<Longrightarrow> sim V tot ro P P R (or_fail v msg) (or_fail v msg)"
  by (cases v) (simp_all add: sim_def or_fail_def raiseE_def returnE_def)

lemma sim_liftE: "(\<And>s. P s \<Longrightarrow> R s) \<Longrightarrow> sim V tot ro P P R (liftE r) (liftE r)"
  by (cases r) (simp_all add: sim_def liftE_def)

lemma sim_draw: "sim V tot ro P P R (draw g) (draw g)"
  by (simp add: sim_def draw_def)

lemma sim_draw_err: "(\<And>s. P s \<Longrightarrow> R s) \<Longrightarrow> sim V tot ro P P R (draw_err g) (draw_err g)"
  by (rule simI, rename_tac w, case_tac "g (w_draws w)") (simp_all add: draw_err_def)

lemma bindE_liftE_Inr: "bindE (liftE (Inr x)) f = f x"
  by (simp add: bindE_def liftE_def fun_eq_iff)

text \<open>The result of a pure step is known to what follows.\<close>

lemma sim_bind_liftE:
  assumes "\<And>s. P s \<Longrightarrow> R s" "\<And>x. r = Inr x \<Longrightarrow> sim V tot ro P Q R (f x) (f' x)"
  shows "sim V tot ro P Q R (bindE (liftE r) f) (bindE (liftE r) f')"
proof (cases r)
  case (Inl e)
  with assms(1) show ?thesis by (simp add: sim_def bindE_def liftE_def)
next
  case (Inr x)
  with assms(2) [OF Inr] show ?thesis by (simp add: bindE_liftE_Inr)
qed

lemma sim_bind_fail_if:
  "(\<And>s. P s \<Longrightarrow> R s) \<Longrightarrow> (\<not> b \<Longrightarrow> sim V tot ro P Q R (f ()) (f' ())) \<Longrightarrow>
   sim V tot ro P Q R (bindE (fail_if b msg) f) (bindE (fail_if b msg) f')"
  by (cases b) (simp_all add: sim_def bindE_def fail_if_def raiseE_def returnE_def)

lemma sim_case_prod:
  "(\<And>a b. p = (a, b) \<Longrightarrow> sim V tot ro P Q R (f a b) (f' a b)) \<Longrightarrow>
   sim V tot ro P Q R (case p of (a, b) \<Rightarrow> f a b) (case p of (a, b) \<Rightarrow> f' a b)"
  by (cases p) simp

lemma sim_if:
  "(b \<Longrightarrow> sim V tot ro P Q R m m') \<Longrightarrow> (\<not> b \<Longrightarrow> sim V tot ro P Q R n n') \<Longrightarrow>
   sim V tot ro P Q R (if b then m else n) (if b then m' else n')"
  by simp

lemma sim_Let: "(\<And>x. x = v \<Longrightarrow> sim V tot ro P Q R (f x) (f' x)) \<Longrightarrow>
   sim V tot ro P Q R (let x = v in f x) (let x = v in f' x)"
  by (simp add: Let_def)

lemma sim_case_option:
  "(v = None \<Longrightarrow> sim V tot ro P Q R m m') \<Longrightarrow> (\<And>x. v = Some x \<Longrightarrow> sim V tot ro P Q R (f x) (f' x)) \<Longrightarrow>
   sim V tot ro P Q R (case v of None \<Rightarrow> m | Some x \<Rightarrow> f x) (case v of None \<Rightarrow> m' | Some x \<Rightarrow> f' x)"
  by (cases v) simp_all

lemma sim_case_sum:
  "(\<And>e. v = Inl e \<Longrightarrow> sim V tot ro P Q R (f e) (f' e)) \<Longrightarrow> (\<And>x. v = Inr x \<Longrightarrow> sim V tot ro P Q R (g x) (g' x)) \<Longrightarrow>
   sim V tot ro P Q R (case v of Inl e \<Rightarrow> f e | Inr x \<Rightarrow> g x) (case v of Inl e \<Rightarrow> f' e | Inr x \<Rightarrow> g' x)"
  by (cases v) simp_all

section \<open>What a step can return\<close>

definition yields :: "('a \<Rightarrow> bool) \<Rightarrow> ('s, 'a) op \<Rightarrow> bool" where
  "yields G m \<longleftrightarrow> (\<forall>w x w1. m w = Some (Inr x, w1) \<longrightarrow> G x)"

lemma yields_bind_res: "yields H m \<Longrightarrow> (\<And>x. H x \<Longrightarrow> yields G (f x)) \<Longrightarrow> yields G (bindE m f)"
  unfolding yields_def bindE_def by (fastforce split: option.splits sum.splits prod.splits)

lemma yields_bind: "(\<And>x. yields G (f x)) \<Longrightarrow> yields G (bindE m f)"
  by (rule yields_bind_res [of "\<lambda>_. True"]) (simp_all add: yields_def)

lemma yields_return: "G x \<Longrightarrow> yields G (returnE x)"
  by (simp add: yields_def returnE_def)

lemma yields_case_prod: "(\<And>a b. yields G (f a b)) \<Longrightarrow> yields G (case p of (a, b) \<Rightarrow> f a b)"
  by (cases p) simp

lemma yields_Let: "(\<And>x. yields G (f x)) \<Longrightarrow> yields G (let x = v in f x)"
  by simp

lemmas yields_intros = yields_bind yields_return yields_case_prod yields_Let

fun is_object_write :: "store_write \<Rightarrow> bool" where
  "is_object_write (KSet _ _) = False"
| "is_object_write _ = True"

abbreviation object_writes :: "store_write list \<Rightarrow> bool" where
  "object_writes \<equiv> list_all is_object_write"

lemma can_object_writes: "object_writes ws \<Longrightarrow> can_writes ws v"
proof (induction ws arbitrary: v)
  case (Cons w ws)
  then show ?case by (cases w) simp_all
qed simp

lemma object_deletes [simp]: "object_writes (map DDelete is)"
  by (induction "is") simp_all

lemma writes_yield:
  "yields object_writes (new_file_writes E u content i ids nm nk)"
  "yields (\<lambda>(_, ws). object_writes ws) (rotate_file E ab md content)"
  "yields object_writes (surviving_writes E ab bs n ns)"
proof -
  show "yields object_writes (new_file_writes E u content i ids nm nk)"
    unfolding new_file_writes_def by (intro yields_intros) simp
  show "yields (\<lambda>(_, ws). object_writes ws) (rotate_file E ab md content)"
    unfolding rotate_file_def by (intro yields_intros) simp
  show "yields object_writes (surviving_writes E ab bs n ns)"
  proof (induction ns)
    case (Cons k ns)
    have "yields object_writes (bindE (surviving_writes E ab bs n ns) (\<lambda>writes. returnE (DSet j b # writes)))" for j b
      by (rule yields_bind_res [OF Cons]) (simp add: yields_return)
    with Cons show ?case by (auto intro: yields_bind split: option.split)
  qed (simp add: yields_return)
qed

lemma owner_branch_box_yields: "yields (\<lambda>(_, ws). object_writes ws) (owner_branch_box E c ne ab n)"
  unfolding owner_branch_box_def Let_def
proof (rule yields_bind, rule yields_bind_res [where H = "\<lambda>(_, ws). object_writes ws"], goal_cases)
  case (1 st)
  show ?case
  proof (cases "map_of (boxes_of st) n")
    case None
    then show ?thesis by (simp, intro yields_bind yields_return) simp
  next
    case (Some br)
    then show ?thesis by (simp add: yields_return)
  qed
next
  case (2 st x)
  then show ?case by (cases x) (simp, intro yields_bind yields_return, simp)
qed

lemma granted_box_yields: "yields (\<lambda>(_, ws). object_writes ws) (granted_box E c ne ab n)"
  by (simp add: granted_box_def yields_return owner_branch_box_yields)

lemma revoke_writes_yield:
  "object_writes fw \<Longrightarrow> yields object_writes (revoke_writes E u ne ab st n br us (ab', fw))"
  unfolding revoke_writes_def
  by (simp, intro yields_bind yields_bind_res [OF writes_yield(3)] yields_return) simp

section \<open>The ideal environment of an environment\<close>

lemma ideal_atomic:
  "can_writes ws v \<Longrightarrow> storage_RunAtomic c ideal_storage (do_writes ideal_storage ws) v = (None, apply_writes ws v)"
  using do_writes_ideal(1) [of ws v c] by (simp add: storage_RunAtomic_def) (simp add: ideal_storage_def)

definition ideal_backend :: "store_view Backend" where
  "ideal_backend = \<lparr>Backend_Begin = (\<lambda>t s. (None, s)), Guard_Acquire = (\<lambda>t r m s. Some (None, s)),
     Guard_AcquireContext = (\<lambda>c t r m s. Some (None, s)), Guard_ReleaseAll = (\<lambda>t s. s), FenceGrants = None\<rparr>"

definition ideal_of :: "'s env \<Rightarrow> store_view env" where
  "ideal_of E = \<lparr>e_storage = ideal_storage, e_coordination = ideal_backend, e_strategy = StrategyNoCC,
     e_lib = e_lib E, e_uuid = e_uuid E, e_disableFenceValidation = e_disableFenceValidation E,
     e_order = e_order E\<rparr>"

lemma ideal_of_simps [simp]:
  "e_lib (ideal_of E) = e_lib E" "e_uuid (ideal_of E) = e_uuid E" "e_order (ideal_of E) = e_order E"
  "e_storage (ideal_of E) = ideal_storage" "e_strategy (ideal_of E) = StrategyNoCC"
  by (simp_all add: ideal_of_def)

lemma ideal_env_of: "lib_ok (e_lib E) \<Longrightarrow> uuid_ok (e_uuid E) \<Longrightarrow> ideal_env (ideal_of E)"
  by (simp add: ideal_env_def)

lemma fresh_uuid_lib:
  assumes "fresh_uuid E old d = Some y" "e_lib E' = e_lib E"
  shows "fresh_uuid E' old d = Some y"
  using assms(2)
proof (induct rule: fresh_uuid.raw_induct [OF _ assms(1)])
  case (1 f E old d y)
  then show ?case
    by (cases "uuid_New (e_lib E) d \<notin> set old") (auto simp: fresh_uuid_step [of E' old d])
qed

lemma ideal_fresh_uuid [simp]: "fresh_uuid (ideal_of E) old d = fresh_uuid E old d"
  using fresh_uuid_lib [of E old d _ "ideal_of E"] fresh_uuid_lib [of "ideal_of E" old d _ E]
  by (cases "fresh_uuid E old d"; cases "fresh_uuid (ideal_of E) old d") simp_all

lemma ideal_pure [simp]:
  "getUserUUID (ideal_of E) n = getUserUUID E n" "publicKeyName (ideal_of E) dm n = publicKeyName E dm n"
  "deriveAccountKey (ideal_of E) n pw i = deriveAccountKey E n pw i"
  "accountMACMessage (ideal_of E) i b = accountMACMessage E i b"
  "getNameSpaceEntryUUID (ideal_of E) n fn = getNameSpaceEntryUUID E n fn"
  "namespaceResourceID (ideal_of E) n fn = namespaceResourceID E n fn"
  "fileResourceID (ideal_of E) i = fileResourceID E i"
  "derive_pair (ideal_of E) b msg p q = derive_pair E b msg p q"
  "datastoreObjectMACMessage (ideal_of E) ty i b = datastoreObjectMACMessage E ty i b"
  "getAccessBoxCommitment (ideal_of E) ab = getAccessBoxCommitment E ab"
  "getFileStatusSignatureMessage (ideal_of E) i fb = getFileStatusSignatureMessage E i fb"
  "getInvitationIdentity (ideal_of E) n = getInvitationIdentity E n"
  "getInvitationMACMessage (ideal_of E) i b = getInvitationMACMessage E i b"
  "getInvitationSignatureMessage (ideal_of E) i sf = getInvitationSignatureMessage E i sf"
  by (simp_all add: getUserUUID_def publicKeyName_def deriveAccountKey_def accountMACMessage_def
      getNameSpaceEntryUUID_def namespaceResourceID_def fileResourceID_def derive_pair_def
      datastoreObjectMACMessage_def getAccessBoxCommitment_def getFileStatusSignatureMessage_def
      getInvitationIdentity_def getInvitationMACMessage_def getInvitationSignatureMessage_def)

lemma ideal_pure2 [simp]:
  "getPKEKeyName (ideal_of E) n = getPKEKeyName E n" "getVerifyKeyName (ideal_of E) n = getVerifyKeyName E n"
  "deriveNamespaceEntryKeys (ideal_of E) b fn = deriveNamespaceEntryKeys E b fn"
  "deriveChunkKeys (ideal_of E) b i = deriveChunkKeys E b i"
  "deriveInvitationKeys (ideal_of E) b i = deriveInvitationKeys E b i"
  "new_file_box (ideal_of E) u i ids = new_file_box E u i ids"
  "invitation_payload (ideal_of E) n n' ab br = invitation_payload E n n' ab br"
  by (simp_all add: getPKEKeyName_def getVerifyKeyName_def deriveNamespaceEntryKeys_def deriveChunkKeys_def
      deriveInvitationKeys_def new_file_box_def invitation_payload_def)

section \<open>The laws of a backend\<close>

text \<open>
  \<open>ph t p\<close>: transaction \<open>t\<close> is in phase \<open>p\<close> of its two-phase locking (0: begun, 1: namespace lock
  held, 2: file lock held too); \<open>idle\<close>: between operations. Reads may fail but do not lie; a group
  of writes that can be made is made completely or not at all; taking and releasing locks leaves
  the objects and keys alone. If \<open>total\<close>, nothing fails and no lock is waited for.
\<close>

locale client_backend =
  fixes E :: "'s env" and V :: "'s \<Rightarrow> store_view" and idle :: "'s \<Rightarrow> bool"
    and ph :: "TxnID \<Rightarrow> nat \<Rightarrow> 's \<Rightarrow> bool" and total :: bool and live :: "go_context \<Rightarrow> bool"
  assumes strategy: "e_strategy E = StrategySaferCC"
    and live: "live Background"
    and get: "ph t p s \<or> idle s \<Longrightarrow> Objects_Get (e_storage E) c i s = (r, s') \<Longrightarrow>
      (ph t p s \<longrightarrow> ph t p s') \<and> (idle s \<longrightarrow> idle s') \<and> V s' = V s \<and>
      (case r of Inr x \<Rightarrow> x = fst (V s) i | Inl e \<Rightarrow> \<not> total)"
    and getk: "ph t p s \<or> idle s \<Longrightarrow> Keys_Get (e_storage E) c n s = (rk, s') \<Longrightarrow>
      (ph t p s \<longrightarrow> ph t p s') \<and> (idle s \<longrightarrow> idle s') \<and> V s' = V s \<and>
      (case rk of Inr x \<Rightarrow> x = snd (V s) n | Inl e \<Rightarrow> \<not> total)"
    and atomic: "ph t p s \<or> idle s \<Longrightarrow> can_writes ws (V s) \<Longrightarrow>
      storage_RunAtomic c (e_storage E) (do_writes (e_storage E) ws) s = (e, s') \<Longrightarrow>
      (ph t p s \<longrightarrow> ph t p s') \<and> (idle s \<longrightarrow> idle s') \<and>
      (case e of None \<Rightarrow> V s' = apply_writes ws (V s)
       | Some _ \<Rightarrow> \<not> total \<and> (V s' = V s \<or> V s' = apply_writes ws (V s)))"
    and begins: "idle s \<Longrightarrow> Backend_Begin (e_coordination E) t s = (e, s') \<Longrightarrow> V s' = V s \<and>
      (case e of None \<Rightarrow> ph t 0 s' | Some _ \<Rightarrow> \<not> total \<and> idle s')"
    and acquire: "ph t p s \<Longrightarrow> (RType r' = NamespaceResource \<and> p = 0 \<or> RType r' = FileResource \<and> p = 1) \<Longrightarrow>
      m = SharedLock \<or> m = ExclusiveLock \<Longrightarrow>
      (case Guard_Acquire (e_coordination E) t r' m s of None \<Rightarrow> \<not> total
       | Some (None, s') \<Rightarrow> V s' = V s \<and> ph t (Suc p) s'
       | Some (Some e, s') \<Rightarrow> V s' = V s \<and> \<not> total \<and> ph t p s')"
    and acquire_ctx: "ph t p s \<Longrightarrow> (RType r' = NamespaceResource \<and> p = 0 \<or> RType r' = FileResource \<and> p = 1) \<Longrightarrow>
      m = SharedLock \<or> m = ExclusiveLock \<Longrightarrow> live gc \<Longrightarrow>
      (case Guard_AcquireContext (e_coordination E) gc t r' m s of None \<Rightarrow> \<not> total
       | Some (None, s') \<Rightarrow> V s' = V s \<and> ph t (Suc p) s'
       | Some (Some e, s') \<Rightarrow> V s' = V s \<and> \<not> total \<and> ph t p s')"
    and release: "ph t p s \<Longrightarrow> idle (Guard_ReleaseAll (e_coordination E) t s) \<and>
      V (Guard_ReleaseAll (e_coordination E) t s) = V s"
begin

abbreviation held_by :: "TxnID \<Rightarrow> 's \<Rightarrow> bool" where
  "held_by t s \<equiv> \<exists>p. ph t p s"

text \<open>A step that only reads.\<close>

abbreviation reads :: "('s \<Rightarrow> bool) \<Rightarrow> ('s \<Rightarrow> bool) \<Rightarrow> ('s, 'a) op \<Rightarrow> (store_view, 'a) op \<Rightarrow> bool" where
  "reads P R \<equiv> sim V total True P P R"

text \<open>The states in which the store may be used, and what an error leaves.\<close>

definition usable :: "('s \<Rightarrow> bool) \<Rightarrow> ('s \<Rightarrow> bool) \<Rightarrow> bool" where
  "usable P R \<longleftrightarrow> P = idle \<and> R = idle \<or> (\<exists>t p. P = ph t p \<and> R = held_by t)"

lemma usable_simps [simp]: "usable idle idle" "usable (ph t p) (held_by t)"
  by (auto simp: usable_def)

lemma usable_err: "usable P R \<Longrightarrow> P s \<Longrightarrow> R s"
  by (auto simp: usable_def)

lemma sim_get: "usable P R \<Longrightarrow> reads P R (datastoreGet E c i) (datastoreGet (ideal_of E) c' i)"
proof (rule simI)
  fix w :: "'s world"
  assume u: "usable P R" and P: "P (w_ext w)"
  obtain r s' where o: "Objects_Get (e_storage E) c i (w_ext w) = (r, s')" by fastforce
  have "(P s' \<longrightarrow> R s') \<and> P s' \<and> V s' = V (w_ext w) \<and> (case r of Inr x \<Rightarrow> x = fst (V (w_ext w)) i | Inl e \<Rightarrow> \<not> total)"
    using u P get [OF _ o] usable_err [OF u] unfolding usable_def by blast
  then show "agrees V total True P R (V (w_ext w)) (datastoreGet E c i w) (datastoreGet (ideal_of E) c' i (pr V w))"
    using o by (cases r) (simp_all add: datastoreGet_def on_ext_def ideal_storage_def)
qed

lemma sim_getk: "usable P R \<Longrightarrow> reads P R (keystoreGet E c n) (keystoreGet (ideal_of E) c' n)"
proof (rule simI)
  fix w :: "'s world"
  assume u: "usable P R" and P: "P (w_ext w)"
  obtain r s' where o: "Keys_Get (e_storage E) c n (w_ext w) = (r, s')" by fastforce
  have "(P s' \<longrightarrow> R s') \<and> P s' \<and> V s' = V (w_ext w) \<and> (case r of Inr x \<Rightarrow> x = snd (V (w_ext w)) n | Inl e \<Rightarrow> \<not> total)"
    using u P getk [OF _ o] usable_err [OF u] unfolding usable_def by blast
  then show "agrees V total True P R (V (w_ext w)) (keystoreGet E c n w) (keystoreGet (ideal_of E) c' n (pr V w))"
    using o by (cases r) (simp_all add: keystoreGet_def on_ext_def ideal_storage_def)
qed

lemma sim_atomic:
  assumes u: "usable P R" and can: "\<And>v. can_writes ws v"
  shows "sim V total False P P R (runAtomicStorage E c ws) (runAtomicStorage (ideal_of E) c' ws)"
proof (rule simI)
  fix w :: "'s world"
  assume P: "P (w_ext w)"
  obtain e s' where o: "storage_RunAtomic c (e_storage E) (do_writes (e_storage E) ws) (w_ext w) = (e, s')" by fastforce
  have "(P s' \<longrightarrow> R s') \<and> P s' \<and> (case e of None \<Rightarrow> V s' = apply_writes ws (V (w_ext w))
      | Some _ \<Rightarrow> \<not> total \<and> (V s' = V (w_ext w) \<or> V s' = apply_writes ws (V (w_ext w))))"
    using u P atomic [OF _ can o] usable_err [OF u] unfolding usable_def by blast
  then show "agrees V total False P R (V (w_ext w)) (runAtomicStorage E c ws w)
      (runAtomicStorage (ideal_of E) c' ws (pr V w))"
    using o by (cases e) (auto simp: runAtomicStorage_def on_ext_err_def on_ext_def ideal_atomic [OF can])
qed

text \<open>Locks: the ideal operation takes none.\<close>

lemma sim_lock_phase:
  assumes "case out of None \<Rightarrow> \<not> total | Some (None, s') \<Rightarrow> V s' = V s \<and> ph t (Suc p) s'
       | Some (Some e, s') \<Rightarrow> V s' = V s \<and> \<not> total \<and> ph t p s'" "s = w_ext w"
  shows "agrees V total True (ph t (Suc p)) (held_by t) (V s)
     (map_option (\<lambda>(e, s). (case e of None \<Rightarrow> Inr () | Some x \<Rightarrow> Inl x, w\<lparr>w_ext := s\<rparr>)) out) (Some (Inr (), pr V w))"
proof (cases out)
  case (Some o1)
  obtain e s' where "o1 = (e, s')" by (cases o1)
  with Some assms show ?thesis by (cases e) auto
qed (use assms in simp)

lemma sim_acquire:
  assumes "RType r = NamespaceResource \<and> p = 0 \<or> RType r = FileResource \<and> p = 1" "m = SharedLock \<or> m = ExclusiveLock"
  shows "sim V total True (ph t p) (ph t (Suc p)) (held_by t) (acquire_lock E (BackendGuard t) r m)
    (acquire_lock (ideal_of E) NoCCGuard r m)"
  using sim_lock_phase [OF acquire [OF _ assms]] by (intro simI) (simp add: on_ext_wait_def returnE_def)

lemma sim_acquire_ctx:
  assumes "RType r = NamespaceResource \<and> p = 0 \<or> RType r = FileResource \<and> p = 1" "m = SharedLock \<or> m = ExclusiveLock"
    "live (oc_ctx c)"
  shows "sim V total True (ph t p) (ph t (Suc p)) (held_by t) (acquire_lock_ctx E c (BackendGuard t) r m)
    (acquire_lock_ctx (ideal_of E) c' NoCCGuard r m)"
  using sim_lock_phase [OF acquire_ctx [OF _ assms]] by (intro simI) (simp add: on_ext_wait_def returnE_def)

text \<open>The fencing grants change the context only, and the ideal store does not look at it.\<close>

lemma sim_fence:
  assumes "\<And>d d'. oc_ctx d = oc_ctx c \<Longrightarrow> sim V total ro P Q R (f d) (f' d')"
  shows "sim V total ro P Q R (bindE (withFenceGrants E c g) f) (bindE (withFenceGrants (ideal_of E) c' g') f')"
proof (rule simI)
  fix w :: "'s world"
  assume P: "P (w_ext w)"
  obtain d where d: "bindE (withFenceGrants E c g) f w = f d w" "oc_ctx d = oc_ctx c"
    by (rule that [of "projr (fst (the (withFenceGrants E c g w)))"])
       (simp_all add: bindE_def withFenceGrants_def Let_def WithoutValidationForTest_def WithGrants_def)
  obtain d' where d': "bindE (withFenceGrants (ideal_of E) c' g') f' (pr V w) = f' d' (pr V w)"
    by (simp add: bindE_def withFenceGrants_def Let_def)
  from simD [OF assms [OF d(2)], of w d'] P
  show "agrees V total ro Q R (V (w_ext w)) (bindE (withFenceGrants E c g) f w)
      (bindE (withFenceGrants (ideal_of E) c' g') f' (pr V w))" by (simp add: d d')
qed

text \<open>A whole operation: a transaction is begun and, whatever happens, its locks are released.\<close>

lemma sim_with_guard:
  assumes "\<And>t. sim V total False (ph t 0) (held_by t) (held_by t) (body (BackendGuard t)) (body' NoCCGuard)"
  shows "sim V total False idle idle idle (with_guard E body) (with_guard (ideal_of E) body')"
proof (rule simI)
  fix w :: "'s world"
  assume I: "idle (w_ext w)"
  show "agrees V total False idle idle (V (w_ext w)) (with_guard E body w) (with_guard (ideal_of E) body' (pr V w))"
  proof (cases "w_txnIDs w = - 1")
    case True
    with I show ?thesis by (simp add: with_guard_def allocateTxnID_def bindE_def)
  next
    case False
    let ?t = "w_txnIDs w + 1" and ?w = "w\<lparr>w_txnIDs := w_txnIDs w + 1\<rparr>"
    obtain e s' where o: "Backend_Begin (e_coordination E) ?t (w_ext w) = (e, s')" by fastforce
    note b = begins [OF I o]
    have id: "with_guard (ideal_of E) body' (pr V w) = body' NoCCGuard (pr V (?w\<lparr>w_ext := s'\<rparr>))"
      using False b by (simp add: with_guard_def newOperationGuard_def bindE_def allocateTxnID_def deferE_def
          returnE_def option.map_id0 pr_def)
    show ?thesis
    proof (cases e)
      case (Some x)
      with b o False show ?thesis
        by (simp add: with_guard_def allocateTxnID_def bindE_def newOperationGuard_def strategy on_ext_err_def on_ext_def)
    next
      case None
      have run: "with_guard E body w = deferE (release_all_locks E (BackendGuard ?t)) (body (BackendGuard ?t)) (?w\<lparr>w_ext := s'\<rparr>)"
        using None o False
        by (simp add: with_guard_def allocateTxnID_def bindE_def newOperationGuard_def strategy on_ext_err_def on_ext_def returnE_def)
      have p0: "ph ?t 0 s'" and V0: "V s' = V (w_ext w)" using b None by simp_all
      have ag: "agrees V total False (held_by ?t) (held_by ?t) (V s') (body (BackendGuard ?t) (?w\<lparr>w_ext := s'\<rparr>))
          (body' NoCCGuard (pr V (?w\<lparr>w_ext := s'\<rparr>)))"
        using simD [OF assms, of ?t "?w\<lparr>w_ext := s'\<rparr>"] p0 by simp
      show ?thesis
      proof (cases "body (BackendGuard ?t) (?w\<lparr>w_ext := s'\<rparr>)" rule: out_cases)
        case nothing
        with ag show ?thesis by (simp add: run id deferE_def)
      next
        case (failed x w1)
        with ag obtain p where "ph ?t p (w_ext w1)" by auto
        from release [OF this] failed ag V0 show ?thesis by (auto simp: run id deferE_def)
      next
        case (done_ x w1)
        with ag obtain p where "ph ?t p (w_ext w1)" by auto
        from release [OF this] done_ ag V0 show ?thesis by (auto simp: run id deferE_def)
      qed
    qed
  qed
qed

section \<open>Every operation of the client\<close>

lemmas sim_binds = sim_bind_liftE sim_bind [OF sim_fail_if] sim_bind [OF sim_or_fail] sim_bind [OF sim_draw]
  sim_bind [OF sim_draw_err] sim_bind [OF sim_get] sim_bind [OF sim_getk] sim_bind [OF sim_acquire]
  sim_bind [OF sim_acquire_ctx] sim_fence

lemmas sim_ends = sim_post [OF sim_return] sim_raise sim_post [OF sim_fail_if] sim_post [OF sim_or_fail]
  sim_post [OF sim_liftE] sim_post [OF sim_atomic] sim_case_prod sim_Let

lemmas ideal_same = ideal_pure ideal_pure2 ideal_of_simps

lemma sim_protect:
  "usable P R \<Longrightarrow> reads P R (protectDatastoreObject E ty i c x ek mk) (protectDatastoreObject (ideal_of E) ty i c x ek mk)"
  unfolding protectDatastoreObject_def ideal_same
  by (intro sim_binds sim_ends) (auto dest: usable_err)

lemma sim_load:
  "usable P R \<Longrightarrow> reads P R (loadDatastoreObject E c ty i ek mk cd z) (loadDatastoreObject (ideal_of E) c' ty i ek mk cd z)"
  unfolding loadDatastoreObject_def ideal_same
  by (intro sim_binds sim_ends) (auto dest: usable_err)

lemma sim_createFileStatus:
  "usable P R \<Longrightarrow> reads P R (createFileStatus E u i ab) (createFileStatus (ideal_of E) u i ab)"
  unfolding createFileStatus_def ideal_same Let_def
  by (intro sim_binds sim_ends) (auto dest: usable_err)

lemma sim_verifyFileStatus:
  "usable P R \<Longrightarrow> reads P R (verifyFileStatus E c ab) (verifyFileStatus (ideal_of E) c' ab)"
  unfolding verifyFileStatus_def ideal_same
  by (intro sim_binds sim_ends) (auto dest: usable_err)

lemmas sim_binds2 = sim_binds sim_bind [OF sim_protect] sim_bind [OF sim_load] sim_bind [OF sim_createFileStatus]
  sim_bind [OF sim_verifyFileStatus]

lemma sim_loadNamespaceEntry:
  "usable P R \<Longrightarrow> reads P R (loadNamespaceEntry E c u fn) (loadNamespaceEntry (ideal_of E) c' u fn)"
  unfolding loadNamespaceEntry_def ideal_same
  by (intro sim_binds2 sim_ends) (auto dest: usable_err)

lemma sim_validateFileAccess:
  "usable P R \<Longrightarrow> reads P R (validateFileAccessUnderLock E c ne) (validateFileAccessUnderLock (ideal_of E) c' ne)"
  unfolding validateFileAccessUnderLock_def ideal_same
  by (intro sim_binds2 sim_ends) (auto dest: usable_err)

lemma sim_validateInvitation:
  "usable P R \<Longrightarrow> reads P R (validateInvitationAccessUnderLock E c pl) (validateInvitationAccessUnderLock (ideal_of E) c' pl)"
  unfolding validateInvitationAccessUnderLock_def ideal_same
  by (intro sim_binds2 sim_ends) (auto dest: usable_err)

lemma sim_loadMetadata:
  "usable P R \<Longrightarrow> reads P R (loadMetadata E c ab) (loadMetadata (ideal_of E) c' ab)"
  unfolding loadMetadata_def ideal_same
  by (intro sim_binds2 sim_ends) (auto dest: usable_err)

lemma sim_load_chunks:
  "usable P R \<Longrightarrow> reads P R (load_chunks E c ab n i accC accU) (load_chunks (ideal_of E) c' ab n i accC accU)"
proof (induction n arbitrary: i accC accU)
  case 0
  then show ?case
    unfolding load_chunks.simps by (intro sim_binds sim_ends) (auto dest: usable_err)
next
  case (Suc n)
  have last: "reads P R (if b then fail_if x m else fail_if y k) (if b then fail_if x m else fail_if y k)" for b x m y k
    using Suc.prems by (cases b) (auto intro!: sim_fail_if dest: usable_err)
  show ?case
    unfolding load_chunks.simps ideal_same
    by (intro sim_binds2 sim_ends sim_bind [OF last] Suc.IH) (auto intro: Suc.prems dest: usable_err [OF Suc.prems])
qed

lemma sim_loadContent:
  "usable P R \<Longrightarrow> reads P R (loadFileContentAndChunkUUIDs E c ab md) (loadFileContentAndChunkUUIDs (ideal_of E) c' ab md)"
  unfolding loadFileContentAndChunkUUIDs_def
  by (intro sim_bind [OF sim_load_chunks] sim_ends) simp_all

lemmas sim_binds3 = sim_binds2 sim_bind [OF sim_loadNamespaceEntry] sim_bind [OF sim_validateFileAccess]
  sim_bind [OF sim_validateInvitation] sim_bind [OF sim_loadMetadata] sim_bind [OF sim_loadContent]

lemma resource_types:
  "namespaceResourceID E n fn = Inr r \<Longrightarrow> RType r = NamespaceResource" "RType (fileResourceID E i) = FileResource"
  by (auto simp: namespaceResourceID_def fileResourceID_def bindS_def split: sum.splits)

lemma live_operation: "live (oc_ctx operationContext)"
  using live by (simp add: operationContext_def op_Background_def)

theorem LoadFile_sim:
  "live (oc_ctx c) \<Longrightarrow> sim V total False idle idle idle (LoadFileContext E u c fn) (LoadFileContext (ideal_of E) u c fn)"
  unfolding LoadFileContext_def ideal_same
  by (intro sim_with_guard sim_binds3 sim_ends) (auto simp: resource_types)

lemma sim_yields:
  assumes "sim V tot True P Q R m m'" "yields G m" "\<And>x. G x \<Longrightarrow> sim V tot ro Q Q' R (f x) (f' x)"
  shows "sim V tot ro P Q' R (bindE m f) (bindE m' f')"
  by (rule sim_bind_res [where G = G, OF assms(1) _ assms(3)]) (use assms(2) in \<open>auto simp: yields_def\<close>)

lemma sim_new_uuid_outside: "reads P R (new_uuid_outside E old) (new_uuid_outside (ideal_of E) old)"
  by (rule simI, rename_tac w, case_tac "fresh_uuid E old (w_draws w)") (auto simp: new_uuid_outside_def)

lemma sim_draw_file_ids: "reads P R (draw_file_ids E) (draw_file_ids (ideal_of E))"
  unfolding draw_file_ids_def ideal_same by (intro sim_bind [OF sim_draw] sim_return)

lemma sim_new_file_writes:
  "usable P R \<Longrightarrow> reads P R (new_file_writes E u content i ids nm nk) (new_file_writes (ideal_of E) u content i ids nm nk)"
  unfolding new_file_writes_def ideal_same
  by (intro sim_binds2 sim_ends) (auto dest: usable_err)

lemma sim_storeNewFile:
  assumes "usable P R"
  shows "sim V total False P P R (storeNewFileLocked E u c fn content i) (storeNewFileLocked (ideal_of E) u c' fn content i)"
  unfolding storeNewFileLocked_def ideal_same
  by (intro sim_binds sim_bind [OF sim_draw_file_ids] sim_yields [OF sim_new_file_writes [OF assms] writes_yield(1)] sim_ends)
     (auto intro: can_object_writes assms dest: usable_err [OF assms])

lemma sim_overwrite:
  assumes "usable P R"
  shows "sim V total False P P R (overwriteExistingFileLocked E c ab content) (overwriteExistingFileLocked (ideal_of E) c' ab content)"
  unfolding overwriteExistingFileLocked_def ideal_same
  by (intro sim_binds3 sim_bind [OF sim_new_uuid_outside] sim_ends)
     (auto intro: assms dest: usable_err [OF assms])

theorem StoreFile_sim:
  assumes "live (oc_ctx c)"
  shows "sim V total False idle idle idle (StoreFileContext E u c fn content) (StoreFileContext (ideal_of E) u c fn content)"
  unfolding StoreFileContext_def ideal_same
  by (intro sim_with_guard sim_binds3 sim_if sim_post [OF sim_overwrite] sim_post [OF sim_storeNewFile])
     (auto simp: resource_types assms)

lemma sim_append_chunk:
  assumes "usable P R"
  shows "sim V total False P P R (append_chunk E c ab md content) (append_chunk (ideal_of E) c' ab md content)"
  unfolding append_chunk_def ideal_same
  by (intro sim_binds3 sim_ends) (auto intro: assms dest: usable_err [OF assms])

theorem AppendToFile_sim:
  assumes "live (oc_ctx c)"
  shows "sim V total False idle idle idle (AppendToFileContext E u c fn content) (AppendToFileContext (ideal_of E) u c fn content)"
  unfolding AppendToFileContext_def ideal_same
  by (intro sim_with_guard sim_binds3 sim_if sim_post [OF sim_append_chunk] sim_ends)
     (auto simp: resource_types assms)

theorem ReadFileMetadata_sim:
  "sim V total False idle idle idle (ReadFileMetadata E u fn) (ReadFileMetadata (ideal_of E) u fn)"
  unfolding ReadFileMetadata_def ideal_same
  by (intro sim_with_guard sim_binds3 sim_ends) (auto simp: resource_types)

subsection \<open>Sharing\<close>

lemma sim_buildInvitation:
  "usable P R \<Longrightarrow> reads P R (buildInvitation E u pk i pl) (buildInvitation (ideal_of E) u pk i pl)"
  unfolding buildInvitation_def ideal_same
  by (intro sim_binds sim_ends) (auto dest: usable_err)

lemma sim_loadOwnerStructure:
  "usable P R \<Longrightarrow> reads P R (loadOwnerAccessBoxStructure E c ne ab) (loadOwnerAccessBoxStructure (ideal_of E) c' ne ab)"
  unfolding loadOwnerAccessBoxStructure_def ideal_same
  by (intro sim_binds2 sim_ends) (auto dest: usable_err)

lemma sim_granted_box:
  assumes u: "usable P R"
  shows "reads P R (granted_box E c ne ab n) (granted_box (ideal_of E) c' ne ab n)"
  unfolding granted_box_def owner_branch_box_def ideal_same Let_def
  by (intro sim_if sim_bind [OF sim_loadOwnerStructure] sim_case_option sim_binds2 sim_ends
        sim_bind [where Q = P and m = "case map_of _ _ of None \<Rightarrow> _ | Some x \<Rightarrow> _ x"])
     (auto intro: u)

theorem CreateInvitation_sim:
  "sim V total False idle idle idle (CreateInvitation E u fn n) (CreateInvitation (ideal_of E) u fn n)"
  unfolding CreateInvitation_def ideal_same
  by (intro sim_with_guard sim_binds3 sim_yields [OF sim_granted_box granted_box_yields]
        sim_bind [OF sim_buildInvitation] sim_post [OF sim_then_return [OF sim_atomic]] sim_ends)
     (auto simp: resource_types can_object_writes)

lemma sim_open_body:
  "usable P R \<Longrightarrow> reads P R (open_body E u vk i iv) (open_body (ideal_of E) u vk i iv)"
  unfolding open_body_def ideal_same
  by (intro sim_binds sim_ends sim_case_sum
        sim_bind [where Q = P and m = "case PKEDec _ _ _ of Inl e \<Rightarrow> _ e | Inr x \<Rightarrow> _ x"])
     (auto dest: usable_err)

lemma sim_check_payload:
  "usable P R \<Longrightarrow> reads P R (check_payload E u n pl) (check_payload (ideal_of E) u n pl)"
  unfolding check_payload_def ideal_same
  by (intro sim_binds sim_ends) (auto dest: usable_err)

lemma sim_openInvitation:
  "usable P R \<Longrightarrow> reads P R (openInvitation E c u n i) (openInvitation (ideal_of E) c' u n i)"
  unfolding openInvitation_def ideal_same
  by (intro sim_binds sim_bind [OF sim_open_body] sim_check_payload) (auto dest: usable_err)

theorem AcceptInvitation_sim:
  "sim V total False idle idle idle (AcceptInvitation E r n i fn) (AcceptInvitation (ideal_of E) r n i fn)"
  unfolding AcceptInvitation_def ideal_same
  by (intro sim_with_guard sim_binds3 sim_bind [OF sim_openInvitation] sim_ends) (auto simp: resource_types)

lemma sim_surviving_writes:
  "usable P R \<Longrightarrow> reads P R (surviving_writes E ab bs n ns) (surviving_writes (ideal_of E) ab bs n ns)"
proof (induction ns)
  case Nil
  then show ?case by (simp add: sim_return)
next
  case (Cons k ns)
  then show ?case
    unfolding surviving_writes.simps ideal_same
    by (intro sim_if sim_case_option sim_binds2 sim_bind [OF Cons.IH] sim_ends Cons.IH) auto
qed

lemma sim_rotate_file:
  "usable P R \<Longrightarrow> reads P R (rotate_file E ab md content) (rotate_file (ideal_of E) ab md content)"
  unfolding rotate_file_def ideal_same
  by (intro sim_binds2 sim_ends) (auto dest: usable_err)

lemma sim_revoke_writes:
  "usable P R \<Longrightarrow> reads P R (revoke_writes E u ne ab st n br us rot) (revoke_writes (ideal_of E) u ne ab st n br us rot)"
  unfolding revoke_writes_def range_order_def ideal_same
  by (intro sim_case_prod sim_binds2 sim_bind [OF sim_surviving_writes] sim_ends) (auto dest: usable_err)

theorem RevokeAccess_sim:
  "sim V total False idle idle idle (RevokeAccess E u fn n) (RevokeAccess (ideal_of E) u fn n)"
proof -
  have "sim V total False P P R
      (bindE (rotate_file E ab md content) (\<lambda>rot. bindE (revoke_writes E u ne ab st n br us rot) (\<lambda>ws. runAtomicStorage E c ws)))
      (bindE (rotate_file (ideal_of E) ab md content) (\<lambda>rot. bindE (revoke_writes (ideal_of E) u ne ab st n br us rot)
         (\<lambda>ws. runAtomicStorage (ideal_of E) c' ws)))"
    if u: "usable P R" for P R ab md content ne st br us c c'
  proof (rule sim_yields [OF sim_rotate_file [OF u] writes_yield(2)])
    fix rot :: "AccessBox \<times> store_write list"
    assume "case rot of (_, ws) \<Rightarrow> object_writes ws"
    then obtain ab' fw where rot: "rot = (ab', fw)" "object_writes fw" by (cases rot) auto
    show "sim V total False P P R (bindE (revoke_writes E u ne ab st n br us rot) (\<lambda>ws. runAtomicStorage E c ws))
       (bindE (revoke_writes (ideal_of E) u ne ab st n br us rot) (\<lambda>ws. runAtomicStorage (ideal_of E) c' ws))"
      unfolding rot(1)
      by (rule sim_yields [OF sim_revoke_writes [OF u] revoke_writes_yield [OF rot(2)]])
         (intro sim_atomic u can_object_writes)
  qed
  note last = sim_post [OF this]
  show ?thesis
    unfolding RevokeAccess_def ideal_same
    by (intro sim_with_guard sim_binds3 sim_bind [OF sim_loadOwnerStructure] last sim_case_prod)
       (auto simp: resource_types)
qed

subsection \<open>Accounts\<close>

theorem GetUser_sim:
  "sim V total True idle idle idle (GetUserContext E c n pw) (GetUserContext (ideal_of E) c n pw)"
proof -
  have acc: "reads idle idle (openAccount E b i ek mk) (openAccount (ideal_of E) b i ek mk)" for b i ek mk
    unfolding openAccount_def ideal_same by (intro sim_binds sim_ends) auto
  show ?thesis
    unfolding GetUserContext_def ideal_same by (intro sim_binds sim_bind [OF acc] sim_ends) auto
qed

lemma sim_isUsernameTaken:
  "usable P R \<Longrightarrow> reads P R (isUsernameTaken E c n i) (isUsernameTaken (ideal_of E) c' n i)"
  unfolding isUsernameTaken_def ideal_same by (intro sim_binds sim_ends) auto

lemma sim_emacAccount:
  "usable P R \<Longrightarrow> reads P R (emacAccount E a i ek mk) (emacAccount (ideal_of E) a i ek mk)"
  unfolding emacAccount_def ideal_same by (intro sim_binds sim_ends) (auto dest: usable_err)

text \<open>
  The key store refuses a taken name, so the writes of \<open>InitUser\<close> can be made only because the
  names were seen to be free.
\<close>

lemma sim_init_writes:
  assumes "snd v pn = None" "snd v vn = None" "pn \<noteq> vn"
  shows "sim V total False (\<lambda>s. idle s \<and> V s = v) idle idle
    (runAtomicStorage E c [KSet pn pk, KSet vn vk, DSet i b]) (runAtomicStorage (ideal_of E) c' [KSet pn pk, KSet vn vk, DSet i b])"
proof (rule simI)
  fix w :: "'s world"
  let ?ws = "[KSet pn pk, KSet vn vk, DSet i b]"
  assume P: "idle (w_ext w) \<and> V (w_ext w) = v"
  have can: "can_writes ?ws v" using assms by (cases v) simp
  obtain e s' where o: "storage_RunAtomic c (e_storage E) (do_writes (e_storage E) ?ws) (w_ext w) = (e, s')" by fastforce
  have "idle s' \<and> (case e of None \<Rightarrow> V s' = apply_writes ?ws v
      | Some _ \<Rightarrow> \<not> total \<and> (V s' = v \<or> V s' = apply_writes ?ws v))"
    using atomic [OF _ _ o] P can by blast
  then show "agrees V total False idle idle (V (w_ext w)) (runAtomicStorage E c ?ws w)
      (runAtomicStorage (ideal_of E) c' ?ws (pr V w))"
    using o P ideal_atomic [OF can, of c'] by (cases e) (auto simp: runAtomicStorage_def on_ext_err_def on_ext_def)
qed

theorem InitUser_sim:
  assumes "getPKEKeyName E n \<noteq> getVerifyKeyName E n"
  shows "sim V total False idle idle idle (InitUserContext E c n pw) (InitUserContext (ideal_of E) c n pw)"
proof (rule sim_view)
  fix v
  have free: "snd v (getPKEKeyName E n) = None \<and> snd v (getVerifyKeyName E n) = None"
    if "isUsernameTaken (ideal_of E) c n i w = Some (Inr False, w1)" "w_ext w = v" for i w w1
    using that by (auto simp: isUsernameTaken_def bindE_def datastoreGet_def keystoreGet_def on_ext_def
        ideal_storage_def returnE_def)
  have writes: "sim V total False (\<lambda>s. idle s \<and> V s = v) idle idle
      (bindE (runAtomicStorage E c [KSet (getPKEKeyName E n) pk, KSet (getVerifyKeyName E n) vk, DSet i b]) (\<lambda>_. returnE usr))
      (bindE (runAtomicStorage (ideal_of E) c [KSet (getPKEKeyName E n) pk, KSet (getVerifyKeyName E n) vk, DSet i b]) (\<lambda>_. returnE usr))"
    if "snd v (getPKEKeyName E n) = None \<and> snd v (getVerifyKeyName E n) = None" for pk vk i b and usr :: User
    using that assms by (intro sim_then_return sim_init_writes) simp_all
  show "sim V total False (\<lambda>s. idle s \<and> V s = v) idle idle (InitUserContext E c n pw) (InitUserContext (ideal_of E) c n pw)"
    unfolding InitUserContext_def ideal_same
    by (intro sim_bind_liftE sim_bind_fail_if sim_bind_at [where m = "isUsernameTaken E c n _" and
          G = "\<lambda>taken. \<not> taken \<longrightarrow> snd v (getPKEKeyName E n) = None \<and> snd v (getVerifyKeyName E n) = None",
          OF sim_isUsernameTaken] sim_bind [OF sim_draw] sim_bind [OF sim_draw_err] sim_case_prod sim_Let
        sim_bind [OF sim_at [OF sim_emacAccount]] writes)
       (use free in auto)
qed

end

end
