(* ===== verification/Client_Backends.thy ===== *)
theory Client_Backends
  imports Client_Refine
begin

text \<open>
  The two ways the client is deployed, as instances of \<open>client_backend\<close>: in one process on the
  userlib store with its own lock manager, where nothing fails while nobody else runs, and on
  MongoDB with any lock service, where reads, transactions and locks may fail.
\<close>

section \<open>The lock manager with one transaction\<close>

text \<open>Only \<open>t\<close> holds locks, only on resources of the given types, and nobody waits.\<close>

definition lm_alone :: "TxnID \<Rightarrow> ResourceType set \<Rightarrow> LockManager \<Rightarrow> bool" where
  "lm_alone t K lm \<longleftrightarrow> lm_inv lm \<and> (\<forall>r. queue (state_of lm r) = []) \<and>
     (\<forall>t' r. held_mode lm t' r \<noteq> None \<longrightarrow> t' = t \<and> RType r \<in> K)"

definition lm_quiet :: "LockManager \<Rightarrow> bool" where
  "lm_quiet lm \<longleftrightarrow> lm_inv lm \<and> (\<forall>r. queue (state_of lm r) = []) \<and> (\<forall>t r. held_mode lm t r = None)"

lemma lm_quiet_new: "lm_quiet NewLockManager"
  by (simp add: lm_quiet_def lm_inv_new) (simp add: state_of_def NewLockManager_def held_mode_def txn_locks_of_def)

lemma quiet_alone: "lm_quiet lm \<longleftrightarrow> lm_alone t {} lm"
  by (auto simp: lm_quiet_def lm_alone_def)

lemma alone_none: "lm_alone t K lm \<Longrightarrow> t' \<noteq> t \<or> RType r \<notin> K \<Longrightarrow> held_mode lm t' r = None"
  by (cases "held_mode lm t' r") (auto simp: lm_alone_def)

lemma free_resource:
  assumes "lm_inv lm" "queue (state_of lm r) = []" "\<And>t. held_mode lm t r = None"
  shows "resources lm r = None"
proof (rule ccontr)
  assume "resources lm r \<noteq> None"
  then obtain ls where ls: "resources lm r = Some ls" by auto
  then have st: "state_of lm r = ls" by (rule state_of_Some)
  have "\<not> hasExclusive ls" "sharedHolders ls = []"
    using lm_invD(4) [OF assms(1), of r] assms(3) st
    by (auto simp: books_agree_def, metis list.set_intros(1) neq_Nil_conv)
  then have "idle ls" using assms(2) st by (simp add: idle_def)
  with lm_invD(2) [OF assms(1) ls] show False ..
qed

lemma AcquireContext_free:
  assumes inv: "lm_inv lm" and q: "\<And>r. queue (state_of lm r) = []" and free: "\<And>t. held_mode lm t r = None"
    and m: "m = SharedLock \<or> m = ExclusiveLock" and c: "ctx_Err c = None"
  obtains lm' where "AcquireContext (Some c) t r m lm = (Granted, lm')" "\<And>r. queue (state_of lm' r) = []"
proof -
  note none = free_resource [OF inv q free]
  let ?out = "AcquireContext (Some c) t r m lm"
  have "fst ?out = Granted"
    using m c free none
    by (simp add: AcquireContext_def acquire_recheck_def enqueue_def put_state_def find_request_def canGrant_def)
  moreover have "queue (state_of (snd ?out) r') = []" for r'
    using m c free none q [of r']
    by (auto simp: AcquireContext_def acquire_recheck_def enqueue_def put_state_def find_request_def canGrant_def
        Let_def removeFromQueue_def cond_Broadcast_def add_holder_def record_held_def state_of_def)
  ultimately show thesis using that [of "snd ?out"] by (metis prod.collapse)
qed

lemma alone_acquire:
  assumes a: "lm_alone t K lm" and r: "RType r \<notin> K" and m: "m = SharedLock \<or> m = ExclusiveLock" and c: "ctx_Err c = None"
  obtains lm' where "AcquireContext (Some c) t r m lm = (Granted, lm')" "lm_alone t (insert (RType r) K) lm'"
proof -
  have free: "held_mode lm t' r = None" for t' using alone_none [OF a] r by simp
  from a have i: "lm_inv lm" "\<And>r. queue (state_of lm r) = []" by (simp_all add: lm_alone_def)
  obtain lm' where g: "AcquireContext (Some c) t r m lm = (Granted, lm')" "\<And>r. queue (state_of lm' r) = []"
    using AcquireContext_free [OF i free m c] by blast
  have "lm_inv lm'" by (rule lms.ok_acquire [OF i(1) g(1)])
  moreover have "held_mode lm' t' r' = (if t' = t \<and> r' = r then Some m else held_mode lm t' r')" for t' r'
    using lms.holds_acquire [OF i(1) g(1), of t' r'] by simp
  ultimately have "lm_alone t (insert (RType r) K) lm'"
    using a g(2) by (auto simp: lm_alone_def)
  with g(1) that show thesis by blast
qed

lemma alone_release:
  assumes "lm_alone t K lm" shows "lm_quiet (snd (ReleaseAll t lm))"
proof -
  have inv: "lm_inv lm" using assms by (simp add: lm_alone_def)
  have "held_mode (snd (ReleaseAll t lm)) t' r = None" for t' r
    using lms.holds_release_all [OF inv, of t t' r] alone_none [OF assms, of t' r] by auto
  then show ?thesis
    using lms.ok_release_all [OF inv] assms by (simp add: lm_quiet_def lm_alone_def queue_ReleaseAll)
qed

section \<open>In one process\<close>

definition local_client ::
  "'s userlib_store \<Rightarrow> ('s \<Rightarrow> LockManager) \<Rightarrow> (LockManager \<Rightarrow> 's \<Rightarrow> 's) \<Rightarrow> userlib \<Rightarrow> uuid_lib
   \<Rightarrow> (nat \<Rightarrow> string list \<Rightarrow> string list) \<Rightarrow> 's env" where
  "local_client L get put lib U ord =
     \<lparr>e_storage = NewUserlibStorage L, e_coordination = LocalBackend get put, e_strategy = StrategySaferCC,
      e_lib = lib, e_uuid = U, e_disableFenceValidation = False, e_order = ord\<rparr>"

text \<open>
  The process state has the two maps of the userlib package and the lock manager, side by side.
\<close>

definition local_ok ::
  "'s userlib_store \<Rightarrow> ('s \<Rightarrow> objects) \<Rightarrow> ('s \<Rightarrow> public_keys) \<Rightarrow> ('s \<Rightarrow> LockManager) \<Rightarrow> (LockManager \<Rightarrow> 's \<Rightarrow> 's) \<Rightarrow> bool" where
  "local_ok L objs keys get put \<longleftrightarrow> userlib_ok L objs keys \<and>
     (\<forall>lm s. get (put lm s) = lm \<and> objs (put lm s) = objs s \<and> keys (put lm s) = keys s) \<and>
     (\<forall>s i. get (snd (DatastoreGet L i s)) = get s) \<and> (\<forall>s i b. get (DatastoreSet L i b s) = get s) \<and>
     (\<forall>s i. get (DatastoreDelete L i s) = get s) \<and> (\<forall>s n. get (snd (KeystoreGet L n s)) = get s) \<and>
     (\<forall>s n k. get (snd (KeystoreSet L n k s)) = get s)"

lemma local_okD:
  assumes "local_ok L objs keys get put"
  shows "userlib_ok L objs keys" "get (put lm s) = lm" "objs (put lm s) = objs s" "keys (put lm s) = keys s"
    "get (snd (DatastoreGet L i s)) = get s" "get (snd (KeystoreGet L n s)) = get s"
    "get (DatastoreSet L i b s) = get s" "get (DatastoreDelete L i s) = get s" "get (snd (KeystoreSet L n k s)) = get s"
  using assms by (simp_all add: local_ok_def)

definition lock_types :: "nat \<Rightarrow> ResourceType set" where
  "lock_types p = (if p = 0 then {} else if p = 1 then {NamespaceResource} else {NamespaceResource, FileResource})"

text \<open>Writes that can be made are made, one after the other, and the locks stay as they are.\<close>

lemma local_writes:
  assumes ok: "local_ok L objs keys get put"
  shows "can_writes ws (objs s, keys s) \<Longrightarrow>
    \<exists>s'. do_writes (NewUserlibStorage L) ws c s = (None, s') \<and> (objs s', keys s') = apply_writes ws (objs s, keys s) \<and> get s' = get s"
proof (induction ws arbitrary: s)
  case (Cons w ws)
  note d = local_okD [OF ok] and u = userlib_okD [OF local_okD(1) [OF ok]]
  obtain s1 where s1: "do_write (NewUserlibStorage L) c w s = (None, s1)"
      "(objs s1, keys s1) = apply_write w (objs s, keys s)" "get s1 = get s"
  proof (cases w)
    case (KSet n k)
    with Cons.prems have "keys s n = None" by simp
    note k = u(12,13) [OF this, of k] and o = u(11) [of n k s]
    with KSet that [of "snd (KeystoreSet L n k s)"] d(9) [of n k s] show thesis
      by (simp add: NewUserlibStorage_def UserlibKeyStore_Put_def) (metis prod.collapse)
  qed (use that u d in \<open>simp_all add: NewUserlibStorage_def UserlibObjectStore_Put_def UserlibObjectStore_Delete_def\<close>)
  from Cons.IH [of s1] Cons.prems s1 show ?case by simp
qed simp

lemma local_acquire:
  assumes ok: "local_ok L objs keys get put" and a: "lm_alone t (lock_types p) (get s)"
    and r: "RType r = NamespaceResource \<and> p = 0 \<or> RType r = FileResource \<and> p = 1"
    and m: "m = SharedLock \<or> m = ExclusiveLock" and c: "ctx_Err c = None"
  obtains s' where "settle (\<lambda>lm. put lm s) (guard_AcquireContext (Some c) (NewLockGuard t) r m (get s)) = Some (None, s')"
    "objs s' = objs s" "keys s' = keys s" "lm_alone t (lock_types (Suc p)) (get s')"
proof -
  have "RType r \<notin> lock_types p" "insert (RType r) (lock_types p) = lock_types (Suc p)"
    using r by (auto simp: lock_types_def)
  with alone_acquire [OF a _ m c] obtain lm' where "AcquireContext (Some c) t r m (get s) = (Granted, lm')"
      "lm_alone t (lock_types (Suc p)) lm'" by metis
  then show thesis
    using that [of "put lm' s"] local_okD(2-4) [OF ok]
    by (simp add: settle_def guard_AcquireContext_def NewLockGuard_def)
qed

text \<open>In one process, while nobody else holds a lock, the client never fails on its own account.\<close>

interpretation lcl: client_backend "local_client L get put lib U ord" "\<lambda>s. (objs s, keys s)"
  "\<lambda>s. local_ok L objs keys get put \<and> lm_quiet (get s)"
  "\<lambda>t p s. local_ok L objs keys get put \<and> lm_alone t (lock_types p) (get s)" True "\<lambda>c. ctx_Err c = None"
  for L get put lib U ord objs keys
proof (unfold_locales, goal_cases)
  case 1
  show ?case by (simp add: local_client_def)
next
  case 2
  show ?case by simp
next
  case (3 t p s c i r s')
  then have ok: "local_ok L objs keys get put" by auto
  have "s' = snd (DatastoreGet L i s)" "r = Inr (fst (DatastoreGet L i s))"
    using 3(2) by (auto simp: local_client_def NewUserlibStorage_def UserlibObjectStore_Get_def split: prod.splits)
  then show ?case
    using ok local_okD(5) [OF ok, of i s] userlib_okD(1-3) [OF local_okD(1) [OF ok], of i s] by simp
next
  case (4 t p s c n rk s')
  then have ok: "local_ok L objs keys get put" by auto
  have "s' = snd (KeystoreGet L n s)" "rk = Inr (fst (KeystoreGet L n s))"
    using 4(2) by (auto simp: local_client_def NewUserlibStorage_def UserlibKeyStore_Get_def split: prod.splits)
  then show ?case
    using ok local_okD(6) [OF ok, of n s] userlib_okD(8-10) [OF local_okD(1) [OF ok], of n s] by simp
next
  case (5 t p s ws c e s')
  then have ok: "local_ok L objs keys get put" by auto
  from local_writes [OF ok 5(2), of c] 5(3) ok show ?case
    by (auto simp: local_client_def storage_RunAtomic_def) (simp_all add: NewUserlibStorage_def)
next
  case (6 s t e s')
  then show ?case
    using quiet_alone [of "get s" t] by (auto simp: local_client_def LocalBackend_def lock_types_def)
next
  case (7 t p s r' m)
  then have ok: "local_ok L objs keys get put" by simp
  from 7(1) have al: "lm_alone t (lock_types p) (get s)" by simp
  obtain s' where "settle (\<lambda>lm. put lm s) (guard_AcquireContext (Some Background) (NewLockGuard t) r' m (get s)) = Some (None, s')"
      "objs s' = objs s" "keys s' = keys s" "lm_alone t (lock_types (Suc p)) (get s')"
    using local_acquire [OF ok al 7(2,3), of Background] by auto
  then show ?case using ok
    by (simp add: local_client_def LocalBackend_def guard_Acquire_def Acquire_def guard_AcquireContext_def)
next
  case (8 t p s r' m gc)
  then have ok: "local_ok L objs keys get put" by simp
  from 8(1) have al: "lm_alone t (lock_types p) (get s)" by simp
  obtain s' where "settle (\<lambda>lm. put lm s) (guard_AcquireContext (Some gc) (NewLockGuard t) r' m (get s)) = Some (None, s')"
      "objs s' = objs s" "keys s' = keys s" "lm_alone t (lock_types (Suc p)) (get s')"
    using local_acquire [OF ok al 8(2,3,4)] by metis
  then show ?case using ok by (simp add: local_client_def LocalBackend_def)
next
  case (9 t p s)
  then show ?case
    using alone_release [of t "lock_types p" "get s"] local_okD(2-4) [of L objs keys get put]
    by (simp add: local_client_def LocalBackend_def guard_ReleaseAll_def NewLockGuard_def)
qed

section \<open>On MongoDB\<close>

definition mongo_client ::
  "'s mongo_store \<Rightarrow> int \<Rightarrow> 's Backend \<Rightarrow> userlib \<Rightarrow> uuid_lib \<Rightarrow> (nat \<Rightarrow> string list \<Rightarrow> string list) \<Rightarrow> 's env" where
  "mongo_client M now B lib U ord =
     \<lparr>e_storage = mongo_Storage M now, e_coordination = B, e_strategy = StrategySaferCC,
      e_lib = lib, e_uuid = U, e_disableFenceValidation = False, e_order = ord\<rparr>"

text \<open>A lock service of its own: its calls leave the objects and keys of the database alone.\<close>

definition lock_backend_ok :: "'s Backend \<Rightarrow> ('s \<Rightarrow> store_view) \<Rightarrow> bool" where
  "lock_backend_ok B V \<longleftrightarrow>
     (\<forall>t s. V (snd (Backend_Begin B t s)) = V s) \<and>
     (\<forall>t r m s e s'. Guard_Acquire B t r m s = Some (e, s') \<longrightarrow> V s' = V s) \<and>
     (\<forall>c t r m s e s'. Guard_AcquireContext B c t r m s = Some (e, s') \<longrightarrow> V s' = V s) \<and>
     (\<forall>t s. V (Guard_ReleaseAll B t s) = V s)"

lemma lock_backend_okD:
  assumes "lock_backend_ok B V"
  shows "Backend_Begin B t s = (e, s') \<Longrightarrow> V s' = V s"
    "Guard_Acquire B t r m s = Some (e, s') \<Longrightarrow> V s' = V s"
    "Guard_AcquireContext B c t r m s = Some (e, s') \<Longrightarrow> V s' = V s"
    "V (Guard_ReleaseAll B t s) = V s"
  using assms by (auto simp: lock_backend_ok_def) (metis snd_conv)

interpretation mgc: client_backend "mongo_client M now B lib U ord" "db_view M view"
  "\<lambda>s. store_ok M view \<and> lock_backend_ok B (db_view M view)"
  "\<lambda>t p s. store_ok M view \<and> lock_backend_ok B (db_view M view)" False "\<lambda>c. True"
  for M now B lib U ord view
proof (unfold_locales, goal_cases)
  case 1
  show ?case by (simp add: mongo_client_def)
next
  case 2
  show ?case by simp
next
  case (3 t p s c i r s')
  then have ok: "store_ok M view" by auto
  have "mongo_Objects_Get M c i s = (r, s')" using 3(2) by (simp add: mongo_client_def mongo_Storage_def)
  from mgo.get [OF ok this] 3(1) show ?case by (auto simp: db_view_def split: sum.splits)
next
  case (4 t p s c n rk s')
  then have ok: "store_ok M view" by auto
  have "mongo_Keys_Get M c n s = (rk, s')" using 4(2) by (simp add: mongo_client_def mongo_Storage_def)
  from mgk.getk [OF ok this] 4(1) show ?case by (auto simp: db_view_def split: sum.splits)
next
  case (5 t p s ws c e s')
  then have ok: "store_ok M view" by auto
  have "mongo_RunAtomic M now c (do_writes (mongo_Storage M now) ws) s = (e, s')"
    using 5(3) by (simp add: mongo_client_def storage_RunAtomic_def) (simp add: mongo_Storage_def)
  from mongo_RunAtomic_effect [OF ok this] 5(1) db_view_cong [of view s' s M] show ?case
    by (auto simp: committed_writes_def)
next
  case (6 s t e s')
  then show ?case using lock_backend_okD(1) [of B "db_view M view" t s e s'] by (auto simp: mongo_client_def split: option.splits)
next
  case (7 t p s r' m)
  then show ?case
    using lock_backend_okD(2) [of B "db_view M view" t r' m s]
    by (auto simp: mongo_client_def split: option.splits)
next
  case (8 t p s r' m gc)
  then show ?case
    using lock_backend_okD(3) [of B "db_view M view" gc t r' m s]
    by (auto simp: mongo_client_def split: option.splits)
next
  case (9 t p s)
  then show ?case using lock_backend_okD(4) [of B "db_view M view" t s] by (simp add: mongo_client_def)
qed

end
