(* ===== verification/Client_Instance.thy ===== *)
theory Client_Instance
  imports Client_Backends
begin

text \<open>
  Concrete functions with the documented behaviour of the cryptographic library and of the userlib
  store, on which the statements about the client are evaluated. They encrypt nothing.
\<close>

definition pad :: "nat \<Rightarrow> bytes \<Rightarrow> bytes" where
  "pad n b = take n (b @ replicate n CHR 0x00)"

lemma length_pad [simp]: "length (pad n b) = n"
  by (simp add: pad_def)

definition plain_lib :: userlib where
  "plain_lib = \<lparr>
     Hash = (\<lambda>b. pad 64 (rev b)),
     Argon2Key = (\<lambda>p s n. pad n (p @ s)),
     HashKDF = (\<lambda>k p. if length k = 16 then Inr (pad 64 (rev p @ k)) else Inl (ErrorMsg ''key length'')),
     SymEnc = (\<lambda>k iv p. iv @ p),
     SymDec = (\<lambda>k c. drop 16 c),
     HMACEval = (\<lambda>k m. if length k = 16 then Inr (pad 64 (rev m)) else Inl (ErrorMsg ''key length'')),
     HMACEqual = (=),
     PKEKeyGen = (\<lambda>d. Inr (\<lparr>KeyType = ''PKE'', PubKey = d\<rparr>, d)),
     PKEEnc = (\<lambda>pk m d. Inr m),
     PKEDec = (\<lambda>sk c. Inr c),
     DSKeyGen = (\<lambda>d. Inr (d, \<lparr>KeyType = ''DS'', PubKey = d\<rparr>)),
     DSSign = (\<lambda>sk m d. Inr []),
     DSVerify = (\<lambda>vk m sig. None),
     RandomBytes = (\<lambda>d n. pad n (itoa d)),
     uuid_New = (\<lambda>d. of_nat (d mod 1000000 + 1)),
     key_codec = text_codec itoa (\<lambda>s. Some (atoi s))\<rparr>"

lemma plain_uuid_unat: "unat (of_nat (d mod 1000000 + 1) :: uuid) = d mod 1000000 + 1"
proof -
  have "d mod 1000000 + 1 < (2 :: nat) ^ 128"
    by (rule le_less_trans [of _ 1000000]) (simp_all add: Suc_le_eq)
  then show ?thesis unfolding unat_of_nat by (simp add: take_bit_nat_eq_self)
qed

lemma plain_uuid: "(of_nat (d mod 1000000 + 1) :: uuid) \<noteq> 0"
  using plain_uuid_unat [of d] by (metis Suc_eq_plus1 nat.simps(3) unsigned_0)

lemma ascii_itoa: "ascii (itoa n)"
  using itoa_digits [of _ n] by (fastforce simp: ascii_def list_all_iff is_digit_def)

lemma plain_lib_ok: "lib_ok plain_lib"
proof -
  have "codec_rt 100 (text_codec itoa (\<lambda>s. Some (atoi s))) 0 k" for k
    by (rule codec_rt_text) (simp_all add: ascii_valid [OF ascii_itoa])
  then show ?thesis
    using plain_uuid by (simp add: lib_ok_def plain_lib_def HashSizeBytes_def AESBlockSizeBytes_def pke_pair_def ds_pair_def)
qed

record process =
  p_objects :: objects
  p_keys :: public_keys
  p_locks :: LockManager

definition mem_userlib :: "process userlib_store" where
  "mem_userlib = \<lparr>
     DatastoreGet = (\<lambda>i s. (p_objects s i, s)),
     DatastoreSet = (\<lambda>i b s. s\<lparr>p_objects := (p_objects s)(i \<mapsto> b)\<rparr>),
     DatastoreDelete = (\<lambda>i s. s\<lparr>p_objects := (p_objects s)(i := None)\<rparr>),
     KeystoreGet = (\<lambda>n s. (p_keys s n, s)),
     KeystoreSet = (\<lambda>n k s. if p_keys s n = None then (None, s\<lparr>p_keys := (p_keys s)(n \<mapsto> k)\<rparr>)
        else (Some (ErrorMsg ''that entry in the Keystore has been taken''), s))\<rparr>"

definition set_locks :: "LockManager \<Rightarrow> process \<Rightarrow> process" where
  "set_locks lm s = s\<lparr>p_locks := lm\<rparr>"

lemma mem_local_ok: "local_ok mem_userlib p_objects p_keys p_locks set_locks"
  by (auto simp: local_ok_def userlib_ok_def mem_userlib_def set_locks_def)

definition ex_env :: "process env" where
  "ex_env = local_client mem_userlib p_locks set_locks plain_lib dec_uuid (\<lambda>d ks. ks)"

lemma ex_env_simps [simp]: "e_lib ex_env = plain_lib" "e_uuid ex_env = dec_uuid"
  by (simp_all add: ex_env_def local_client_def)

text \<open>Two users; the key store has their public keys.\<close>

definition alice :: User where
  "alice = \<lparr>Username = ''alice'', NamespaceRoot = replicate 16 CHR ''a'', PKEPrivate = 1, SignPrivate = 1\<rparr>"

definition bob :: User where
  "bob = \<lparr>Username = ''bob'', NamespaceRoot = replicate 16 CHR ''b'', PKEPrivate = 2, SignPrivate = 2\<rparr>"

lemma ex_user_names [simp]: "Username alice = ''alice''" "Username bob = ''bob''"
  by (simp_all add: alice_def bob_def)

definition ex_keys :: public_keys where
  "ex_keys = [getPKEKeyName ex_env ''alice'' \<mapsto> \<lparr>KeyType = ''PKE'', PubKey = 1\<rparr>,
     getVerifyKeyName ex_env ''alice'' \<mapsto> \<lparr>KeyType = ''DS'', PubKey = 1\<rparr>,
     getPKEKeyName ex_env ''bob'' \<mapsto> \<lparr>KeyType = ''PKE'', PubKey = 2\<rparr>,
     getVerifyKeyName ex_env ''bob'' \<mapsto> \<lparr>KeyType = ''DS'', PubKey = 2\<rparr>]"

definition ex_world :: "process world" where
  "ex_world = \<lparr>w_ext = \<lparr>p_objects = Map.empty, p_keys = ex_keys, p_locks = NewLockManager\<rparr>,
     w_draws = 0, w_txnIDs = 0, w_mutex = None\<rparr>"

lemma ex_world_simps [simp]:
  "p_objects (w_ext ex_world) = Map.empty" "p_keys (w_ext ex_world) = ex_keys" "p_locks (w_ext ex_world) = NewLockManager"
  "w_draws ex_world = 0" "w_txnIDs ex_world = 0"
  by (simp_all add: ex_world_def)

lemma ex_ds_pair: "ds_pair plain_lib \<lparr>KeyType = ''DS'', PubKey = k\<rparr> sk"
  by (simp add: ds_pair_def plain_lib_def)

lemma ex_pke_pair: "pke_pair plain_lib \<lparr>KeyType = ''PKE'', PubKey = k\<rparr> sk"
  by (simp add: pke_pair_def plain_lib_def)

lemma ex_names:
  "getPKEKeyName ex_env ''alice'' \<noteq> getVerifyKeyName ex_env ''alice''"
  "getPKEKeyName ex_env ''bob'' \<noteq> getVerifyKeyName ex_env ''bob''"
  "getVerifyKeyName ex_env ''alice'' \<noteq> getVerifyKeyName ex_env ''bob''"
  "getVerifyKeyName ex_env ''alice'' \<noteq> getPKEKeyName ex_env ''bob''"
  "getVerifyKeyName ex_env ''bob'' \<noteq> getPKEKeyName ex_env ''alice''"
  "getPKEKeyName ex_env ''bob'' \<noteq> getPKEKeyName ex_env ''alice''"
  by (simp_all add: getPKEKeyName_def getVerifyKeyName_def publicKeyName_def plain_lib_def pad_def
      hex_EncodeToString_def hex_digit_def)

lemma ex_away: "1000000 < unat i \<Longrightarrow> away ex_env d e i"
proof -
  assume i: "1000000 < unat i"
  have "uuid_New plain_lib a \<noteq> i" for a
  proof
    assume "uuid_New plain_lib a = i"
    then have "unat i = a mod 1000000 + 1" using plain_uuid_unat [of a] by (simp add: plain_lib_def)
    with i mod_less_divisor [of 1000000 a] show False by linarith
  qed
  then show ?thesis by (auto simp: away_def)
qed

lemma ex_fresh: "e \<le> 1000000 \<Longrightarrow> fresh_ids ex_env Map.empty d e"
proof -
  assume e: "e \<le> 1000000"
  have "a = b" if "a < e" "b < e" "uuid_New plain_lib a = uuid_New plain_lib b" for a b
    using that e plain_uuid_unat [of a] plain_uuid_unat [of b] by (simp add: plain_lib_def)
  then show ?thesis by (auto simp: fresh_ids_def inj_on_def)
qed

lemma horner_zeros: "horner_sum of_char (256 :: nat) (replicate n CHR 0x00) = 0"
  by (induction n) simp_all

lemma ex_nm:
  obtains nm where "getNameSpaceEntryUUID ex_env ''alice'' ''f'' = Inr nm" "1000000 < unat nm"
proof -
  have c: "canonicalNamespaceIdentity ''alice'' ''f'' = ''5:alice1:f''" by code_simp
  have t: "take 16 (pad 64 (rev ''5:alice1:f'')) = ''f:1ecila:5'' @ replicate 6 CHR 0x00" by (simp add: pad_def)
  have "1000000 < unat (word_of_bytes (''f:1ecila:5'' @ replicate 6 CHR 0x00))"
    by (simp add: word_of_bytes_def horner_zeros)
  then show thesis
    using that t by (simp add: getNameSpaceEntryUUID_def uuid_from_def plain_lib_def dec_uuid_def c)
qed

lemma ex_users:
  "user_ok ex_env (objs, ex_keys) alice" "user_ok ex_env (objs, ex_keys) bob"
  using ex_names ex_ds_pair by (auto simp: user_ok_def alice_def bob_def symmetricKeySize_def ex_keys_def)

end
