(* ===== verification/Client_Thms.thy ===== *)
theory Client_Thms
  imports Client_Instance
begin

text \<open>
  What a user of the client can rely on, in a process of its own: storing, appending and loading,
  accounts. Each is proved on the ideal store and carried to the real one by the simulation.
\<close>

section \<open>From the ideal store to a process\<close>

lemma sim_run:
  assumes "sim V True ro P Q R m m'" "P (w_ext w)" "m' (pr V w) = Some (Inr x, w')"
  obtains w1 where "m w = Some (Inr x, w1)" "pr V w1 = w'" "Q (w_ext w1)"
  using simD [OF assms(1,2)] assms(3) that by (cases "m w" rule: out_cases) auto

lemma sim_run_err:
  assumes "sim V True ro P Q R m m'" "P (w_ext w)" "m' (pr V w) = Some (Inl e, w')"
  obtains w1 where "m w = Some (Inl e, w1)" "pr V w1 = w'" "R (w_ext w1)"
  using simD [OF assms(1,2)] assms(3) that by (cases "m w" rule: out_cases) auto

lemma ideal_sealed [simp]: "sealed (ideal_of E) = sealed E" "seal (ideal_of E) = seal E"
  by (simp_all add: sealed_def seal_def fun_eq_iff)

lemma ideal_preds [simp]:
  "entry_at (ideal_of E) = entry_at E" "status_at (ideal_of E) = status_at E" "box_sealed (ideal_of E) = box_sealed E"
  "meta_at (ideal_of E) = meta_at E" "chunk_at (ideal_of E) = chunk_at E"
  "fresh_ids (ideal_of E) = fresh_ids E" "away (ideal_of E) = away E" "user_ok (ideal_of E) = user_ok E"
  by (simp_all add: entry_at_def status_at_def box_sealed_def meta_at_def chunk_at_def fresh_ids_def away_def
      user_ok_def fun_eq_iff)

lemma ideal_box_at [simp]: "box_at (ideal_of E) = box_at E"
  by (simp add: box_at_def fun_eq_iff)

lemma chunk_chain_lib:
  assumes "chunk_chain E objs ab n i us cs" "chunk_at E' = chunk_at E"
  shows "chunk_chain E' objs ab n i us cs"
  using assms by (induction rule: chunk_chain.induct) (auto intro: chunk_chain.intros)

lemma ideal_chunk_chain [simp]: "chunk_chain (ideal_of E) objs ab n i us cs = chunk_chain E objs ab n i us cs"
  using chunk_chain_lib [of E objs ab n i us cs "ideal_of E"] chunk_chain_lib [of "ideal_of E" objs ab n i us cs E] by auto

lemma ideal_file [simp]:
  "file_at (ideal_of E) V u fn ne ab md us cs = file_at E V u fn ne ab md us cs"
  "file_wf (ideal_of E) V u fn ne ab md us cs = file_wf E V u fn ne ab md us cs"
  by (simp_all add: file_at_def file_wf_def)

section \<open>Programs over the client\<close>

text \<open>In a backend that never fails, a program behaves as it does on the ideal store.\<close>

definition exact :: "('s \<Rightarrow> store_view) \<Rightarrow> ('s \<Rightarrow> bool) \<Rightarrow> ('s, 'a) op \<Rightarrow> (store_view, 'a) op \<Rightarrow> bool" where
  "exact V P m m' \<longleftrightarrow> (\<forall>w r w'. P (w_ext w) \<longrightarrow> m' (pr V w) = Some (r, w') \<longrightarrow>
     (\<exists>w1. m w = Some (r, w1) \<and> pr V w1 = w' \<and> P (w_ext w1)))"

lemma exactD:
  assumes "exact V P m m'" "P (w_ext w)" "m' (pr V w) = Some (r, w')"
  obtains w1 where "m w = Some (r, w1)" "pr V w1 = w'" "P (w_ext w1)"
  using assms unfolding exact_def by blast

lemma sim_exact: "sim V True ro P P P m m' \<Longrightarrow> exact V P m m'"
  unfolding exact_def
proof (intro allI impI)
  fix w r w'
  assume "sim V True ro P P P m m'" "P (w_ext w)" "m' (pr V w) = Some (r, w')"
  from simD [OF this(1,2)] this(3) show "\<exists>w1. m w = Some (r, w1) \<and> pr V w1 = w' \<and> P (w_ext w1)"
    by (cases "m w" rule: out_cases) auto
qed

lemma exact_return: "exact V P (returnE x) (returnE x)"
  by (simp add: exact_def returnE_def)

lemma exact_bind:
  assumes "exact V P m m'" "\<And>x. exact V P (f x) (f' x)"
  shows "exact V P (bindE m f) (bindE m' f')"
  unfolding exact_def
proof (intro allI impI)
  fix w r w'
  assume P: "P (w_ext w)" and run: "bindE m' f' (pr V w) = Some (r, w')"
  show "\<exists>w1. bindE m f w = Some (r, w1) \<and> pr V w1 = w' \<and> P (w_ext w1)"
  proof (cases "m' (pr V w)" rule: out_cases)
    case nothing
    with run show ?thesis by (simp add: bindE_def)
  next
    case (failed e w2)
    from exactD [OF assms(1) P failed] obtain w1 where "m w = Some (Inl e, w1)" "pr V w1 = w2" "P (w_ext w1)" .
    with failed run show ?thesis by (auto simp: bindE_def)
  next
    case (done_ x w2)
    from exactD [OF assms(1) P done_] obtain w1 where 1: "m w = Some (Inr x, w1)" "pr V w1 = w2" "P (w_ext w1)" .
    have "f' x (pr V w1) = Some (r, w')" using run done_ 1 by (simp add: bindE_def)
    from exactD [OF assms(2) 1(3) this] 1 show ?thesis by (metis bindE_run)
  qed
qed

text \<open>A user's edits of a file, one after the other, and a session that ends by reading it.\<close>

datatype edit = Put bytes | Add bytes

fun run_edit :: "'s env \<Rightarrow> User \<Rightarrow> op_context \<Rightarrow> string \<Rightarrow> edit \<Rightarrow> ('s, unit) op" where
  "run_edit E u c fn (Put b) = StoreFileContext E u c fn b"
| "run_edit E u c fn (Add b) = AppendToFileContext E u c fn b"

fun run_edits :: "'s env \<Rightarrow> User \<Rightarrow> op_context \<Rightarrow> string \<Rightarrow> edit list \<Rightarrow> ('s, unit) op" where
  "run_edits E u c fn [] = returnE ()"
| "run_edits E u c fn (e # es) = bindE (run_edit E u c fn e) (\<lambda>_. run_edits E u c fn es)"

definition edit_session ::
  "'s env \<Rightarrow> User \<Rightarrow> op_context \<Rightarrow> string \<Rightarrow> bytes \<Rightarrow> edit list \<Rightarrow> ('s, bytes \<times> uint64) op" where
  "edit_session E u c fn content es =
     bindE (StoreFileContext E u c fn content) (\<lambda>_.
     bindE (run_edits E u c fn es) (\<lambda>_.
     bindE (LoadFileContext E u c fn) (\<lambda>b.
     bindE (ReadFileMetadata E u fn) (\<lambda>m.
     returnE (b, sn_Version m)))))"

fun edited :: "bytes \<Rightarrow> edit \<Rightarrow> bytes" where
  "edited old (Put b) = b"
| "edited old (Add b) = old @ b"

fun version_step :: "edit \<Rightarrow> nat" where
  "version_step (Put b) = 1"
| "version_step (Add b) = (if b = [] then 0 else 1)"

definition versions :: "edit list \<Rightarrow> nat" where "versions es = sum_list (map version_step es)"

lemma versions_simps [simp]: "versions [] = 0" "versions (e # es) = version_step e + versions es"
  by (simp_all add: versions_def)

lemma AppendToFile_empty_ideal:
  assumes I: "ideal_env E" and f: "file_at E (w_ext w) u fn ne ab md us cs" and txn: "w_txnIDs w \<noteq> - 1"
  shows "AppendToFileContext E u ctx fn [] w = Some (Inr (), bump w)"
proof -
  have fb: "file_at E (w_ext (bump w)) u fn ne ab md us cs" using f by simp
  note r = file_reads [OF I fb]
  obtain rs where "namespaceResourceID E (Username u) fn = Inr rs" using r(1) ..
  then show ?thesis by (simp add: AppendToFileContext_def exec I txn bindE_run bump_def [symmetric] r(2-4))
qed

lemma ReadFileMetadata_ideal:
  assumes I: "ideal_env E" and f: "file_at E (w_ext w) u fn ne ab md us cs" and txn: "w_txnIDs w \<noteq> - 1"
  shows "ReadFileMetadata E u fn w = Some (Inr \<lparr>sn_Version = md_Version md, sn_ChunkCount = md_ChunkCount md\<rparr>, bump w)"
proof -
  have fb: "file_at E (w_ext (bump w)) u fn ne ab md us cs" using f by simp
  note r = file_reads [OF I fb]
  obtain rs where "namespaceResourceID E (Username u) fn = Inr rs" using r(1) ..
  then show ?thesis by (simp add: ReadFileMetadata_def exec I txn bindE_run bump_def [symmetric] r(2-4))
qed

text \<open>Everything an edit needs of the world before it, for the next \<open>n\<close> edits.\<close>

definition edit_ready ::
  "store_view env \<Rightarrow> nat \<Rightarrow> store_view world \<Rightarrow> User \<Rightarrow> string \<Rightarrow> NamespaceEntry \<Rightarrow> AccessBox \<Rightarrow> Metadata
   \<Rightarrow> uuid list \<Rightarrow> bytes list \<Rightarrow> nat \<Rightarrow> bool" where
  "edit_ready E k w u fn ne ab md us cs n \<longleftrightarrow> file_wf E (w_ext w) u fn ne ab md us cs \<and>
     fresh_ids E (fst (w_ext w)) (w_draws w) k \<and> away E (w_draws w) k (ab_AccessBoxStructureUUID ab) \<and>
     w_draws w + 3 * n \<le> k \<and>
     unat (md_Version md) + n < 2 ^ 64 \<and> unat (md_ChunkCount md) + n < 2 ^ 64 \<and> unat (w_txnIDs w) + n < 2 ^ 64"

lemma unat_below_max: "unat (v :: uint64) + Suc n < 2 ^ 64 \<Longrightarrow> v \<noteq> - 1 \<and> unat (v + 1) = Suc (unat v)"
proof -
  assume "unat v + Suc n < 2 ^ 64"
  then have "v \<noteq> - 1" by (auto simp: unsigned_minus_1_eq_mask mask_eq_exp_minus_1)
  with unatSuc [of v] version_next_nonzero [of v] show ?thesis by (simp add: add.commute)
qed

lemma edit_ideal:
  assumes I: "ideal_env E" and rd: "edit_ready E k w u fn ne ab md us cs (Suc n)"
  obtains w' md' us' cs' where "run_edit E u c fn e w = Some (Inr (), w')"
    "edit_ready E k w' u fn ne ab md' us' cs' n" "concat (rev cs') = edited (concat (rev cs)) e"
    "md_Version md' = md_Version md + of_nat (version_step e)" "w_txnIDs w' = w_txnIDs w + 1"
    "\<And>j. j \<noteq> ab_MetadataUUID ab \<Longrightarrow> j \<notin> set us \<Longrightarrow> j \<noteq> uuid_New (e_lib E) (w_draws w) \<Longrightarrow> fst (w_ext w') j = fst (w_ext w) j"
    "snd (w_ext w') = snd (w_ext w)" "set us' \<subseteq> set us \<union> {uuid_New (e_lib E) (w_draws w)}" "w_draws w' \<le> w_draws w + 3"
proof -
  note R = rd [unfolded edit_ready_def]
  define d where "d = w_draws w"
  have f: "file_wf E (w_ext w) u fn ne ab md us cs" and fa: "file_at E (w_ext w) u fn ne ab md us cs"
    using R by (simp_all add: file_wf_def)
  have v: "md_Version md \<noteq> - 1" "unat (md_Version md + 1) = Suc (unat (md_Version md))" using R unat_below_max by blast+
  have kc: "md_ChunkCount md \<noteq> - 1" "unat (md_ChunkCount md + 1) = Suc (unat (md_ChunkCount md))" using R unat_below_max by blast+
  have t: "w_txnIDs w \<noteq> - 1" "unat (w_txnIDs w + 1) = Suc (unat (w_txnIDs w))" using R unat_below_max by blast+
  have fr: "fresh_ids E (fst (w_ext w)) d k" and far: "away E d k (ab_AccessBoxStructureUUID ab)" and dk: "d + 3 \<le> k"
    using R by (simp_all add: d_def)
  have far': "away E (d + 3) k (ab_AccessBoxStructureUUID ab)" using away_mono [OF far] by simp
  have new: "fst (w_ext w) (uuid_New (e_lib E) (w_draws w)) = None" using fresh_ids_unused [OF fr, of d] dk by (simp add: d_def)
  have st: "uuid_New (e_lib E) (w_draws w) \<noteq> ab_AccessBoxStructureUUID ab" using awayD(1) [OF far, of d] dk by (simp add: d_def)
  have meta: "fst (w_ext w) (ab_MetadataUUID ab) \<noteq> None"
    using file_at_parts(3) [OF fa] by (auto simp: meta_at_def sealed_def)
  have fresh': "fresh_ids E (fst (w_ext w')) (d + 3) k"
    if "\<And>j. j \<noteq> ab_MetadataUUID ab \<Longrightarrow> j \<notin> X \<Longrightarrow> j \<noteq> uuid_New (e_lib E) (w_draws w) \<Longrightarrow> fst (w_ext w') j = fst (w_ext w) j"
      "\<And>j. j \<in> X \<Longrightarrow> fst (w_ext w') j = None" for w' :: "store_view world" and X
  proof (rule fresh_ids_after [OF fr, where X = "{}"])
    fix i assume i: "fst (w_ext w') i \<noteq> None"
    then have "i \<notin> X" using that(2) [of i] by auto
    with i that(1) [of i] meta
    show "fst (w_ext w) i \<noteq> None \<or> i \<in> uuid_New (e_lib E) ` {d ..< d + 3} \<or> i \<in> {}"
      by (cases "i = uuid_New (e_lib E) (w_draws w)"; cases "i = ab_MetadataUUID ab") (auto simp: d_def)
  qed (use dk in simp_all)
  show thesis
  proof (cases e)
    case (Put b)
    obtain w' md' i where r: "StoreFileContext E u c fn b w = Some (Inr (), w')"
      "file_wf E (w_ext w') u fn ne ab md' [i] [b]" "md_Version md' = md_Version md + 1"
      "\<And>j. j \<noteq> ab_MetadataUUID ab \<Longrightarrow> j \<notin> set us \<Longrightarrow> j \<noteq> uuid_New (e_lib E) (w_draws w) \<Longrightarrow> fst (w_ext w') j = fst (w_ext w) j"
      "snd (w_ext w') = snd (w_ext w)" "w_draws w' = w_draws w + 3" "w_txnIDs w' = w_txnIDs w + 1"
      "\<And>j. j \<in> set us \<Longrightarrow> fst (w_ext w') j = None" "i = uuid_New (e_lib E) (w_draws w)"
      by (rule StoreFile_over_ideal [OF I f t(1) v(1) new st, where ctx = c and content = b]) (rule that)
    have "chunk_chain E (fst (w_ext w')) ab (unat (md_ChunkCount md')) (md_TailUUID md') [i] [b]"
      using file_at_parts(4) [of E "w_ext w'" u fn ne ab md' "[i]" "[b]"] r(2) by (auto simp: file_wf_def)
    from chunk_chain_length [OF this] have "unat (md_ChunkCount md') = 1" by simp
    then have "edit_ready E k w' u fn ne ab md' [i] [b] n"
      using r R v t kc far' fresh' [of "set us" w'] by (auto simp: edit_ready_def d_def)
    then show thesis by (rule that [rotated]) (use r Put in auto)
  next
    case (Add b)
    show thesis
    proof (cases "b = []")
      case True
      have "edit_ready E k (bump w) u fn ne ab md us cs n" using R t by (simp add: edit_ready_def)
      with AppendToFile_empty_ideal [OF I fa t(1), of c] Add True show thesis by (intro that [of "bump w" md us cs]) auto
    next
      case False
      obtain w' md' i where r: "AppendToFileContext E u c fn b w = Some (Inr (), w')"
        "file_wf E (w_ext w') u fn ne ab md' (i # us) (b # cs)" "md_Version md' = md_Version md + 1"
        "md_ChunkCount md' = md_ChunkCount md + 1"
        "\<And>j. j \<noteq> ab_MetadataUUID ab \<Longrightarrow> j \<noteq> uuid_New (e_lib E) (w_draws w) \<Longrightarrow> fst (w_ext w') j = fst (w_ext w) j"
        "snd (w_ext w') = snd (w_ext w)" "w_draws w' = w_draws w + 3" "w_txnIDs w' = w_txnIDs w + 1"
        "i = uuid_New (e_lib E) (w_draws w)"
        by (rule AppendToFile_ideal [OF I f t(1) v(1) kc(1) False new st, where ctx = c]) (rule that)
      have "edit_ready E k w' u fn ne ab md' (i # us) (b # cs) n"
        using r R v t kc far' fresh' [of "{}" w'] by (auto simp: edit_ready_def d_def)
      then show thesis by (rule that [rotated]) (use r Add False in auto)
    qed
  qed
qed

lemma edits_ideal:
  assumes I: "ideal_env E" and rd: "edit_ready E k w u fn ne ab md us cs (length es + n)"
  obtains w' md' us' cs' where "run_edits E u c fn es w = Some (Inr (), w')"
    "edit_ready E k w' u fn ne ab md' us' cs' n" "concat (rev cs') = foldl edited (concat (rev cs)) es"
    "md_Version md' = md_Version md + of_nat (versions es)" "w_txnIDs w' = w_txnIDs w + of_nat (length es)"
  using rd
proof (induction es arbitrary: w md us cs thesis)
  case Nil
  then show ?case by (simp add: returnE_def)
next
  case (Cons e es)
  obtain w1 md1 us1 cs1 where 1: "run_edit E u c fn e w = Some (Inr (), w1)"
    "edit_ready E k w1 u fn ne ab md1 us1 cs1 (length es + n)" "concat (rev cs1) = edited (concat (rev cs)) e"
    "md_Version md1 = md_Version md + of_nat (version_step e)" "w_txnIDs w1 = w_txnIDs w + 1"
    using edit_ideal [OF I, of k w u fn ne ab md us cs "length es + n" c e] Cons.prems(2) by (metis add_Suc length_Cons)
  obtain w2 md2 us2 cs2 where 2: "run_edits E u c fn es w1 = Some (Inr (), w2)"
    "edit_ready E k w2 u fn ne ab md2 us2 cs2 n" "concat (rev cs2) = foldl edited (concat (rev cs1)) es"
    "md_Version md2 = md_Version md1 + of_nat (versions es)" "w_txnIDs w2 = w_txnIDs w1 + of_nat (length es)"
    using Cons.IH [OF _ 1(2)] by metis
  show ?case
    by (rule Cons.prems(1) [of w2 md2 us2 cs2]) (use 1 2 in \<open>simp_all add: bindE_run algebra_simps\<close>)
qed

text \<open>
  The whole session on the ideal store.
\<close>

lemma edit_session_ideal:
  assumes I: "ideal_env E" and u: "user_ok E (w_ext w) u"
    and nm: "getNameSpaceEntryUUID E (Username u) fn = Inr nm" "nm \<noteq> uuid_Nil" "fst (w_ext w) nm = None"
    and fresh: "fresh_ids E (fst (w_ext w)) (w_draws w) k" and far: "away E (w_draws w) k nm"
    and k: "w_draws w + 26 + 3 * length es \<le> k"
    and len: "length es < 2 ^ 63" and txn: "unat (w_txnIDs w) + length es + 3 < 2 ^ 64"
  obtains w' where "edit_session E u c fn content es w =
    Some (Inr (foldl edited content es, of_nat (Suc (versions es))), w')"
proof -
  define n where "n = length es + 2"
  have t: "w_txnIDs w \<noteq> - 1" "unat (w_txnIDs w + 1) = Suc (unat (w_txnIDs w))"
    using unat_below_max [of "w_txnIDs w" n] txn by (simp_all add: n_def)
  have k20: "w_draws w + 20 \<le> k" using k by simp
  obtain w1 ne ab md us where 1: "StoreFileContext E u c fn content w = Some (Inr (), w1)"
    "file_wf E (w_ext w1) u fn ne ab md us [content]" "md_Version md = 1"
    "\<And>i. i \<noteq> nm \<Longrightarrow> i \<notin> uuid_New (e_lib E) ` {w_draws w ..< w_draws w1} \<Longrightarrow> fst (w_ext w1) i = fst (w_ext w) i"
    "w_draws w1 = w_draws w + 20" "w_txnIDs w1 = w_txnIDs w + 1"
    "ab_AccessBoxStructureUUID ab \<in> uuid_New (e_lib E) ` {w_draws w ..< w_draws w1}"
    using StoreFile_new_ideal [OF I u t(1) nm fresh far k20, of c content] by metis
  have fr1: "fresh_ids E (fst (w_ext w1)) (w_draws w1) k"
  proof (rule fresh_ids_after [OF fresh, where X = "{nm}"])
    show "away E (w_draws w1) k i" if "i \<in> {nm}" for i using away_mono [OF far] 1(5) that by simp
  qed (use 1(4,5) k in force)+
  have far1: "away E (w_draws w1) k (ab_AccessBoxStructureUUID ab)"
    using fresh_ids_drawn [OF fresh _ 1(7)] 1(5) k by simp
  have "file_at E (w_ext w1) u fn ne ab md us [content]" using 1(2) by (simp add: file_wf_def)
  from chunk_chain_length [OF file_at_parts(4) [OF this]] have cc: "unat (md_ChunkCount md) = 1" by simp
  have "edit_ready E k w1 u fn ne ab md us [content] (length es + 2)"
    using 1(2,3,5,6) fr1 far1 cc t len txn k by (simp add: edit_ready_def)
  then obtain w2 md2 us2 cs2 where 2: "run_edits E u c fn es w1 = Some (Inr (), w2)"
    "edit_ready E k w2 u fn ne ab md2 us2 cs2 2" "concat (rev cs2) = foldl edited (concat (rev [content])) es"
    "md_Version md2 = md_Version md + of_nat (versions es)" "w_txnIDs w2 = w_txnIDs w1 + of_nat (length es)"
    by (rule edits_ideal [OF I])
  have f2: "file_at E (w_ext w2) u fn ne ab md2 us2 cs2" and t2: "unat (w_txnIDs w2) + 2 < 2 ^ 64"
    using 2(2) by (simp_all add: edit_ready_def file_wf_def)
  have t3: "w_txnIDs w2 \<noteq> - 1" "w_txnIDs (bump w2) \<noteq> - 1"
    using unat_below_max [of "w_txnIDs w2" 1] unat_below_max [of "w_txnIDs w2 + 1" 0] t2 by simp_all
  have f3: "file_at E (w_ext (bump w2)) u fn ne ab md2 us2 cs2" using f2 by simp
  show thesis
    by (rule that [of "bump (bump w2)"])
       (simp add: edit_session_def bindE_run 1(1) 2(1) LoadFile_ideal [OF I f2 t3(1)] ReadFileMetadata_ideal [OF I f3 t3(2)]
         exec 2(3,4) 1(3))
qed

text \<open>
  C22. A file is what its edits make it. In a process of its own (userlib store, local lock
  manager, no other transaction), a user stores a new file and then overwrites it and appends to
  it any number of times. Every one of these operations succeeds without waiting, loading returns
  exactly the content the edits describe, the recorded version is one more than the number of
  edits that changed the file (an empty append does not), and no lock stays held.
\<close>

theorem client_edit_session:
  assumes E: "E = local_client L get put lib U ord"
    and ok: "local_ok L objs keys get put" "lib_ok lib" "uuid_ok U" "lm_quiet (get (w_ext w))"
    and ctx: "ctx_Err (oc_ctx c) = None"
    and user: "user_ok E (objs (w_ext w), keys (w_ext w)) u"
    and name: "getNameSpaceEntryUUID E (Username u) fn = Inr nm" "nm \<noteq> uuid_Nil" "objs (w_ext w) nm = None"
    and fresh: "fresh_ids E (objs (w_ext w)) (w_draws w) k" "away E (w_draws w) k nm"
      "w_draws w + 26 + 3 * length es \<le> k"
    and room: "length es < 2 ^ 63" "unat (w_txnIDs w) + length es + 3 < 2 ^ 64"
  shows "\<exists>w'. edit_session E u c fn content es w =
       Some (Inr (foldl edited content es, of_nat (Suc (versions es))), w') \<and>
     lm_quiet (get (w_ext w'))"
proof -
  let ?V = "\<lambda>s. (objs s, keys s)" and ?P = "\<lambda>s. local_ok L objs keys get put \<and> lm_quiet (get s)"
  have ex: "exact ?V ?P (run_edits E u c fn es) (run_edits (ideal_of E) u c fn es)"
  proof (induction es)
    case (Cons e es)
    have "exact ?V ?P (run_edit E u c fn e) (run_edit (ideal_of E) u c fn e)"
      using ctx unfolding E by (cases e) (simp_all add: sim_exact [OF lcl.StoreFile_sim] sim_exact [OF lcl.AppendToFile_sim])
    from exact_bind [OF this Cons] show ?case by simp
  qed (simp add: exact_return)
  have "exact ?V ?P (edit_session E u c fn content es) (edit_session (ideal_of E) u c fn content es)"
    unfolding edit_session_def
    by (intro exact_bind exact_return ex) (use ctx E in \<open>simp_all add: sim_exact [OF lcl.StoreFile_sim]
      sim_exact [OF lcl.LoadFile_sim] sim_exact [OF lcl.ReadFileMetadata_sim]\<close>)
  note exs = this
  have "ideal_env (ideal_of E)" using ok(2,3) by (intro ideal_env_of) (simp_all add: E local_client_def)
  from edit_session_ideal [OF this, of "pr ?V w" u fn nm k es c content] user name fresh room
  obtain w2 where "edit_session (ideal_of E) u c fn content es (pr ?V w) =
      Some (Inr (foldl edited content es, of_nat (Suc (versions es))), w2)" by auto
  from exactD [OF exs _ this] ok show ?thesis by auto
qed

theorem client_edit_session_witness:
  "\<exists>w'. edit_session ex_env alice op_Background ''f'' ''hello'' [Add '' world'', Put ''bye'', Add [], Add ''!''] ex_world =
     Some (Inr (''bye!'', 4), w') \<and> lm_quiet (p_locks (w_ext w'))"
proof -
  obtain nm where nm: "getNameSpaceEntryUUID ex_env ''alice'' ''f'' = Inr nm" "1000000 < unat nm" by (rule ex_nm)
  have "nm \<noteq> uuid_Nil" using nm(2) by auto
  then show ?thesis
    using client_edit_session [OF ex_env_def mem_local_ok plain_lib_ok dec_uuid_ok, of ex_world op_Background alice "''f''" nm
        100 "[Add '' world'', Put ''bye'', Add [], Add ''!'']" "''hello''"] nm ex_away [OF nm(2)]
    by (simp add: lm_quiet_new ex_users ex_fresh op_Background_def)
qed

end
