(* ===== verification/Client_Sharing.thy ===== *)
theory Client_Sharing
  imports Client_Thms
begin

text \<open>
  Sharing on the ideal store: a file with an owner, branch boxes for the direct recipients, and
  the names under which others have accepted it (\<open>shared\<close>). Inviting adds a branch, accepting adds
  a name, every edit is seen under every name, and revoking cuts off exactly the names of one
  branch.
\<close>

section \<open>A shared file\<close>

definition branch_entry :: "AccessBox \<Rightarrow> BranchBoxRecord \<Rightarrow> NamespaceEntry" where
  "branch_entry ab br =
     \<lparr>ne_IsOwner = False, ne_FileID = ab_FileID ab, ne_AccessBoxUUID = br_BoxUUID br,
      ne_AccessBoxEncKey = br_BoxEncKey br, ne_AccessBoxMACKey = br_BoxMACKey br,
      ne_AccessBoxStructureUUID = uuid_Nil, ne_AccessBoxStructureEncKey = [], ne_AccessBoxStructureMACKey = []\<rparr>"

text \<open>A name of a recipient: the user, the filename it chose, and the direct recipient of the branch.\<close>

type_synonym member = "User \<times> string \<times> string"

definition member_at :: "'s env \<Rightarrow> objects \<Rightarrow> AccessBox \<Rightarrow> (string \<Rightarrow> BranchBoxRecord option) \<Rightarrow> member \<Rightarrow> bool" where
  "member_at E objs ab shares m \<longleftrightarrow> (case m of (ru, fn, r) \<Rightarrow>
     \<exists>br. shares r = Some br \<and> entry_at E objs ru fn (branch_entry ab br))"

text \<open>The objects of the branches, and the objects of the names.\<close>

definition branch_ids :: "(string \<Rightarrow> BranchBoxRecord option) \<Rightarrow> uuid set" where
  "branch_ids shares = br_BoxUUID ` ran shares"

lemma branch_id: "shares r = Some br \<Longrightarrow> br_BoxUUID br \<in> branch_ids shares"
  by (auto simp: branch_ids_def ran_def)

definition name_ids :: "'s env \<Rightarrow> member set \<Rightarrow> uuid set" where
  "name_ids E M = {i. \<exists>(ru, fn, r) \<in> M. getNameSpaceEntryUUID E (Username ru) fn = Inr i}"

text \<open>No two objects of the shared file have the same identifier.\<close>

definition apart ::
  "'s env \<Rightarrow> uuid \<Rightarrow> NamespaceEntry \<Rightarrow> AccessBox \<Rightarrow> uuid list \<Rightarrow> (string \<Rightarrow> BranchBoxRecord option) \<Rightarrow> member set \<Rightarrow> bool" where
  "apart E nm ne ab us shares M \<longleftrightarrow>
     distinct (file_objects nm ne ab us) \<and>
     (\<forall>r r' br br'. shares r = Some br \<longrightarrow> shares r' = Some br' \<longrightarrow> br_BoxUUID br = br_BoxUUID br' \<longrightarrow> r = r') \<and>
     branch_ids shares \<inter> set (file_objects nm ne ab us) = {} \<and>
     name_ids E M \<inter> set (file_objects nm ne ab us) = {} \<and> name_ids E M \<inter> branch_ids shares = {}"

definition shared ::
  "'s env \<Rightarrow> store_view \<Rightarrow> User \<Rightarrow> string \<Rightarrow> NamespaceEntry \<Rightarrow> AccessBox \<Rightarrow> Metadata \<Rightarrow> uuid list \<Rightarrow> bytes list
   \<Rightarrow> (string \<Rightarrow> BranchBoxRecord option) \<Rightarrow> member set \<Rightarrow> bool" where
  "shared E V u fn ne ab md us cs shares M \<longleftrightarrow>
     file_at E V u fn ne ab md us cs \<and> owner_at E (fst V) u ne ab shares \<and>
     (\<forall>br \<in> ran shares. box_sealed E (fst V) (br_BoxUUID br) (br_BoxEncKey br) (br_BoxMACKey br) ab) \<and>
     (\<forall>m \<in> M. member_at E (fst V) ab shares m) \<and>
     (\<exists>nm. getNameSpaceEntryUUID E (Username u) fn = Inr nm \<and> apart E nm ne ab us shares M)"

lemma sharedD:
  assumes "shared E V u fn ne ab md us cs shares M"
  shows "file_at E V u fn ne ab md us cs" "owner_at E (fst V) u ne ab shares"
    "shares r = Some br \<Longrightarrow> box_sealed E (fst V) (br_BoxUUID br) (br_BoxEncKey br) (br_BoxMACKey br) ab"
    "m \<in> M \<Longrightarrow> member_at E (fst V) ab shares m"
    "getNameSpaceEntryUUID E (Username u) fn = Inr nm \<Longrightarrow> apart E nm ne ab us shares M"
    "file_wf E V u fn ne ab md us cs"
  using assms by (auto simp: shared_def ranI file_wf_def apart_def)

lemma file_at_cong:
  assumes f: "file_at E V u fn ne ab md us cs" and nm: "getNameSpaceEntryUUID E (Username u) fn = Inr nm"
    and o: "fst V' nm = fst V nm" "fst V' (ne_AccessBoxUUID ne) = fst V (ne_AccessBoxUUID ne)"
      "fst V' (ab_StatusUUID ab) = fst V (ab_StatusUUID ab)" "fst V' (ab_MetadataUUID ab) = fst V (ab_MetadataUUID ab)"
      "\<And>j. j \<in> set us \<Longrightarrow> fst V' j = fst V j" and keys: "snd V' = snd V"
  shows "file_at E V' u fn ne ab md us cs"
proof -
  note p = file_at_parts [OF f]
  show ?thesis
    unfolding file_at_def
  proof (intro conjI)
    show "entry_at E (fst V') u fn ne"
      using p(1) entry_at_cong [of E u fn nm "fst V'" "fst V" ne, OF nm o(1)] by simp
    show "box_at E V' ne ab" using p(2) box_at_cong [of V' ne V ab E, OF o(2,3) keys] by simp
    show "meta_at E (fst V') ab md" using p(3) meta_at_cong [of "fst V'" ab "fst V" E md, OF o(4)] by simp
    show "chunk_chain E (fst V') ab (unat (md_ChunkCount md)) (md_TailUUID md) us cs"
      by (rule chunk_chain_cong [OF p(4) o(5)])
  qed
qed

lemma box_sealed_cong: "objs' i = objs i \<Longrightarrow> box_sealed E objs' i ek mk ab = box_sealed E objs i ek mk ab"
  by (simp add: box_sealed_def sealed_def)

lemma owner_at_cong:
  "objs' (ab_AccessBoxStructureUUID ab) = objs (ab_AccessBoxStructureUUID ab) \<Longrightarrow>
   owner_at E objs u ne ab shares \<Longrightarrow> owner_at E objs' u ne ab shares"
  using sealed_cong [of objs' "ab_AccessBoxStructureUUID ab" objs] unfolding owner_at_def by metis

lemma member_at_cong:
  assumes "\<And>i. getNameSpaceEntryUUID E (Username ru) fn = Inr i \<Longrightarrow> objs' i = objs i"
    "member_at E objs ab shares (ru, fn, r)"
  shows "member_at E objs' ab shares (ru, fn, r)"
proof -
  obtain br nm where br: "shares r = Some br" "entry_at E objs ru fn (branch_entry ab br)"
      and nm: "getNameSpaceEntryUUID E (Username ru) fn = Inr nm"
    using assms(2) by (auto simp: member_at_def entry_at_def)
  with entry_at_cong [of E ru fn nm objs' objs, OF nm assms(1) [OF nm]] show ?thesis by (auto simp: member_at_def)
qed

text \<open>What a recipient has under its name is the same file.\<close>

lemma member_file:
  assumes sh: "shared E V u fn ne ab md us cs shares M" and m: "(ru, fn', r) \<in> M"
  obtains br where "shares r = Some br" "file_wf E V ru fn' (branch_entry ab br) ab md us cs"
proof -
  from sharedD(4) [OF sh m] obtain br nm' where br: "shares r = Some br" "entry_at E (fst V) ru fn' (branch_entry ab br)"
      and nm': "getNameSpaceEntryUUID E (Username ru) fn' = Inr nm'"
    by (auto simp: member_at_def entry_at_def)
  note p = file_at_parts [OF sharedD(1) [OF sh]]
  obtain nm where nm: "getNameSpaceEntryUUID E (Username u) fn = Inr nm" using p(1) by (auto simp: entry_at_def)
  note a = sharedD(5) [OF sh nm]
  have "box_at E V (branch_entry ab br) ab"
    using sharedD(3) [OF sh br(1)] p(2) by (simp add: box_at_def branch_entry_def)
  with p br have "file_at E V ru fn' (branch_entry ab br) ab md us cs" by (simp add: file_at_def)
  moreover have "nm' \<in> name_ids E M" "br_BoxUUID br \<in> branch_ids shares"
    using m nm' br(1) by (auto simp: name_ids_def branch_ids_def ranI)
  then have "distinct (file_objects nm' (branch_entry ab br) ab us)"
    using a by (auto simp: apart_def file_objects_def branch_entry_def)
  ultimately show thesis using that br(1) nm' by (auto simp: file_wf_def)
qed

section \<open>Edits of a shared file\<close>

text \<open>Under any name: an edit changes the metadata and the chunks, and everybody sees the result.\<close>

lemma shared_frame:
  assumes sh: "shared E V u fn ne ab md us cs shares M"
    and nm: "getNameSpaceEntryUUID E (Username u) fn = Inr nm"
    and new: "meta_at E (fst V') ab md'" "chunk_chain E (fst V') ab (unat (md_ChunkCount md')) (md_TailUUID md') us' cs'"
    and frame: "\<And>j. j \<noteq> ab_MetadataUUID ab \<Longrightarrow> j \<notin> set us \<Longrightarrow> j \<notin> X \<Longrightarrow> fst V' j = fst V j"
    and keys: "snd V' = snd V"
    and us': "set us' \<subseteq> set us \<union> X" "distinct us'"
    and X: "X \<inter> (set (file_objects nm ne ab []) \<union> branch_ids shares \<union> name_ids E M) = {}"
  shows "shared E V' u fn ne ab md' us' cs' shares M"
proof -
  note p = file_at_parts [OF sharedD(1) [OF sh]] and a = sharedD(5) [OF sh nm, unfolded apart_def]
  have same: "fst V' j = fst V j" if "j \<in> set (nm # ne_AccessBoxUUID ne # ab_StatusUUID ab # [ab_AccessBoxStructureUUID ab])
      \<union> branch_ids shares \<union> name_ids E M" for j
  proof (rule frame)
    show "j \<noteq> ab_MetadataUUID ab" "j \<notin> set us" "j \<notin> X" using that a X by (auto simp: file_objects_def)
  qed
  have 1: "entry_at E (fst V') u fn ne"
    using p(1) entry_at_cong [of E u fn nm "fst V'" "fst V" ne, OF nm] same by simp
  have 2: "box_at E V' ne ab" using p(2) box_at_cong [of V' ne V ab E] same keys by simp
  have 3: "owner_at E (fst V') u ne ab shares"
    by (rule owner_at_cong [OF _ sharedD(2) [OF sh]]) (simp add: same)
  have 4: "box_sealed E (fst V') (br_BoxUUID br) (br_BoxEncKey br) (br_BoxMACKey br) ab" if br: "br \<in> ran shares" for br
  proof -
    obtain r where r: "shares r = Some br" using br by (auto simp: ran_def)
    have "fst V' (br_BoxUUID br) = fst V (br_BoxUUID br)" using br by (intro same) (auto simp: branch_ids_def)
    with sharedD(3) [OF sh r] box_sealed_cong [of "fst V'" "br_BoxUUID br" "fst V"] show ?thesis by metis
  qed
  have 5: "member_at E (fst V') ab shares m" if "m \<in> M" for m
  proof (cases m)
    case (fields ru fn' r)
    show ?thesis
      unfolding fields
      by (rule member_at_cong [OF same]) (use that fields sharedD(4) [OF sh that] in \<open>auto simp: name_ids_def\<close>)
  qed
  have "apart E nm ne ab us' shares M"
    using a us' X by (auto simp: apart_def file_objects_def)
  with 1 2 3 4 5 new nm show ?thesis by (auto simp: shared_def file_at_def)
qed

text \<open>An edit by the owner or by any recipient keeps the file shared as it was.\<close>

lemma shared_edit:
  assumes sh: "shared E V u fn ne ab md us cs shares M"
    and nm: "getNameSpaceEntryUUID E (Username u) fn = Inr nm"
    and f: "file_wf E V' ru fn' ne' ab md' us' cs'"
    and frame: "\<And>j. j \<noteq> ab_MetadataUUID ab \<Longrightarrow> j \<notin> set us \<Longrightarrow> j \<noteq> i \<Longrightarrow> fst V' j = fst V j"
    and keys: "snd V' = snd V" and us': "set us' \<subseteq> set us \<union> {i}"
    and i: "i \<notin> set (file_objects nm ne ab []) \<union> branch_ids shares \<union> name_ids E M"
  shows "shared E V' u fn ne ab md' us' cs' shares M"
proof (rule shared_frame [OF sh nm, where X = "{i}"])
  have fa: "file_at E V' ru fn' ne' ab md' us' cs'" using f by (simp add: file_wf_def)
  show "meta_at E (fst V') ab md'" "chunk_chain E (fst V') ab (unat (md_ChunkCount md')) (md_TailUUID md') us' cs'"
    using file_at_parts(3,4) [OF fa] by simp_all
  show "distinct us'" using chunk_chain_length [OF file_at_parts(4) [OF fa]] by simp
qed (use frame keys us' i in auto)

section \<open>Inviting\<close>

text \<open>
  An invitation in the store: signed by the sender, its root wrapped for the recipient, its payload
  authenticated and encrypted under keys derived from the root.
\<close>

definition invite_at ::
  "'s env \<Rightarrow> store_view \<Rightarrow> uuid \<Rightarrow> User \<Rightarrow> User \<Rightarrow> InvitationPayload \<Rightarrow> bool" where
  "invite_at E V i u ru pl \<longleftrightarrow> i \<noteq> uuid_Nil \<and>
     (\<exists>wr ct mac sig root ek mk vk.
        fst V i = Some (json_Marshal Invitation_codec
          \<lparr>iv_WrappedRoot = wr, iv_Ciphertext = ct, iv_MAC = mac, iv_Signature = sig\<rparr>) \<and>
        snd V (getVerifyKeyName E (Username u)) = Some vk \<and> KeyType vk = ''DS'' \<and>
        DSVerify (e_lib E) vk (getInvitationSignatureMessage E i
          \<lparr>sf_WrappedRoot = wr, sf_Ciphertext = ct, sf_MAC = mac\<rparr>) sig = None \<and>
        PKEDec (e_lib E) (PKEPrivate ru) wr = Inr root \<and> length root = symmetricKeySize \<and>
        deriveInvitationKeys E root i = Inr (ek, mk) \<and>
        HMACEval (e_lib E) mk (getInvitationMACMessage E i ct) = Inr mac \<and> length mac = HashSizeBytes \<and>
        AESBlockSizeBytes \<le> length ct \<and>
        SymDec (e_lib E) ek ct = json_Marshal (InvitationPayload_codec (e_uuid E)) pl)"

text \<open>\<open>recipient_ok\<close>: the recipient is a user with published keys.\<close>

definition recipient_ok :: "'s env \<Rightarrow> store_view \<Rightarrow> User \<Rightarrow> bool" where
  "recipient_ok E V ru \<longleftrightarrow> user_ok E V ru \<and> valid_utf8 (Username ru) \<and>
     (\<exists>pk. snd V (getPKEKeyName E (Username ru)) = Some pk \<and> pke_pair (e_lib E) pk (PKEPrivate ru))"

lemma buildInvitation_ideal:
  assumes I: "ideal_env E" and i: "i \<noteq> uuid_Nil" and pk: "pke_pair (e_lib E) pk (PKEPrivate ru)"
    and vk: "ds_pair (e_lib E) vk (SignPrivate u)"
  obtains b where "buildInvitation E (Some u) pk i pl w = Some (Inr b, w\<lparr>w_draws := w_draws w + 4\<rparr>)"
    "\<And>V. fst V i = Some b \<Longrightarrow> snd V (getVerifyKeyName E (Username u)) = Some vk \<Longrightarrow> invite_at E V i u ru pl"
proof -
  note L = ideal_envD(3) [OF I]
  define d where "d = w_draws w"
  define root where "root = RandomBytes (e_lib E) d symmetricKeySize"
  have root: "length root = symmetricKeySize" unfolding root_def by (rule lib_okD(8) [OF L])
  obtain ek mk where k: "deriveInvitationKeys E root i = Inr (ek, mk)"
      "length ek = symmetricKeySize" "length mk = symmetricKeySize"
    using derive_pair_ok [OF L root] unfolding deriveInvitationKeys_def by metis
  define ct where "ct = SymEnc (e_lib E) ek (RandomBytes (e_lib E) (Suc d) AESBlockSizeBytes)
    (json_Marshal (InvitationPayload_codec (e_uuid E)) pl)"
  have k16: "length ek = 16" "length mk = 16" using k by (simp_all add: symmetricKeySize_def)
  have ct: "SymDec (e_lib E) ek ct = json_Marshal (InvitationPayload_codec (e_uuid E)) pl" "AESBlockSizeBytes \<le> length ct"
    unfolding ct_def using lib_okD(4,5) [OF L k16(1) lib_okD(8) [OF L]] by simp_all
  obtain mac where mac: "HMACEval (e_lib E) mk (getInvitationMACMessage E i ct) = Inr mac" "length mac = HashSizeBytes"
    using lib_okD(6) [OF L k16(2)] by blast
  obtain wr where wr: "PKEEnc (e_lib E) pk root (Suc (Suc d)) = Inr wr" "PKEDec (e_lib E) (PKEPrivate ru) wr = Inr root"
    using pk root by (auto simp: pke_pair_def symmetricKeySize_def)
  define sf where "sf = \<lparr>sf_WrappedRoot = wr, sf_Ciphertext = ct, sf_MAC = mac\<rparr>"
  obtain sig where sig: "DSSign (e_lib E) (SignPrivate u) (getInvitationSignatureMessage E i sf) (Suc (Suc (Suc d))) = Inr sig"
      "DSVerify (e_lib E) vk (getInvitationSignatureMessage E i sf) sig = None"
    using vk by (auto simp: ds_pair_def)
  define b where "b = json_Marshal Invitation_codec
    \<lparr>iv_WrappedRoot = wr, iv_Ciphertext = ct, iv_MAC = mac, iv_Signature = sig\<rparr>"
  have kt: "KeyType pk = ''PKE''" "KeyType vk = ''DS''" using pk vk by (simp_all add: pke_pair_def ds_pair_def)
  have "buildInvitation E (Some u) pk i pl w = Some (Inr b, w\<lparr>w_draws := w_draws w + 4\<rparr>)"
    using kt k mac wr sig
    by (simp add: buildInvitation_def exec Let_def d_def [symmetric] root_def [symmetric] ct_def [symmetric]
        sf_def [symmetric] b_def numeral_eq_Suc)
  moreover have "invite_at E V i u ru pl"
    if "fst V i = Some b" "snd V (getVerifyKeyName E (Username u)) = Some vk" for V
    unfolding invite_at_def
    by (intro conjI, rule i, rule exI [of _ wr], rule exI [of _ ct], rule exI [of _ mac], rule exI [of _ sig],
        rule exI [of _ root], rule exI [of _ ek], rule exI [of _ mk], rule exI [of _ vk])
       (use that kt k(1) ct mac wr(2) sig(2) root in \<open>simp add: b_def sf_def\<close>)
  ultimately show thesis using that by blast
qed

lemma loadOwnerStructure_ideal:
  assumes I: "ideal_env E" and o: "owner_at E (fst (w_ext w)) u ne ab shares"
  obtains bs where "\<And>ctx. loadOwnerAccessBoxStructure E ctx ne ab w =
      Some (Inr \<lparr>as_FileID = ab_FileID ab, as_CurrentEpoch = ab_EpochID ab, as_RecipientBoxes = Some bs\<rparr>, w)"
    "map_of bs = shares" "boxes_ok bs"
proof -
  from o obtain bs where bs: "boxes_ok bs" "map_of bs = shares" and
    se: "sealed E (fst (w_ext w)) accessBoxStructureObjectType (ne_AccessBoxStructureUUID ne) (AccessBoxStructure_codec (e_uuid E))
          \<lparr>as_FileID = ab_FileID ab, as_CurrentEpoch = ab_EpochID ab, as_RecipientBoxes = Some bs\<rparr>
          (ne_AccessBoxStructureEncKey ne) (ne_AccessBoxStructureMACKey ne)" and
    own: "ne_IsOwner ne" "ne_AccessBoxStructureUUID ne = ab_AccessBoxStructureUUID ab"
    by (auto simp: owner_at_def)
  let ?bs = "sort_key fst bs"
  have d: "distinct (map fst bs)" using bs(1) by (simp add: boxes_ok_def)
  have m: "map_of ?bs = shares" "boxes_ok ?bs"
  proof -
    have "map_of ?bs = map_of bs"
      by (rule map_of_eqI) (use d in \<open>auto simp: distinct_map\<close>)
    then show "map_of ?bs = shares" using bs(2) by simp
    have "distinct (map fst ?bs)" using d by (simp add: distinct_map)
    then show "boxes_ok ?bs" using bs(1) by (simp add: boxes_ok_def)
  qed
  have ld: "loadDatastoreObject E ctx accessBoxStructureObjectType (ne_AccessBoxStructureUUID ne) (ne_AccessBoxStructureEncKey ne)
      (ne_AccessBoxStructureMACKey ne) (AccessBoxStructure_codec (e_uuid E)) zero_AccessBoxStructure w =
      Some (Inr \<lparr>as_FileID = ab_FileID ab, as_CurrentEpoch = ab_EpochID ab, as_RecipientBoxes = Some ?bs\<rparr>, w)" for ctx
    by (rule load_sealed [OF I se]) (use AccessBoxStructure_decode [OF ideal_envD(4) [OF I] _ bs(1)] in simp_all)
  show thesis
    using that [OF _ m] own se by (simp add: loadOwnerAccessBoxStructure_def exec bindE_run ld [unfolded own(2)] sealed_def)
qed

text \<open>Every identifier of a shared file is in use.\<close>

lemma sealed_used: "sealed E objs ty i c x ek mk \<Longrightarrow> objs i \<noteq> None"
  by (auto simp: sealed_def)

lemma shared_used:
  assumes sh: "shared E V u fn ne ab md us cs shares M" and nm: "getNameSpaceEntryUUID E (Username u) fn = Inr nm"
    and i: "fst V i = None"
  shows "i \<notin> set (file_objects nm ne ab us) \<union> branch_ids shares \<union> name_ids E M"
proof -
  have "fst V (ab_AccessBoxStructureUUID ab) \<noteq> None"
    using sharedD(2) [OF sh] by (auto simp: owner_at_def sealed_def)
  then have "i \<notin> set (file_objects nm ne ab us)"
    using file_objects_used [OF sharedD(1) [OF sh] nm i] i by (auto simp: file_objects_def)
  moreover have "i \<notin> branch_ids shares"
  proof
    assume "i \<in> branch_ids shares"
    then obtain r br where "shares r = Some br" "i = br_BoxUUID br" by (auto simp: branch_ids_def ran_def)
    with sealed_used [OF sharedD(3) [OF sh, unfolded box_sealed_def], of r br] i show False by simp
  qed
  moreover have "i \<notin> name_ids E M"
    using sharedD(4) [OF sh] i entry_found by (fastforce simp: name_ids_def member_at_def)
  ultimately show ?thesis by blast
qed

lemma boxes_ok_keys: "boxes_ok bs \<longleftrightarrow> distinct (map fst bs) \<and> list_all valid_utf8 (map fst bs)"
  by (auto simp: boxes_ok_def list_all_iff)

lemma boxes_ok_update: "boxes_ok bs \<Longrightarrow> valid_utf8 r \<Longrightarrow> boxes_ok (AList.update r br bs)"
  by (auto simp: boxes_ok_keys update_keys)

lemma boxes_ok_delete: "boxes_ok bs \<Longrightarrow> boxes_ok (AList.delete r bs)"
  by (auto simp: boxes_ok_keys delete_keys list_all_iff distinct_removeAll)

lemma granted_box_ideal:
  assumes I: "ideal_env E" and o: "owner_at E (fst (w_ext w)) u ne ab shares" and new: "shares r = None"
    and r: "valid_utf8 r" and ab: "box_wf ab"
  defines "d \<equiv> w_draws w"
  defines "br \<equiv> \<lparr>br_BoxUUID = uuid_New (e_lib E) d, br_BoxEncKey = RandomBytes (e_lib E) (d + 1) symmetricKeySize,
      br_BoxMACKey = RandomBytes (e_lib E) (d + 2) symmetricKeySize\<rparr>"
  obtains ps where
    "\<And>ctx. granted_box E ctx ne ab r w = Some (Inr (br,
       [DSet (br_BoxUUID br) (seal E accessBoxObjectType (br_BoxUUID br) (AccessBox_codec (e_uuid E)) ab
          (br_BoxEncKey br) (br_BoxMACKey br) (d + 4)),
        DSet (ab_AccessBoxStructureUUID ab) ps]), w\<lparr>w_draws := d + 5\<rparr>)"
    "\<And>objs. objs (ab_AccessBoxStructureUUID ab) = Some ps \<Longrightarrow> owner_at E objs u ne ab (shares(r \<mapsto> br))"
    "length (br_BoxEncKey br) = symmetricKeySize" "length (br_BoxMACKey br) = symmetricKeySize" "br_BoxUUID br \<noteq> uuid_Nil"
proof -
  note L = ideal_envD(3) [OF I]
  obtain bs where bs: "\<And>ctx. loadOwnerAccessBoxStructure E ctx ne ab w =
      Some (Inr \<lparr>as_FileID = ab_FileID ab, as_CurrentEpoch = ab_EpochID ab, as_RecipientBoxes = Some bs\<rparr>, w)"
    "map_of bs = shares" "boxes_ok bs" using loadOwnerStructure_ideal [OF I o] by metis
  from o have own: "ne_IsOwner ne" "ne_AccessBoxStructureUUID ne = ab_AccessBoxStructureUUID ab"
      "length (ne_AccessBoxStructureEncKey ne) = symmetricKeySize" "length (ne_AccessBoxStructureMACKey ne) = symmetricKeySize"
      "ab_OwnerVerifyKeyName ab = getVerifyKeyName E (Username u)"
    by (auto simp: owner_at_def sealed_def)
  have st: "ab_AccessBoxStructureUUID ab \<noteq> uuid_Nil" using ab by (simp add: box_wf_def)
  have len: "length (br_BoxEncKey br) = symmetricKeySize" "length (br_BoxMACKey br) = symmetricKeySize" "br_BoxUUID br \<noteq> uuid_Nil"
    using lib_okD(8,9) [OF L] by (simp_all add: br_def)
  let ?str = "\<lparr>as_FileID = ab_FileID ab, as_CurrentEpoch = ab_EpochID ab, as_RecipientBoxes = Some (AList.update r br bs)\<rparr>"
  define ps where "ps = seal E accessBoxStructureObjectType (ab_AccessBoxStructureUUID ab) (AccessBoxStructure_codec (e_uuid E))
    ?str (ne_AccessBoxStructureEncKey ne) (ne_AccessBoxStructureMACKey ne) (d + 3)"
  have "granted_box E ctx ne ab r w = Some (Inr (br,
       [DSet (br_BoxUUID br) (seal E accessBoxObjectType (br_BoxUUID br) (AccessBox_codec (e_uuid E)) ab
          (br_BoxEncKey br) (br_BoxMACKey br) (d + 4)),
        DSet (ab_AccessBoxStructureUUID ab) ps]), w\<lparr>w_draws := d + 5\<rparr>)" for ctx
    using own st new bs(2)
    by (simp add: granted_box_def owner_branch_box_def bindE_run bs(1) boxes_of_def bindE_assoc exec L Let_def ps_def
        br_def d_def lib_okD(8,9) [OF L] numeral_eq_Suc)
  moreover have "owner_at E objs u ne ab (shares(r \<mapsto> br))" if "objs (ab_AccessBoxStructureUUID ab) = Some ps" for objs
  proof -
    have "boxes_ok (AList.update r br bs)" by (rule boxes_ok_update [OF bs(3) r])
    moreover have "map_of (AList.update r br bs) = shares(r \<mapsto> br)"
      using bs(2) by (auto simp: map_of_update_apply fun_eq_iff)
    ultimately show ?thesis
      using own sealed_seal [where objs = objs, OF L that [unfolded ps_def] st own(3,4)] by (auto simp: owner_at_def)
  qed
  ultimately show thesis using that len by blast
qed

text \<open>
  Inviting a new recipient: the structure has one branch more, the branch box is a copy of the
  owner's box, and the invitation names it.
\<close>

lemma CreateInvitation_ideal:
  assumes I: "ideal_env E" and sh: "shared E (w_ext w) u fn ne ab md us cs shares M"
    and u: "user_ok E (w_ext w) u" and ru: "recipient_ok E (w_ext w) ru" and new: "shares (Username ru) = None"
    and txn: "w_txnIDs w \<noteq> - 1" and fresh: "fresh_ids E (fst (w_ext w)) (w_draws w) (w_draws w + 2)"
  obtains w' br where
    "CreateInvitation E u fn (Username ru) w = Some (Inr (uuid_New (e_lib E) (w_draws w)), w')"
    "shared E (w_ext w') u fn ne ab md us cs (shares(Username ru \<mapsto> br)) M"
    "invite_at E (w_ext w') (uuid_New (e_lib E) (w_draws w)) u ru (invitation_payload E (Username u) (Username ru) ab br)"
    "w_draws w' = w_draws w + 10" "w_txnIDs w' = w_txnIDs w + 1" "snd (w_ext w') = snd (w_ext w)"
    "\<And>j. j \<noteq> ab_AccessBoxStructureUUID ab \<Longrightarrow> j \<notin> uuid_New (e_lib E) ` {w_draws w ..< w_draws w'} \<Longrightarrow>
       fst (w_ext w') j = fst (w_ext w) j"
    "br_BoxUUID br = uuid_New (e_lib E) (Suc (w_draws w))"
proof -
  note L = ideal_envD(3) [OF I]
  define d where "d = w_draws w"
  define iid where "iid = uuid_New (e_lib E) d"
  let ?r = "Username ru"
  have shb: "shared E (w_ext (bump w)) u fn ne ab md us cs shares M" using sh by simp
  note f = sharedD(1) [OF shb] and o = sharedD(2) [OF sh]
  note rd = file_reads [OF I f] and p = file_at_parts [OF f]
  obtain nm where nm: "getNameSpaceEntryUUID E (Username u) fn = Inr nm" using p(1) by (auto simp: entry_at_def)
  obtain rs where rs: "namespaceResourceID E (Username u) fn = Inr rs" using rd(1) ..
  have wf: "box_wf ab" using p(2) by (simp add: box_at_def)
  from u obtain vk where vk: "snd (w_ext w) (getVerifyKeyName E (Username u)) = Some vk" "ds_pair (e_lib E) vk (SignPrivate u)"
    by (auto simp: user_ok_def)
  from ru obtain pk rvk where pk: "snd (w_ext w) (getPKEKeyName E ?r) = Some pk" "pke_pair (e_lib E) pk (PKEPrivate ru)"
      and rvk: "snd (w_ext w) (getVerifyKeyName E ?r) = Some rvk" "KeyType rvk = ''DS''" and r8: "valid_utf8 ?r"
    by (auto simp: recipient_ok_def user_ok_def ds_pair_def)
  have kp: "KeyType pk = ''PKE''" using pk(2) by (simp add: pke_pair_def)
  define w1 where "w1 = (bump w)\<lparr>w_draws := Suc d\<rparr>"
  have w1: "w_ext w1 = w_ext w" "w_draws w1 = Suc d" by (simp_all add: w1_def)
  define br where "br = \<lparr>br_BoxUUID = uuid_New (e_lib E) (Suc d), br_BoxEncKey = RandomBytes (e_lib E) (Suc d + 1) symmetricKeySize,
      br_BoxMACKey = RandomBytes (e_lib E) (Suc d + 2) symmetricKeySize\<rparr>"
  define pb where "pb = seal E accessBoxObjectType (br_BoxUUID br) (AccessBox_codec (e_uuid E)) ab
          (br_BoxEncKey br) (br_BoxMACKey br) (Suc d + 4)"
  obtain ps where g: "\<And>c. granted_box E c ne ab ?r w1 = Some (Inr (br, [DSet (br_BoxUUID br) pb, DSet (ab_AccessBoxStructureUUID ab) ps]),
       w1\<lparr>w_draws := Suc d + 5\<rparr>)"
    and ow: "\<And>objs. objs (ab_AccessBoxStructureUUID ab) = Some ps \<Longrightarrow> owner_at E objs u ne ab (shares(?r \<mapsto> br))"
    and len: "length (br_BoxEncKey br) = symmetricKeySize" "length (br_BoxMACKey br) = symmetricKeySize" "br_BoxUUID br \<noteq> uuid_Nil"
    using granted_box_ideal [OF I, of w1 u ne ab shares ?r] o new r8 wf unfolding w1 pb_def br_def by metis
  define pl where "pl = invitation_payload E (Username u) ?r ab br"
  have iidN: "iid \<noteq> uuid_Nil" unfolding iid_def by (rule lib_okD(9) [OF L])
  obtain b where b: "buildInvitation E (Some u) pk iid pl (w1\<lparr>w_draws := Suc d + 5\<rparr>) = Some (Inr b, w1\<lparr>w_draws := d + 10\<rparr>)"
    and iv: "\<And>V. fst V iid = Some b \<Longrightarrow> snd V (getVerifyKeyName E (Username u)) = Some vk \<Longrightarrow> invite_at E V iid u ru pl"
    using buildInvitation_ideal [OF I iidN pk(2) vk(2), of pl "w1\<lparr>w_draws := Suc d + 5\<rparr>"] by (auto simp: numeral_eq_Suc)
  define ws where "ws = [DSet (br_BoxUUID br) pb, DSet (ab_AccessBoxStructureUUID ab) ps, DSet iid b]"
  define w' where "w' = w1\<lparr>w_draws := d + 10, w_ext := apply_writes ws (w_ext w)\<rparr>"
  have can: "can_writes ws v" for v by (simp add: ws_def)
  have run: "CreateInvitation E u fn ?r w = Some (Inr iid, w')"
    using nm rs rd(2,3) pk(1) rvk kp b can
    by (simp add: CreateInvitation_def exec bindE_run I txn bump_def [symmetric] d_def [symmetric] iid_def [symmetric]
        w1_def [symmetric] g pl_def [symmetric] ws_def [symmetric] w'_def w1)
  have un: "fst (w_ext w) iid = None" "fst (w_ext w) (br_BoxUUID br) = None" "br_BoxUUID br \<noteq> iid"
    using fresh_ids_unused [OF fresh, of d] fresh_ids_unused [OF fresh, of "Suc d"] fresh_ids_eq [OF fresh, of "Suc d" d]
    by (simp_all add: iid_def br_def d_def)
  note used = shared_used [OF sh nm un(1)] shared_used [OF sh nm un(2)]
  note a = sharedD(5) [OF sh nm, unfolded apart_def]
  have same: "fst (w_ext w') j = fst (w_ext w) j" if "j \<noteq> ab_AccessBoxStructureUUID ab" "j \<noteq> iid" "j \<noteq> br_BoxUUID br" for j
    using that by (simp add: w'_def ws_def)
  have keys: "snd (w_ext w') = snd (w_ext w)" by (simp add: w'_def ws_def)
  have same2: "fst (w_ext w') j = fst (w_ext w) j"
    if "j \<in> {nm, ne_AccessBoxUUID ne, ab_StatusUUID ab, ab_MetadataUUID ab} \<union> set us \<union> branch_ids shares \<union> name_ids E M" for j
    using that a used by (intro same) (auto simp: file_objects_def)
  have st: "fst (w_ext w') (ab_AccessBoxStructureUUID ab) = Some ps" "fst (w_ext w') iid = Some b"
      "fst (w_ext w') (br_BoxUUID br) = Some pb"
    using used un(3) by (auto simp: w'_def ws_def file_objects_def)
  have "shared E (w_ext w') u fn ne ab md us cs (shares(?r \<mapsto> br)) M"
    unfolding shared_def
  proof (intro conjI ballI)
    show "file_at E (w_ext w') u fn ne ab md us cs"
      by (rule file_at_cong [OF sharedD(1) [OF sh] nm]) (use same2 keys in simp_all)
    show "owner_at E (fst (w_ext w')) u ne ab (shares(?r \<mapsto> br))" using ow [of "fst (w_ext w')"] st(1) by simp
    show "box_sealed E (fst (w_ext w')) (br_BoxUUID br') (br_BoxEncKey br') (br_BoxMACKey br') ab"
      if "br' \<in> ran (shares(?r \<mapsto> br))" for br'
    proof (cases "br' = br")
      case True
      then show ?thesis using sealed_seal [where objs = "fst (w_ext w')", OF L st(3) [unfolded pb_def] len(3,1,2)]
        by (simp add: box_sealed_def)
    next
      case False
      with that new obtain r where r: "shares r = Some br'" by (auto simp: ran_def split: if_splits)
      then have "br_BoxUUID br' \<in> branch_ids shares" by (auto simp: branch_ids_def ranI)
      with sharedD(3) [OF sh r] box_sealed_cong [of "fst (w_ext w')" "br_BoxUUID br'" "fst (w_ext w)" E] same2 show ?thesis by simp
    qed
    show "member_at E (fst (w_ext w')) ab (shares(?r \<mapsto> br)) m" if m: "m \<in> M" for m
    proof (cases m)
      case (fields ru' fn' r')
      have "member_at E (fst (w_ext w')) ab shares (ru', fn', r')"
        by (rule member_at_cong [OF same2]) (use m fields sharedD(4) [OF sh m] in \<open>auto simp: name_ids_def\<close>)
      then show ?thesis using new fields by (auto simp: member_at_def)
    qed
    have "branch_ids (shares(?r \<mapsto> br)) = insert (br_BoxUUID br) (branch_ids shares)"
      using new by (auto simp: branch_ids_def ran_map_upd)
    moreover have "br_BoxUUID b \<noteq> br_BoxUUID br" if "shares q = Some b" for q b
      using used(2) branch_id [of shares q b] that by auto
    ultimately have "apart E nm ne ab us (shares(?r \<mapsto> br)) M"
      using a used(2) unfolding apart_def by (auto split: if_splits) metis
    with nm show "\<exists>nm. getNameSpaceEntryUUID E (Username u) fn = Inr nm \<and> apart E nm ne ab us (shares(?r \<mapsto> br)) M" by blast
  qed
  moreover have "invite_at E (w_ext w') iid u ru pl" by (rule iv) (use st vk keys in simp_all)
  moreover have "fst (w_ext w') j = fst (w_ext w) j"
    if "j \<noteq> ab_AccessBoxStructureUUID ab" "j \<notin> uuid_New (e_lib E) ` {w_draws w ..< w_draws w'}" for j
    using that by (intro same) (auto simp: iid_def br_def w'_def d_def)
  ultimately show thesis
    using that [of w' br] run keys by (simp add: iid_def d_def pl_def w'_def w1_def br_def)
qed

section \<open>Accepting\<close>

lemma openInvitation_ideal:
  assumes I: "ideal_env E" and iv: "invite_at E (w_ext w) i v ru pl"
    and pl: "pl = invitation_payload E (Username v) (Username ru) ab br" "ab_FileID ab \<noteq> uuid_Nil" "br_BoxUUID br \<noteq> uuid_Nil"
      "length (br_BoxEncKey br) = symmetricKeySize" "length (br_BoxMACKey br) = symmetricKeySize"
  shows "openInvitation E ctx (Some ru) (Username v) i w = Some (Inr pl, w)"
proof -
  note L = ideal_envD(3) [OF I] and U = ideal_envD(4) [OF I]
  from iv obtain wr ct mac sig root ek mk vk where
    "i \<noteq> uuid_Nil" "fst (w_ext w) i = Some (json_Marshal Invitation_codec
          \<lparr>iv_WrappedRoot = wr, iv_Ciphertext = ct, iv_MAC = mac, iv_Signature = sig\<rparr>)"
    "snd (w_ext w) (getVerifyKeyName E (Username v)) = Some vk" "KeyType vk = ''DS''"
    "DSVerify (e_lib E) vk (getInvitationSignatureMessage E i \<lparr>sf_WrappedRoot = wr, sf_Ciphertext = ct, sf_MAC = mac\<rparr>) sig = None"
    "PKEDec (e_lib E) (PKEPrivate ru) wr = Inr root" "length root = symmetricKeySize"
    "deriveInvitationKeys E root i = Inr (ek, mk)" "HMACEval (e_lib E) mk (getInvitationMACMessage E i ct) = Inr mac"
    "length mac = HashSizeBytes" "AESBlockSizeBytes \<le> length ct"
    "SymDec (e_lib E) ek ct = json_Marshal (InvitationPayload_codec (e_uuid E)) pl"
    by (auto simp: invite_at_def)
  moreover have "length (getInvitationIdentity E n) = HashSizeBytes" for n
    unfolding getInvitationIdentity_def by (rule lib_okD(1) [OF L])
  ultimately show ?thesis
    using pl lib_okD(7) [OF L] U
    by (simp add: openInvitation_def open_body_def check_payload_def exec bindE_assoc I invitation_payload_def)
qed

lemma shared_entry_payload: "shared_entry (invitation_payload E n n' ab br) = branch_entry ab br"
  by (simp add: shared_entry_def invitation_payload_def branch_entry_def)

text \<open>Accepting adds a name; the invitation is gone.\<close>

lemma AcceptInvitation_ideal:
  assumes I: "ideal_env E" and sh: "shared E (w_ext w) u fn ne ab md us cs shares M" and br: "shares r = Some br"
    and iv: "invite_at E (w_ext w) iid v ru (invitation_payload E (Username v) (Username ru) ab br)"
    and iid: "iid \<notin> set (file_objects nm ne ab us) \<union> branch_ids shares \<union> name_ids E M"
    and ru: "user_ok E (w_ext w) ru" and txn: "w_txnIDs w \<noteq> - 1"
    and nm: "getNameSpaceEntryUUID E (Username u) fn = Inr nm"
    and nm': "getNameSpaceEntryUUID E (Username ru) fn' = Inr nm'" "nm' \<noteq> uuid_Nil" "fst (w_ext w) nm' = None"
  obtains w' where
    "AcceptInvitation E (Some ru) (Username v) iid fn' w = Some (Inr (), w')"
    "shared E (w_ext w') u fn ne ab md us cs shares (insert (ru, fn', r) M)"
    "w_draws w' = Suc (w_draws w)" "w_txnIDs w' = w_txnIDs w + 1" "snd (w_ext w') = snd (w_ext w)"
    "fst (w_ext w') iid = None" "\<And>j. j \<noteq> nm' \<Longrightarrow> j \<noteq> iid \<Longrightarrow> fst (w_ext w') j = fst (w_ext w) j"
proof -
  note L = ideal_envD(3) [OF I]
  let ?pl = "invitation_payload E (Username v) (Username ru) ab br"
  note p = file_at_parts [OF sharedD(1) [OF sh]] and a = sharedD(5) [OF sh nm, unfolded apart_def]
  have wf: "box_wf ab" "status_at E (w_ext w) ab" and fid: "ab_FileID ab \<noteq> uuid_Nil"
    using p(1,2) by (auto simp: box_at_def entry_at_def)
  note bx = sharedD(3) [OF sh br]
  have bxl: "br_BoxUUID br \<noteq> uuid_Nil" "length (br_BoxEncKey br) = symmetricKeySize" "length (br_BoxMACKey br) = symmetricKeySize"
    using bx by (simp_all add: box_sealed_def sealed_def)
  have "invite_at E (w_ext (bump w)) iid v ru ?pl" using iv by simp
  note op = openInvitation_ideal [OF I this refl fid bxl]
  have "sealed E (fst (w_ext (bump w))) accessBoxObjectType (br_BoxUUID br) (AccessBox_codec (e_uuid E)) ab
      (br_BoxEncKey br) (br_BoxMACKey br)" using bx by (simp add: box_sealed_def)
  then have ld: "loadDatastoreObject E c accessBoxObjectType (br_BoxUUID br) (br_BoxEncKey br) (br_BoxMACKey br)
      (AccessBox_codec (e_uuid E)) zero_AccessBox (bump w) = Some (Inr ab, bump w)" for c
    by (rule load_sealed [OF I]) (use wf(1) ideal_envD(4) [OF I] in \<open>simp_all add: box_wf_def\<close>)
  have "verifyFileStatus E c ab (bump w) = Some (Inr (), bump w)" for c
    using verifyFileStatus_ideal [OF I _ wf(1), of "bump w"] wf(2) by simp
  then have va: "validateInvitationAccessUnderLock E c ?pl (bump w) = Some (Inr ab, bump w)" for c
    using ld by (simp add: validateInvitationAccessUnderLock_def invitation_payload_def bindE_run exec)
  obtain ek mk where k: "deriveNamespaceEntryKeys E (NamespaceRoot ru) fn' = Inr (ek, mk)"
      "length ek = symmetricKeySize" "length mk = symmetricKeySize"
    using derive_pair_ok [OF L, of "NamespaceRoot ru"] ru unfolding deriveNamespaceEntryKeys_def user_ok_def by metis
  obtain rs where rs: "namespaceResourceID E (Username ru) fn' = Inr rs" using namespaceResource_ok [OF nm'(1)] ..
  define pe where "pe = seal E namespaceEntryObjectType nm' (NamespaceEntry_codec (e_uuid E)) (branch_entry ab br) ek mk (w_draws w)"
  define ws where "ws = [DSet nm' pe, DDelete iid]"
  define w' where "w' = (bump w)\<lparr>w_draws := Suc (w_draws w), w_ext := apply_writes ws (w_ext w)\<rparr>"
  have can: "can_writes ws x" for x by (simp add: ws_def)
  have run: "AcceptInvitation E (Some ru) (Username v) iid fn' w = Some (Inr (), w')"
    using nm'(1,2,3) k rs op va can
    by (simp add: AcceptInvitation_def exec bindE_run I txn bump_def [symmetric] L shared_entry_payload pe_def [symmetric]
        ws_def [symmetric] w'_def)
  have ne: "nm' \<noteq> iid" using iv nm'(3) by (auto simp: invite_at_def)
  note used = shared_used [OF sh nm nm'(3)]
  have st: "fst (w_ext w') nm' = Some pe" "fst (w_ext w') iid = None" "snd (w_ext w') = snd (w_ext w)"
    "\<And>j. j \<noteq> nm' \<Longrightarrow> j \<noteq> iid \<Longrightarrow> fst (w_ext w') j = fst (w_ext w) j"
    using ne by (simp_all add: w'_def ws_def)
  have same: "fst (w_ext w') j = fst (w_ext w) j"
    if "j \<in> set (file_objects nm ne ab us) \<union> branch_ids shares \<union> name_ids E M" for j
    using that used iid by (intro st(4)) auto
  have ent: "entry_at E (fst (w_ext w')) ru fn' (branch_entry ab br)"
    using sealed_seal [where objs = "fst (w_ext w')", OF L st(1) [unfolded pe_def] nm'(2) k(2,3)] nm'(1) k(1) fid
    by (auto simp: entry_at_def branch_entry_def)
  have "shared E (w_ext w') u fn ne ab md us cs shares (insert (ru, fn', r) M)"
    unfolding shared_def
  proof (intro conjI ballI)
    show "file_at E (w_ext w') u fn ne ab md us cs"
      by (rule file_at_cong [OF sharedD(1) [OF sh] nm]) (use same st(3) in \<open>simp_all add: file_objects_def\<close>)
    show "owner_at E (fst (w_ext w')) u ne ab shares"
      by (rule owner_at_cong [OF _ sharedD(2) [OF sh]]) (simp add: same file_objects_def)
    show "box_sealed E (fst (w_ext w')) (br_BoxUUID b) (br_BoxEncKey b) (br_BoxMACKey b) ab" if b: "b \<in> ran shares" for b
    proof -
      obtain q where q: "shares q = Some b" using b by (auto simp: ran_def)
      have "fst (w_ext w') (br_BoxUUID b) = fst (w_ext w) (br_BoxUUID b)" using b by (intro same) (auto simp: branch_ids_def)
      with sharedD(3) [OF sh q] box_sealed_cong [of "fst (w_ext w')" "br_BoxUUID b" "fst (w_ext w)"] show ?thesis by metis
    qed
    show "member_at E (fst (w_ext w')) ab shares m" if m: "m \<in> insert (ru, fn', r) M" for m
    proof (cases "m = (ru, fn', r)")
      case True
      then show ?thesis using ent br by (auto simp: member_at_def)
    next
      case False
      with m have mM: "m \<in> M" by simp
      show ?thesis
      proof (cases m)
        case (fields ru2 fn2 r2)
        show ?thesis
          unfolding fields
          by (rule member_at_cong [OF same]) (use mM fields sharedD(4) [OF sh mM] in \<open>auto simp: name_ids_def\<close>)
      qed
    qed
    have "name_ids E (insert (ru, fn', r) M) = insert nm' (name_ids E M)"
      using nm'(1) by (auto simp: name_ids_def)
    then have "apart E nm ne ab us shares (insert (ru, fn', r) M)"
      using a used by (auto simp: apart_def)
    with nm show "\<exists>nm. getNameSpaceEntryUUID E (Username u) fn = Inr nm \<and> apart E nm ne ab us shares (insert (ru, fn', r) M)" by blast
  qed
  then show thesis by (rule that [OF run]) (use st in \<open>simp_all add: w'_def\<close>)
qed

end
