(* ===== verification/Client_Revoke.thy ===== *)
theory Client_Revoke
  imports Client_Sharing
begin

text \<open>
  Revocation on the ideal store: the file moves to a new epoch with new keys, the remaining
  branches get the new access box, and the revoked branch's box is gone.
\<close>

section \<open>The writes\<close>

lemma apply_sets:
  "j \<notin> g ` set xs \<Longrightarrow> fst (apply_writes (map (\<lambda>x. DSet (g x) (h x)) xs) V) j = fst V j"
  "snd (apply_writes (map (\<lambda>x. DSet (g x) (h x)) xs) V) = snd V"
  by (induction xs arbitrary: V) simp_all

lemma apply_sets_hit:
  "x \<in> set xs \<Longrightarrow> inj_on g (set xs) \<Longrightarrow> distinct xs \<Longrightarrow>
   fst (apply_writes (map (\<lambda>x. DSet (g x) (h x)) xs) V) (g x) = Some (h x)"
proof (induction xs arbitrary: V)
  case (Cons y xs)
  show ?case
  proof (cases "x = y")
    case True
    with Cons.prems have "g x \<notin> g ` set xs" by (auto simp: inj_on_def)
    then show ?thesis using True by (simp add: apply_sets(1))
  next
    case False
    with Cons show ?thesis by simp
  qed
qed simp

definition branch_wf :: "BranchBoxRecord \<Rightarrow> bool" where
  "branch_wf b \<longleftrightarrow> br_BoxUUID b \<noteq> uuid_Nil \<and> length (br_BoxEncKey b) = symmetricKeySize \<and>
     length (br_BoxMACKey b) = symmetricKeySize"

lemma surviving_writes_ideal:
  assumes I: "ideal_env E" and "distinct ns"
    and len: "\<forall>b \<in> ran (map_of bs). branch_wf b"
  obtains h k where
    "surviving_writes E ab bs r ns w = Some (Inr (map (\<lambda>q. DSet (br_BoxUUID (the (map_of bs q))) (h q))
       (filter (\<lambda>q. q \<noteq> r \<and> map_of bs q \<noteq> None) ns)), w\<lparr>w_draws := w_draws w + k\<rparr>)"
    "\<And>q b. q \<in> set ns \<Longrightarrow> q \<noteq> r \<Longrightarrow> map_of bs q = Some b \<Longrightarrow>
       \<exists>d. h q = seal E accessBoxObjectType (br_BoxUUID b) (AccessBox_codec (e_uuid E)) ab (br_BoxEncKey b) (br_BoxMACKey b) d"
proof -
  note L = ideal_envD(3) [OF I]
  have "\<exists>h k. surviving_writes E ab bs r ns w = Some (Inr (map (\<lambda>q. DSet (br_BoxUUID (the (map_of bs q))) (h q))
       (filter (\<lambda>q. q \<noteq> r \<and> map_of bs q \<noteq> None) ns)), w\<lparr>w_draws := w_draws w + k\<rparr>) \<and>
    (\<forall>q b. q \<in> set ns \<longrightarrow> q \<noteq> r \<longrightarrow> map_of bs q = Some b \<longrightarrow>
       (\<exists>d. h q = seal E accessBoxObjectType (br_BoxUUID b) (AccessBox_codec (e_uuid E)) ab (br_BoxEncKey b) (br_BoxMACKey b) d))"
    using assms(2)
  proof (induction ns arbitrary: w)
    case Nil
    show ?case by (rule exI, rule exI [of _ 0]) (simp add: returnE_def)
  next
    case (Cons n ns)
    show ?case
    proof (cases "n \<noteq> r \<and> map_of bs n \<noteq> None")
      case False
      with Cons show ?thesis by (cases "n = r") auto
    next
      case True
      then obtain b where b: "map_of bs n = Some b" by auto
      define v where "v = seal E accessBoxObjectType (br_BoxUUID b) (AccessBox_codec (e_uuid E)) ab (br_BoxEncKey b) (br_BoxMACKey b) (w_draws w)"
      obtain h k where h: "surviving_writes E ab bs r ns (w\<lparr>w_draws := Suc (w_draws w)\<rparr>) =
          Some (Inr (map (\<lambda>q. DSet (br_BoxUUID (the (map_of bs q))) (h q)) (filter (\<lambda>q. q \<noteq> r \<and> map_of bs q \<noteq> None) ns)),
            w\<lparr>w_draws := Suc (w_draws w) + k\<rparr>)"
        "\<forall>q b. q \<in> set ns \<longrightarrow> q \<noteq> r \<longrightarrow> map_of bs q = Some b \<longrightarrow>
          (\<exists>d. h q = seal E accessBoxObjectType (br_BoxUUID b) (AccessBox_codec (e_uuid E)) ab (br_BoxEncKey b) (br_BoxMACKey b) d)"
        using Cons.IH [of "w\<lparr>w_draws := Suc (w_draws w)\<rparr>"] Cons.prems by auto
      have upd: "map (\<lambda>q. DSet (br_BoxUUID (the (map_of bs q))) ((h(n := v)) q)) (filter P ns) =
          map (\<lambda>q. DSet (br_BoxUUID (the (map_of bs q))) (h q)) (filter P ns)" for P
        using Cons.prems by (intro map_cong) auto
      have "surviving_writes E ab bs r (n # ns) w = Some (Inr (map (\<lambda>q. DSet (br_BoxUUID (the (map_of bs q))) ((h(n := v)) q))
          (filter (\<lambda>q. q \<noteq> r \<and> map_of bs q \<noteq> None) (n # ns))), w\<lparr>w_draws := w_draws w + Suc k\<rparr>)"
        using True b bspec [OF len ranI [of "map_of bs", OF b]] h(1) upd by (simp add: exec L bindE_run v_def branch_wf_def)
      moreover have "\<exists>d. (h(n := v)) q = seal E accessBoxObjectType (br_BoxUUID b') (AccessBox_codec (e_uuid E)) ab
          (br_BoxEncKey b') (br_BoxMACKey b') d" if "q \<in> set (n # ns)" "q \<noteq> r" "map_of bs q = Some b'" for q b'
        using that h(2) b by (cases "q = n") (auto simp: v_def)
      ultimately show ?thesis by blast
    qed
  qed
  with that show thesis by blast
qed

definition rotated_box :: "'s env \<Rightarrow> AccessBox \<Rightarrow> nat \<Rightarrow> AccessBox" where
  "rotated_box E ab d = ab\<lparr>ab_EpochID := uuid_New (e_lib E) d, ab_MetadataUUID := uuid_New (e_lib E) (d + 2),
     ab_MetadataEncKey := RandomBytes (e_lib E) (d + 3) symmetricKeySize,
     ab_MetadataMACKey := RandomBytes (e_lib E) (d + 4) symmetricKeySize,
     ab_FileRoot := RandomBytes (e_lib E) (d + 1) symmetricKeySize\<rparr>"

definition rotated_md :: "'s env \<Rightarrow> AccessBox \<Rightarrow> Metadata \<Rightarrow> nat \<Rightarrow> Metadata" where
  "rotated_md E ab md d = \<lparr>md_FileID = ab_FileID ab, md_EpochID = uuid_New (e_lib E) d, md_Version = md_Version md,
     md_TailUUID = uuid_New (e_lib E) (d + 5), md_ChunkCount = 1\<rparr>"

lemma rotate_file_ideal:
  fixes w :: "store_view world" and ab :: AccessBox
  assumes I: "ideal_env E"
  defines "d \<equiv> w_draws w"
  defines "i \<equiv> uuid_New (e_lib E) (d + 5)" and "ab' \<equiv> rotated_box E ab d"
  obtains ek mk where
    "deriveChunkKeys E (ab_FileRoot ab') i = Inr (ek, mk)"
    "rotate_file E ab md content w = Some (Inr (ab',
       [DSet i (seal E chunkObjectType i (Chunk_codec (e_uuid E)) (base_chunk (ab_FileID ab) (ab_EpochID ab') content) ek mk (d + 6)),
        DSet (ab_MetadataUUID ab') (seal E metadataObjectType (ab_MetadataUUID ab') (Metadata_codec (e_uuid E))
          (rotated_md E ab md d) (ab_MetadataEncKey ab') (ab_MetadataMACKey ab') (d + 7))]), w\<lparr>w_draws := d + 8\<rparr>)"
proof -
  note L = ideal_envD(3) [OF I]
  have root: "length (ab_FileRoot ab') = symmetricKeySize" using lib_okD(8) [OF L] by (simp add: ab'_def rotated_box_def)
  obtain ek mk where k: "deriveChunkKeys E (ab_FileRoot ab') i = Inr (ek, mk)"
      "length ek = symmetricKeySize" "length mk = symmetricKeySize"
    using derive_pair_ok [OF L root] unfolding deriveChunkKeys_def by metis
  have k': "deriveChunkKeys E (RandomBytes (e_lib E) (Suc d) symmetricKeySize) (uuid_New (e_lib E) (d + 5)) = Inr (ek, mk)"
    using k(1) by (simp add: ab'_def rotated_box_def i_def)
  have "rotate_file E ab md content w = Some (Inr (ab',
       [DSet i (seal E chunkObjectType i (Chunk_codec (e_uuid E)) (base_chunk (ab_FileID ab) (ab_EpochID ab') content) ek mk (d + 6)),
        DSet (ab_MetadataUUID ab') (seal E metadataObjectType (ab_MetadataUUID ab') (Metadata_codec (e_uuid E))
          (rotated_md E ab md d) (ab_MetadataEncKey ab') (ab_MetadataMACKey ab') (d + 7))]), w\<lparr>w_draws := d + 8\<rparr>)"
    using k k' lib_okD(8,9) [OF L]
    by (simp add: rotate_file_def exec L ab'_def rotated_box_def rotated_md_def i_def d_def numeral_eq_Suc)
  with that k(1) show thesis by blast
qed

text \<open>The order in which a map is ranged over is some order of its keys.\<close>

definition order_ok :: "'s env \<Rightarrow> bool" where
  "order_ok E \<longleftrightarrow> (\<forall>d ks. distinct ks \<longrightarrow> distinct (e_order E d ks) \<and> set (e_order E d ks) = set ks)"

lemma structure_stored:
  assumes "lib_ok (e_lib E)" "owner_at E objs0 u ne ab0 sh0" "ab_AccessBoxStructureUUID ab = ab_AccessBoxStructureUUID ab0"
    "ab_OwnerVerifyKeyName ab = ab_OwnerVerifyKeyName ab0" "boxes_ok bs"
    "objs (ab_AccessBoxStructureUUID ab) = Some (seal E accessBoxStructureObjectType (ab_AccessBoxStructureUUID ab)
       (AccessBoxStructure_codec (e_uuid E))
       \<lparr>as_FileID = ab_FileID ab, as_CurrentEpoch = ab_EpochID ab, as_RecipientBoxes = Some bs\<rparr>
       (ne_AccessBoxStructureEncKey ne) (ne_AccessBoxStructureMACKey ne) d)"
  shows "owner_at E objs u ne ab (map_of bs)"
proof -
  from assms(2,3) have o: "ne_IsOwner ne" "ne_AccessBoxStructureUUID ne = ab_AccessBoxStructureUUID ab"
      "ab_AccessBoxStructureUUID ab \<noteq> uuid_Nil" "length (ne_AccessBoxStructureEncKey ne) = symmetricKeySize"
      "length (ne_AccessBoxStructureMACKey ne) = symmetricKeySize" "ab_OwnerVerifyKeyName ab0 = getVerifyKeyName E (Username u)"
    by (auto simp: owner_at_def sealed_def)
  from sealed_seal [where objs = objs, OF assms(1,6) o(3,4,5)] o assms(4,5) show ?thesis by (auto simp: owner_at_def)
qed

lemma revoke_writes_ideal:
  assumes I: "ideal_env E" and ord: "order_ok E" and o: "owner_at E objs u ne ab shares" and st: "boxes_ok bs" "map_of bs = shares"
    and len: "\<forall>b \<in> ran shares. branch_wf b"
    and ne: "ne_AccessBoxUUID ne \<noteq> uuid_Nil" "length (ne_AccessBoxEncKey ne) = symmetricKeySize" "length (ne_AccessBoxMACKey ne) = symmetricKeySize"
    and vk: "ds_pair (e_lib E) vk (SignPrivate u)" "ab_OwnerVerifyKeyName ab = getVerifyKeyName E (Username u)"
    and ab': "ab_StatusUUID ab' = ab_StatusUUID ab" "ab_OwnerVerifyKeyName ab' = ab_OwnerVerifyKeyName ab"
      "ab_AccessBoxStructureUUID ab' = ab_AccessBoxStructureUUID ab" "ab_FileID ab' = ab_FileID ab"
  defines "str \<equiv> \<lparr>as_FileID = ab_FileID ab, as_CurrentEpoch = ab_EpochID ab, as_RecipientBoxes = Some bs\<rparr>"
  obtains xs h k ob ps fs where
    "revoke_writes E u ne ab str r br us (ab', fw) w = Some (Inr (fw @ [DSet (ne_AccessBoxUUID ne) ob] @
       map (\<lambda>q. DSet (br_BoxUUID (the (shares q))) (h q)) xs @
       [DSet (ab_AccessBoxStructureUUID ab) ps, DSet (ab_StatusUUID ab) (json_Marshal (FileStatus_codec (e_uuid E)) fs),
        DDelete (br_BoxUUID br), DDelete (ab_MetadataUUID ab)] @ map DDelete us), w\<lparr>w_draws := k\<rparr>)"
    "set xs = dom shares - {r}" "distinct xs"
    "\<And>q b. q \<in> set xs \<Longrightarrow> shares q = Some b \<Longrightarrow>
       \<exists>d. h q = seal E accessBoxObjectType (br_BoxUUID b) (AccessBox_codec (e_uuid E)) ab' (br_BoxEncKey b) (br_BoxMACKey b) d"
    "\<And>objs. objs (ne_AccessBoxUUID ne) = Some ob \<Longrightarrow>
       box_sealed E objs (ne_AccessBoxUUID ne) (ne_AccessBoxEncKey ne) (ne_AccessBoxMACKey ne) ab'"
    "\<And>objs'. objs' (ab_AccessBoxStructureUUID ab) = Some ps \<Longrightarrow> owner_at E objs' u ne ab' (shares(r := None))"
    "\<And>V. fst V (ab_StatusUUID ab) = Some (json_Marshal (FileStatus_codec (e_uuid E)) fs) \<Longrightarrow>
       snd V (getVerifyKeyName E (Username u)) = Some vk \<Longrightarrow> status_at E V ab'"
    "w_draws w + 4 \<le> k"
proof -
  note L = ideal_envD(3) [OF I]
  define d where "d = w_draws w"
  from o have own: "ne_AccessBoxStructureUUID ne = ab_AccessBoxStructureUUID ab" "ab_AccessBoxStructureUUID ab \<noteq> uuid_Nil"
      "length (ne_AccessBoxStructureEncKey ne) = symmetricKeySize" "length (ne_AccessBoxStructureMACKey ne) = symmetricKeySize"
    by (auto simp: owner_at_def sealed_def)
  define ob where "ob = seal E accessBoxObjectType (ne_AccessBoxUUID ne) (AccessBox_codec (e_uuid E)) ab'
    (ne_AccessBoxEncKey ne) (ne_AccessBoxMACKey ne) d"
  define ns where "ns = e_order E (Suc d) (map fst bs)"
  have ns: "distinct ns" "set ns = dom shares"
    using ord st dom_map_of_conv_image_fst [of bs] by (simp_all add: order_ok_def ns_def boxes_ok_def)
  have len': "\<forall>b \<in> ran (map_of bs). branch_wf b" using len st(2) by simp
  obtain h k where h: "surviving_writes E ab' bs r ns (w\<lparr>w_draws := Suc (Suc d)\<rparr>) =
      Some (Inr (map (\<lambda>q. DSet (br_BoxUUID (the (map_of bs q))) (h q)) (filter (\<lambda>q. q \<noteq> r \<and> map_of bs q \<noteq> None) ns)),
        w\<lparr>w_draws := Suc (Suc d) + k\<rparr>)"
    "\<And>q b. q \<in> set ns \<Longrightarrow> q \<noteq> r \<Longrightarrow> map_of bs q = Some b \<Longrightarrow>
       \<exists>d. h q = seal E accessBoxObjectType (br_BoxUUID b) (AccessBox_codec (e_uuid E)) ab' (br_BoxEncKey b) (br_BoxMACKey b) d"
    using surviving_writes_ideal [where bs = bs and ab = ab' and r = r and w = "w\<lparr>w_draws := Suc (Suc d)\<rparr>", OF I ns(1) len'] by auto
  define xs where "xs = filter (\<lambda>q. q \<noteq> r \<and> map_of bs q \<noteq> None) ns"
  define str' where "str' = \<lparr>as_FileID = ab_FileID ab', as_CurrentEpoch = ab_EpochID ab',
    as_RecipientBoxes = Some (AList.delete r bs)\<rparr>"
  define ps where "ps = seal E accessBoxStructureObjectType (ab_AccessBoxStructureUUID ab) (AccessBoxStructure_codec (e_uuid E))
    str' (ne_AccessBoxStructureEncKey ne) (ne_AccessBoxStructureMACKey ne) (Suc (Suc d) + k)"
  obtain fs where fs: "createFileStatus E u (ab_StatusUUID ab) ab' (w\<lparr>w_draws := Suc (Suc (Suc d) + k)\<rparr>) =
      Some (Inr fs, w\<lparr>w_draws := Suc (Suc (Suc (Suc d) + k))\<rparr>)"
    "\<And>V. fst V (ab_StatusUUID ab) = Some (json_Marshal (FileStatus_codec (e_uuid E)) fs) \<Longrightarrow> ab_StatusUUID ab' = ab_StatusUUID ab \<Longrightarrow>
       snd V (ab_OwnerVerifyKeyName ab') = Some vk \<Longrightarrow> status_at E V ab'"
    using createFileStatus_ideal [OF vk(1), of "ab_StatusUUID ab" ab' "w\<lparr>w_draws := Suc (Suc (Suc d) + k)\<rparr>"] by auto
  show thesis
  proof (rule that [of ob h xs ps fs "Suc (Suc (Suc (Suc d) + k))"])
    show "revoke_writes E u ne ab str r br us (ab', fw) w = Some (Inr (fw @ [DSet (ne_AccessBoxUUID ne) ob] @
       map (\<lambda>q. DSet (br_BoxUUID (the (shares q))) (h q)) xs @
       [DSet (ab_AccessBoxStructureUUID ab) ps, DSet (ab_StatusUUID ab) (json_Marshal (FileStatus_codec (e_uuid E)) fs),
        DDelete (br_BoxUUID br), DDelete (ab_MetadataUUID ab)] @ map DDelete us), w\<lparr>w_draws := Suc (Suc (Suc (Suc d) + k))\<rparr>)"
      using ne own h(1) fs(1) st(2) ab'(4)
      by (simp add: revoke_writes_def exec L range_order_def str_def boxes_of_def bindE_run d_def [symmetric] ns_def [symmetric]
          ob_def [symmetric] ps_def str'_def xs_def)
    show "set xs = dom shares - {r}" "distinct xs" using ns st(2) by (auto simp: xs_def)
    show "\<exists>d. h q = seal E accessBoxObjectType (br_BoxUUID b) (AccessBox_codec (e_uuid E)) ab' (br_BoxEncKey b) (br_BoxMACKey b) d"
      if "q \<in> set xs" "shares q = Some b" for q b using that h(2) st(2) by (auto simp: xs_def)
    show "box_sealed E objs (ne_AccessBoxUUID ne) (ne_AccessBoxEncKey ne) (ne_AccessBoxMACKey ne) ab'"
      if "objs (ne_AccessBoxUUID ne) = Some ob" for objs
      using sealed_seal [where objs = objs, OF L that [unfolded ob_def] ne] by (simp add: box_sealed_def)
    show "owner_at E objs' u ne ab' (shares(r := None))" if "objs' (ab_AccessBoxStructureUUID ab) = Some ps" for objs'
    proof -
      have "owner_at E objs' u ne ab' (map_of (AList.delete r bs))"
        by (rule structure_stored [OF L o ab'(3,2) boxes_ok_delete [OF st(1)]])
           (use that ab'(3) in \<open>simp add: ps_def str'_def\<close>)
      moreover have "map_of (AList.delete r bs) = shares(r := None)" using st(2) by (simp add: AList.delete_conv')
      ultimately show ?thesis by simp
    qed
    show "status_at E V ab'" if "fst V (ab_StatusUUID ab) = Some (json_Marshal (FileStatus_codec (e_uuid E)) fs)"
       "snd V (getVerifyKeyName E (Username u)) = Some vk" for V
      using fs(2) that ab'(1,2) vk(2) by simp
    show "w_draws w + 4 \<le> Suc (Suc (Suc (Suc d) + k))" by (simp add: d_def)
  qed
qed

definition revoke_ws ::
  "NamespaceEntry \<Rightarrow> AccessBox \<Rightarrow> uuid list \<Rightarrow> (string \<Rightarrow> BranchBoxRecord option) \<Rightarrow> string list \<Rightarrow> BranchBoxRecord
   \<Rightarrow> store_write list \<Rightarrow> bytes \<times> bytes \<times> bytes \<Rightarrow> (string \<Rightarrow> bytes) \<Rightarrow> store_write list" where
  "revoke_ws ne ab us shares xs br fw ps h = fw @ [DSet (ne_AccessBoxUUID ne) (fst ps)] @
     map (\<lambda>q. DSet (br_BoxUUID (the (shares q))) (h q)) xs @
     [DSet (ab_AccessBoxStructureUUID ab) (fst (snd ps)), DSet (ab_StatusUUID ab) (snd (snd ps)),
      DDelete (br_BoxUUID br), DDelete (ab_MetadataUUID ab)] @ map DDelete us"

lemma revoke_view:
  fixes V :: store_view and pi pm pa ps pf :: bytes and h :: "string \<Rightarrow> bytes"
  assumes a: "apart E nm ne ab us shares M" and xs: "set xs = dom shares - {r}" "distinct xs" and br: "shares r = Some br"
    and new: "i \<noteq> m" "i \<notin> set (file_objects nm ne ab us) \<union> branch_ids shares" "m \<notin> set (file_objects nm ne ab us) \<union> branch_ids shares"
  defines "V' \<equiv> apply_writes (revoke_ws ne ab us shares xs br [DSet i pi, DSet m pm] (pa, ps, pf) h) V"
  shows "fst V' i = Some pi" "fst V' m = Some pm" "fst V' (ne_AccessBoxUUID ne) = Some pa"
    "fst V' (ab_AccessBoxStructureUUID ab) = Some ps" "fst V' (ab_StatusUUID ab) = Some pf" "fst V' (br_BoxUUID br) = None"
    "q \<noteq> r \<Longrightarrow> shares q = Some b \<Longrightarrow> fst V' (br_BoxUUID b) = Some (h q)" "snd V' = snd V"
    "j \<notin> {i, m, ne_AccessBoxUUID ne, ab_AccessBoxStructureUUID ab, ab_StatusUUID ab, ab_MetadataUUID ab} \<union> set us \<union> branch_ids shares
     \<Longrightarrow> fst V' j = fst V j"
proof -
  note a = a [unfolded apart_def file_objects_def]
  let ?g = "\<lambda>q. br_BoxUUID (the (shares q))"
  have b: "br_BoxUUID b \<in> branch_ids shares" if "shares q = Some b" for q b using that by (rule branch_id)
  have img: "?g ` set xs \<subseteq> branch_ids shares" using xs(1) b by auto
  have inj: "inj_on ?g (set xs)" using a xs(1) by (auto simp: inj_on_def)
  have nin: "j \<notin> ?g ` set xs" if "j \<notin> branch_ids shares" for j using that img by blast
  show "fst V' i = Some pi" "fst V' m = Some pm" "fst V' (ne_AccessBoxUUID ne) = Some pa"
    "fst V' (ab_AccessBoxStructureUUID ab) = Some ps" "fst V' (ab_StatusUUID ab) = Some pf"
    using new a b [OF br]
    by (auto simp: V'_def revoke_ws_def apply_deletes file_objects_def apply_sets(1) [OF nin])
  show "fst V' (br_BoxUUID br) = None" "snd V' = snd V"
    by (simp_all add: V'_def revoke_ws_def apply_deletes apply_sets)
  show "fst V' (br_BoxUUID b) = Some (h q)" if q: "q \<noteq> r" "shares q = Some b"
  proof -
    have qx: "q \<in> set xs" "?g q = br_BoxUUID b" using q xs(1) by auto
    have "br_BoxUUID b \<noteq> br_BoxUUID br" using a q br by metis
    with apply_sets_hit [OF qx(1) inj xs(2)] qx(2) a b [OF q(2)] show ?thesis
      by (auto simp: V'_def revoke_ws_def apply_deletes)
  qed
  show "fst V' j = fst V j"
    if "j \<notin> {i, m, ne_AccessBoxUUID ne, ab_AccessBoxStructureUUID ab, ab_StatusUUID ab, ab_MetadataUUID ab} \<union> set us \<union> branch_ids shares"
    using that b [OF br] by (auto simp: V'_def revoke_ws_def apply_deletes apply_sets(1) [OF nin])
qed

section \<open>Revoking\<close>

text \<open>
  Revoking the branch of \<open>r\<close>: the owner and the other branches have the same content, at the same
  version, under new keys; the box of the branch is gone, and only objects of this file changed.
\<close>

lemma RevokeAccess_ideal:
  assumes I: "ideal_env E" and ord: "order_ok E" and sh: "shared E (w_ext w) u fn ne ab md us cs shares M"
    and u: "user_ok E (w_ext w) u" and br: "shares r = Some br" and txn: "w_txnIDs w \<noteq> - 1"
    and nm: "getNameSpaceEntryUUID E (Username u) fn = Inr nm"
    and fresh: "fresh_ids E (fst (w_ext w)) (w_draws w) (w_draws w + 6)"
  obtains w' ab' md' i where
    "RevokeAccess E u fn r w = Some (Inr (), w')"
    "shared E (w_ext w') u fn ne ab' md' [i] [concat (rev cs)] (shares(r := None)) {m \<in> M. snd (snd m) \<noteq> r}"
    "md_Version md' = md_Version md" "ab_FileID ab' = ab_FileID ab"
    "fst (w_ext w') (br_BoxUUID br) = None" "snd (w_ext w') = snd (w_ext w)"
    "w_txnIDs w' = w_txnIDs w + 1" "w_draws w + 12 \<le> w_draws w'"
    "\<And>j. j \<notin> set (file_objects nm ne ab us) \<union> branch_ids shares \<Longrightarrow>
       j \<notin> {uuid_New (e_lib E) (w_draws w + 2), uuid_New (e_lib E) (w_draws w + 5)} \<Longrightarrow> fst (w_ext w') j = fst (w_ext w) j"
    "fst (w_ext w') nm = fst (w_ext w) nm" "\<And>j. j \<in> name_ids E M \<Longrightarrow> fst (w_ext w') j = fst (w_ext w) j"
proof -
  note L = ideal_envD(3) [OF I]
  define d where "d = w_draws w"
  define i where "i = uuid_New (e_lib E) (d + 5)"
  define ab' where "ab' = rotated_box E ab d"
  define md' where "md' = rotated_md E ab md d"
  define content where "content = concat (rev cs)"
  have shb: "shared E (w_ext (bump w)) u fn ne ab md us cs shares M" using sh by simp
  note f = sharedD(1) [OF sh] and o = sharedD(2) [OF sh] and a = sharedD(5) [OF sh nm, unfolded apart_def]
  note rd = file_reads [OF I sharedD(1) [OF shb]] and p = file_at_parts [OF f]
  obtain rs where rs: "namespaceResourceID E (Username u) fn = Inr rs" using rd(1) ..
  have wf: "box_wf ab" using p(2) by (simp add: box_at_def)
  from u obtain vk where vk: "snd (w_ext w) (getVerifyKeyName E (Username u)) = Some vk" "ds_pair (e_lib E) vk (SignPrivate u)"
    by (auto simp: user_ok_def)
  have own: "ne_IsOwner ne" "ab_OwnerVerifyKeyName ab = getVerifyKeyName E (Username u)" using o by (simp_all add: owner_at_def)
  have obump: "owner_at E (fst (w_ext (bump w))) u ne ab shares" using o by simp
  obtain bs where bs: "\<And>ctx. loadOwnerAccessBoxStructure E ctx ne ab (bump w) =
      Some (Inr \<lparr>as_FileID = ab_FileID ab, as_CurrentEpoch = ab_EpochID ab, as_RecipientBoxes = Some bs\<rparr>, bump w)"
    "map_of bs = shares" "boxes_ok bs" using loadOwnerStructure_ideal [OF I obump] by metis
  have len: "\<forall>b \<in> ran shares. branch_wf b"
    using sharedD(3) [OF sh] by (auto simp: box_sealed_def sealed_def branch_wf_def ran_def)
  obtain ek mk where ck: "deriveChunkKeys E (ab_FileRoot ab') i = Inr (ek, mk)" and
    rot: "rotate_file E ab md content (bump w) = Some (Inr (ab',
       [DSet i (seal E chunkObjectType i (Chunk_codec (e_uuid E)) (base_chunk (ab_FileID ab) (ab_EpochID ab') content) ek mk (d + 6)),
        DSet (ab_MetadataUUID ab') (seal E metadataObjectType (ab_MetadataUUID ab') (Metadata_codec (e_uuid E))
          md' (ab_MetadataEncKey ab') (ab_MetadataMACKey ab') (d + 7))]), (bump w)\<lparr>w_draws := d + 8\<rparr>)"
    using rotate_file_ideal [OF I, where w = "bump w" and ab = ab and md = md and content = content]
    by (auto simp: d_def ab'_def md'_def i_def)
  have ab'c: "ab_StatusUUID ab' = ab_StatusUUID ab" "ab_OwnerVerifyKeyName ab' = ab_OwnerVerifyKeyName ab"
      "ab_AccessBoxStructureUUID ab' = ab_AccessBoxStructureUUID ab" "ab_FileID ab' = ab_FileID ab"
    by (simp_all add: ab'_def rotated_box_def)
  let ?str = "\<lparr>as_FileID = ab_FileID ab, as_CurrentEpoch = ab_EpochID ab, as_RecipientBoxes = Some bs\<rparr>"
  define pc where "pc = seal E chunkObjectType i (Chunk_codec (e_uuid E)) (base_chunk (ab_FileID ab) (ab_EpochID ab') content) ek mk (d + 6)"
  define pm where "pm = seal E metadataObjectType (ab_MetadataUUID ab') (Metadata_codec (e_uuid E))
    md' (ab_MetadataEncKey ab') (ab_MetadataMACKey ab') (d + 7)"
  define fw where "fw = [DSet i pc, DSet (ab_MetadataUUID ab') pm]"
  note rot = rot [folded pc_def pm_def, folded fw_def]
  define w1 where "w1 = (bump w)\<lparr>w_draws := d + 8\<rparr>"
  obtain xs h k ob ps fs where
    rv: "revoke_writes E u ne ab ?str r br us (ab', fw) w1 = Some (Inr (fw @ [DSet (ne_AccessBoxUUID ne) ob] @
       map (\<lambda>q. DSet (br_BoxUUID (the (shares q))) (h q)) xs @
       [DSet (ab_AccessBoxStructureUUID ab) ps, DSet (ab_StatusUUID ab) (json_Marshal (FileStatus_codec (e_uuid E)) fs),
        DDelete (br_BoxUUID br), DDelete (ab_MetadataUUID ab)] @ map DDelete us), w1\<lparr>w_draws := k\<rparr>)"
    and xs: "set xs = dom shares - {r}" "distinct xs"
    and h: "\<And>q b. q \<in> set xs \<Longrightarrow> shares q = Some b \<Longrightarrow>
       \<exists>d. h q = seal E accessBoxObjectType (br_BoxUUID b) (AccessBox_codec (e_uuid E)) ab' (br_BoxEncKey b) (br_BoxMACKey b) d"
    and ob: "\<And>objs. objs (ne_AccessBoxUUID ne) = Some ob \<Longrightarrow>
       box_sealed E objs (ne_AccessBoxUUID ne) (ne_AccessBoxEncKey ne) (ne_AccessBoxMACKey ne) ab'"
    and ow: "\<And>objs'. objs' (ab_AccessBoxStructureUUID ab) = Some ps \<Longrightarrow> owner_at E objs' u ne ab' (shares(r := None))"
    and stt: "\<And>V. fst V (ab_StatusUUID ab) = Some (json_Marshal (FileStatus_codec (e_uuid E)) fs) \<Longrightarrow>
       snd V (getVerifyKeyName E (Username u)) = Some vk \<Longrightarrow> status_at E V ab'"
    and k: "w_draws w1 + 4 \<le> k"
    by (rule revoke_writes_ideal [where w = w1 and r = r and br = br and us = us and fw = fw,
        OF I ord o bs(3,2) len p(5-7) vk(2) own(2) ab'c]) (rule that)
  define ws where "ws = revoke_ws ne ab us shares xs br fw (ob, ps, json_Marshal (FileStatus_codec (e_uuid E)) fs) h"
  define w' where "w' = (bump w)\<lparr>w_draws := k, w_ext := apply_writes ws (w_ext w)\<rparr>"
  have wse: "fw @ [DSet (ne_AccessBoxUUID ne) ob] @ map (\<lambda>q. DSet (br_BoxUUID (the (shares q))) (h q)) xs @
       [DSet (ab_AccessBoxStructureUUID ab) ps, DSet (ab_StatusUUID ab) (json_Marshal (FileStatus_codec (e_uuid E)) fs),
        DDelete (br_BoxUUID br), DDelete (ab_MetadataUUID ab)] @ map DDelete us = ws" by (simp add: ws_def revoke_ws_def)
  have ows: "object_writes ws" by (auto simp: ws_def revoke_ws_def fw_def list_all_iff)
  have run: "RevokeAccess E u fn r w = Some (Inr (), w')"
    using rs rd(2-5) bs(1) bs(2) br rot rv [unfolded wse] own(1) can_object_writes [OF ows]
    by (simp add: RevokeAccess_def exec bindE_run I txn bump_def [symmetric] boxes_of_def content_def [symmetric]
        w1_def [symmetric])
       (simp add: w1_def w'_def)
  have im: "i \<noteq> ab_MetadataUUID ab'" "fst (w_ext w) i = None" "fst (w_ext w) (ab_MetadataUUID ab') = None"
    using fresh_ids_unused [OF fresh, of "d + 5"] fresh_ids_unused [OF fresh, of "d + 2"] fresh_ids_eq [OF fresh, of "d + 5" "d + 2"]
    by (simp_all add: i_def ab'_def rotated_box_def d_def)
  note used = shared_used [OF sh nm im(2)] shared_used [OF sh nm im(3)]
  have new: "i \<notin> set (file_objects nm ne ab us) \<union> branch_ids shares"
      "ab_MetadataUUID ab' \<notin> set (file_objects nm ne ab us) \<union> branch_ids shares" using used by auto
  have wx: "w_ext w' = apply_writes ws (w_ext w)" by (simp add: w'_def)
  note V = revoke_view [OF sharedD(5) [OF sh nm] xs br im(1) new, where V = "w_ext w" and h = h and pi = pc and pm = pm and pa = ob and ps = ps
      and pf = "json_Marshal (FileStatus_codec (e_uuid E)) fs", folded fw_def, folded ws_def, folded wx]
  have keys: "snd (w_ext w') = snd (w_ext w)" by (rule V(8))
  have names: "fst (w_ext w') j = fst (w_ext w) j" if "j = nm \<or> j \<in> name_ids E M" for j
    using that a used by (intro V(9)) (auto simp: file_objects_def)
  have wf': "box_wf ab'" using wf lib_okD(8,9) [OF L] by (simp add: box_wf_def ab'_def rotated_box_def)
  have chunk: "chunk_at E (fst (w_ext w')) ab' i (base_chunk (ab_FileID ab) (ab_EpochID ab') content)"
    by (rule chunk_stored [where objs = "fst (w_ext w')", OF L ck _ V(1) [unfolded pc_def]]) (simp_all add: i_def lib_okD(9) [OF L] base_chunk_def ab'c)
  have fl: "file_at E (w_ext w') u fn ne ab' md' [i] [content]"
    unfolding file_at_def
  proof (intro conjI)
    show "entry_at E (fst (w_ext w')) u fn ne"
      using p(1) entry_at_cong [of E u fn nm "fst (w_ext w')" "fst (w_ext w)" ne, OF nm names] by simp
    show "box_at E (w_ext w') ne ab'"
      using ob [of "fst (w_ext w')", OF V(3)] stt [of "w_ext w'"] V(5) keys vk(1) wf' p(2) ab'c by (simp add: box_at_def)
    show "meta_at E (fst (w_ext w')) ab' md'"
      by (rule meta_stored [where objs = "fst (w_ext w')", OF L wf' _ _ _ _ _ V(2) [unfolded pm_def]])
         (use p(3) lib_okD(9) [OF L] ab'c in \<open>simp_all add: md'_def rotated_md_def meta_at_def ab'_def rotated_box_def\<close>)
    show "chunk_chain E (fst (w_ext w')) ab' (unat (md_ChunkCount md')) (md_TailUUID md') [i] [content]"
      using single_chain [OF chunk] by (simp add: md'_def rotated_md_def i_def)
  qed
  have "shared E (w_ext w') u fn ne ab' md' [i] [content] (shares(r := None)) {m \<in> M. snd (snd m) \<noteq> r}"
    unfolding shared_def
  proof (intro conjI ballI)
    show "file_at E (w_ext w') u fn ne ab' md' [i] [content]" by (rule fl)
    show "owner_at E (fst (w_ext w')) u ne ab' (shares(r := None))" using ow [of "fst (w_ext w')"] V(4) by simp
    show "box_sealed E (fst (w_ext w')) (br_BoxUUID b) (br_BoxEncKey b) (br_BoxMACKey b) ab'"
      if "b \<in> ran (shares(r := None))" for b
    proof -
      from that obtain q where q: "q \<noteq> r" "shares q = Some b" by (auto simp: ran_def split: if_splits)
      with xs(1) have "q \<in> set xs" by auto
      with h q obtain e where e: "h q = seal E accessBoxObjectType (br_BoxUUID b) (AccessBox_codec (e_uuid E)) ab'
          (br_BoxEncKey b) (br_BoxMACKey b) e" by blast
      have "branch_wf b" using len q(2) by (auto simp: ran_def)
      then show ?thesis
        using sealed_seal [where objs = "fst (w_ext w')", OF L V(7) [OF q, unfolded e]] by (simp add: box_sealed_def branch_wf_def)
    qed
    show "member_at E (fst (w_ext w')) ab' (shares(r := None)) m" if m: "m \<in> {m \<in> M. snd (snd m) \<noteq> r}" for m
    proof (cases m)
      case (fields ru fn' q)
      have "member_at E (fst (w_ext w')) ab shares (ru, fn', q)"
        by (rule member_at_cong [OF names]) (use m fields sharedD(4) [OF sh] in \<open>auto simp: name_ids_def\<close>)
      then show ?thesis using m fields ab'c(4) by (auto simp: member_at_def branch_entry_def)
    qed
    have "name_ids E {m \<in> M. snd (snd m) \<noteq> r} \<subseteq> name_ids E M" "branch_ids (shares(r := None)) \<subseteq> branch_ids shares"
      by (auto simp: name_ids_def branch_ids_def ran_def split: if_splits)
    then have "apart E nm ne ab' [i] (shares(r := None)) {m \<in> M. snd (snd m) \<noteq> r}"
      using a used im(1) ab'c by (auto simp: apart_def file_objects_def split: if_splits)
    with nm show "\<exists>nm. getNameSpaceEntryUUID E (Username u) fn = Inr nm \<and>
        apart E nm ne ab' [i] (shares(r := None)) {m \<in> M. snd (snd m) \<noteq> r}" by blast
  qed
  then show thesis
  proof (rule that [OF run, folded content_def])
    show "fst (w_ext w') j = fst (w_ext w) j"
      if "j \<notin> set (file_objects nm ne ab us) \<union> branch_ids shares"
        "j \<notin> {uuid_New (e_lib E) (w_draws w + 2), uuid_New (e_lib E) (w_draws w + 5)}" for j
      using that by (intro V(9)) (auto simp: i_def ab'_def rotated_box_def d_def file_objects_def)
    show "fst (w_ext w') j = fst (w_ext w) j" if "j \<in> name_ids E M" for j using names that by blast
  qed (use V(6) keys names k ab'c in \<open>simp_all add: w'_def md'_def rotated_md_def w1_def d_def\<close>)
qed

end
