(* ===== verification/Client_Sessions.thy ===== *)
theory Client_Sessions
  imports Client_Revoke
begin

text \<open>
  Sharing sessions: an owner stores a file and invites others, all of them edit it, and the owner
  may revoke a recipient. Proved on the ideal store and carried to a process by the simulation.
\<close>

section \<open>Programs\<close>

text \<open>A party is a user and the name under which it has the file.\<close>

type_synonym party = "User \<times> string"

fun share_all :: "'s env \<Rightarrow> User \<Rightarrow> string \<Rightarrow> party list \<Rightarrow> ('s, unit) op" where
  "share_all E u fn [] = returnE ()"
| "share_all E u fn ((v, g) # ps) =
     bindE (CreateInvitation E u fn (Username v)) (\<lambda>i.
     bindE (AcceptInvitation E (Some v) (Username u) i g) (\<lambda>_.
     share_all E u fn ps))"

fun party_edits :: "'s env \<Rightarrow> op_context \<Rightarrow> (party \<times> edit) list \<Rightarrow> ('s, unit) op" where
  "party_edits E c [] = returnE ()"
| "party_edits E c (((v, g), e) # es) = bindE (run_edit E v c g e) (\<lambda>_. party_edits E c es)"

definition share_session ::
  "'s env \<Rightarrow> User \<Rightarrow> op_context \<Rightarrow> string \<Rightarrow> bytes \<Rightarrow> party list \<Rightarrow> (party \<times> edit) list \<Rightarrow> ('s, unit) op" where
  "share_session E u c fn content ps es =
     bindE (StoreFileContext E u c fn content) (\<lambda>_.
     bindE (share_all E u fn ps) (\<lambda>_. party_edits E c es))"

definition revoke_session ::
  "'s env \<Rightarrow> User \<Rightarrow> op_context \<Rightarrow> string \<Rightarrow> bytes \<Rightarrow> party list \<Rightarrow> (party \<times> edit) list \<Rightarrow> string \<Rightarrow> ('s, unit) op" where
  "revoke_session E u c fn content ps es r =
     bindE (share_session E u c fn content ps es) (\<lambda>_. RevokeAccess E u fn r)"

section \<open>Sharing on the ideal store\<close>

definition share_ready ::
  "store_view env \<Rightarrow> nat \<Rightarrow> store_view world \<Rightarrow> User \<Rightarrow> string \<Rightarrow> NamespaceEntry \<Rightarrow> AccessBox \<Rightarrow> Metadata
   \<Rightarrow> uuid list \<Rightarrow> bytes list \<Rightarrow> (string \<Rightarrow> BranchBoxRecord option) \<Rightarrow> member set \<Rightarrow> nat \<Rightarrow> bool" where
  "share_ready E k w u fn ne ab md us cs shares M n \<longleftrightarrow>
     shared E (w_ext w) u fn ne ab md us cs shares M \<and> user_ok E (w_ext w) u \<and>
     fresh_ids E (fst (w_ext w)) (w_draws w) k \<and> w_draws w + 11 * n \<le> k \<and>
     unat (md_Version md) + n < 2 ^ 64 \<and> unat (md_ChunkCount md) + n < 2 ^ 64 \<and> unat (w_txnIDs w) + 2 * n < 2 ^ 64"

text \<open>A party that can accept: its user has published keys, and the name is free.\<close>

definition party_ok :: "'s env \<Rightarrow> nat \<Rightarrow> store_view \<Rightarrow> nat \<Rightarrow> party \<Rightarrow> bool" where
  "party_ok E k V d p \<longleftrightarrow> recipient_ok E V (fst p) \<and>
     (\<exists>nm. getNameSpaceEntryUUID E (Username (fst p)) (snd p) = Inr nm \<and> nm \<noteq> uuid_Nil \<and> fst V nm = None \<and> away E d k nm)"

definition party_name :: "'s env \<Rightarrow> party \<Rightarrow> error + uuid" where
  "party_name E p = getNameSpaceEntryUUID E (Username (fst p)) (snd p)"

lemma recipient_ok_cong: "snd V' = snd V \<Longrightarrow> recipient_ok E V' ru = recipient_ok E V ru"
  by (simp add: recipient_ok_def user_ok_def)

lemma user_ok_cong: "snd V' = snd V \<Longrightarrow> user_ok E V' u = user_ok E V u"
  by (simp add: user_ok_def)

lemma txn_two: "unat (t :: uint64) + 2 * Suc n < 2 ^ 64 \<Longrightarrow> t \<noteq> - 1 \<and> t + 1 \<noteq> - 1 \<and> unat (t + 1 + 1) = unat t + 2"
proof -
  assume t: "unat t + 2 * Suc n < 2 ^ 64"
  then have 1: "t \<noteq> - 1" "unat (t + 1) = Suc (unat t)" using unat_below_max [of t "Suc (2 * n)"] by simp_all
  then have "t + 1 \<noteq> - 1" "unat (t + 1 + 1) = Suc (unat (t + 1))" using t unat_below_max [of "t + 1" "2 * n"] by simp_all
  with 1 show ?thesis by simp
qed

lemma share_step_ideal:
  assumes I: "ideal_env E" and rd: "share_ready E k w u fn ne ab md us cs shares M (Suc n)"
    and ok: "party_ok E k (w_ext w) (w_draws w) (v, g)" and new: "shares (Username v) = None"
  obtains w' br iid w1 nm' where
    "CreateInvitation E u fn (Username v) w = Some (Inr iid, w1)"
    "AcceptInvitation E (Some v) (Username u) iid g w1 = Some (Inr (), w')"
    "share_ready E k w' u fn ne ab md us cs (shares(Username v \<mapsto> br)) (insert (v, g, Username v) M) n"
    "getNameSpaceEntryUUID E (Username v) g = Inr nm'" "snd (w_ext w') = snd (w_ext w)" "w_draws w' = w_draws w + 11"
    "\<And>j. fst (w_ext w) j = None \<Longrightarrow> away E (w_draws w) k j \<Longrightarrow> j \<noteq> nm' \<Longrightarrow> fst (w_ext w') j = None"
proof -
  note R = rd [unfolded share_ready_def]
  define d where "d = w_draws w"
  have sh: "shared E (w_ext w) u fn ne ab md us cs shares M" and u: "user_ok E (w_ext w) u"
    and fr: "fresh_ids E (fst (w_ext w)) d k" and dk: "d + 11 \<le> k" using R by (simp_all add: d_def)
  have ru: "recipient_ok E (w_ext w) v" using ok by (simp add: party_ok_def)
  obtain nm' where nm': "getNameSpaceEntryUUID E (Username v) g = Inr nm'" "nm' \<noteq> uuid_Nil" "fst (w_ext w) nm' = None"
      "away E d k nm'" using ok by (auto simp: party_ok_def d_def)
  obtain nm where nm: "getNameSpaceEntryUUID E (Username u) fn = Inr nm"
    using file_at_parts(1) [OF sharedD(1) [OF sh]] by (auto simp: entry_at_def)
  have t: "w_txnIDs w \<noteq> - 1" "w_txnIDs w + 1 \<noteq> - 1" "unat (w_txnIDs w + 1 + 1) = unat (w_txnIDs w) + 2"
    using R txn_two [of "w_txnIDs w" n] by auto
  have fr2: "fresh_ids E (fst (w_ext w)) (w_draws w) (w_draws w + 2)" using fresh_ids_mono [OF fr] dk by (simp add: d_def)
  define iid where "iid = uuid_New (e_lib E) d"
  obtain w1 br where 1: "CreateInvitation E u fn (Username v) w = Some (Inr (uuid_New (e_lib E) (w_draws w)), w1)"
    "shared E (w_ext w1) u fn ne ab md us cs (shares(Username v \<mapsto> br)) M"
    "invite_at E (w_ext w1) (uuid_New (e_lib E) (w_draws w)) u v (invitation_payload E (Username u) (Username v) ab br)"
    "w_draws w1 = w_draws w + 10" "w_txnIDs w1 = w_txnIDs w + 1" "snd (w_ext w1) = snd (w_ext w)"
    "\<And>j. j \<noteq> ab_AccessBoxStructureUUID ab \<Longrightarrow> j \<notin> uuid_New (e_lib E) ` {w_draws w ..< w_draws w1} \<Longrightarrow>
       fst (w_ext w1) j = fst (w_ext w) j"
    "br_BoxUUID br = uuid_New (e_lib E) (Suc (w_draws w))"
    by (rule CreateInvitation_ideal [OF I sh u ru new t(1) fr2]) (rule that)
  have un: "fst (w_ext w) iid = None" "br_BoxUUID br \<noteq> iid"
    using fresh_ids_unused [OF fr, of d] fresh_ids_eq [OF fr, of "Suc d" d] dk by (simp_all add: iid_def 1(8) d_def)
  have stored: "fst (w_ext w) (ab_AccessBoxStructureUUID ab) \<noteq> None"
    using shared_used [OF sh nm, of "ab_AccessBoxStructureUUID ab"] by (auto simp: file_objects_def)
  have far: "j \<notin> uuid_New (e_lib E) ` {w_draws w ..< w_draws w1}" if "away E d k j" for j
    using awayD(1) [OF that] dk 1(4) by (force simp: d_def)
  have keep: "fst (w_ext w1) j = None" if "fst (w_ext w) j = None" "away E d k j" for j
    using 1(7) [of j] far [OF that(2)] that(1) stored by metis
  have "branch_ids (shares(Username v \<mapsto> br)) = insert (br_BoxUUID br) (branch_ids shares)"
    using new by (auto simp: branch_ids_def ran_map_upd)
  then have iid: "iid \<notin> set (file_objects nm ne ab us) \<union> branch_ids (shares(Username v \<mapsto> br)) \<union> name_ids E M"
    using shared_used [OF sh nm un(1)] un(2) by auto
  have vok: "user_ok E (w_ext w1) v" using ru user_ok_cong [OF 1(6), of E v] by (simp add: recipient_ok_def)
  have t1: "w_txnIDs w1 \<noteq> - 1" using t(2) 1(5) by simp
  note iv = 1(3) [folded d_def, folded iid_def]
  have brs: "(shares(Username v \<mapsto> br)) (Username v) = Some br" by simp
  obtain w' where 2: "AcceptInvitation E (Some v) (Username u) iid g w1 = Some (Inr (), w')"
    "shared E (w_ext w') u fn ne ab md us cs (shares(Username v \<mapsto> br)) (insert (v, g, Username v) M)"
    "w_draws w' = Suc (w_draws w1)" "w_txnIDs w' = w_txnIDs w1 + 1" "snd (w_ext w') = snd (w_ext w1)"
    "fst (w_ext w') iid = None" "\<And>j. j \<noteq> nm' \<Longrightarrow> j \<noteq> iid \<Longrightarrow> fst (w_ext w') j = fst (w_ext w1) j"
    by (rule AcceptInvitation_ideal [OF I 1(2) brs iv iid vok t1 nm nm'(1,2) keep [OF nm'(3,4)]]) (rule that)
  have fr': "fresh_ids E (fst (w_ext w')) (d + 11) k"
  proof (rule fresh_ids_after [OF fr, where X = "{nm'}"])
    show "fst (w_ext w) i \<noteq> None \<or> i \<in> uuid_New (e_lib E) ` {d ..< d + 11} \<or> i \<in> {nm'}" if "fst (w_ext w') i \<noteq> None" for i
    proof (rule ccontr)
      assume "\<not> ?thesis"
      then have i: "fst (w_ext w) i = None" "i \<notin> uuid_New (e_lib E) ` {d ..< d + 11}" "i \<noteq> nm'" by auto
      have "i \<noteq> iid" "i \<notin> uuid_New (e_lib E) ` {w_draws w ..< w_draws w1}" using i(2) 1(4) by (auto simp: iid_def d_def)
      then have "fst (w_ext w') i = fst (w_ext w) i" using 2(7) [OF i(3)] 1(7) [of i] stored i(1) by metis
      with i(1) that show False by simp
    qed
    show "away E (d + 11) k i" if "i \<in> {nm'}" for i using that away_mono [OF nm'(4)] by simp
  qed (use dk in simp_all)
  have uok: "user_ok E (w_ext w') u" using u user_ok_cong [of "w_ext w'" "w_ext w" E u] 1(6) 2(5) by simp
  have ready: "share_ready E k w' u fn ne ab md us cs (shares(Username v \<mapsto> br)) (insert (v, g, Username v) M) n"
    using 2(2,3,4) 1(4,5) fr' R uok t(3) by (simp add: share_ready_def d_def add.commute)
  show thesis
  proof (rule that [OF _ 2(1) ready nm'(1)])
    show "CreateInvitation E u fn (Username v) w = Some (Inr iid, w1)" using 1(1) by (simp add: iid_def d_def)
    show "fst (w_ext w') j = None" if "fst (w_ext w) j = None" "away E (w_draws w) k j" "j \<noteq> nm'" for j
      using 2(6) 2(7) [OF that(3)] keep that(1,2) by (cases "j = iid") (simp_all add: d_def)
  qed (use 1(4,6) 2(3,5) in simp_all)
qed

lemma share_all_ideal:
  assumes I: "ideal_env E" and rd: "share_ready E k w u fn ne ab md us cs shares M (length ps + n)"
    and ok: "\<forall>p \<in> set ps. party_ok E k (w_ext w) (w_draws w) p \<and> shares (Username (fst p)) = None"
    and dist: "distinct (map (Username \<circ> fst) ps)" "distinct (map (party_name E) ps)"
  obtains w' shares' where "share_all E u fn ps w = Some (Inr (), w')"
    "share_ready E k w' u fn ne ab md us cs shares' (M \<union> (\<lambda>(v, g). (v, g, Username v)) ` set ps) n"
    "snd (w_ext w') = snd (w_ext w)"
  using rd ok dist
proof (induction ps arbitrary: w shares M thesis)
  case Nil
  then show ?case by (simp add: returnE_def)
next
  case (Cons p ps)
  obtain v g where p: "p = (v, g)" by (cases p)
  have rd: "share_ready E k w u fn ne ab md us cs shares M (Suc (length ps + n))" using Cons.prems(2) by simp
  have pok: "party_ok E k (w_ext w) (w_draws w) (v, g)" "shares (Username v) = None" using Cons.prems(3) by (simp_all add: p)
  obtain w2 br iid w1 nm' where 1: "CreateInvitation E u fn (Username v) w = Some (Inr iid, w1)"
    "AcceptInvitation E (Some v) (Username u) iid g w1 = Some (Inr (), w2)"
    "share_ready E k w2 u fn ne ab md us cs (shares(Username v \<mapsto> br)) (insert (v, g, Username v) M) (length ps + n)"
    "getNameSpaceEntryUUID E (Username v) g = Inr nm'" "snd (w_ext w2) = snd (w_ext w)" "w_draws w2 = w_draws w + 11"
    "\<And>j. fst (w_ext w) j = None \<Longrightarrow> away E (w_draws w) k j \<Longrightarrow> j \<noteq> nm' \<Longrightarrow> fst (w_ext w2) j = None"
    by (rule share_step_ideal [OF I rd pok]) (rule that)
  have ok': "\<forall>q \<in> set ps. party_ok E k (w_ext w2) (w_draws w2) q \<and> (shares(Username v \<mapsto> br)) (Username (fst q)) = None"
  proof
    fix q assume q: "q \<in> set ps"
    have qok: "party_ok E k (w_ext w) (w_draws w) q" "shares (Username (fst q)) = None" using Cons.prems(3) q by auto
    have "Username (fst q) \<noteq> Username v" using Cons.prems(4) q p by (force simp: image_iff)
    moreover have "party_name E q \<noteq> party_name E p" using Cons.prems(5) q by (force simp: image_iff)
    then have "party_name E q \<noteq> Inr nm'" using 1(4) by (simp add: party_name_def p)
    then have "party_ok E k (w_ext w2) (w_draws w2) q"
      using qok(1) 1(7) recipient_ok_cong [OF 1(5), of E "fst q"] away_mono [of E "w_draws w" k _ "w_draws w2" k] 1(6)
      by (auto simp: party_ok_def party_name_def)
    ultimately show "party_ok E k (w_ext w2) (w_draws w2) q \<and> (shares(Username v \<mapsto> br)) (Username (fst q)) = None"
      using qok(2) by simp
  qed
  obtain w' shares' where 2: "share_all E u fn ps w2 = Some (Inr (), w')"
    "share_ready E k w' u fn ne ab md us cs shares' (insert (v, g, Username v) M \<union> (\<lambda>(v, g). (v, g, Username v)) ` set ps) n"
    "snd (w_ext w') = snd (w_ext w2)"
    using Cons.IH [OF _ 1(3) ok'] Cons.prems(4,5) by auto
  show ?case
    by (rule Cons.prems(1) [of w' shares']) (use 1 2 in \<open>simp_all add: p bindE_run\<close>)
qed

text \<open>The names under which the file is available, and what is found there.\<close>

definition party_of :: "User \<Rightarrow> string \<Rightarrow> member set \<Rightarrow> party \<Rightarrow> bool" where
  "party_of u fn M p \<longleftrightarrow> p = (u, fn) \<or> (\<exists>r. (fst p, snd p, r) \<in> M)"

lemma party_file:
  assumes "shared E V u fn ne ab md us cs shares M" "party_of u fn M p"
  obtains ne' where "file_wf E V (fst p) (snd p) ne' ab md us cs"
  using assms sharedD(6) [OF assms(1)] member_file [OF assms(1)] unfolding party_of_def by (metis fst_conv snd_conv)

lemma party_edit_ideal:
  assumes I: "ideal_env E" and rd: "share_ready E k w u fn ne ab md us cs shares M (Suc n)" and p: "party_of u fn M (v, g)"
  obtains w' md' us' cs' where "run_edit E v c g e w = Some (Inr (), w')"
    "share_ready E k w' u fn ne ab md' us' cs' shares M n" "concat (rev cs') = edited (concat (rev cs)) e"
proof -
  note R = rd [unfolded share_ready_def]
  have sh: "shared E (w_ext w) u fn ne ab md us cs shares M" and fr: "fresh_ids E (fst (w_ext w)) (w_draws w) k" using R by simp_all
  obtain nm where nm: "getNameSpaceEntryUUID E (Username u) fn = Inr nm"
    using file_at_parts(1) [OF sharedD(1) [OF sh]] by (auto simp: entry_at_def)
  obtain ne' where f: "file_wf E (w_ext w) v g ne' ab md us cs" using party_file [OF sh p] by auto
  have "fst (w_ext w) (ab_AccessBoxStructureUUID ab) \<noteq> None"
    using shared_used [OF sh nm, of "ab_AccessBoxStructureUUID ab"] by (auto simp: file_objects_def)
  then have "edit_ready E k w v g ne' ab md us cs (Suc n)"
    using R f fresh_ids_away [OF fr] by (simp add: edit_ready_def)
  then obtain w' md' us' cs' where 1: "run_edit E v c g e w = Some (Inr (), w')"
    "edit_ready E k w' v g ne' ab md' us' cs' n" "concat (rev cs') = edited (concat (rev cs)) e"
    "md_Version md' = md_Version md + of_nat (version_step e)" "w_txnIDs w' = w_txnIDs w + 1"
    "\<And>j. j \<noteq> ab_MetadataUUID ab \<Longrightarrow> j \<notin> set us \<Longrightarrow> j \<noteq> uuid_New (e_lib E) (w_draws w) \<Longrightarrow> fst (w_ext w') j = fst (w_ext w) j"
    "snd (w_ext w') = snd (w_ext w)" "set us' \<subseteq> set us \<union> {uuid_New (e_lib E) (w_draws w)}" "w_draws w' \<le> w_draws w + 3"
    by (rule edit_ideal [OF I, where c = c and e = e]) (rule that)
  have "fst (w_ext w) (uuid_New (e_lib E) (w_draws w)) = None" using fresh_ids_unused [OF fr, of "w_draws w"] R by simp
  from shared_used [OF sh nm this]
  have i: "uuid_New (e_lib E) (w_draws w) \<notin> set (file_objects nm ne ab []) \<union> branch_ids shares \<union> name_ids E M"
    by (auto simp: file_objects_def)
  have f': "file_wf E (w_ext w') v g ne' ab md' us' cs'" using 1(2) by (simp add: edit_ready_def)
  have "shared E (w_ext w') u fn ne ab md' us' cs' shares M"
    by (rule shared_edit [OF sh nm f' 1(6,7,8) i])
  moreover have "unat (w_txnIDs w') = Suc (unat (w_txnIDs w))" using unat_below_max [of "w_txnIDs w" "Suc (2 * n)"] R 1(5) by simp
  ultimately have "share_ready E k w' u fn ne ab md' us' cs' shares M n"
    using 1(2,9) R user_ok_cong [OF 1(7), of E u] by (auto simp: share_ready_def edit_ready_def)
  with 1(1,3) that show thesis by blast
qed

lemma party_edits_ideal:
  assumes I: "ideal_env E" and rd: "share_ready E k w u fn ne ab md us cs shares M (length es + n)"
    and p: "\<forall>(q, e) \<in> set es. party_of u fn M q"
  obtains w' md' us' cs' where "party_edits E c es w = Some (Inr (), w')"
    "share_ready E k w' u fn ne ab md' us' cs' shares M n" "concat (rev cs') = foldl edited (concat (rev cs)) (map snd es)"
  using rd p
proof (induction es arbitrary: w md us cs thesis)
  case Nil
  then show ?case by (simp add: returnE_def)
next
  case (Cons x es)
  obtain v g e where x: "x = ((v, g), e)" by (cases x) auto
  have rd: "share_ready E k w u fn ne ab md us cs shares M (Suc (length es + n))" using Cons.prems(2) by simp
  have "party_of u fn M (v, g)" using Cons.prems(3) by (simp add: x)
  from party_edit_ideal [OF I rd this, where c = c and e = e]
  obtain w1 md1 us1 cs1 where 1: "run_edit E v c g e w = Some (Inr (), w1)"
    "share_ready E k w1 u fn ne ab md1 us1 cs1 shares M (length es + n)" "concat (rev cs1) = edited (concat (rev cs)) e" by metis
  obtain w' md' us' cs' where 2: "party_edits E c es w1 = Some (Inr (), w')"
    "share_ready E k w' u fn ne ab md' us' cs' shares M n" "concat (rev cs') = foldl edited (concat (rev cs1)) (map snd es)"
    by (rule Cons.IH [OF _ 1(2)]) (use Cons.prems(3) in auto)
  show ?case
    by (rule Cons.prems(1) [of w' md' us' cs']) (use 1 2 in \<open>simp_all add: x bindE_run\<close>)
qed

text \<open>What the sessions need at their start.\<close>

definition session_start :: "'s env \<Rightarrow> store_view \<Rightarrow> nat \<Rightarrow> nat \<Rightarrow> User \<Rightarrow> string \<Rightarrow> party list \<Rightarrow> bool" where
  "session_start E V d k u fn ps \<longleftrightarrow> user_ok E V u \<and> fresh_ids E (fst V) d k \<and>
     (\<exists>nm. getNameSpaceEntryUUID E (Username u) fn = Inr nm \<and> nm \<noteq> uuid_Nil \<and> fst V nm = None \<and> away E d k nm) \<and>
     (\<forall>p \<in> set ps. party_ok E k V d p) \<and>
     distinct (map (Username \<circ> fst) ps) \<and> distinct (map (party_name E) ((u, fn) # ps))"

text \<open>The whole session; \<open>n\<close> operations can still follow.\<close>

lemma share_session_ideal:
  assumes I: "ideal_env E" and st: "session_start E (w_ext w) (w_draws w) k u fn ps"
    and es: "\<forall>(q, e) \<in> set es. q \<in> set ((u, fn) # ps)"
    and k: "w_draws w + 20 + 11 * (length ps + length es + n) \<le> k"
    and len: "length ps + length es + n < 2 ^ 63" and txn: "unat (w_txnIDs w) + 2 * (length ps + length es + n) + 1 < 2 ^ 64"
  obtains w' ne ab md us cs shares where "share_session E u c fn content ps es w = Some (Inr (), w')"
    "share_ready E k w' u fn ne ab md us cs shares ((\<lambda>(v, g). (v, g, Username v)) ` set ps) n"
    "concat (rev cs) = foldl edited content (map snd es)"
proof -
  let ?M = "(\<lambda>(v, g). (v, g, Username v)) ` set ps"
  have u: "user_ok E (w_ext w) u" and fresh: "fresh_ids E (fst (w_ext w)) (w_draws w) k"
    and ok: "\<forall>p \<in> set ps. party_ok E k (w_ext w) (w_draws w) p"
    and dist: "distinct (map (Username \<circ> fst) ps)" "distinct (map (party_name E) ((u, fn) # ps))"
    using st by (simp_all add: session_start_def)
  obtain nm where nm: "getNameSpaceEntryUUID E (Username u) fn = Inr nm" "nm \<noteq> uuid_Nil" "fst (w_ext w) nm = None"
      and far: "away E (w_draws w) k nm" using st by (auto simp: session_start_def)
  have t: "w_txnIDs w \<noteq> - 1" "unat (w_txnIDs w + 1) = Suc (unat (w_txnIDs w))"
    using unat_below_max [of "w_txnIDs w" "2 * (length ps + length es + n)"] txn by simp_all
  have k20: "w_draws w + 20 \<le> k" using k by simp
  obtain w1 ne ab md us where 1: "StoreFileContext E u c fn content w = Some (Inr (), w1)"
    "file_wf E (w_ext w1) u fn ne ab md us [content]" "md_Version md = 1" "ne_IsOwner ne"
    "\<And>i. i \<noteq> nm \<Longrightarrow> i \<notin> uuid_New (e_lib E) ` {w_draws w ..< w_draws w1} \<Longrightarrow> fst (w_ext w1) i = fst (w_ext w) i"
    "snd (w_ext w1) = snd (w_ext w)" "w_draws w1 = w_draws w + 20" "w_txnIDs w1 = w_txnIDs w + 1"
    "owner_at E (fst (w_ext w1)) u ne ab Map.empty"
    "ab_AccessBoxStructureUUID ab \<in> uuid_New (e_lib E) ` {w_draws w ..< w_draws w1}"
    by (rule StoreFile_new_ideal [OF I u t(1) nm fresh far k20, where ctx = c and content = content]) (rule that)
  have fr1: "fresh_ids E (fst (w_ext w1)) (w_draws w1) k"
  proof (rule fresh_ids_after [OF fresh, where X = "{nm}"])
    show "away E (w_draws w1) k i" if "i \<in> {nm}" for i using away_mono [OF far] 1(7) that by simp
  qed (use 1(5,7) k in force)+
  have f1: "file_at E (w_ext w1) u fn ne ab md us [content]" using 1(2) by (simp add: file_wf_def)
  from chunk_chain_length [OF file_at_parts(4) [OF f1]] have cc: "unat (md_ChunkCount md) = 1" by simp
  have sh1: "shared E (w_ext w1) u fn ne ab md us [content] Map.empty {}"
    using f1 1(2,9) nm(1) by (simp add: shared_def apart_def branch_ids_def name_ids_def file_wf_def)
  have rd1: "share_ready E k w1 u fn ne ab md us [content] Map.empty {} (length ps + (length es + n))"
    using sh1 fr1 cc 1(3,7,8) t txn k len user_ok_cong [OF 1(6), of E u] u by (simp add: share_ready_def)
  have ok1: "\<forall>p \<in> set ps. party_ok E k (w_ext w1) (w_draws w1) p \<and> Map.empty (Username (fst p)) = None"
  proof
    fix p assume p: "p \<in> set ps"
    then have pok: "party_ok E k (w_ext w) (w_draws w) p" using ok by simp
    then obtain nm' where n: "getNameSpaceEntryUUID E (Username (fst p)) (snd p) = Inr nm'" "nm' \<noteq> uuid_Nil"
        "fst (w_ext w) nm' = None" "away E (w_draws w) k nm'" by (auto simp: party_ok_def)
    have "party_name E p \<noteq> party_name E (u, fn)" using dist(2) p by (force simp: image_iff)
    then have "nm' \<noteq> nm" using n(1) nm(1) by (simp add: party_name_def)
    moreover have "nm' \<notin> uuid_New (e_lib E) ` {w_draws w ..< w_draws w1}" using awayD(1) [OF n(4)] 1(7) k20 by force
    ultimately have "fst (w_ext w1) nm' = None" using 1(5) n(3) by simp
    then show "party_ok E k (w_ext w1) (w_draws w1) p \<and> Map.empty (Username (fst p)) = None"
      using pok n recipient_ok_cong [OF 1(6), of E "fst p"] away_mono [OF n(4), of "w_draws w1" k] 1(7) by (simp add: party_ok_def)
  qed
  obtain w2 shares where 2: "share_all E u fn ps w1 = Some (Inr (), w2)"
    "share_ready E k w2 u fn ne ab md us [content] shares ({} \<union> ?M) (length es + n)" "snd (w_ext w2) = snd (w_ext w1)"
    using share_all_ideal [OF I rd1 ok1] dist by auto
  have pe: "\<forall>(q, e) \<in> set es. party_of u fn ({} \<union> ?M) q"
    using es by (fastforce simp: party_of_def)
  obtain w' md' us' cs' where 3: "party_edits E c es w2 = Some (Inr (), w')"
    "share_ready E k w' u fn ne ab md' us' cs' shares ({} \<union> ?M) n"
    "concat (rev cs') = foldl edited (concat (rev [content])) (map snd es)"
    by (rule party_edits_ideal [OF I 2(2) pe, where c = c]) (rule that)
  show thesis
    by (rule that [of w' ne ab md' us' cs' shares]) (use 1(1) 2(1) 3 in \<open>simp_all add: share_session_def bindE_run\<close>)
qed

lemma party_load_ideal:
  assumes I: "ideal_env E" and sh: "shared E (w_ext w) u fn ne ab md us cs shares M" and p: "party_of u fn M p" and t: "w_txnIDs w \<noteq> - 1"
  shows "LoadFileContext E (fst p) c (snd p) w = Some (Inr (concat (rev cs)), bump w)"
  using party_file [OF sh p] LoadFile_ideal [OF I _ t] unfolding file_wf_def by metis

lemma LoadFile_cut_off:
  assumes I: "ideal_env E" and e: "entry_at E (fst (w_ext w)) v g ne" and t: "w_txnIDs w \<noteq> - 1"
    and ne: "ne_AccessBoxUUID ne \<noteq> uuid_Nil" "length (ne_AccessBoxEncKey ne) = symmetricKeySize" "length (ne_AccessBoxMACKey ne) = symmetricKeySize"
    and gone: "fst (w_ext w) (ne_AccessBoxUUID ne) = None"
  shows "LoadFileContext E v c g w = Some (Inl (ErrorMsg ''required datastore object is missing''), bump w)"
proof -
  have "entry_at E (fst (w_ext (bump w))) v g ne" using e by simp
  note ld = loadNamespaceEntry_ideal [OF I this ne]
  obtain nm where "getNameSpaceEntryUUID E (Username v) g = Inr nm" using e by (auto simp: entry_at_def)
  then obtain r where r: "namespaceResourceID E (Username v) g = Inr r" using namespaceResource_ok by blast
  have "fst (w_ext (bump w)) (ne_AccessBoxUUID ne) = None" using gone by simp
  note ms = load_missing [where c = "AccessBox_codec (e_uuid E)", OF I this object_types(2) ne]
  have "validateFileAccessUnderLock E c' ne (bump w) = Some (Inl (ErrorMsg ''required datastore object is missing''), bump w)" for c'
    using ms by (simp add: validateFileAccessUnderLock_def bindE_def)
  then show ?thesis
    by (simp add: LoadFileContext_def exec I t r bindE_run bindE_err bump_def [symmetric] ld)
qed

lemma share_loads_ideal:
  assumes I: "ideal_env E" and st: "session_start E (w_ext w) (w_draws w) k u fn ps"
    and es: "\<forall>(q, e) \<in> set es. q \<in> set ((u, fn) # ps)"
    and k: "w_draws w + 20 + 11 * (length ps + length es + 1) \<le> k"
    and len: "length ps + length es + 1 < 2 ^ 63" and txn: "unat (w_txnIDs w) + 2 * (length ps + length es + 1) + 1 < 2 ^ 64"
  obtains w' where "share_session E u c fn content ps es w = Some (Inr (), w')"
    "\<And>p. p \<in> set ((u, fn) # ps) \<Longrightarrow> LoadFileContext E (fst p) c (snd p) w' = Some (Inr (foldl edited content (map snd es)), bump w')"
proof -
  let ?M = "(\<lambda>(v, g). (v, g, Username v)) ` set ps"
  obtain w' ne ab md us cs shares where 1: "share_session E u c fn content ps es w = Some (Inr (), w')"
    "share_ready E k w' u fn ne ab md us cs shares ?M 1" "concat (rev cs) = foldl edited content (map snd es)"
    by (rule share_session_ideal [OF I st es k len txn, where c = c and content = content]) (rule that)
  have t: "w_txnIDs w' \<noteq> - 1" using 1(2) txn_two [of "w_txnIDs w'" 0] by (simp add: share_ready_def)
  have sh: "shared E (w_ext w') u fn ne ab md us cs shares ?M" using 1(2) by (simp add: share_ready_def)
  have "party_of u fn ?M p" if "p \<in> set ((u, fn) # ps)" for p using that by (force simp: party_of_def)
  then show thesis
    by (intro that [OF 1(1)]) (simp add: party_load_ideal [OF I sh _ t] 1(3))
qed

lemma revoke_loads_ideal:
  assumes I: "ideal_env E" and ord: "order_ok E" and st: "session_start E (w_ext w) (w_draws w) k u fn ps"
    and es: "\<forall>(q, e) \<in> set es. q \<in> set ((u, fn) # ps)" and v: "(v, g) \<in> set ps"
    and k: "w_draws w + 20 + 11 * (length ps + length es + 1) \<le> k"
    and len: "length ps + length es + 1 < 2 ^ 63" and txn: "unat (w_txnIDs w) + 2 * (length ps + length es + 1) + 1 < 2 ^ 64"
  obtains w' where "revoke_session E u c fn content ps es (Username v) w = Some (Inr (), w')"
    "\<And>p. p \<in> set ((u, fn) # ps) \<Longrightarrow> p \<noteq> (v, g) \<Longrightarrow>
       LoadFileContext E (fst p) c (snd p) w' = Some (Inr (foldl edited content (map snd es)), bump w')"
    "LoadFileContext E v c g w' = Some (Inl (ErrorMsg ''required datastore object is missing''), bump w')"
proof -
  let ?M = "(\<lambda>(v, g). (v, g, Username v)) ` set ps" and ?r = "Username v"
  obtain w1 ne ab md us cs shares where 1: "share_session E u c fn content ps es w = Some (Inr (), w1)"
    "share_ready E k w1 u fn ne ab md us cs shares ?M 1" "concat (rev cs) = foldl edited content (map snd es)"
    by (rule share_session_ideal [OF I st es k len txn, where c = c and content = content]) (rule that)
  note R = 1(2) [unfolded share_ready_def]
  have t: "w_txnIDs w1 \<noteq> - 1" "w_txnIDs w1 + 1 \<noteq> - 1" using R txn_two [of "w_txnIDs w1" 0] by simp_all
  have sh: "shared E (w_ext w1) u fn ne ab md us cs shares ?M" and u: "user_ok E (w_ext w1) u" using R by simp_all
  have fr: "fresh_ids E (fst (w_ext w1)) (w_draws w1) (w_draws w1 + 6)"
    using fresh_ids_mono [of E "fst (w_ext w1)" "w_draws w1" k "w_draws w1" "w_draws w1 + 6"] R by simp
  have vM: "(v, g, ?r) \<in> ?M" using v by force
  obtain br where br: "shares ?r = Some br" "entry_at E (fst (w_ext w1)) v g (branch_entry ab br)"
    using sharedD(4) [OF sh vM] by (auto simp: member_at_def)
  have bx: "br_BoxUUID br \<noteq> uuid_Nil" "length (br_BoxEncKey br) = symmetricKeySize" "length (br_BoxMACKey br) = symmetricKeySize"
    using sharedD(3) [OF sh br(1)] by (simp_all add: box_sealed_def sealed_def)
  obtain nm where nm: "getNameSpaceEntryUUID E (Username u) fn = Inr nm" using st by (auto simp: session_start_def)
  obtain w' ab' md' i where 2: "RevokeAccess E u fn ?r w1 = Some (Inr (), w')"
    "shared E (w_ext w') u fn ne ab' md' [i] [concat (rev cs)] (shares(?r := None)) {m \<in> ?M. snd (snd m) \<noteq> ?r}"
    "md_Version md' = md_Version md" "ab_FileID ab' = ab_FileID ab"
    "fst (w_ext w') (br_BoxUUID br) = None" "snd (w_ext w') = snd (w_ext w1)"
    "w_txnIDs w' = w_txnIDs w1 + 1" "w_draws w1 + 12 \<le> w_draws w'"
    "\<And>j. j \<notin> set (file_objects nm ne ab us) \<union> branch_ids shares \<Longrightarrow>
       j \<notin> {uuid_New (e_lib E) (w_draws w1 + 2), uuid_New (e_lib E) (w_draws w1 + 5)} \<Longrightarrow> fst (w_ext w') j = fst (w_ext w1) j"
    "fst (w_ext w') nm = fst (w_ext w1) nm" "\<And>j. j \<in> name_ids E ?M \<Longrightarrow> fst (w_ext w') j = fst (w_ext w1) j"
    by (rule RevokeAccess_ideal [OF I ord sh u br(1) t(1) nm fr]) (rule that)
  obtain nv where nv: "getNameSpaceEntryUUID E ?r g = Inr nv" using br(2) by (auto simp: entry_at_def)
  then have "nv \<in> name_ids E ?M" using vM unfolding name_ids_def by blast
  then have ent: "entry_at E (fst (w_ext w')) v g (branch_entry ab br)"
    using entry_at_cong [of E v g nv "fst (w_ext w')" "fst (w_ext w1)", OF nv 2(11)] br(2) by simp
  have t': "w_txnIDs w' \<noteq> - 1" using t(2) 2(7) by simp
  have dist: "distinct (map (Username \<circ> fst) ps)" using st by (simp add: session_start_def)
  have still: "party_of u fn {m \<in> ?M. snd (snd m) \<noteq> ?r} p" if p: "p \<in> set ((u, fn) # ps)" "p \<noteq> (v, g)" for p
  proof (cases "p = (u, fn)")
    case False
    with p have ps: "p \<in> set ps" by simp
    then have "Username (fst p) \<noteq> ?r" using dist p(2) v by (auto simp: distinct_map inj_on_def)
    with ps show ?thesis by (force simp: party_of_def)
  qed (simp add: party_of_def)
  show thesis
  proof (rule that [of w'])
    show "revoke_session E u c fn content ps es (Username v) w = Some (Inr (), w')"
      using 1(1) 2(1) by (simp add: revoke_session_def bindE_run)
    show "LoadFileContext E (fst p) c (snd p) w' = Some (Inr (foldl edited content (map snd es)), bump w')"
      if "p \<in> set ((u, fn) # ps)" "p \<noteq> (v, g)" for p
      using party_load_ideal [OF I 2(2) still [OF that] t', of c] 1(3) by simp
    show "LoadFileContext E v c g w' = Some (Inl (ErrorMsg ''required datastore object is missing''), bump w')"
      by (rule LoadFile_cut_off [OF I ent t']) (use bx 2(5) in \<open>simp_all add: branch_entry_def\<close>)
  qed
qed

section \<open>In a process\<close>

lemma ideal_parties [simp]:
  "recipient_ok (ideal_of E) = recipient_ok E" "party_ok (ideal_of E) = party_ok E" "party_name (ideal_of E) = party_name E"
  by (simp_all add: fun_eq_iff recipient_ok_def party_ok_def party_name_def)

lemma ideal_session [simp]: "session_start (ideal_of E) = session_start E" "order_ok (ideal_of E) = order_ok E"
  by (simp add: fun_eq_iff session_start_def) (simp add: order_ok_def ideal_of_def)

lemma exact_edit:
  assumes "E = local_client L get put lib U ord" "ctx_Err (oc_ctx c) = None"
  shows "exact (\<lambda>s. (objs s, keys s)) (\<lambda>s. local_ok L objs keys get put \<and> lm_quiet (get s))
    (run_edit E v c g e) (run_edit (ideal_of E) v c g e)"
  using assms by (cases e) (simp_all add: sim_exact [OF lcl.StoreFile_sim] sim_exact [OF lcl.AppendToFile_sim])

lemma exact_share_session:
  assumes E: "E = local_client L get put lib U ord" and ctx: "ctx_Err (oc_ctx c) = None"
  shows "exact (\<lambda>s. (objs s, keys s)) (\<lambda>s. local_ok L objs keys get put \<and> lm_quiet (get s))
    (share_session E u c fn content ps es) (share_session (ideal_of E) u c fn content ps es)"
proof -
  let ?ex = "exact (\<lambda>s. (objs s, keys s)) (\<lambda>s. local_ok L objs keys get put \<and> lm_quiet (get s))"
  have ps: "?ex (share_all E u fn ps) (share_all (ideal_of E) u fn ps)"
  proof (induction ps)
    case (Cons p ps)
    then show ?case unfolding E
      by (cases p) (auto intro!: exact_bind simp: sim_exact [OF lcl.CreateInvitation_sim] sim_exact [OF lcl.AcceptInvitation_sim])
  qed (simp add: exact_return)
  have es: "?ex (party_edits E c es) (party_edits (ideal_of E) c es)"
  proof (induction es)
    case (Cons x es)
    obtain v g e where x: "x = ((v, g), e)" by (cases x) auto
    show ?case unfolding x party_edits.simps by (rule exact_bind [OF exact_edit [OF E ctx] Cons])
  qed (simp add: exact_return)
  show ?thesis
    unfolding share_session_def
    by (intro exact_bind ps es) (use ctx E in \<open>simp add: sim_exact [OF lcl.StoreFile_sim]\<close>)
qed

text \<open>In a process the session does what it does on the ideal store.\<close>

lemma share_loads:
  assumes E: "E = local_client L get put lib U ord"
    and ok: "local_ok L objs keys get put" "lib_ok lib" "uuid_ok U" "lm_quiet (get (w_ext w))"
    and ctx: "ctx_Err (oc_ctx c) = None"
    and start: "session_start E (objs (w_ext w), keys (w_ext w)) (w_draws w) k u fn ps"
    and es: "\<forall>(q, e) \<in> set es. q \<in> set ((u, fn) # ps)"
    and room: "w_draws w + 20 + 11 * (length ps + length es + 1) \<le> k" "length ps + length es + 1 < 2 ^ 63"
      "unat (w_txnIDs w) + 2 * (length ps + length es + 1) + 1 < 2 ^ 64"
  shows "\<exists>w'. share_session E u c fn content ps es w = Some (Inr (), w') \<and> lm_quiet (get (w_ext w')) \<and>
     (\<forall>p \<in> set ((u, fn) # ps). \<exists>w''. LoadFileContext E (fst p) c (snd p) w' =
        Some (Inr (foldl edited content (map snd es)), w''))"
proof -
  let ?V = "\<lambda>s. (objs s, keys s)" and ?P = "\<lambda>s. local_ok L objs keys get put \<and> lm_quiet (get s)"
  have I: "ideal_env (ideal_of E)" using ok(2,3) by (intro ideal_env_of) (simp_all add: E local_client_def)
  have st: "session_start (ideal_of E) (w_ext (pr ?V w)) (w_draws (pr ?V w)) k u fn ps" using start by simp
  have rm: "w_draws (pr ?V w) + 20 + 11 * (length ps + length es + 1) \<le> k"
      "unat (w_txnIDs (pr ?V w)) + 2 * (length ps + length es + 1) + 1 < 2 ^ 64" using room by simp_all
  obtain w2 where 2: "share_session (ideal_of E) u c fn content ps es (pr ?V w) = Some (Inr (), w2)"
    "\<And>p. p \<in> set ((u, fn) # ps) \<Longrightarrow> LoadFileContext (ideal_of E) (fst p) c (snd p) w2 =
       Some (Inr (foldl edited content (map snd es)), bump w2)"
    by (rule share_loads_ideal [OF I st es rm(1) room(2) rm(2)]) (rule that)
  have P: "?P (w_ext w)" using ok by simp
  obtain w1 where 1: "share_session E u c fn content ps es w = Some (Inr (), w1)" "pr ?V w1 = w2" "?P (w_ext w1)"
    by (rule exactD [OF exact_share_session [OF E ctx] P 2(1)]) (rule that)
  have "\<exists>w''. LoadFileContext E (fst p) c (snd p) w1 = Some (Inr (foldl edited content (map snd es)), w'')"
    if p: "p \<in> set ((u, fn) # ps)" for p
  proof -
    have "exact ?V ?P (LoadFileContext E (fst p) c (snd p)) (LoadFileContext (ideal_of E) (fst p) c (snd p))"
      using ctx unfolding E by (intro sim_exact [OF lcl.LoadFile_sim]) simp
    from exactD [OF this 1(3) 2(2) [OF p, folded 1(2)]] show ?thesis by metis
  qed
  with 1 show ?thesis by blast
qed

text \<open>
  C23. A shared file is one file. In a process of its own, an owner stores a file and invites any
  number of users; each accepts under a name of its choice. Then owner and recipients overwrite and
  append in any order. Everything succeeds, and afterwards loading under any of the names returns
  the content that all the edits together describe.
\<close>

theorem client_share_session:
  assumes E: "E = local_client L get put lib U ord"
    and ok: "local_ok L objs keys get put" "lib_ok lib" "uuid_ok U" "lm_quiet (get (w_ext w))"
    and ctx: "ctx_Err (oc_ctx c) = None"
    and start: "session_start E (objs (w_ext w), keys (w_ext w)) (w_draws w) k u fn ps"
    and es: "\<forall>(q, e) \<in> set es. q \<in> set ((u, fn) # ps)"
    and room: "w_draws w + 20 + 11 * (length ps + length es + 1) \<le> k" "length ps + length es + 1 < 2 ^ 63"
      "unat (w_txnIDs w) + 2 * (length ps + length es + 1) + 1 < 2 ^ 64"
  shows "\<exists>w'. share_session E u c fn content ps es w = Some (Inr (), w') \<and> lm_quiet (get (w_ext w')) \<and>
     (\<forall>p \<in> set ((u, fn) # ps). \<exists>w''. LoadFileContext E (fst p) c (snd p) w' =
        Some (Inr (foldl edited content (map snd es)), w''))"
  by (rule share_loads [OF assms])

text \<open>Alice and Bob, in the process of the examples.\<close>

lemma ex_nm2:
  obtains nm nm' where "getNameSpaceEntryUUID ex_env ''alice'' ''f'' = Inr nm" "1000000 < unat nm"
    "getNameSpaceEntryUUID ex_env ''bob'' ''g'' = Inr nm'" "1000000 < unat nm'" "nm \<noteq> nm'"
proof -
  have c: "canonicalNamespaceIdentity ''alice'' ''f'' = ''5:alice1:f''" "canonicalNamespaceIdentity ''bob'' ''g'' = ''3:bob1:g''"
    by code_simp+
  have t: "take 16 (pad 64 (rev ''5:alice1:f'')) = ''f:1ecila:5'' @ replicate 6 CHR 0x00"
      "take 16 (pad 64 (rev ''3:bob1:g'')) = ''g:1bob:3'' @ replicate 8 CHR 0x00" by (simp_all add: pad_def)
  let ?a = "word_of_bytes (''f:1ecila:5'' @ replicate 6 CHR 0x00) :: uuid"
  let ?b = "word_of_bytes (''g:1bob:3'' @ replicate 8 CHR 0x00) :: uuid"
  have u: "1000000 < unat ?a" "1000000 < unat ?b" "unat ?a \<noteq> unat ?b"
    by (simp_all add: word_of_bytes_def horner_zeros)
  then have "?a \<noteq> ?b" by metis
  with u(1,2) show thesis
    using t by (intro that [of ?a ?b]) (simp_all add: getNameSpaceEntryUUID_def uuid_from_def plain_lib_def dec_uuid_def c)
qed

lemma ex_start: "session_start ex_env (Map.empty, ex_keys) 0 100 alice ''f'' [(bob, ''g'')]"
proof -
  obtain nm nm' where n: "getNameSpaceEntryUUID ex_env ''alice'' ''f'' = Inr nm" "1000000 < unat nm"
    "getNameSpaceEntryUUID ex_env ''bob'' ''g'' = Inr nm'" "1000000 < unat nm'" "nm \<noteq> nm'" by (rule ex_nm2)
  have nn: "nm \<noteq> uuid_Nil" "nm' \<noteq> uuid_Nil" using n(2,4) by auto
  have "recipient_ok ex_env (Map.empty, ex_keys) bob"
    using ex_users(2) ex_names ex_pke_pair by (auto simp: recipient_ok_def ex_keys_def valid_utf8_def)
  then have "party_ok ex_env 100 (Map.empty, ex_keys) 0 (bob, ''g'')"
    using n nn ex_away [OF n(4)] by (simp add: party_ok_def)
  with n nn show ?thesis
    using ex_users(1) ex_fresh [of 100 0] ex_away [OF n(2)] by (simp add: session_start_def party_name_def)
qed

theorem client_share_session_witness:
  "\<exists>w'. share_session ex_env alice op_Background ''f'' ''hello'' [(bob, ''g'')] [((bob, ''g''), Add '' world''), ((alice, ''f''), Add ''!'')] ex_world =
       Some (Inr (), w') \<and> lm_quiet (p_locks (w_ext w')) \<and>
     (\<exists>w''. LoadFileContext ex_env alice op_Background ''f'' w' = Some (Inr ''hello world!'', w'')) \<and>
     (\<exists>w''. LoadFileContext ex_env bob op_Background ''g'' w' = Some (Inr ''hello world!'', w''))"
  using client_share_session [OF ex_env_def mem_local_ok plain_lib_ok dec_uuid_ok, of ex_world op_Background 100 alice "''f''" "[(bob, ''g'')]"
      "[((bob, ''g''), Add '' world''), ((alice, ''f''), Add ''!'')]" "''hello''"] ex_start
  by (simp add: lm_quiet_new op_Background_def)

text \<open>
  C24. Revoking cuts off exactly one recipient. After such a session the owner revokes one direct
  recipient. The revocation succeeds; the owner and every other recipient still load the same
  content; the revoked recipient's load is refused, because its access box is gone.
\<close>

theorem client_revoke_session:
  assumes E: "E = local_client L get put lib U ord" and ord: "order_ok E"
    and ok: "local_ok L objs keys get put" "lib_ok lib" "uuid_ok U" "lm_quiet (get (w_ext w))"
    and ctx: "ctx_Err (oc_ctx c) = None"
    and start: "session_start E (objs (w_ext w), keys (w_ext w)) (w_draws w) k u fn ps"
    and es: "\<forall>(q, e) \<in> set es. q \<in> set ((u, fn) # ps)" and v: "(v, g) \<in> set ps"
    and room: "w_draws w + 20 + 11 * (length ps + length es + 1) \<le> k" "length ps + length es + 1 < 2 ^ 63"
      "unat (w_txnIDs w) + 2 * (length ps + length es + 1) + 1 < 2 ^ 64"
  shows "\<exists>w'. revoke_session E u c fn content ps es (Username v) w = Some (Inr (), w') \<and> lm_quiet (get (w_ext w')) \<and>
     (\<forall>p \<in> set ((u, fn) # ps) - {(v, g)}. \<exists>w''. LoadFileContext E (fst p) c (snd p) w' =
        Some (Inr (foldl edited content (map snd es)), w'')) \<and>
     (\<exists>w''. LoadFileContext E v c g w' = Some (Inl (ErrorMsg ''required datastore object is missing''), w''))"
proof -
  let ?V = "\<lambda>s. (objs s, keys s)" and ?P = "\<lambda>s. local_ok L objs keys get put \<and> lm_quiet (get s)"
  have I: "ideal_env (ideal_of E)" using ok(2,3) by (intro ideal_env_of) (simp_all add: E local_client_def)
  have st: "session_start (ideal_of E) (w_ext (pr ?V w)) (w_draws (pr ?V w)) k u fn ps" using start by simp
  have ord': "order_ok (ideal_of E)" using ord by simp
  have rm: "w_draws (pr ?V w) + 20 + 11 * (length ps + length es + 1) \<le> k"
      "unat (w_txnIDs (pr ?V w)) + 2 * (length ps + length es + 1) + 1 < 2 ^ 64" using room by simp_all
  obtain w2 where 2: "revoke_session (ideal_of E) u c fn content ps es (Username v) (pr ?V w) = Some (Inr (), w2)"
    "\<And>p. p \<in> set ((u, fn) # ps) \<Longrightarrow> p \<noteq> (v, g) \<Longrightarrow> LoadFileContext (ideal_of E) (fst p) c (snd p) w2 =
       Some (Inr (foldl edited content (map snd es)), bump w2)"
    "LoadFileContext (ideal_of E) v c g w2 = Some (Inl (ErrorMsg ''required datastore object is missing''), bump w2)"
    by (rule revoke_loads_ideal [OF I ord' st es v rm(1) room(2) rm(2)]) (rule that)
  have P: "?P (w_ext w)" using ok by simp
  have ex: "exact ?V ?P (revoke_session E u c fn content ps es (Username v)) (revoke_session (ideal_of E) u c fn content ps es (Username v))"
    unfolding revoke_session_def
    by (rule exact_bind [OF exact_share_session [OF E ctx]]) (simp add: E sim_exact [OF lcl.RevokeAccess_sim])
  obtain w1 where 1: "revoke_session E u c fn content ps es (Username v) w = Some (Inr (), w1)" "pr ?V w1 = w2" "?P (w_ext w1)"
    by (rule exactD [OF ex P 2(1)]) (rule that)
  have ld: "exact ?V ?P (LoadFileContext E p c q) (LoadFileContext (ideal_of E) p c q)" for p q
    using ctx unfolding E by (intro sim_exact [OF lcl.LoadFile_sim]) simp
  have "\<exists>w''. LoadFileContext E (fst p) c (snd p) w1 = Some (Inr (foldl edited content (map snd es)), w'')"
    if "p \<in> set ((u, fn) # ps) - {(v, g)}" for p
    using exactD [OF ld 1(3) 2(2) [of p, folded 1(2)]] that by (metis DiffE singletonI)
  moreover have "\<exists>w''. LoadFileContext E v c g w1 = Some (Inl (ErrorMsg ''required datastore object is missing''), w'')"
    using exactD [OF ld 1(3) 2(3) [folded 1(2)]] by metis
  ultimately show ?thesis using 1 by blast
qed

theorem client_revoke_session_witness:
  "\<exists>w'. revoke_session ex_env alice op_Background ''f'' ''hello'' [(bob, ''g'')] [((bob, ''g''), Add '' world'')] ''bob'' ex_world =
       Some (Inr (), w') \<and> lm_quiet (p_locks (w_ext w')) \<and>
     (\<exists>w''. LoadFileContext ex_env alice op_Background ''f'' w' = Some (Inr ''hello world'', w'')) \<and>
     (\<exists>w''. LoadFileContext ex_env bob op_Background ''g'' w' =
        Some (Inl (ErrorMsg ''required datastore object is missing''), w''))"
proof -
  have o: "order_ok ex_env" by (simp add: order_ok_def ex_env_def local_client_def)
  have ne: "alice \<noteq> bob" by (simp add: alice_def bob_def)
  show ?thesis
    using client_revoke_session [OF ex_env_def o mem_local_ok plain_lib_ok dec_uuid_ok, of ex_world op_Background 100 alice "''f''" "[(bob, ''g'')]"
        "[((bob, ''g''), Add '' world'')]" bob "''g''" "''hello''"] ex_start ne
    by (simp add: lm_quiet_new op_Background_def insert_Diff_if)
qed

end
