(* ===== verification/Client_Guarantees.thy ===== *)
theory Client_Guarantees
  imports Client_Sessions
begin

text \<open>
  Guarantees of single operations: a call on MongoDB is the call on the ideal store or nothing;
  accounts; what a successful load has checked; that protected objects cannot be moved; names and
  counters.
\<close>

section \<open>Every call, on MongoDB\<close>

datatype client_call =
    CallInitUser op_context string string
  | CallGetUser op_context string string
  | CallStoreFile User op_context string bytes
  | CallAppendToFile User op_context string bytes
  | CallLoadFile User op_context string
  | CallReadFileMetadata User string
  | CallCreateInvitation User string string
  | CallAcceptInvitation "User option" string uuid string
  | CallRevokeAccess User string string

datatype client_reply = RUser User | RBytes bytes | RMetadata FileMetadataSnapshot | RInvitation uuid | RDone

definition reply :: "('a \<Rightarrow> client_reply) \<Rightarrow> ('s, 'a) op \<Rightarrow> ('s, client_reply) op" where
  "reply f m = bindE m (\<lambda>x. returnE (f x))"

fun run_call :: "'s env \<Rightarrow> client_call \<Rightarrow> ('s, client_reply) op" where
  "run_call E (CallInitUser c n pw) = reply RUser (InitUserContext E c n pw)"
| "run_call E (CallGetUser c n pw) = reply RUser (GetUserContext E c n pw)"
| "run_call E (CallStoreFile u c fn b) = reply (\<lambda>_. RDone) (StoreFileContext E u c fn b)"
| "run_call E (CallAppendToFile u c fn b) = reply (\<lambda>_. RDone) (AppendToFileContext E u c fn b)"
| "run_call E (CallLoadFile u c fn) = reply RBytes (LoadFileContext E u c fn)"
| "run_call E (CallReadFileMetadata u fn) = reply RMetadata (ReadFileMetadata E u fn)"
| "run_call E (CallCreateInvitation u fn n) = reply RInvitation (CreateInvitation E u fn n)"
| "run_call E (CallAcceptInvitation u n i fn) = reply (\<lambda>_. RDone) (AcceptInvitation E u n i fn)"
| "run_call E (CallRevokeAccess u fn n) = reply (\<lambda>_. RDone) (RevokeAccess E u fn n)"

text \<open>A new account publishes two keys; their names have to differ.\<close>

fun call_names :: "'s env \<Rightarrow> client_call \<Rightarrow> bool" where
  "call_names E (CallInitUser c n pw) \<longleftrightarrow> getPKEKeyName E n \<noteq> getVerifyKeyName E n"
| "call_names E _ \<longleftrightarrow> True"

lemma sim_reply:
  fixes m :: "('s, 'a) op"
  assumes "sim V tot False P Q R m m'" shows "sim V tot False P Q R (reply f m) (reply f m')"
proof (rule simI)
  fix w :: "'s world" assume "P (w_ext w)"
  from simD [OF assms this] show "agrees V tot False Q R (V (w_ext w)) (reply f m w) (reply f m' (pr V w))"
    by (cases "m w" rule: out_cases; cases "m' (pr V w)" rule: out_cases) (auto simp: reply_def bindE_def returnE_def)
qed

lemma run_call_mongo:
  assumes "call_names (mongo_client M now B lib U ord) x"
  shows "sim (db_view M view) False False (\<lambda>s. store_ok M view \<and> lock_backend_ok B (db_view M view))
    (\<lambda>s. store_ok M view \<and> lock_backend_ok B (db_view M view)) (\<lambda>s. store_ok M view \<and> lock_backend_ok B (db_view M view))
    (run_call (mongo_client M now B lib U ord) x) (run_call (ideal_of (mongo_client M now B lib U ord)) x)"
  using assms
  by (cases x) (auto intro!: sim_reply mgc.InitUser_sim sim_ro [OF mgc.GetUser_sim] mgc.StoreFile_sim mgc.AppendToFile_sim
      mgc.LoadFile_sim mgc.ReadFileMetadata_sim mgc.CreateInvitation_sim mgc.AcceptInvitation_sim mgc.RevokeAccess_sim)

text \<open>
  C25. Every client call on MongoDB happens completely or not at all. Take any call of the client's
  interface on the MongoDB backend, with any lock service that leaves the database alone, and let
  the database fail or abort transactions as it likes. If the call returns a value, then the value
  and the new objects and keys are those of the same call on the ideal store; if it returns an
  error, the objects and keys are untouched, or the ideal call succeeds and its whole effect is
  there (a commit whose confirmation was lost).
\<close>

theorem client_call_all_or_nothing:
  assumes E: "E = mongo_client M now B lib U ord" and V: "V = db_view M view"
    and ok: "store_ok M view" "lock_backend_ok B V" and names: "call_names E x"
    and run: "run_call E x w = Some (r, w')"
  shows "case r of
      Inr y \<Rightarrow> run_call (ideal_of E) x (pr V w) = Some (Inr y, pr V w')
    | Inl e \<Rightarrow> V (w_ext w') = V (w_ext w) \<or>
        (\<exists>y w2. run_call (ideal_of E) x (pr V w) = Some (Inr y, w2) \<and> w_ext w2 = V (w_ext w'))"
  using simD [OF run_call_mongo [where view = view, OF names [unfolded E]], where w = w] ok run
  by (cases r) (auto simp: E V)

text \<open>The lock service of the example grants every request.\<close>

definition open_backend :: "'s Backend" where
  "open_backend = \<lparr>Backend_Begin = (\<lambda>t s. (None, s)), Guard_Acquire = (\<lambda>t r m s. Some (None, s)),
     Guard_AcquireContext = (\<lambda>c t r m s. Some (None, s)), Guard_ReleaseAll = (\<lambda>t s. s), FenceGrants = None\<rparr>"

definition ex_mongo :: "mongo_db env" where
  "ex_mongo = mongo_client mem_store 5 open_backend plain_lib dec_uuid (\<lambda>d ks. ks)"

definition ex_mongo_world :: "mongo_db world" where
  "ex_mongo_world = \<lparr>w_ext = mem_empty, w_draws = 0, w_txnIDs = 0, w_mutex = None\<rparr>"

lemma ex_mongo_lookup:
  "run_call ex_mongo (CallGetUser op_Background ''alice'' ''pw'') ex_mongo_world =
     Some (Inl (ErrorMsg ''user account does not exits''), ex_mongo_world)"
proof -
  have g: "datastoreGet ex_mongo c i ex_mongo_world = Some (Inr None, ex_mongo_world)" for c i
    by (simp add: datastoreGet_def on_ext_def ex_mongo_def mongo_client_def mongo_Storage_def mongo_Objects_Get_def
        mem_store_def mem_driver_def ex_mongo_world_def mem_empty_def)
  have "e_uuid ex_mongo = dec_uuid" "e_lib ex_mongo = plain_lib" by (simp_all add: ex_mongo_def mongo_client_def)
  then obtain i where "getUserUUID ex_mongo ''alice'' = Inr i"
    by (simp add: getUserUUID_def uuid_from_def plain_lib_def dec_uuid_def pad_def)
  then show ?thesis by (simp add: reply_def GetUserContext_def bindE_assoc exec bindE_run g)
qed

theorem client_call_all_or_nothing_witness:
  "\<exists>w'. run_call ex_mongo (CallGetUser op_Background ''alice'' ''pw'') ex_mongo_world =
      Some (Inl (ErrorMsg ''user account does not exits''), w') \<and> db_view mem_store id (w_ext w') = db_view mem_store id mem_empty"
proof -
  have lb: "lock_backend_ok open_backend (db_view mem_store id)" by (simp add: lock_backend_ok_def open_backend_def)
  show ?thesis
    using client_call_all_or_nothing [OF ex_mongo_def refl mem_store_ok lb _ ex_mongo_lookup] ex_mongo_lookup
    by (auto simp: ex_mongo_world_def)
qed

section \<open>Accounts\<close>

lemma deriveAccountKey_ok:
  assumes "lib_ok (e_lib E)"
  obtains ek mk where "deriveAccountKey E n pw i = Inr (ek, mk)" "length ek = symmetricKeySize" "length mk = symmetricKeySize"
proof -
  let ?root = "Argon2Key (e_lib E) pw (Hash (e_lib E) (''password-salt-'' @ n)) 16"
  have r: "length ?root = 16" by (rule lib_okD(2) [OF assms])
  obtain a where a: "HashKDF (e_lib E) ?root (''account-enc'' @ uuid_String (e_uuid E) i) = Inr a" "length a = HashSizeBytes"
    using lib_okD(3) [OF assms r] by blast
  obtain b where b: "HashKDF (e_lib E) ?root (''account-mac'' @ uuid_String (e_uuid E) i) = Inr b" "length b = HashSizeBytes"
    using lib_okD(3) [OF assms r] by blast
  show thesis
    by (rule that [of "take 16 a" "take 16 b"])
       (use a b in \<open>simp_all add: deriveAccountKey_def symmetricKeySize_def HashSizeBytes_def Let_def\<close>)
qed

text \<open>Creating an account on the ideal store, logging in, and creating it again.\<close>

lemma account_ideal:
  assumes I: "ideal_env E" and n: "n \<noteq> []" "getPKEKeyName E n \<noteq> getVerifyKeyName E n"
    and uid: "getUserUUID E n = Inr i"
    and free: "fst (w_ext w) i = None" "snd (w_ext w) (getPKEKeyName E n) = None" "snd (w_ext w) (getVerifyKeyName E n) = None"
    and kg: "PKEKeyGen (e_lib E) (w_draws w) = Inr (pk, sk)" "DSKeyGen (e_lib E) (Suc (w_draws w)) = Inr (ssk, vk)"
  obtains u w' where "InitUserContext E c n pw w = Some (Inr u, w')" "Username u = n"
    "user_ok E (w_ext w') u" "valid_utf8 n \<Longrightarrow> recipient_ok E (w_ext w') u"
    "\<And>c'. GetUserContext E c' n pw w' = Some (Inr u, w')"
    "\<And>c' pw'. InitUserContext E c' n pw' w' = Some (Inl (ErrorMsg ''username already exits''), w')"
proof -
  note L = ideal_envD(3) [OF I]
  define d where "d = w_draws w"
  obtain ek mk where k: "deriveAccountKey E n pw i = Inr (ek, mk)" "length ek = symmetricKeySize" "length mk = symmetricKeySize"
    by (rule deriveAccountKey_ok [OF L])
  have k16: "length ek = 16" "length mk = 16" using k by (simp_all add: symmetricKeySize_def)
  define root where "root = RandomBytes (e_lib E) (Suc (Suc d)) 16"
  define acc where "acc = \<lparr>ac_UsernameHash = Hash (e_lib E) n, ac_NamespaceRoot = root, ac_PKEPrivate = sk, ac_SignPrivate = ssk\<rparr>"
  define ct where "ct = SymEnc (e_lib E) ek (RandomBytes (e_lib E) (Suc (Suc (Suc d))) 16) (json_Marshal (Account_codec (e_lib E)) acc)"
  have iv: "length (RandomBytes (e_lib E) (Suc (Suc (Suc d))) 16) = AESBlockSizeBytes"
    using lib_okD(8) [OF L] by (simp add: AESBlockSizeBytes_def)
  have ct: "SymDec (e_lib E) ek ct = json_Marshal (Account_codec (e_lib E)) acc" "AESBlockSizeBytes \<le> length ct"
    unfolding ct_def using lib_okD(4,5) [OF L k16(1) iv] by simp_all
  obtain mac where mac: "HMACEval (e_lib E) mk (accountMACMessage E i ct) = Inr mac" "length mac = HashSizeBytes"
    using lib_okD(6) [OF L k16(2)] by blast
  define b where "b = json_Marshal Envelope_codec \<lparr>en_Ciphertext = ct, en_MAC = mac\<rparr>"
  define ws where "ws = [KSet (getPKEKeyName E n) pk, KSet (getVerifyKeyName E n) vk, DSet i b]"
  define w' where "w' = w\<lparr>w_draws := Suc (Suc (Suc (Suc d))), w_ext := apply_writes ws (w_ext w)\<rparr>"
  define u where "u = \<lparr>Username = n, NamespaceRoot = root, PKEPrivate = sk, SignPrivate = ssk\<rparr>"
  have can: "can_writes ws (w_ext w)" using free n(2) by (cases "w_ext w") (simp add: ws_def)
  have em: "emacAccount E acc i ek mk (w\<lparr>w_draws := Suc (Suc (Suc d))\<rparr>) = Some (Inr b, w\<lparr>w_draws := Suc (Suc (Suc (Suc d)))\<rparr>)"
    using k16 mac by (simp add: emacAccount_def exec Let_def ct_def b_def)
  have run: "InitUserContext E c n pw w = Some (Inr u, w')"
    using n uid free kg k em can
    by (simp add: InitUserContext_def isUsernameTaken_def bindE_assoc exec I Let_def bindE_run d_def [symmetric]
        root_def [symmetric] acc_def [symmetric] ws_def [symmetric] u_def w'_def)
  have V: "fst (w_ext w') i = Some b" "snd (w_ext w') (getPKEKeyName E n) = Some pk" "snd (w_ext w') (getVerifyKeyName E n) = Some vk"
    using n(2) by (cases "w_ext w"; simp add: w'_def ws_def)+
  have uok: "user_ok E (w_ext w') u"
    using lib_okD(11) [OF L kg(2)] lib_okD(8) [OF L] V(3) by (simp add: user_ok_def u_def root_def symmetricKeySize_def)
  show thesis
  proof (rule that [OF run _ uok])
    show "recipient_ok E (w_ext w') u" if "valid_utf8 n"
      using uok that V(2) lib_okD(10) [OF L kg(1)] by (simp add: recipient_ok_def u_def)
    have op: "openAccount E b i ek mk w' = Some (Inr acc, w')"
      using k mac ct lib_okD(7) [OF L] Unmarshal_Marshal [OF Account_rt [OF L], of acc]
      by (simp add: openAccount_def exec b_def maxNestingDepth_def)
    show "GetUserContext E c' n pw w' = Some (Inr u, w')" for c'
      using n uid V(1) k(1) op by (simp add: GetUserContext_def exec I bindE_run acc_def u_def)
    show "InitUserContext E c' n pw' w' = Some (Inl (ErrorMsg ''username already exits''), w')" for c' pw'
      using n uid V by (simp add: InitUserContext_def isUsernameTaken_def bindE_assoc exec I)
  qed (simp add: u_def)
qed

text \<open>
  C26. An account can be used. In a process of its own, creating an account under a free,
  non-empty name succeeds when the two key generations do. Logging in with the same password then
  returns exactly the created user, with its namespace root and both private keys; the published
  verification key is the one that its signatures verify with; and creating the account again is
  refused and changes no object and no key.
\<close>

theorem client_account_roundtrip:
  assumes E: "E = local_client L get put lib U ord"
    and ok: "local_ok L objs keys get put" "lib_ok lib" "uuid_ok U" "lm_quiet (get (w_ext w))"
    and n: "n \<noteq> []" "getPKEKeyName E n \<noteq> getVerifyKeyName E n" "getUserUUID E n = Inr i"
    and free: "objs (w_ext w) i = None" "keys (w_ext w) (getPKEKeyName E n) = None" "keys (w_ext w) (getVerifyKeyName E n) = None"
    and keygen: "PKEKeyGen lib (w_draws w) = Inr (pk, sk)" "DSKeyGen lib (Suc (w_draws w)) = Inr (ssk, vk)"
  shows "\<exists>u w1. InitUserContext E c n pw w = Some (Inr u, w1) \<and> Username u = n \<and>
     user_ok E (objs (w_ext w1), keys (w_ext w1)) u \<and>
     (\<exists>w2. GetUserContext E c n pw w1 = Some (Inr u, w2)) \<and>
     (\<exists>w2. InitUserContext E c n pw' w1 = Some (Inl (ErrorMsg ''username already exits''), w2) \<and>
        objs (w_ext w2) = objs (w_ext w1) \<and> keys (w_ext w2) = keys (w_ext w1))"
proof -
  let ?V = "\<lambda>s. (objs s, keys s)" and ?P = "\<lambda>s. local_ok L objs keys get put \<and> lm_quiet (get s)"
  have I: "ideal_env (ideal_of E)" using ok(2,3) by (intro ideal_env_of) (simp_all add: E local_client_def)
  have lib: "e_lib (ideal_of E) = lib" by (simp add: E local_client_def)
  obtain u w' where 1: "InitUserContext (ideal_of E) c n pw (pr ?V w) = Some (Inr u, w')" "Username u = n"
    "user_ok (ideal_of E) (w_ext w') u" "GetUserContext (ideal_of E) c n pw w' = Some (Inr u, w')"
    "InitUserContext (ideal_of E) c n pw' w' = Some (Inl (ErrorMsg ''username already exits''), w')"
    by (rule account_ideal [OF I, where n = n and i = i and w = "pr ?V w" and pk = pk and sk = sk and ssk = ssk and vk = vk
          and c = c and pw = pw]) (use n free keygen lib in auto)
  have P: "?P (w_ext w)" using ok by simp
  have init: "exact ?V ?P (InitUserContext E c n p) (InitUserContext (ideal_of E) c n p)" for p
    unfolding E by (intro sim_exact [OF lcl.InitUser_sim]) (use n(2) E in simp)
  have getu: "exact ?V ?P (GetUserContext E c n pw) (GetUserContext (ideal_of E) c n pw)"
    unfolding E by (rule sim_exact [OF lcl.GetUser_sim])
  obtain w1 where 2: "InitUserContext E c n pw w = Some (Inr u, w1)" "pr ?V w1 = w'" "?P (w_ext w1)"
    by (rule exactD [OF init P 1(1)]) (rule that)
  obtain w2 where 3: "GetUserContext E c n pw w1 = Some (Inr u, w2)"
    by (rule exactD [OF getu 2(3) 1(4) [folded 2(2)]]) (rule that)
  obtain w3 where 4: "InitUserContext E c n pw' w1 = Some (Inl (ErrorMsg ''username already exits''), w3)" "pr ?V w3 = pr ?V w1"
    by (rule exactD [OF init 2(3) 1(5) [folded 2(2)]]) (rule that)
  have "objs (w_ext w3) = objs (w_ext w1)" "keys (w_ext w3) = keys (w_ext w1)" using 4(2) by (simp_all add: pr_def)
  moreover have "user_ok E (objs (w_ext w1), keys (w_ext w1)) u" using 1(3) 2(2) by auto
  ultimately show ?thesis using 1(2) 2(1) 3 4(1) by blast
qed

definition ex_keyless :: "process world" where
  "ex_keyless = \<lparr>w_ext = \<lparr>p_objects = Map.empty, p_keys = Map.empty, p_locks = NewLockManager\<rparr>,
     w_draws = 0, w_txnIDs = 0, w_mutex = None\<rparr>"

theorem client_account_roundtrip_witness:
  "\<exists>u w1. InitUserContext ex_env op_Background ''alice'' ''pw'' ex_keyless = Some (Inr u, w1) \<and> Username u = ''alice'' \<and>
     (\<exists>w2. GetUserContext ex_env op_Background ''alice'' ''pw'' w1 = Some (Inr u, w2)) \<and>
     (\<exists>w2. InitUserContext ex_env op_Background ''alice'' ''x'' w1 = Some (Inl (ErrorMsg ''username already exits''), w2))"
proof -
  obtain i where i: "getUserUUID ex_env ''alice'' = Inr i"
    by (simp add: getUserUUID_def uuid_from_def plain_lib_def dec_uuid_def pad_def)
  show ?thesis
    using client_account_roundtrip [OF ex_env_def mem_local_ok plain_lib_ok dec_uuid_ok, of ex_keyless "''alice''" i
        "\<lparr>KeyType = ''PKE'', PubKey = 0\<rparr>" 0 1 "\<lparr>KeyType = ''DS'', PubKey = 1\<rparr>" op_Background "''pw''" "''x''"] i ex_names(1)
    by (auto simp: ex_keyless_def lm_quiet_new plain_lib_def)
qed

end
