(* ===== verification/Client_Integrity.thy ===== *)
theory Client_Integrity
  imports Client_Guarantees
begin

text \<open>
  What the client checks before it believes the store: a load that succeeds has authenticated every
  object on the way; an object cannot be moved; names do not collide; transaction ids do not
  repeat; the search for an unused chunk identifier ends.
\<close>

section \<open>Successful loads\<close>

text \<open>
  \<open>opened E objs ty i ek mk c z x\<close>: the store has an envelope under \<open>i\<close> whose MAC is the one of its
  type, identifier and ciphertext under \<open>mk\<close>, and whose plaintext under \<open>ek\<close> reads as \<open>x\<close>.
\<close>

definition opened ::
  "'s env \<Rightarrow> objects \<Rightarrow> string \<Rightarrow> uuid \<Rightarrow> bytes \<Rightarrow> bytes \<Rightarrow> 'o codec \<Rightarrow> 'o \<Rightarrow> 'o \<Rightarrow> bool" where
  "opened E objs ty i ek mk c z x \<longleftrightarrow>
     (\<exists>b env. objs i = Some b \<and> json_Unmarshal Envelope_codec b zero_Envelope = Some env \<and>
        HMACEval (e_lib E) mk (datastoreObjectMACMessage E ty i (en_Ciphertext env)) = Inr (en_MAC env) \<and>
        json_Unmarshal c (SymDec (e_lib E) ek (en_Ciphertext env)) z = Some x)"

text \<open>The owner's signature stands behind the access box.\<close>

definition owner_signed :: "'s env \<Rightarrow> store_view \<Rightarrow> AccessBox \<Rightarrow> bool" where
  "owner_signed E V ab \<longleftrightarrow>
     (\<exists>b st vk. fst V (ab_StatusUUID ab) = Some b \<and>
        json_Unmarshal (FileStatus_codec (e_uuid E)) b zero_FileStatus = Some st \<and>
        snd V (ab_OwnerVerifyKeyName ab) = Some vk \<and> KeyType vk = ''DS'' \<and>
        DSVerify (e_lib E) vk (getFileStatusSignatureMessage E (ab_StatusUUID ab) (fs_Body st)) (fs_Signature st) = None \<and>
        fb_FileID (fs_Body st) = ab_FileID ab \<and> fb_EpochID (fs_Body st) = ab_EpochID ab \<and>
        fb_CurrentAccessCommitment (fs_Body st) = getAccessBoxCommitment E ab)"

text \<open>The chunks from the tail of the chain to its base, each in its place.\<close>

inductive opened_chain :: "'s env \<Rightarrow> objects \<Rightarrow> AccessBox \<Rightarrow> nat \<Rightarrow> uuid \<Rightarrow> uuid list \<Rightarrow> bytes list \<Rightarrow> bool"
  for E :: "'s env" and objs :: objects and ab :: AccessBox where
  opened_end: "opened_chain E objs ab 0 uuid_Nil [] []"
| opened_more: "deriveChunkKeys E (ab_FileRoot ab) i = Inr (ek, mk) \<Longrightarrow>
    opened E objs chunkObjectType i ek mk (Chunk_codec (e_uuid E)) zero_Chunk ck \<Longrightarrow>
    ck_FileID ck = ab_FileID ab \<Longrightarrow> ck_EpochID ck = ab_EpochID ab \<Longrightarrow> ck_Index ck = of_nat n \<Longrightarrow>
    i \<noteq> uuid_Nil \<Longrightarrow> i \<notin> set us \<Longrightarrow>
    opened_chain E objs ab n (ck_PrevUUID ck) us cs \<Longrightarrow>
    opened_chain E objs ab (Suc n) i (i # us) (ck_Content ck # cs)"

definition authentic_content :: "'s env \<Rightarrow> store_view \<Rightarrow> User \<Rightarrow> string \<Rightarrow> bytes \<Rightarrow> bool" where
  "authentic_content E V u fn content \<longleftrightarrow>
     (\<exists>nm ek mk ne ab md us cs.
        getNameSpaceEntryUUID E (Username u) fn = Inr nm \<and>
        deriveNamespaceEntryKeys E (NamespaceRoot u) fn = Inr (ek, mk) \<and>
        opened E (fst V) namespaceEntryObjectType nm ek mk (NamespaceEntry_codec (e_uuid E)) zero_NamespaceEntry ne \<and>
        opened E (fst V) accessBoxObjectType (ne_AccessBoxUUID ne) (ne_AccessBoxEncKey ne) (ne_AccessBoxMACKey ne)
          (AccessBox_codec (e_uuid E)) zero_AccessBox ab \<and>
        ab_FileID ab = ne_FileID ne \<and> owner_signed E V ab \<and>
        opened E (fst V) metadataObjectType (ab_MetadataUUID ab) (ab_MetadataEncKey ab) (ab_MetadataMACKey ab)
          (Metadata_codec (e_uuid E)) zero_Metadata md \<and>
        md_FileID md = ab_FileID ab \<and> md_EpochID md = ab_EpochID ab \<and> md_ChunkCount md \<noteq> 0 \<and>
        opened_chain E (fst V) ab (unat (md_ChunkCount md)) (md_TailUUID md) us cs \<and>
        content = concat (rev cs))"

lemma bindE_success:
  "bindE m f w = Some (Inr y, w2) \<longleftrightarrow> (\<exists>x w1. m w = Some (Inr x, w1) \<and> f x w1 = Some (Inr y, w2))"
  by (auto simp: bindE_def split: option.splits sum.splits)

lemma step_success:
  "fail_if b msg w = Some (Inr a, w1) \<longleftrightarrow> \<not> b \<and> w1 = w"
  "or_fail v msg w = Some (Inr x, w1) \<longleftrightarrow> v = Some x \<and> w1 = w"
  "liftE r w = Some (Inr y, w1) \<longleftrightarrow> r = Inr y \<and> w1 = w"
  "returnE z w = Some (Inr z', w1) \<longleftrightarrow> z' = z \<and> w1 = w"
  by (auto simp: fail_if_def or_fail_def liftE_def raiseE_def returnE_def split: option.splits)

lemma load_opened:
  assumes I: "ideal_env E" and run: "loadDatastoreObject E ctx ty i ek mk c z w = Some (Inr x, w1)"
  shows "w1 = w \<and> opened E (fst (w_ext w)) ty i ek mk c z x"
  using run lib_okD(7) [OF ideal_envD(3) [OF I]]
  by (auto simp: loadDatastoreObject_def bindE_success step_success ideal_get [OF I] opened_def)

lemma verify_signed:
  assumes I: "ideal_env E" and run: "verifyFileStatus E ctx ab w = Some (Inr a, w1)"
  shows "w1 = w \<and> owner_signed E (w_ext w) ab"
  using run lib_okD(7) [OF ideal_envD(3) [OF I]]
  by (auto simp: verifyFileStatus_def bindE_success step_success ideal_get [OF I] owner_signed_def)

lemma load_chunks_opened:
  assumes I: "ideal_env E"
  shows "load_chunks E ctx ab n i accC accU w = Some (Inr (cs, us), w1) \<Longrightarrow>
    w1 = w \<and> (\<exists>us' cs'. us = accU @ us' \<and> cs = accC @ cs' \<and> set us' \<inter> set accU = {} \<and>
      opened_chain E (fst (w_ext w)) ab n i us' cs')"
proof (induction n arbitrary: i accC accU)
  case 0
  then show ?case by (auto simp: bindE_success step_success intro: opened_end)
next
  case (Suc n)
  obtain ek mk ck w2 where s: "i \<noteq> uuid_Nil" "i \<notin> set accU" "deriveChunkKeys E (ab_FileRoot ab) i = Inr (ek, mk)"
      "loadDatastoreObject E ctx chunkObjectType i ek mk (Chunk_codec (e_uuid E)) zero_Chunk w = Some (Inr ck, w2)"
      "ck_FileID ck = ab_FileID ab" "ck_EpochID ck = ab_EpochID ab" "ck_Index ck = of_nat n"
      "load_chunks E ctx ab n (ck_PrevUUID ck) (accC @ [ck_Content ck]) (accU @ [i]) w2 = Some (Inr (cs, us), w1)"
    using Suc.prems by (auto simp: bindE_success step_success Let_def split: if_splits prod.splits)
  from load_opened [OF I s(4)] have w2: "w2 = w" and op: "opened E (fst (w_ext w)) chunkObjectType i ek mk (Chunk_codec (e_uuid E)) zero_Chunk ck"
    by simp_all
  from Suc.IH [OF s(8) [unfolded w2]] obtain us' cs' where r: "w1 = w" "us = (accU @ [i]) @ us'"
      "cs = (accC @ [ck_Content ck]) @ cs'" "set us' \<inter> set (accU @ [i]) = {}"
      "opened_chain E (fst (w_ext w)) ab n (ck_PrevUUID ck) us' cs'" by auto
  have "opened_chain E (fst (w_ext w)) ab (Suc n) i (i # us') (ck_Content ck # cs')"
    by (rule opened_more [OF s(3) op s(5,6,7) s(1) _ r(5)]) (use r(4) in auto)
  with r s(2) show ?case by (intro conjI exI [of _ "i # us'"] exI [of _ "ck_Content ck # cs'"]) auto
qed

lemma LoadFile_authentic:
  assumes I: "ideal_env E" and run: "LoadFileContext E u c fn w = Some (Inr content, w1)"
  shows "w_ext w1 = w_ext w \<and> authentic_content E (w_ext w) u fn content"
proof -
  have t: "w_txnIDs w \<noteq> - 1"
  proof
    assume "w_txnIDs w = - 1"
    with run show False by (simp add: LoadFileContext_def with_guard_def bindE_def allocateTxnID_def)
  qed
  obtain r ne wa ab wb md wc us wd where 1: "namespaceResourceID E (Username u) fn = Inr r"
      "loadNamespaceEntry E c (Some u) fn (bump w) = Some (Inr ne, wa)"
      "validateFileAccessUnderLock E c ne wa = Some (Inr ab, wb)" "loadMetadata E c ab wb = Some (Inr md, wc)"
      "loadFileContentAndChunkUUIDs E c ab md wc = Some (Inr (content, us), w1)"
    using run t by (auto simp: LoadFileContext_def with_guard_ideal [OF I] no_lock bindE_success step_success bump_def [symmetric]
        split: prod.splits)
  obtain nm ek mk where e: "getNameSpaceEntryUUID E (Username u) fn = Inr nm" "deriveNamespaceEntryKeys E (NamespaceRoot u) fn = Inr (ek, mk)"
      "loadDatastoreObject E c namespaceEntryObjectType nm ek mk (NamespaceEntry_codec (e_uuid E)) zero_NamespaceEntry (bump w) = Some (Inr ne, wa)"
    using 1(2) by (auto simp: loadNamespaceEntry_def bindE_success step_success split: prod.splits)
  note e3 = load_opened [OF I e(3)]
  obtain wx where a: "loadDatastoreObject E c accessBoxObjectType (ne_AccessBoxUUID ne) (ne_AccessBoxEncKey ne) (ne_AccessBoxMACKey ne)
        (AccessBox_codec (e_uuid E)) zero_AccessBox wa = Some (Inr ab, wx)" "ab_FileID ab = ne_FileID ne"
      "verifyFileStatus E c ab wx = Some (Inr (), wb)"
    using 1(3) by (auto simp: validateFileAccessUnderLock_def bindE_success step_success)
  note a1 = load_opened [OF I a(1)] and a3 = verify_signed [OF I a(3)]
  have m: "loadDatastoreObject E c metadataObjectType (ab_MetadataUUID ab) (ab_MetadataEncKey ab) (ab_MetadataMACKey ab)
        (Metadata_codec (e_uuid E)) zero_Metadata wb = Some (Inr md, wc)" "md_FileID md = ab_FileID ab" "md_EpochID md = ab_EpochID ab"
      "md_ChunkCount md \<noteq> 0"
    using 1(4) by (auto simp: loadMetadata_def bindE_success step_success)
  note m1 = load_opened [OF I m(1)]
  obtain cs where k: "load_chunks E c ab (unat (md_ChunkCount md)) (md_TailUUID md) [] [] wc = Some (Inr (cs, us), w1)"
      "content = concat (rev cs)"
    using 1(5) by (auto simp: loadFileContentAndChunkUUIDs_def bindE_success step_success split: prod.splits)
  note k1 = load_chunks_opened [OF I k(1)]
  have ext: "w_ext wa = w_ext w" "w_ext wx = w_ext w" "w_ext wb = w_ext w" "w_ext wc = w_ext w" "w_ext w1 = w_ext w"
    using e3 a1 a3 m1 k1 by simp_all
  with e e3 a a1 a3 m m1 k k1 show ?thesis unfolding authentic_content_def by fastforce
qed

lemma ideal_opened [simp]: "opened (ideal_of E) = opened E" "owner_signed (ideal_of E) = owner_signed E"
  by (simp_all add: fun_eq_iff opened_def owner_signed_def)

lemma opened_chain_lib:
  assumes "opened_chain E objs ab n i us cs" and lib: "e_lib E' = e_lib E" "e_uuid E' = e_uuid E"
  shows "opened_chain E' objs ab n i us cs"
proof -
  have d: "deriveChunkKeys E' = deriveChunkKeys E" by (simp add: fun_eq_iff deriveChunkKeys_def derive_pair_def lib)
  show ?thesis
    using assms(1)
  proof (induction rule: opened_chain.induct)
    case (opened_more i ek mk ck n us cs)
    show ?case
      by (rule opened_chain.opened_more [of E' ab i ek mk])
         (use opened_more lib d in \<open>simp_all add: opened_def datastoreObjectMACMessage_def\<close>)
  qed (rule opened_end)
qed

lemma ideal_opened_chain [simp]: "opened_chain (ideal_of E) objs ab n i us cs = opened_chain E objs ab n i us cs"
  using opened_chain_lib [of E objs ab n i us cs "ideal_of E"] opened_chain_lib [of "ideal_of E" objs ab n i us cs E]
  by auto

lemma ideal_authentic [simp]: "authentic_content (ideal_of E) V u fn b = authentic_content E V u fn b"
  by (simp add: authentic_content_def)

text \<open>The client on one of its two backends, in the state \<open>s\<close>.\<close>

definition client_on :: "'s env \<Rightarrow> ('s \<Rightarrow> store_view) \<Rightarrow> op_context \<Rightarrow> 's \<Rightarrow> bool" where
  "client_on E V c s \<longleftrightarrow>
     (\<exists>L objs keys get put lib U ord. E = local_client L get put lib U ord \<and> V = (\<lambda>s. (objs s, keys s)) \<and>
        local_ok L objs keys get put \<and> lm_quiet (get s) \<and> ctx_Err (oc_ctx c) = None) \<or>
     (\<exists>M view now B lib U ord. E = mongo_client M now B lib U ord \<and> V = db_view M view \<and>
        store_ok M view \<and> lock_backend_ok B V)"

lemma LoadFile_on:
  assumes "client_on E V c (w_ext w)" "LoadFileContext E u c fn w = Some (Inr b, w1)"
  shows "LoadFileContext (ideal_of E) u c fn (pr V w) = Some (Inr b, pr V w1)"
  using assms(1) unfolding client_on_def
proof (elim disjE exE conjE)
  fix L get put lib U ord and objs keys :: "'a \<Rightarrow> _"
  assume E: "E = local_client L get put lib U ord" "V = (\<lambda>s. (objs s, keys s))" and ok: "local_ok L objs keys get put" "lm_quiet (get (w_ext w))"
    and c: "ctx_Err (oc_ctx c) = None"
  let ?P = "\<lambda>s. local_ok L objs keys get put \<and> lm_quiet (get s)"
  have "sim V True False ?P ?P ?P (LoadFileContext E u c fn) (LoadFileContext (ideal_of E) u c fn)"
    unfolding E by (rule lcl.LoadFile_sim [OF c])
  from simD [OF this, of w] ok assms(2) show ?thesis by simp
next
  fix M :: "'a mongo_store" and view now B lib U ord
  assume E: "E = mongo_client M now B lib U ord" "V = db_view M view" and ok: "store_ok M view" "lock_backend_ok B V"
  let ?P = "\<lambda>s. store_ok M view \<and> lock_backend_ok B (db_view M view)"
  have "sim V False False ?P ?P ?P (LoadFileContext E u c fn) (LoadFileContext (ideal_of E) u c fn)"
    unfolding E by (rule mgc.LoadFile_sim [OF TrueI])
  from simD [OF this, of w] ok E assms(2) show ?thesis by simp
qed

text \<open>
  C27. What a load returns is authentic. Whatever bytes the object store holds, on the in-memory
  backend and on MongoDB: if loading a file returns content, then every object on the way carried a
  MAC that its type, its identifier and its ciphertext have under the reader's key (the entry under
  the reader's namespace keys, then the access box, the metadata and each chunk), the access box is
  the one that the owner's current signed status commits to, the chunks form one chain of exactly
  the recorded length, indexed without gaps and without a cycle, all of this file and epoch, and the
  content is theirs in order. The load changed no object and no key.
\<close>

theorem client_load_authentic:
  assumes on: "client_on E V c (w_ext w)" and lib: "lib_ok (e_lib E)" "uuid_ok (e_uuid E)"
    and run: "LoadFileContext E u c fn w = Some (Inr content, w1)"
  shows "authentic_content E (V (w_ext w)) u fn content \<and> V (w_ext w1) = V (w_ext w)"
proof -
  have I: "ideal_env (ideal_of E)" by (rule ideal_env_of [OF lib])
  from LoadFile_authentic [OF I LoadFile_on [OF on run]] show ?thesis by simp
qed

theorem client_load_authentic_witness:
  "\<exists>w w1. LoadFileContext ex_env alice op_Background ''f'' w = Some (Inr ''hello'', w1) \<and>
     authentic_content ex_env (p_objects (w_ext w), p_keys (w_ext w)) alice ''f'' ''hello''"
proof -
  obtain w w1 where w: "lm_quiet (p_locks (w_ext w))" "LoadFileContext ex_env alice op_Background ''f'' w = Some (Inr ''hello'', w1)"
    using share_loads [OF ex_env_def mem_local_ok plain_lib_ok dec_uuid_ok, of ex_world op_Background 100 alice "''f''" "[(bob, ''g'')]" "[]" "''hello''"]
      ex_start by (auto simp: lm_quiet_new op_Background_def)
  have "client_on ex_env (\<lambda>s. (p_objects s, p_keys s)) op_Background (w_ext w)"
    unfolding client_on_def ex_env_def using mem_local_ok w(1) by (intro disjI1) (force simp: op_Background_def)
  from client_load_authentic [OF this _ _ w(2)] w(2) show ?thesis by (auto simp: plain_lib_ok dec_uuid_ok)
qed

section \<open>Objects stay where they were put\<close>

definition no_colon :: "string \<Rightarrow> bool" where "no_colon s \<longleftrightarrow> CHR '':'' \<notin> set s"

lemma no_colon_split:
  assumes "no_colon a" "no_colon b" "a @ CHR '':'' # x = b @ CHR '':'' # y" shows "a = b \<and> x = y"
proof -
  have tw: "takeWhile (\<lambda>c. c \<noteq> CHR '':'') (s @ CHR '':'' # r) = s" if "no_colon s" for s r
    using that by (subst takeWhile_append2) (auto simp: no_colon_def)
  from tw [OF assms(1), of x] tw [OF assms(2), of y] assms(3) have "a = b" by simp
  with assms(3) show ?thesis by simp
qed

lemma mac_message_inject:
  assumes "uuid_ok (e_uuid E)" "\<And>u. no_colon (uuid_String (e_uuid E) u)" "no_colon ty" "no_colon ty'"
    "datastoreObjectMACMessage E ty i ct = datastoreObjectMACMessage E ty' j ct'"
  shows "ty = ty' \<and> i = j \<and> ct = ct'"
proof -
  have "ty @ CHR '':'' # (uuid_String (e_uuid E) i @ CHR '':'' # ct) = ty' @ CHR '':'' # (uuid_String (e_uuid E) j @ CHR '':'' # ct')"
    using assms(5) by (simp add: datastoreObjectMACMessage_def)
  from no_colon_split [OF assms(3,4) this]
  have 1: "ty = ty'" "uuid_String (e_uuid E) i @ CHR '':'' # ct = uuid_String (e_uuid E) j @ CHR '':'' # ct'" by simp_all
  from no_colon_split [OF assms(2,2) 1(2)] 1(1) uuid_String_inject [OF assms(1)] show ?thesis by simp
qed

text \<open>
  C28. A protected object cannot be passed off as another. Let the store hand out, under some
  identifier, the bytes of an object that was protected under a MAC key as some other type of
  object or for some other identifier. If the MAC does not collide on the two messages (the only
  assumption on it), the load is refused as not authentic: type and identifier are part of what is
  authenticated, and no two pairs of them give the same message. Type names and the textual form of
  identifiers contain no colon.
\<close>

theorem client_object_not_movable:
  assumes lib: "lib_ok (e_lib E)" "uuid_ok (e_uuid E)" "\<forall>u. no_colon (uuid_String (e_uuid E) u)"
    and put: "protectDatastoreObject E ty i codec x ek mk w0 = Some (Inr b, w0')" "no_colon ty"
    and moved: "datastoreGet E c j w = Some (Inr (Some b), w1)" "(ty', j) \<noteq> (ty, i)"
    and req: "ty' \<noteq> []" "no_colon ty'" "j \<noteq> uuid_Nil" "length ek = symmetricKeySize"
    and mac: "\<forall>ct. HMACEval (e_lib E) mk (datastoreObjectMACMessage E ty' j ct) = HMACEval (e_lib E) mk (datastoreObjectMACMessage E ty i ct) \<longrightarrow>
       datastoreObjectMACMessage E ty' j ct = datastoreObjectMACMessage E ty i ct"
  shows "loadDatastoreObject E c ty' j ek mk codec z w = Some (Inl (ErrorMsg ''datastore object authentication failed''), w1)"
proof -
  from put(1) obtain ct tag where p: "b = json_Marshal Envelope_codec \<lparr>en_Ciphertext = ct, en_MAC = tag\<rparr>"
      "HMACEval (e_lib E) mk (datastoreObjectMACMessage E ty i ct) = Inr tag" "length mk = symmetricKeySize"
    by (auto simp: protectDatastoreObject_def bindE_success step_success draw_def Let_def)
  have k: "length mk = 16" using p(3) by (simp add: symmetricKeySize_def)
  obtain tag' where t: "HMACEval (e_lib E) mk (datastoreObjectMACMessage E ty' j ct) = Inr tag'"
    using lib_okD(6) [OF lib(1) k] by blast
  have "length tag = HashSizeBytes" using lib_okD(6) [OF lib(1) k, of "datastoreObjectMACMessage E ty i ct"] p(2) by auto
  moreover have "tag' \<noteq> tag"
  proof
    assume "tag' = tag"
    with mac p(2) t have "datastoreObjectMACMessage E ty' j ct = datastoreObjectMACMessage E ty i ct" by simp
    from mac_message_inject [OF lib(2) _ req(2) put(2) this] lib(3) moved(2) show False by simp
  qed
  ultimately show ?thesis
    using req p moved(1) t lib_okD(7) [OF lib(1)] by (simp add: loadDatastoreObject_def exec bindE_run)
qed

text \<open>A library whose MAC reads the start of the message.\<close>

definition head_mac_lib :: userlib where
  "head_mac_lib = plain_lib\<lparr>HMACEval := (\<lambda>k m. if length k = 16 then Inr (pad 64 m) else Inl (ErrorMsg ''key length''))\<rparr>"

lemma head_mac_lib_ok: "lib_ok head_mac_lib"
  using plain_lib_ok by (auto simp: lib_ok_def head_mac_lib_def pke_pair_def ds_pair_def HashSizeBytes_def)

definition ex_head :: "process env" where
  "ex_head = local_client mem_userlib p_locks set_locks head_mac_lib dec_uuid (\<lambda>d ks. ks)"

text \<open>Metadata protected for the identifier 1 is found under the identifier 2.\<close>

theorem client_object_not_movable_witness:
  "\<exists>b w0 w. protectDatastoreObject ex_head metadataObjectType 1 (Metadata_codec dec_uuid) zero_Metadata (replicate 16 CHR ''k'')
       (replicate 16 CHR ''m'') ex_world = Some (Inr b, w0) \<and>
     p_objects (w_ext w) 2 = Some b \<and>
     loadDatastoreObject ex_head op_Background metadataObjectType 2 (replicate 16 CHR ''k'') (replicate 16 CHR ''m'')
       (Metadata_codec dec_uuid) zero_Metadata w = Some (Inl (ErrorMsg ''datastore object authentication failed''), w)"
proof -
  have E: "e_lib ex_head = head_mac_lib" "e_uuid ex_head = dec_uuid" by (simp_all add: ex_head_def local_client_def)
  obtain b w0 where p: "protectDatastoreObject ex_head metadataObjectType 1 (Metadata_codec dec_uuid) zero_Metadata
      (replicate 16 CHR ''k'') (replicate 16 CHR ''m'') ex_world = Some (Inr b, w0)"
    by (simp add: protectDatastoreObject_def exec E head_mac_lib_def symmetricKeySize_def Let_def metadataObjectType_def)
  define w where "w = ex_world\<lparr>w_ext := (w_ext ex_world)\<lparr>p_objects := [2 \<mapsto> b]\<rparr>\<rparr>"
  have g: "datastoreGet ex_head op_Background 2 w = Some (Inr (Some b), w)"
    by (simp add: datastoreGet_def on_ext_def ex_head_def local_client_def NewUserlibStorage_def UserlibObjectStore_Get_def
        mem_userlib_def w_def)
  have colon: "\<forall>u. no_colon (uuid_String (e_uuid ex_head) u)"
    using itoa_digits by (fastforce simp: E dec_uuid_def no_colon_def is_digit_def)
  have ty: "no_colon metadataObjectType" "metadataObjectType \<noteq> []" by (simp_all add: no_colon_def metadataObjectType_def)
  have "pad 64 (''metadata:2:'' @ ct) \<noteq> pad 64 (''metadata:1:'' @ ct)" for ct by (simp add: pad_def)
  moreover have "itoa 1 = ''1''" "itoa 2 = ''2''" by code_simp+
  ultimately have mac: "\<forall>ct. HMACEval (e_lib ex_head) (replicate 16 CHR ''m'') (datastoreObjectMACMessage ex_head metadataObjectType 2 ct) =
      HMACEval (e_lib ex_head) (replicate 16 CHR ''m'') (datastoreObjectMACMessage ex_head metadataObjectType 1 ct) \<longrightarrow>
      datastoreObjectMACMessage ex_head metadataObjectType 2 ct = datastoreObjectMACMessage ex_head metadataObjectType 1 ct"
    by (simp add: E head_mac_lib_def datastoreObjectMACMessage_def metadataObjectType_def dec_uuid_def)
  have "loadDatastoreObject ex_head op_Background metadataObjectType 2 (replicate 16 CHR ''k'') (replicate 16 CHR ''m'')
       (Metadata_codec dec_uuid) zero_Metadata w = Some (Inl (ErrorMsg ''datastore object authentication failed''), w)"
    by (rule client_object_not_movable [OF _ _ colon p ty(1) g _ ty(2,1) _ _ mac])
       (simp_all add: E head_mac_lib_ok dec_uuid_ok symmetricKeySize_def)
  with p show ?thesis by (intro exI [of _ b] exI [of _ w0] exI [of _ w]) (simp add: w_def)
qed

section \<open>Names and counters\<close>

text \<open>
  Two files of any two users never share a namespace entry by construction: the identity that
  is hashed to find the entry determines the user name and the file name, whatever characters they
  contain (digits and colons too).
\<close>

theorem client_name_identity_injective:
  "canonicalNamespaceIdentity u fn = canonicalNamespaceIdentity u' fn' \<longleftrightarrow> u = u' \<and> fn = fn'"
proof
  assume "canonicalNamespaceIdentity u fn = canonicalNamespaceIdentity u' fn'"
  then have e: "itoa (length u) @ CHR '':'' # (u @ itoa (length fn) @ CHR '':'' # fn) =
      itoa (length u') @ CHR '':'' # (u' @ itoa (length fn') @ CHR '':'' # fn')"
    by (simp add: canonicalNamespaceIdentity_def)
  have d: "\<not> is_digit CHR '':''" by (simp add: is_digit_def)
  from itoa_prefix_unique [OF e d d] have "length u = length u'"
    "u @ itoa (length fn) @ CHR '':'' # fn = u' @ itoa (length fn') @ CHR '':'' # fn'" by simp_all
  then have "u = u'" "itoa (length fn) @ CHR '':'' # fn = itoa (length fn') @ CHR '':'' # fn'" by simp_all
  with itoa_prefix_unique [OF this(2) d d] show "u = u' \<and> fn = fn'" by simp
qed simp

text \<open>Transaction ids drawn one after the other.\<close>

fun allocate_many :: "nat \<Rightarrow> ('s, TxnID list) op" where
  "allocate_many 0 = returnE []"
| "allocate_many (Suc n) = bindE allocateTxnID (\<lambda>t. bindE (allocate_many n) (\<lambda>ts. returnE (t # ts)))"

text \<open>
  C30. Transaction ids never repeat and never wrap. As many ids as are left can be drawn, they are
  the consecutive numbers after the last one, so none is zero and no two are equal; when the last
  number has been used, drawing is refused and the counter stays where it is.
\<close>

theorem client_txn_ids_unique:
  "(unat (w_txnIDs w) + n < 2 ^ 64 \<longrightarrow>
      (\<exists>ts w'. allocate_many n w = Some (Inr ts, w') \<and>
         map unat ts = [Suc (unat (w_txnIDs w)) ..< Suc (unat (w_txnIDs w) + n)] \<and> distinct ts \<and> 0 \<notin> set ts)) \<and>
   (w_txnIDs w = - 1 \<longrightarrow> allocateTxnID w = Some (Inl (ErrorMsg ''safer-cc: transaction ID space exhausted''), w))"
proof (intro conjI impI)
  have "\<exists>ts w'. allocate_many n w = Some (Inr ts, w') \<and>
      map unat ts = [Suc (unat (w_txnIDs w)) ..< Suc (unat (w_txnIDs w) + n)]" if "unat (w_txnIDs w) + n < 2 ^ 64"
    using that
  proof (induction n arbitrary: w)
    case (Suc n)
    have t: "w_txnIDs w \<noteq> - 1" "unat (w_txnIDs w + 1) = Suc (unat (w_txnIDs w))" using unat_below_max Suc.prems by blast+
    let ?w = "w\<lparr>w_txnIDs := w_txnIDs w + 1\<rparr>"
    obtain ts w' where "allocate_many n ?w = Some (Inr ts, w')"
        "map unat ts = [Suc (unat (w_txnIDs ?w)) ..< Suc (unat (w_txnIDs ?w) + n)]"
      using Suc.IH [of ?w] Suc.prems t by auto
    with t show ?case
      by (intro exI [of _ "(w_txnIDs w + 1) # ts"] exI [of _ w']) (simp add: allocateTxnID_def bindE_def returnE_def upt_rec)
  qed (simp add: returnE_def)
  moreover assume "unat (w_txnIDs w) + n < 2 ^ 64"
  ultimately obtain ts w' where r: "allocate_many n w = Some (Inr ts, w')"
      "map unat ts = [Suc (unat (w_txnIDs w)) ..< Suc (unat (w_txnIDs w) + n)]" by blast
  have "distinct (map unat ts)" "0 \<notin> set (map unat ts)" unfolding r(2) by simp_all
  then have "distinct ts" "0 \<notin> set ts" by (auto simp: distinct_map image_iff)
  with r show "\<exists>ts w'. allocate_many n w = Some (Inr ts, w') \<and>
      map unat ts = [Suc (unat (w_txnIDs w)) ..< Suc (unat (w_txnIDs w) + n)] \<and> distinct ts \<and> 0 \<notin> set ts" by blast
qed (simp add: allocateTxnID_def)

theorem client_txn_ids_unique_witness:
  "(\<exists>ts w'. allocate_many 3 ex_world = Some (Inr ts, w') \<and> map unat ts = [1, 2, 3]) \<and>
   allocateTxnID (ex_world\<lparr>w_txnIDs := - 1\<rparr>) =
     Some (Inl (ErrorMsg ''safer-cc: transaction ID space exhausted''), ex_world\<lparr>w_txnIDs := - 1\<rparr>)"
  using client_txn_ids_unique [of ex_world 3] client_txn_ids_unique [of "ex_world\<lparr>w_txnIDs := - 1\<rparr>" 0]
  by (auto simp: upt_rec)

text \<open>
  The search for an identifier outside the old chunks ends. If the generator gives different
  identifiers in different draws, an unused one is found within one draw more than there are old
  chunks, the first that is not among them, and nothing else changes.
\<close>

theorem client_fresh_chunk_terminates:
  assumes "inj_on (uuid_New (e_lib E)) {w_draws w .. w_draws w + length old}"
  shows "\<exists>k \<le> length old. new_uuid_outside E old w =
       Some (Inr (uuid_New (e_lib E) (w_draws w + k)), w\<lparr>w_draws := Suc (w_draws w + k)\<rparr>) \<and>
     uuid_New (e_lib E) (w_draws w + k) \<notin> set old \<and> (\<forall>j < k. uuid_New (e_lib E) (w_draws w + j) \<in> set old)"
proof -
  obtain k where "k \<le> length old" "uuid_New (e_lib E) (w_draws w + k) \<notin> set old"
    by (rule distinct_draws_escape [OF assms])
  with fresh_uuid_within [of E "w_draws w" k old] obtain j where "j \<le> length old"
      "fresh_uuid E old (w_draws w) = Some (uuid_New (e_lib E) (w_draws w + j), Suc (w_draws w + j))"
      "uuid_New (e_lib E) (w_draws w + j) \<notin> set old" "\<forall>i < j. uuid_New (e_lib E) (w_draws w + i) \<in> set old"
    by (meson order_trans)
  then show ?thesis by (intro exI [of _ j]) (simp add: new_uuid_outside_def)
qed

theorem client_fresh_chunk_terminates_witness:
  "\<exists>k \<le> length [1, 2 :: uuid]. new_uuid_outside ex_env [1, 2] ex_world = Some (Inr (uuid_New plain_lib k), ex_world\<lparr>w_draws := Suc k\<rparr>) \<and>
     uuid_New plain_lib k \<notin> set [1, 2]"
proof -
  have "inj_on (uuid_New (e_lib ex_env)) {w_draws ex_world .. w_draws ex_world + length [1, 2 :: uuid]}"
    using ex_fresh [of 10 0] by (auto simp: fresh_ids_def inj_on_def)
  from client_fresh_chunk_terminates [OF this] show ?thesis
    unfolding ex_env_simps ex_world_simps add_0 by blast
qed

end
