(* ===== verification/Go_Config.thy ===== *)
theory Go_Config
  imports Safer_Prelude
begin

text \<open>
  What the programs' configuration uses of Go's standard library: \<open>time.ParseDuration\<close>,
  \<open>strconv.Atoi\<close>, \<open>strconv.ParseInt\<close> in base 0, \<open>strconv.ParseBool\<close>, \<open>strings.TrimSpace\<close>,
  \<open>strings.Split\<close> and \<open>flag.FlagSet.Parse\<close>. Durations are nanoseconds in an \<open>int64\<close>. The one
  floating-point product in \<open>ParseDuration\<close> is a parameter: \<open>frac f unit n\<close> is
  \<open>uint64(float64(f) * (float64(unit) / 1eN))\<close>.
\<close>

section \<open>Durations\<close>

definition Second :: int where "Second = 1000000000"

text \<open>\<open>leadingInt\<close>: the leading digits, unless their value passes \<open>1<<63\<close>.\<close>

fun leadingInt :: "nat \<Rightarrow> string \<Rightarrow> (nat \<times> string) option" where
  "leadingInt x [] = Some (x, [])"
| "leadingInt x (c # s) =
     (if \<not> is_digit c then Some (x, c # s)
      else if x > 2 ^ 63 div 10 then None
      else let x' = x * 10 + digit_val c in if x' > 2 ^ 63 then None else leadingInt x' s)"

text \<open>
  \<open>leadingFraction\<close>: the digits after the point as a number, how many of them it has, and the
  rest; digits past the range of the number are dropped.
\<close>

fun leadingFraction :: "nat \<Rightarrow> nat \<Rightarrow> bool \<Rightarrow> string \<Rightarrow> nat \<times> nat \<times> string" where
  "leadingFraction x n overflow [] = (x, n, [])"
| "leadingFraction x n overflow (c # s) =
     (if \<not> is_digit c then (x, n, c # s)
      else if overflow then leadingFraction x n True s
      else if x > (2 ^ 63 - 1) div 10 then leadingFraction x n True s
      else let y = x * 10 + digit_val c
           in if y > 2 ^ 63 then leadingFraction x n True s else leadingFraction y (Suc n) False s)"

definition unitMap :: "string \<Rightarrow> nat option" where
  "unitMap u =
     map_of [(''ns'', 1), (''us'', 1000), ([CHR 0xC2, CHR 0xB5, CHR ''s''], 1000),
       ([CHR 0xCE, CHR 0xBC, CHR ''s''], 1000), (''ms'', 1000000), (''s'', 1000000000),
       (''m'', 60000000000), (''h'', 3600000000000)] u"

lemma leadingInt_rest: "leadingInt x s = Some (v, r) \<Longrightarrow> length r \<le> length s"
  by (induction x s rule: leadingInt.induct) (auto simp: Let_def split: if_splits)

lemma leadingFraction_rest: "leadingFraction x n b s = (f, k, r) \<Longrightarrow> length r \<le> length s"
  by (induction x n b s rule: leadingFraction.induct) (auto simp: Let_def split: if_splits)

definition unit_char :: "char \<Rightarrow> bool" where
  "unit_char c \<longleftrightarrow> c \<noteq> CHR ''.'' \<and> \<not> is_digit c"

definition invalid_duration :: error where "invalid_duration = ErrorMsg ''time: invalid duration''"

text \<open>
  The optional fraction: its digits, their number, whether there were any, and the rest.
\<close>

definition fraction_part :: "string \<Rightarrow> nat \<times> nat \<times> bool \<times> string" where
  "fraction_part s1 =
     (if s1 \<noteq> [] \<and> hd s1 = CHR ''.'' then
        (let s' = tl s1; (f, n, r) = leadingFraction 0 0 False s' in (f, n, length r \<noteq> length s', r))
      else (0, 0, False, s1))"

text \<open>One number with its unit: its nanoseconds and the rest of the text.\<close>

definition duration_part :: "(nat \<Rightarrow> nat \<Rightarrow> nat \<Rightarrow> nat) \<Rightarrow> string \<Rightarrow> error + nat \<times> string" where
  "duration_part frac s =
     (if s = [] \<or> \<not> (hd s = CHR ''.'' \<or> is_digit (hd s)) then Inl invalid_duration
      else case leadingInt 0 s of
        None \<Rightarrow> Inl invalid_duration
      | Some (v, s1) \<Rightarrow>
         (case fraction_part s1 of (f, n, post, s2) \<Rightarrow>
            if length s1 = length s \<and> \<not> post then Inl invalid_duration
            else if takeWhile unit_char s2 = [] then Inl (ErrorMsg ''time: missing unit in duration'')
            else case unitMap (takeWhile unit_char s2) of
               None \<Rightarrow> Inl (ErrorMsg ''time: unknown unit in duration'')
             | Some unit \<Rightarrow>
                if v > 2 ^ 63 div unit then Inl invalid_duration
                else let v1 = v * unit; v2 = (if f > 0 then (v1 + frac f unit n) mod 2 ^ 64 else v1)
                     in if f > 0 \<and> v2 > 2 ^ 63 then Inl invalid_duration
                        else Inr (v2, dropWhile unit_char s2)))"

lemma drop_unit: "takeWhile p s \<noteq> [] \<Longrightarrow> length (dropWhile p s) < length s"
  by (cases s) (auto simp: length_dropWhile_le less_Suc_eq_le split: if_splits)

lemma fraction_part_rest: "fraction_part s1 = (f, n, post, s2) \<Longrightarrow> length s2 \<le> length s1"
proof (cases "s1 \<noteq> [] \<and> hd s1 = CHR ''.''")
  case True
  assume "fraction_part s1 = (f, n, post, s2)"
  with True have "leadingFraction 0 0 False (tl s1) = (f, n, s2)"
    by (simp add: fraction_part_def Let_def split: prod.splits)
  from leadingFraction_rest [OF this] show ?thesis by simp
qed (auto simp: fraction_part_def)

lemma duration_part_rest:
  assumes "duration_part frac s = Inr (v, r)" shows "length r < length s"
proof -
  from assms obtain n s1 where i: "leadingInt 0 s = Some (n, s1)"
    by (simp add: duration_part_def split: if_splits option.splits prod.splits)
  obtain f k post s2 where p: "fraction_part s1 = (f, k, post, s2)" by (metis prod_cases4)
  have "takeWhile unit_char s2 \<noteq> [] \<and> r = dropWhile unit_char s2"
    using assms i p by (simp add: duration_part_def Let_def split: if_splits option.splits)
  then show ?thesis
    using drop_unit [of unit_char s2] fraction_part_rest [OF p] leadingInt_rest [OF i] by simp
qed

function duration_parts :: "(nat \<Rightarrow> nat \<Rightarrow> nat \<Rightarrow> nat) \<Rightarrow> nat \<Rightarrow> string \<Rightarrow> error + nat" where
  "duration_parts frac d s =
     (if s = [] then Inr d
      else case duration_part frac s of
        Inl e \<Rightarrow> Inl e
      | Inr (v, r) \<Rightarrow>
         (let d' = (d + v) mod 2 ^ 64
          in if d' > 2 ^ 63 then Inl invalid_duration else duration_parts frac d' r))"
  by auto
termination
  by (relation "measure (\<lambda>(frac, d, s). length s)") (auto dest: duration_part_rest)

declare duration_parts.simps [simp del]

definition ParseDuration :: "(nat \<Rightarrow> nat \<Rightarrow> nat \<Rightarrow> nat) \<Rightarrow> string \<Rightarrow> error + int" where
  "ParseDuration frac orig =
     (let neg = (orig \<noteq> [] \<and> hd orig = CHR ''-'');
          s = (if orig \<noteq> [] \<and> (hd orig = CHR ''-'' \<or> hd orig = CHR ''+'') then tl orig else orig)
      in if s = ''0'' then Inr 0
         else if s = [] then Inl invalid_duration
         else case duration_parts frac 0 s of
           Inl e \<Rightarrow> Inl e
         | Inr d \<Rightarrow>
            if neg then Inr (- int d)
            else if d > 2 ^ 63 - 1 then Inl invalid_duration else Inr (int d))"


lemma duration_parts_bound:
  "d \<le> 2 ^ 63 \<Longrightarrow> duration_parts frac d s = Inr d' \<Longrightarrow> d' \<le> 2 ^ 63"
proof (induction frac d s rule: duration_parts.induct)
  case (1 frac d s)
  from 1(3) 1(2) show ?case
    by (subst (asm) duration_parts.simps)
       (auto simp: Let_def split: if_splits sum.splits dest: 1(1) [OF _ _ refl refl, simplified])
qed

lemma ParseDuration_range: "ParseDuration frac s = Inr d \<Longrightarrow> - (2 ^ 63) \<le> d \<and> d < 2 ^ 63"
  using duration_parts_bound [of 0 frac]
  by (fastforce simp: ParseDuration_def Let_def split: if_splits sum.splits)

text \<open>A whole number of seconds, written the ordinary way, is read as that many seconds.\<close>

lemma leadingInt_digits:
  "list_all is_digit ds \<Longrightarrow> foldl (\<lambda>n c. 10 * n + digit_val c) x ds \<le> 2 ^ 63 \<Longrightarrow>
   \<not> is_digit c \<Longrightarrow> leadingInt x (ds @ c # r) = Some (foldl (\<lambda>n c. 10 * n + digit_val c) x ds, c # r)"
proof (induction ds arbitrary: x)
  case (Cons d ds)
  let ?f = "foldl (\<lambda>n c. 10 * n + digit_val c)"
  have mono: "y \<le> ?f y es" for y es
  proof (induction es arbitrary: y)
    case (Cons e es)
    from Cons [of "10 * y + digit_val e"] show ?case by simp
  qed simp
  have "10 * x + digit_val d \<le> 2 ^ 63" using Cons.prems mono [of "10 * x + digit_val d" ds] by simp
  then show ?case using Cons by (simp add: Let_def mult.commute)
qed simp

lemma itoa_all_digits [simp]: "list_all is_digit (itoa n)"
  by (simp add: list_all_iff itoa_digits)

lemma itoa_hd_digit: "is_digit (hd (itoa n))"
  by (rule itoa_digits [of _ n]) simp

lemma unit_s [simp]: "unit_char CHR ''s''" "\<not> is_digit CHR ''s''" "unitMap ''s'' = Some 1000000000"
  by (simp_all add: unit_char_def is_digit_def unitMap_def)

lemma ParseDuration_seconds:
  assumes "int n * Second < 2 ^ 63" shows "ParseDuration frac (itoa n @ ''s'') = Inr (int n * Second)"
proof -
  have n: "n * 1000000000 < 2 ^ 63" and n63: "n \<le> 2 ^ 63" using assms by (simp_all add: Second_def)
  have i: "leadingInt 0 (itoa n @ ''s'') = Some (n, ''s'')"
    using leadingInt_digits [of "itoa n" 0 "CHR ''s''" "[]"] n63 by (simp add: atoi_def [symmetric])
  have hd: "is_digit (hd (itoa n @ ''s''))" using itoa_hd_digit by simp
  then have sign: "hd (itoa n @ ''s'') \<noteq> CHR ''-''" "hd (itoa n @ ''s'') \<noteq> CHR ''+''"
    by (auto simp: is_digit_def)
  have part: "duration_part frac (itoa n @ ''s'') = Inr (n * 1000000000, [])"
    using n hd by (simp add: duration_part_def i fraction_part_def)
  have "duration_parts frac 0 (itoa n @ ''s'') = Inr (n * 1000000000)"
    using n by (subst duration_parts.simps) (simp add: part duration_parts.simps)
  moreover have "itoa n @ ''s'' \<noteq> ''0''" by (cases "itoa n") (auto simp: neq_Nil_conv)
  ultimately show ?thesis using n sign by (simp add: ParseDuration_def Let_def Second_def)
qed

section \<open>Integers and booleans\<close>

definition err_syntax :: error where "err_syntax = ErrorMsg ''invalid syntax''"
definition err_range :: error where "err_range = ErrorMsg ''value out of range''"

text \<open>\<open>strconv.Atoi\<close>: an optional sign and decimal digits, in the range of an \<open>int\<close>.\<close>

definition Atoi :: "string \<Rightarrow> error + int" where
  "Atoi s =
     (let neg = (s \<noteq> [] \<and> hd s = CHR ''-'');
          ds = (if s \<noteq> [] \<and> (hd s = CHR ''-'' \<or> hd s = CHR ''+'') then tl s else s);
          v = (if neg then - int (atoi ds) else int (atoi ds))
      in if ds = [] \<or> \<not> list_all is_digit ds then Inl err_syntax
         else if v < - (2 ^ 63) \<or> v \<ge> 2 ^ 63 then Inl err_range
         else Inr v)"

lemma Atoi_itoa: "int n < 2 ^ 63 \<Longrightarrow> Atoi (itoa n) = Inr (int n)"
proof -
  assume "int n < 2 ^ 63"
  moreover have "hd (itoa n) \<noteq> CHR ''-''" "hd (itoa n) \<noteq> CHR ''+''"
    using itoa_hd_digit [of n] by (auto simp: is_digit_def)
  ultimately show ?thesis by (simp add: Atoi_def Let_def)
qed

text \<open>
  \<open>strconv.ParseInt(s, 0, 64)\<close>, which \<open>flag.Int\<close> uses: the base comes from the prefix, and
  underscores may separate digits.
\<close>

definition lower :: "char \<Rightarrow> char" where
  "lower c = char_of (or (of_char c :: nat) 32)"

definition digit_in :: "nat \<Rightarrow> char \<Rightarrow> nat option" where
  "digit_in base c =
     (let n = (of_char (lower c) :: nat);
          d = (if is_digit c then Some (digit_val c)
               else if 97 \<le> n \<and> n \<le> 122 then Some (n - 97 + 10) else None)
      in case d of None \<Rightarrow> None | Some d \<Rightarrow> if d \<ge> base then None else Some d)"

fun uint_digits :: "nat \<Rightarrow> nat \<Rightarrow> bool \<Rightarrow> string \<Rightarrow> error + nat \<times> bool" where
  "uint_digits base n us [] = Inr (n, us)"
| "uint_digits base n us (c # s) =
     (if c = CHR ''_'' then uint_digits base n True s
      else case digit_in base c of
        None \<Rightarrow> Inl err_syntax
      | Some d \<Rightarrow> if n * base + d \<ge> 2 ^ 64 then Inl err_range else uint_digits base (n * base + d) us s)"

text \<open>\<open>underscoreOK\<close>: \<open>saw\<close> is \<open>^\<close> at the start, \<open>0\<close> after a digit or prefix, \<open>_\<close>, or \<open>!\<close>.\<close>

fun underscore_scan :: "bool \<Rightarrow> char \<Rightarrow> string \<Rightarrow> bool" where
  "underscore_scan hex saw [] = (saw \<noteq> CHR ''_'')"
| "underscore_scan hex saw (c # s) =
     (if is_digit c \<or> hex \<and> 97 \<le> (of_char (lower c) :: nat) \<and> (of_char (lower c) :: nat) \<le> 102
      then underscore_scan hex CHR ''0'' s
      else if c = CHR ''_'' then saw = CHR ''0'' \<and> underscore_scan hex CHR ''_'' s
      else saw \<noteq> CHR ''_'' \<and> underscore_scan hex CHR ''!'' s)"

definition has_prefix_base :: "string \<Rightarrow> bool" where
  "has_prefix_base s \<longleftrightarrow>
     length s \<ge> 2 \<and> s ! 0 = CHR ''0'' \<and> lower (s ! 1) \<in> {CHR ''b'', CHR ''o'', CHR ''x''}"

definition underscoreOK :: "string \<Rightarrow> bool" where
  "underscoreOK s =
     (if has_prefix_base s then underscore_scan (lower (s ! 1) = CHR ''x'') CHR ''0'' (drop 2 s)
      else underscore_scan False (CHR ''^'') s)"

definition ParseUint0 :: "string \<Rightarrow> error + nat" where
  "ParseUint0 s =
     (if s = [] then Inl err_syntax
      else let (base, digits) =
        (if hd s = CHR ''0'' then
           if length s \<ge> 3 \<and> lower (s ! 1) = CHR ''b'' then (2, drop 2 s)
           else if length s \<ge> 3 \<and> lower (s ! 1) = CHR ''o'' then (8, drop 2 s)
           else if length s \<ge> 3 \<and> lower (s ! 1) = CHR ''x'' then (16, drop 2 s)
           else (8, drop 1 s)
         else (10, s))
      in case uint_digits base 0 False digits of
        Inl e \<Rightarrow> Inl e
      | Inr (n, us) \<Rightarrow> if us \<and> \<not> underscoreOK s then Inl err_syntax else Inr n)"

definition ParseInt0 :: "string \<Rightarrow> error + int" where
  "ParseInt0 s =
     (if s = [] then Inl err_syntax
      else let neg = (hd s = CHR ''-'');
               s' = (if hd s = CHR ''-'' \<or> hd s = CHR ''+'' then tl s else s)
      in case ParseUint0 s' of
        Inl e \<Rightarrow> Inl e
      | Inr un \<Rightarrow>
         if \<not> neg \<and> un \<ge> 2 ^ 63 then Inl err_range
         else if neg \<and> un > 2 ^ 63 then Inl err_range
         else Inr (if neg then - int un else int un))"

lemma ParseInt0_range: "ParseInt0 s = Inr v \<Longrightarrow> - (2 ^ 63) \<le> v \<and> v < 2 ^ 63"
  by (auto simp: ParseInt0_def Let_def split: if_splits sum.splits)

definition ParseBool :: "string \<Rightarrow> error + bool" where
  "ParseBool s =
     (if s \<in> {''1'', ''t'', ''T'', ''TRUE'', ''true'', ''True''} then Inr True
      else if s \<in> {''0'', ''f'', ''F'', ''FALSE'', ''false'', ''False''} then Inr False
      else Inl err_syntax)"

section \<open>Strings\<close>

text \<open>
  \<open>strings.TrimSpace\<close> cuts the white space of Unicode at both ends; these are its encodings.
\<close>

definition spaces :: "string list" where
  "spaces =
     [[CHR 0x09], [CHR 0x0A], [CHR 0x0B], [CHR 0x0C], [CHR 0x0D], [CHR 0x20],
      [CHR 0xC2, CHR 0x85], [CHR 0xC2, CHR 0xA0], [CHR 0xE1, CHR 0x9A, CHR 0x80]]
     @ map (\<lambda>n. [CHR 0xE2, CHR 0x80, char_of n]) ([128..<139] @ [168, 169, 175 :: nat])
     @ [[CHR 0xE2, CHR 0x81, CHR 0x9F], [CHR 0xE3, CHR 0x80, CHR 0x80]]"

function strip_words :: "string list \<Rightarrow> string \<Rightarrow> string" where
  "strip_words ws s =
     (case find (\<lambda>w. w \<noteq> [] \<and> take (length w) s = w) ws of
        None \<Rightarrow> s
      | Some w \<Rightarrow> strip_words ws (drop (length w) s))"
  by auto
termination
proof (relation "measure (\<lambda>(ws, s). length s)", goal_cases)
  case (2 ws s w)
  then have "w \<noteq> []" "take (length w) s = w" by (auto simp: find_Some_iff)
  then have "s \<noteq> []" by auto
  with \<open>w \<noteq> []\<close> show ?case by simp
qed simp

declare strip_words.simps [simp del]

definition TrimSpace :: "string \<Rightarrow> string" where
  "TrimSpace s = rev (strip_words (map rev spaces) (rev (strip_words spaces s)))"

text \<open>\<open>strings.Split\<close> at a one-byte separator.\<close>

fun split_at :: "char \<Rightarrow> string \<Rightarrow> string list" where
  "split_at sep [] = [[]]"
| "split_at sep (c # s) =
     (if c = sep then [] # split_at sep s
      else case split_at sep s of [] \<Rightarrow> [[c]] | w # ws \<Rightarrow> (c # w) # ws)"

section \<open>Command-line flags\<close>

text \<open>
  A declared flag is its name with its current value, at first the default; the value's
  constructor is the kind the flag was declared with. \<open>Set\<close> parses a new value of that kind.
\<close>

datatype flag_value = FString string | FInt int | FDuration int | FBool bool

type_synonym flags = "(string \<times> flag_value) list"

fun flag_kind :: "flag_value \<Rightarrow> nat" where
  "flag_kind (FString _) = 0" | "flag_kind (FInt _) = 1" | "flag_kind (FDuration _) = 2"
| "flag_kind (FBool _) = 3"

fun flag_Set :: "(nat \<Rightarrow> nat \<Rightarrow> nat \<Rightarrow> nat) \<Rightarrow> flag_value \<Rightarrow> string \<Rightarrow> error + flag_value" where
  "flag_Set frac (FString _) s = Inr (FString s)"
| "flag_Set frac (FInt _) s = (case ParseInt0 s of Inl e \<Rightarrow> Inl e | Inr v \<Rightarrow> Inr (FInt v))"
| "flag_Set frac (FDuration _) s =
     (case ParseDuration frac s of Inl e \<Rightarrow> Inl (ErrorMsg ''parse error'') | Inr v \<Rightarrow> Inr (FDuration v))"
| "flag_Set frac (FBool _) s =
     (case ParseBool s of Inl e \<Rightarrow> Inl (ErrorMsg ''parse error'') | Inr v \<Rightarrow> Inr (FBool v))"

definition ErrHelp :: error where "ErrHelp = ErrorMsg ''flag: help requested''"

text \<open>The name and the value after the first \<open>=\<close>, which cannot be the first character.\<close>

definition split_flag :: "string \<Rightarrow> string \<times> string option" where
  "split_flag name =
     (let t = takeWhile ((\<noteq>) CHR ''='') (tl name); r = dropWhile ((\<noteq>) CHR ''='') (tl name)
      in if r = [] then (name, None) else (hd name # t, Some (tl r)))"

text \<open>
  The value of a flag: after the \<open>=\<close>, \<open>true\<close> for a boolean flag, or the next argument.
\<close>

definition flag_argument ::
  "flag_value \<Rightarrow> string option \<Rightarrow> string list \<Rightarrow> (string \<times> string list) option" where
  "flag_argument old val args =
     (case val of
        Some v \<Rightarrow> Some (v, args)
      | None \<Rightarrow>
         if flag_kind old = 3 then Some (''true'', args)
         else case args of [] \<Rightarrow> None | v # args' \<Rightarrow> Some (v, args'))"

text \<open>
  \<open>parseOne\<close>: \<open>Inr None\<close> at the first argument that is not a flag, or \<open>--\<close>; otherwise the flags
  with one value set, and the arguments left.
\<close>

definition parseOne ::
  "(nat \<Rightarrow> nat \<Rightarrow> nat \<Rightarrow> nat) \<Rightarrow> flags \<Rightarrow> string \<Rightarrow> string list \<Rightarrow> error + (flags \<times> string list) option" where
  "parseOne frac fs s args =
     (if length s < 2 \<or> hd s \<noteq> CHR ''-'' \<or> s = ''--'' then Inr None
      else let name0 = (if s ! 1 = CHR ''-'' then drop 2 s else drop 1 s)
      in if name0 = [] \<or> hd name0 = CHR ''-'' \<or> hd name0 = CHR ''=''
         then Inl (ErrorMsg ''bad flag syntax: %s'')
      else case split_flag name0 of (name, val) \<Rightarrow>
        (case map_of fs name of
           None \<Rightarrow>
             if name = ''help'' \<or> name = ''h'' then Inl ErrHelp
             else Inl (ErrorMsg ''flag provided but not defined: -%s'')
         | Some old \<Rightarrow>
            (case flag_argument old val args of
               None \<Rightarrow> Inl (ErrorMsg ''flag needs an argument: -%s'')
             | Some (v, args') \<Rightarrow>
                (case flag_Set frac old v of
                   Inl e \<Rightarrow> Inl (ErrorMsg (if flag_kind old = 3 then ''invalid boolean value %q for -%s: %v''
                                        else ''invalid value %q for flag -%s: %v''))
                 | Inr fv \<Rightarrow> Inr (Some (AList.update name fv fs, args'))))))"

lemma parseOne_rest: "parseOne frac fs s args = Inr (Some (fs', args')) \<Longrightarrow> length args' \<le> length args"
  by (auto simp: parseOne_def flag_argument_def Let_def
      split: if_splits prod.splits option.splits sum.splits list.splits)

function flag_Parse :: "(nat \<Rightarrow> nat \<Rightarrow> nat \<Rightarrow> nat) \<Rightarrow> flags \<Rightarrow> string list \<Rightarrow> error + flags" where
  "flag_Parse frac fs [] = Inr fs"
| "flag_Parse frac fs (s # args) =
     (case parseOne frac fs s args of
        Inl e \<Rightarrow> Inl e
      | Inr None \<Rightarrow> Inr fs
      | Inr (Some (fs', args')) \<Rightarrow> flag_Parse frac fs' args')"
  by pat_completeness auto
termination
  by (relation "measure (\<lambda>(frac, fs, args). length args)") (auto dest: parseOne_rest)

text \<open>The pointers the declarations return: the value of a flag of each kind.\<close>

definition get_string :: "flags \<Rightarrow> string \<Rightarrow> string" where
  "get_string fs n = (case map_of fs n of Some (FString s) \<Rightarrow> s | _ \<Rightarrow> [])"

definition get_int :: "flags \<Rightarrow> string \<Rightarrow> int" where
  "get_int fs n = (case map_of fs n of Some (FInt v) \<Rightarrow> v | Some (FDuration v) \<Rightarrow> v | _ \<Rightarrow> 0)"

definition get_bool :: "flags \<Rightarrow> string \<Rightarrow> bool" where
  "get_bool fs n = (case map_of fs n of Some (FBool b) \<Rightarrow> b | _ \<Rightarrow> False)"

text \<open>
  Every value is in the range of its kind, and parsing keeps the declared names and kinds.
\<close>

fun flag_typed :: "flag_value \<Rightarrow> bool" where
  "flag_typed (FInt v) = (- (2 ^ 63) \<le> v \<and> v < 2 ^ 63)"
| "flag_typed (FDuration v) = (- (2 ^ 63) \<le> v \<and> v < 2 ^ 63)"
| "flag_typed _ = True"

definition flags_typed :: "flags \<Rightarrow> bool" where
  "flags_typed fs \<longleftrightarrow> (\<forall>(n, v) \<in> set fs. flag_typed v)"

lemma flag_Set_typed: "flag_Set frac old s = Inr fv \<Longrightarrow> flag_typed fv \<and> flag_kind fv = flag_kind old"
  using ParseInt0_range ParseDuration_range [of frac s]
  by (cases "(frac, old, s)" rule: flag_Set.cases) (auto split: sum.splits)

definition kinds :: "flags \<Rightarrow> string \<Rightarrow> nat option" where
  "kinds fs n = map_option flag_kind (map_of fs n)"

lemma parseOne_typed:
  assumes "parseOne frac fs s args = Inr (Some (fs', args'))" and "flags_typed fs"
  shows "flags_typed fs' \<and> kinds fs' = kinds fs"
proof -
  from assms(1) obtain n old v fv where u: "fs' = AList.update n fv fs"
    and old: "map_of fs n = Some old" and "flag_Set frac old v = Inr fv"
    by (auto simp: parseOne_def Let_def split: if_splits prod.splits option.splits sum.splits)
  from flag_Set_typed [OF this(3)] have fv: "flag_typed fv" "flag_kind fv = flag_kind old" by auto
  have "set fs' \<subseteq> insert (n, fv) (set fs)" unfolding u by (induction fs) auto
  moreover have "kinds fs' = kinds fs" using old fv by (auto simp: u kinds_def fun_eq_iff)
  ultimately show ?thesis using assms(2) fv by (auto simp: flags_typed_def)
qed

lemma flag_Parse_typed:
  "flag_Parse frac fs args = Inr fs' \<Longrightarrow> flags_typed fs \<Longrightarrow> flags_typed fs' \<and> kinds fs' = kinds fs"
proof (induction frac fs args rule: flag_Parse.induct)
  case (2 frac fs s args)
  then show ?case
    by (auto split: sum.splits option.splits dest: parseOne_typed)
qed simp

text \<open>So a declared flag can be read at its kind, and is in range.\<close>

lemma get_int_range: "flags_typed fs \<Longrightarrow> - (2 ^ 63) \<le> get_int fs n \<and> get_int fs n < 2 ^ 63"
  by (fastforce simp: get_int_def flags_typed_def split: option.splits flag_value.splits dest: map_of_SomeD)

end
