(* ===== verification/Configs.thy ===== *)
theory Configs
  imports Go_Config Coordinator
begin

text \<open>
  Configuration of the programs: \<open>client/storage/mongostore/config.go\<close>, the configuration part of
  \<open>client/coordination/grpccoord/client.go\<close>, \<open>cmd/worker/config.go\<close>, \<open>cmd/coordinator/config.go\<close>
  and \<open>cmd/loadgen/config.go\<close>. The environment (\<open>os.Getenv\<close>) is a function from names to
  values, the empty string for an unset variable.
\<close>

section \<open>MongoDB\<close>

definition EnvURI :: string where "EnvURI = ''SAFER_MONGO_URI''"
definition EnvDatabase :: string where "EnvDatabase = ''SAFER_MONGO_DB''"
definition EnvTimeout :: string where "EnvTimeout = ''SAFER_MONGO_TIMEOUT''"
definition EnvTransactionTimeout :: string where "EnvTransactionTimeout = ''SAFER_MONGO_TXN_TIMEOUT''"

definition DefaultDatabase :: string where "DefaultDatabase = ''safer''"
definition DefaultTimeout :: int where "DefaultTimeout = 10 * Second"
definition DefaultTransactionTimeout :: int where "DefaultTransactionTimeout = 30 * Second"

record mongo_config =
  mc_URI :: string
  mc_Database :: string
  mc_Timeout :: int
  mc_TransactionTimeout :: int

definition withDefaults :: "mongo_config \<Rightarrow> mongo_config" where
  "withDefaults c =
     c\<lparr>mc_Database := (if mc_Database c = [] then DefaultDatabase else mc_Database c),
       mc_Timeout := (if mc_Timeout c \<le> 0 then DefaultTimeout else mc_Timeout c),
       mc_TransactionTimeout :=
         (if mc_TransactionTimeout c \<le> 0 then DefaultTransactionTimeout else mc_TransactionTimeout c)\<rparr>"

definition config_validate :: "mongo_config \<Rightarrow> error option" where
  "config_validate c = (if mc_URI c = [] then Some (ErrorMsg ''mongostore: %s is required'') else None)"

text \<open>
  The timeout: a duration, or else a bare number of seconds, whose product with a second is
  computed in \<open>int64\<close>.
\<close>

definition timeout_of :: "(nat \<Rightarrow> nat \<Rightarrow> nat \<Rightarrow> nat) \<Rightarrow> string \<Rightarrow> error + int" where
  "timeout_of frac raw =
     (case (case ParseDuration frac raw of
              Inr d \<Rightarrow> Inr d
            | Inl parseErr \<Rightarrow>
               (case Atoi raw of
                  Inl numErr \<Rightarrow> Inl (Wrap ''%s=%q: not a duration'' parseErr)
                | Inr seconds \<Rightarrow> Inr (wrap64 (seconds * Second)))) of
        Inl e \<Rightarrow> Inl e
      | Inr d \<Rightarrow> if d \<le> 0 then Inl (ErrorMsg ''%s=%q: must be positive'') else Inr d)"

definition duration_of :: "(nat \<Rightarrow> nat \<Rightarrow> nat \<Rightarrow> nat) \<Rightarrow> string \<Rightarrow> error + int" where
  "duration_of frac raw =
     (case ParseDuration frac raw of
        Inl e \<Rightarrow> Inl (Wrap ''%s=%q: not a duration'' e)
      | Inr d \<Rightarrow> if d \<le> 0 then Inl (ErrorMsg ''%s=%q: must be positive'') else Inr d)"

text \<open>
  \<open>mongostore.ConfigFromEnv\<close>: \<open>Inr None\<close> is \<open>configured = false\<close> without an error.
\<close>

definition mongo_ConfigFromEnv ::
  "(nat \<Rightarrow> nat \<Rightarrow> nat \<Rightarrow> nat) \<Rightarrow> (string \<Rightarrow> string) \<Rightarrow> error + mongo_config option" where
  "mongo_ConfigFromEnv frac getenv =
     (if getenv EnvURI = [] then Inr None
      else case (if getenv EnvTimeout = [] then Inr 0 else timeout_of frac (getenv EnvTimeout)) of
        Inl e \<Rightarrow> Inl e
      | Inr timeout \<Rightarrow>
         (case (if getenv EnvTransactionTimeout = [] then Inr 0
                else duration_of frac (getenv EnvTransactionTimeout)) of
            Inl e \<Rightarrow> Inl e
          | Inr txnTimeout \<Rightarrow>
              Inr (Some (withDefaults
                \<lparr>mc_URI = getenv EnvURI, mc_Database = getenv EnvDatabase,
                 mc_Timeout = timeout, mc_TransactionTimeout = txnTimeout\<rparr>))))"

section \<open>Coordinator client\<close>

definition EnvAddress :: string where "EnvAddress = ''SAFER_COORDINATOR_ADDR''"
definition EnvCoordTimeout :: string where "EnvCoordTimeout = ''SAFER_COORDINATOR_TIMEOUT''"
definition DefaultCoordTimeout :: int where "DefaultCoordTimeout = 10 * Second"

record coord_config =
  cc_Address :: string
  cc_Timeout :: int
  cc_RenewInterval :: int

definition coord_ConfigFromEnv ::
  "(nat \<Rightarrow> nat \<Rightarrow> nat \<Rightarrow> nat) \<Rightarrow> (string \<Rightarrow> string) \<Rightarrow> error + coord_config option" where
  "coord_ConfigFromEnv frac getenv =
     (if getenv EnvAddress = [] then Inr None
      else case (if getenv EnvCoordTimeout = [] then Inr DefaultCoordTimeout
                 else duration_of frac (getenv EnvCoordTimeout)) of
        Inl e \<Rightarrow> Inl e
      | Inr d \<Rightarrow> Inr (Some \<lparr>cc_Address = getenv EnvAddress, cc_Timeout = d, cc_RenewInterval = 0\<rparr>))"

section \<open>The worker\<close>

definition DefaultListenAddr :: string where "DefaultListenAddr = '':50052''"
definition DefaultShutdownTimeout :: int where "DefaultShutdownTimeout = 25 * Second"
definition DefaultReadinessInterval :: int where "DefaultReadinessInterval = 5 * Second"
definition DefaultAuthConcurrency :: int where "DefaultAuthConcurrency = 2"

record worker_config =
  wc_ListenAddr :: string
  wc_ShutdownTimeout :: int
  wc_ReadinessInterval :: int
  wc_AuthConcurrency :: int
  wc_Mongo :: mongo_config
  wc_Coordinator :: coord_config

definition worker_flags :: flags where
  "worker_flags =
     [(''addr'', FString DefaultListenAddr), (''shutdown-timeout'', FDuration DefaultShutdownTimeout),
      (''readiness-interval'', FDuration DefaultReadinessInterval),
      (''auth-concurrency'', FInt DefaultAuthConcurrency)]"

definition worker_parseConfig ::
  "(nat \<Rightarrow> nat \<Rightarrow> nat \<Rightarrow> nat) \<Rightarrow> (string \<Rightarrow> string) \<Rightarrow> string list \<Rightarrow> error + worker_config" where
  "worker_parseConfig frac getenv args =
     (case flag_Parse frac worker_flags args of
        Inl e \<Rightarrow> Inl e
      | Inr fs \<Rightarrow>
         if get_int fs ''shutdown-timeout'' \<le> 0
         then Inl (ErrorMsg ''worker: -shutdown-timeout must be positive'')
         else if get_int fs ''readiness-interval'' \<le> 0
         then Inl (ErrorMsg ''worker: -readiness-interval must be positive'')
         else if get_int fs ''auth-concurrency'' \<le> 0
         then Inl (ErrorMsg ''worker: -auth-concurrency must be positive'')
         else case mongo_ConfigFromEnv frac getenv of
           Inl e \<Rightarrow> Inl (Wrap ''worker: mongo configuration'' e)
         | Inr None \<Rightarrow> Inl (ErrorMsg ''worker: %s is required; a worker with no durable storage cannot run'')
         | Inr (Some mongoCfg) \<Rightarrow>
            (case coord_ConfigFromEnv frac getenv of
               Inl e \<Rightarrow> Inl (Wrap ''worker: coordinator configuration'' e)
             | Inr None \<Rightarrow> Inl (ErrorMsg ''worker: %s is required; a worker with no remote coordinator would fall back to process-local locking, which coordinates with no other replica'')
             | Inr (Some coordCfg) \<Rightarrow>
                 Inr \<lparr>wc_ListenAddr = get_string fs ''addr'',
                      wc_ShutdownTimeout = get_int fs ''shutdown-timeout'',
                      wc_ReadinessInterval = get_int fs ''readiness-interval'',
                      wc_AuthConcurrency = get_int fs ''auth-concurrency'',
                      wc_Mongo = mongoCfg, wc_Coordinator = coordCfg\<rparr>))"

section \<open>The coordinator\<close>

record coordinator_config =
  oc_Address :: string
  oc_LeaseDuration :: int
  oc_SweepInterval :: int
  oc_AllowUnfenced :: bool

definition coordinator_flags :: flags where
  "coordinator_flags =
     [(''addr'', FString ''127.0.0.1:0''), (''lease'', FDuration DefaultLeaseDuration),
      (''sweep'', FDuration DefaultSweepInterval), (''allow-unfenced'', FBool False)]"

definition coordinator_parseConfig ::
  "(nat \<Rightarrow> nat \<Rightarrow> nat \<Rightarrow> nat) \<Rightarrow> string list \<Rightarrow> error + coordinator_config" where
  "coordinator_parseConfig frac args =
     (case flag_Parse frac coordinator_flags args of
        Inl e \<Rightarrow> Inl e
      | Inr fs \<Rightarrow>
         if get_int fs ''lease'' \<le> 0 then Inl (ErrorMsg ''coordinator: -lease must be positive'')
         else if get_int fs ''sweep'' \<le> 0 then Inl (ErrorMsg ''coordinator: -sweep must be positive'')
         else Inr \<lparr>oc_Address = get_string fs ''addr'', oc_LeaseDuration = get_int fs ''lease'',
                   oc_SweepInterval = get_int fs ''sweep'', oc_AllowUnfenced = get_bool fs ''allow-unfenced''\<rparr>)"

section \<open>The load generator\<close>

definition WorkloadIndependentWrites :: string where "WorkloadIndependentWrites = ''independent-writes''"
definition WorkloadSameFileWrites :: string where "WorkloadSameFileWrites = ''same-file-writes''"
definition WorkloadReads :: string where "WorkloadReads = ''reads''"
definition WorkloadMixed :: string where "WorkloadMixed = ''mixed''"

definition Workload_valid :: "string \<Rightarrow> bool" where
  "Workload_valid w \<longleftrightarrow>
     w \<in> {WorkloadIndependentWrites, WorkloadSameFileWrites, WorkloadReads, WorkloadMixed}"

record loadgen_config =
  lc_Addresses :: "string list"
  lc_Concurrency :: int
  lc_Count :: int
  lc_Duration :: int
  lc_Workload :: string
  lc_Users :: int
  lc_ContentSize :: int

definition loadgen_flags :: flags where
  "loadgen_flags =
     [(''addr'', FString []), (''concurrency'', FInt 10), (''count'', FInt 100),
      (''duration'', FDuration 0), (''workload'', FString WorkloadMixed), (''users'', FInt 0),
      (''content-size'', FInt 64)]"

definition loadgen_addresses :: "string \<Rightarrow> string list" where
  "loadgen_addresses addr = filter (\<lambda>a. a \<noteq> []) (map TrimSpace (split_at CHR '','' addr))"

definition loadgen_users :: "string \<Rightarrow> int \<Rightarrow> int \<Rightarrow> int" where
  "loadgen_users wl users concurrency =
     (if wl = WorkloadSameFileWrites \<or> wl = WorkloadReads then 1
      else if users \<le> 0 then concurrency else users)"

definition loadgen_parseConfig ::
  "(nat \<Rightarrow> nat \<Rightarrow> nat \<Rightarrow> nat) \<Rightarrow> string list \<Rightarrow> error + loadgen_config" where
  "loadgen_parseConfig frac args =
     (case flag_Parse frac loadgen_flags args of
        Inl e \<Rightarrow> Inl e
      | Inr fs \<Rightarrow>
         let addr = get_string fs ''addr''; wl = get_string fs ''workload''
         in if TrimSpace addr = [] then Inl (ErrorMsg ''loadgen: -addr is required'')
         else if loadgen_addresses addr = []
         then Inl (ErrorMsg ''loadgen: -addr must contain at least one non-empty address'')
         else if get_int fs ''concurrency'' \<le> 0 then Inl (ErrorMsg ''loadgen: -concurrency must be positive'')
         else if get_int fs ''count'' \<le> 0 \<and> get_int fs ''duration'' \<le> 0
         then Inl (ErrorMsg ''loadgen: either -count or -duration must be positive'')
         else if get_int fs ''content-size'' \<le> 0
         then Inl (ErrorMsg ''loadgen: -content-size must be positive'')
         else if \<not> Workload_valid wl then Inl (ErrorMsg ''loadgen: unknown -workload %q'')
         else Inr \<lparr>lc_Addresses = loadgen_addresses addr, lc_Concurrency = get_int fs ''concurrency'',
                   lc_Count = get_int fs ''count'', lc_Duration = get_int fs ''duration'',
                   lc_Workload = wl,
                   lc_Users = loadgen_users wl (get_int fs ''users'') (get_int fs ''concurrency''),
                   lc_ContentSize = get_int fs ''content-size''\<rparr>)"

section \<open>What an accepted configuration is\<close>

definition duration64 :: "int \<Rightarrow> bool" where
  "duration64 d \<longleftrightarrow> 0 < d \<and> d < 2 ^ 63"

definition mongo_config_ok :: "mongo_config \<Rightarrow> bool" where
  "mongo_config_ok c \<longleftrightarrow>
     mc_URI c \<noteq> [] \<and> mc_Database c \<noteq> [] \<and> duration64 (mc_Timeout c) \<and> duration64 (mc_TransactionTimeout c)"

definition coord_config_ok :: "coord_config \<Rightarrow> bool" where
  "coord_config_ok c \<longleftrightarrow> cc_Address c \<noteq> [] \<and> duration64 (cc_Timeout c)"

definition worker_config_ok :: "worker_config \<Rightarrow> bool" where
  "worker_config_ok c \<longleftrightarrow>
     duration64 (wc_ShutdownTimeout c) \<and> duration64 (wc_ReadinessInterval c) \<and>
     duration64 (wc_AuthConcurrency c) \<and> mongo_config_ok (wc_Mongo c) \<and> coord_config_ok (wc_Coordinator c)"

definition coordinator_config_ok :: "coordinator_config \<Rightarrow> bool" where
  "coordinator_config_ok c \<longleftrightarrow> duration64 (oc_LeaseDuration c) \<and> duration64 (oc_SweepInterval c)"

definition loadgen_config_ok :: "loadgen_config \<Rightarrow> bool" where
  "loadgen_config_ok c \<longleftrightarrow>
     lc_Addresses c \<noteq> [] \<and> list_all (\<lambda>a. a \<noteq> []) (lc_Addresses c) \<and>
     duration64 (lc_Concurrency c) \<and> (duration64 (lc_Count c) \<or> duration64 (lc_Duration c)) \<and>
     duration64 (lc_Users c) \<and> duration64 (lc_ContentSize c) \<and> Workload_valid (lc_Workload c) \<and>
     (lc_Workload c \<in> {WorkloadSameFileWrites, WorkloadReads} \<longrightarrow> lc_Users c = 1)"

lemmas duration_defaults =
  DefaultTimeout_def DefaultTransactionTimeout_def DefaultCoordTimeout_def Second_def

lemma timeout_of_ok: "timeout_of frac raw = Inr d \<Longrightarrow> duration64 d"
  using ParseDuration_range [of frac raw] wrap64_range
  by (auto simp: timeout_of_def duration64_def split: sum.splits if_splits)

lemma duration_of_ok: "duration_of frac raw = Inr d \<Longrightarrow> duration64 d"
  using ParseDuration_range [of frac raw]
  by (auto simp: duration_of_def duration64_def split: sum.splits if_splits)

lemma withDefaults_ok:
  assumes "mc_URI c \<noteq> []" "mc_Timeout c = 0 \<or> duration64 (mc_Timeout c)"
    "mc_TransactionTimeout c = 0 \<or> duration64 (mc_TransactionTimeout c)"
  shows "mongo_config_ok (withDefaults c)"
  using assms by (auto simp: withDefaults_def mongo_config_ok_def DefaultDatabase_def duration64_def duration_defaults)

lemma mongo_ConfigFromEnv_ok:
  "mongo_ConfigFromEnv frac getenv = Inr (Some c) \<Longrightarrow> mongo_config_ok c \<and> mc_URI c = getenv EnvURI"
  by (auto simp: mongo_ConfigFromEnv_def split: if_splits sum.splits
      dest: timeout_of_ok duration_of_ok intro!: withDefaults_ok)
     (simp_all add: withDefaults_def)

lemma coord_ConfigFromEnv_ok:
  "coord_ConfigFromEnv frac getenv = Inr (Some c) \<Longrightarrow> coord_config_ok c \<and> cc_Address c = getenv EnvAddress"
  by (auto simp: coord_ConfigFromEnv_def coord_config_ok_def split: if_splits sum.splits
      dest: duration_of_ok)
     (simp add: duration64_def duration_defaults)

lemma worker_flags_typed: "flags_typed worker_flags"
  by (simp add: worker_flags_def flags_typed_def DefaultShutdownTimeout_def
      DefaultReadinessInterval_def DefaultAuthConcurrency_def Second_def)

lemma coordinator_flags_typed: "flags_typed coordinator_flags"
  by (simp add: coordinator_flags_def flags_typed_def DefaultLeaseDuration_def DefaultSweepInterval_def)

lemma loadgen_flags_typed: "flags_typed loadgen_flags"
  by (simp add: loadgen_flags_def flags_typed_def)

text \<open>An integer flag that passed its check is a positive \<open>int64\<close>.\<close>

lemma parsed_int:
  "flag_Parse frac fs0 args = Inr fs \<Longrightarrow> flags_typed fs0 \<Longrightarrow> \<not> get_int fs n \<le> 0 \<Longrightarrow> duration64 (get_int fs n)"
  using flag_Parse_typed [of frac fs0 args fs] get_int_range [of fs n] by (simp add: duration64_def)

lemma worker_parseConfig_ok:
  assumes "worker_parseConfig frac getenv args = Inr c" shows "worker_config_ok c"
proof -
  from assms obtain fs where "flag_Parse frac worker_flags args = Inr fs"
    by (auto simp: worker_parseConfig_def split: sum.splits)
  with assms show ?thesis
    using parsed_int [OF \<open>flag_Parse _ _ _ = _\<close> worker_flags_typed]
    by (auto simp: worker_parseConfig_def worker_config_ok_def split: if_splits sum.splits option.splits
        dest: mongo_ConfigFromEnv_ok coord_ConfigFromEnv_ok)
qed

lemma coordinator_parseConfig_ok:
  assumes "coordinator_parseConfig frac args = Inr c" shows "coordinator_config_ok c"
proof -
  from assms obtain fs where "flag_Parse frac coordinator_flags args = Inr fs"
    by (auto simp: coordinator_parseConfig_def split: sum.splits)
  with assms show ?thesis
    using parsed_int [OF \<open>flag_Parse _ _ _ = _\<close> coordinator_flags_typed]
    by (auto simp: coordinator_parseConfig_def coordinator_config_ok_def split: if_splits)
qed

lemma loadgen_addresses_ok: "list_all (\<lambda>a. a \<noteq> []) (loadgen_addresses addr)"
  by (simp add: loadgen_addresses_def list_all_iff)

lemma loadgen_parseConfig_ok:
  assumes "loadgen_parseConfig frac args = Inr c" shows "loadgen_config_ok c"
proof -
  from assms obtain fs where fs: "flag_Parse frac loadgen_flags args = Inr fs"
    by (auto simp: loadgen_parseConfig_def split: sum.splits)
  note ok = parsed_int [OF fs loadgen_flags_typed]
  from assms ok [of "''concurrency''"] ok [of "''content-size''"] ok [of "''count''"]
    ok [of "''duration''"] ok [of "''users''"] show ?thesis
    by (auto simp: loadgen_parseConfig_def fs Let_def loadgen_config_ok_def loadgen_addresses_ok
        loadgen_users_def duration64_def split: if_splits)
qed


section \<open>Seconds without a unit\<close>

lemma leadingInt_all_digits:
  "list_all is_digit ds \<Longrightarrow> leadingInt x ds = Some (v, r) \<Longrightarrow> r = []"
  by (induction x ds rule: leadingInt.induct) (auto simp: Let_def split: if_splits)

lemma ParseDuration_bare:
  assumes "0 < n" shows "\<exists>e. ParseDuration frac (itoa n) = Inl e"
proof -
  have "itoa n \<noteq> itoa 0" using assms by simp
  moreover have "itoa 0 = ''0''" by code_simp
  ultimately have n0: "itoa n \<noteq> ''0''" by simp
  have sign: "hd (itoa n) \<noteq> CHR ''-''" "hd (itoa n) \<noteq> CHR ''+''"
    using itoa_hd_digit [of n] by (auto simp: is_digit_def)
  have "\<exists>e. duration_part frac (itoa n) = Inl e"
    using leadingInt_all_digits [of "itoa n" 0]
    by (fastforce simp: duration_part_def fraction_part_def split: option.splits)
  then obtain e where "duration_part frac (itoa n) = Inl e" by blast
  then have "duration_parts frac 0 (itoa n) = Inl e" by (subst duration_parts.simps) simp
  then show ?thesis using n0 sign by (simp add: ParseDuration_def Let_def)
qed

lemma timeout_of_seconds:
  assumes "0 < n" and "int n < 2 ^ 63"
  shows "timeout_of frac (itoa n) =
     (let d = wrap64 (int n * Second)
      in if d \<le> 0 then Inl (ErrorMsg ''%s=%q: must be positive'') else Inr d)"
  using ParseDuration_bare [OF assms(1), of frac] assms(2)
  by (auto simp: timeout_of_def Atoi_itoa Let_def)

lemma seconds_spellings:
  assumes "0 < n" and "int n * Second < 2 ^ 63"
  shows "timeout_of frac (itoa n) = Inr (int n * Second)"
    and "timeout_of frac (itoa n @ ''s'') = Inr (int n * Second)"
proof -
  have "wrap64 (int n * Second) = int n * Second" using assms by (intro wrap64_id) (simp_all add: Second_def)
  moreover have "int n < 2 ^ 63" "0 < int n * Second" using assms by (simp_all add: Second_def)
  ultimately show "timeout_of frac (itoa n) = Inr (int n * Second)"
    and "timeout_of frac (itoa n @ ''s'') = Inr (int n * Second)"
    using assms by (simp_all add: timeout_of_seconds timeout_of_def [of _ "_ @ _"] ParseDuration_seconds)
qed

text \<open>
  A bare number of seconds is that many seconds as long as the nanoseconds fit; a number past
  that is neither refused nor kept, but taken modulo \<open>2 ^ 64\<close> nanoseconds: 18446744074 seconds
  (585 years) are accepted as a timeout of 0.29 seconds.
\<close>

theorem seconds_overflow:
  assumes "getenv EnvURI \<noteq> []" "getenv EnvTransactionTimeout = []" "getenv EnvTimeout = itoa 18446744074"
  shows "\<exists>c. mongo_ConfigFromEnv frac getenv = Inr (Some c) \<and> mc_Timeout c = 290448384"
proof -
  have "timeout_of frac (itoa 18446744074) = Inr 290448384"
    by (simp add: timeout_of_seconds wrap64_def Second_def)
  then show ?thesis using assms by (simp add: mongo_ConfigFromEnv_def withDefaults_def)
qed

end
