(* ===== verification/Coord_Client.thy ===== *)
theory Coord_Client
  imports Configs Coordinator_Thms Client_Env
begin

text \<open>
  The worker's side of the lock coordinator, \<open>client/coordination/grpccoord/client.go\<close>: dialling,
  the guard of one transaction, its heartbeat, and the \<open>coordination.Backend\<close> that SAFER's
  operations use. The generated RPC stub with the network and the coordinator behind it is the
  parameter \<open>LockCoordinatorClient\<close> over the state \<open>'s\<close> of everything beyond the process. Each
  critical section of a guard is one definition; the calls that run them without interruption,
  and the step relation that interleaves them, are composed from these. Logging is left out, and
  the uuid source numbers its draws.
\<close>

section \<open>The stub\<close>

record 's LockCoordinatorClient =
  rpc_Acquire :: "go_context \<Rightarrow> AcquireRequest \<Rightarrow> 's \<Rightarrow> ((error + AcquireResponse) \<times> 's) option"
  rpc_RenewLease :: "go_context \<Rightarrow> string \<Rightarrow> 's \<Rightarrow> (error + int) \<times> 's"
  rpc_EndTransaction :: "go_context \<Rightarrow> string \<Rightarrow> 's \<Rightarrow> (error + uint32) \<times> 's"
  rpc_Health :: "go_context \<Rightarrow> 's \<Rightarrow> (error + HealthResponse) \<times> 's"

text \<open>\<open>context.WithTimeout\<close>, and \<open>status.Code\<close>, which follows wrapped errors.\<close>

definition ctx_WithTimeout :: "go_context \<Rightarrow> go_context" where
  "ctx_WithTimeout ctx = ctx\<lparr>ctx_Done := True, ctx_Deadline := True\<rparr>"

fun status_Code :: "error \<Rightarrow> grpc_code" where
  "status_Code (Status c _) = c"
| "status_Code (Wrap _ e) = status_Code e"
| "status_Code _ = UnknownCode"

section \<open>The backend\<close>

definition minRenewalInterval :: int where "minRenewalInterval = 50000000"

record coord_backend =
  cb_timeout :: int
  cb_renewInterval :: int

definition coord_Health :: "'s LockCoordinatorClient \<Rightarrow> go_context \<Rightarrow> 's \<Rightarrow> error option \<times> 's" where
  "coord_Health R ctx s =
     (case rpc_Health R (ctx_WithTimeout ctx) s of
        (Inl e, s') \<Rightarrow> (Some (Wrap ''grpccoord: health'' e), s')
      | (Inr _, s') \<Rightarrow> (None, s'))"

text \<open>
  \<open>Dial\<close>: \<open>dial address\<close> is what \<open>grpc.DialContext\<close> reports. The second result says whether a
  connection is left open.
\<close>

definition Dial ::
  "(string \<Rightarrow> error option) \<Rightarrow> 's LockCoordinatorClient \<Rightarrow> go_context \<Rightarrow> coord_config \<Rightarrow> 's
   \<Rightarrow> (error + coord_backend) \<times> bool \<times> 's" where
  "Dial dial R ctx cfg s =
     (if cc_Address cfg = [] then (Inl (ErrorMsg ''grpccoord: %s is required''), False, s)
      else let timeout = (if cc_Timeout cfg \<le> 0 then DefaultCoordTimeout else cc_Timeout cfg)
      in case dial (cc_Address cfg) of
        Some e \<Rightarrow> (Inl (Wrap ''grpccoord: dial %s'' e), False, s)
      | None \<Rightarrow>
         (let renewInterval = (if cc_RenewInterval cfg \<le> 0 then DefaultLeaseDuration div 3 else cc_RenewInterval cfg)
          in case coord_Health R ctx s of
            (Some e, s') \<Rightarrow> (Inl e, False, s')
          | (None, s') \<Rightarrow> (Inr \<lparr>cb_timeout = timeout, cb_renewInterval = renewInterval\<rparr>, True, s')))"

section \<open>One transaction's guard\<close>

text \<open>
  \<open>rg_stopClosed\<close> and \<open>rg_lost\<close> say whether the channels \<open>stopHeartbeat\<close> and \<open>lost\<close> are closed;
  the zero \<open>leaseExpires\<close> is \<open>None\<close>.
\<close>

record remoteGuard =
  rg_txn :: uuid
  rg_acquired :: bool
  rg_ended :: bool
  rg_grants :: "Grant list"
  rg_heartbeatStarted :: bool
  rg_stopClosed :: bool
  rg_leaseExpires :: "int option"
  rg_lost :: bool

definition remote_Begin :: "uuid \<Rightarrow> remoteGuard" where
  "remote_Begin u = \<lparr>rg_txn = u, rg_acquired = False, rg_ended = False, rg_grants = [],
     rg_heartbeatStarted = False, rg_stopClosed = False, rg_leaseExpires = None, rg_lost = False\<rparr>"

definition noteLeaseDeadline :: "int \<Rightarrow> remoteGuard \<Rightarrow> remoteGuard" where
  "noteLeaseDeadline unixNano g = (if unixNano \<le> 0 then g else g\<lparr>rg_leaseExpires := Some unixNano\<rparr>)"

text \<open>\<open>Time.Sub\<close> saturates at the ends of a \<open>Duration\<close>.\<close>

definition time_Sub :: "int \<Rightarrow> int \<Rightarrow> int" where
  "time_Sub t u = max (- (2 ^ 63)) (min (2 ^ 63 - 1) (t - u))"

definition renewalDelay :: "int \<Rightarrow> remoteGuard \<Rightarrow> int" where
  "renewalDelay now g =
     (case rg_leaseExpires g of
        None \<Rightarrow> DefaultLeaseDuration div 3
      | Some deadline \<Rightarrow>
         (let remaining = time_Sub deadline now
          in if remaining \<le> 0 then minRenewalInterval
             else let delay = remaining div 3
             in if delay < minRenewalInterval then minRenewalInterval else delay))"

subsection \<open>Acquiring\<close>

text \<open>Up to the call: the request to send, and the guard marked as having asked.\<close>

definition acquire_request ::
  "uuid_lib \<Rightarrow> ResourceID \<Rightarrow> LockMode \<Rightarrow> remoteGuard \<Rightarrow> error + AcquireRequest \<times> remoteGuard" where
  "acquire_request U resource mode g =
     (case resourceToProto resource of
        Inl e \<Rightarrow> Inl e
      | Inr protoResource \<Rightarrow>
         (case modeToProto mode of
            Inl e \<Rightarrow> Inl e
          | Inr protoMode \<Rightarrow>
             if rg_ended g then Inl (ErrorMsg ''grpccoord: transaction %s has already ended'')
             else Inr (\<lparr>rq_TransactionId = uuid_String U (rg_txn g), rq_Resource = Some protoResource,
                        rq_Mode = protoMode\<rparr>, g\<lparr>rg_acquired := True\<rparr>)))"

text \<open>After a successful reply: the grant is kept, and the first reply starts the heartbeat.\<close>

definition record_reply ::
  "uuid_lib \<Rightarrow> ResourceID \<Rightarrow> LockMode \<Rightarrow> AcquireResponse \<Rightarrow> remoteGuard \<Rightarrow> bool \<times> remoteGuard" where
  "record_reply U resource mode response g =
     (let g1 = (if mode = ExclusiveLock \<and> FencingToken response \<noteq> 0
                then g\<lparr>rg_grants := rg_grants g @ [\<lparr>gr_Resource = fence_key resource,
                         gr_Token = FencingToken response, gr_OwnerTxn = uuid_String U (rg_txn g)\<rparr>]\<rparr>
                else g);
          startHeartbeat = (\<not> rg_heartbeatStarted g1 \<and> \<not> rg_ended g1)
      in (startHeartbeat, if startHeartbeat then g1\<lparr>rg_heartbeatStarted := True\<rparr> else g1))"

definition remote_AcquireContext ::
  "'s LockCoordinatorClient \<Rightarrow> uuid_lib \<Rightarrow> go_context \<Rightarrow> ResourceID \<Rightarrow> LockMode \<Rightarrow> remoteGuard \<Rightarrow> 's
   \<Rightarrow> (error option \<times> remoteGuard \<times> 's) option" where
  "remote_AcquireContext R U ctx resource mode g s =
     (case acquire_request U resource mode g of
        Inl e \<Rightarrow> Some (Some e, g, s)
      | Inr (req, g1) \<Rightarrow>
         (case rpc_Acquire R ctx req s of
            None \<Rightarrow> None
          | Some (Inl e, s') \<Rightarrow> Some (Some (Wrap ''grpccoord: acquire %s on %v'' e), g1, s')
          | Some (Inr response, s') \<Rightarrow>
              Some (None,
                snd (record_reply U resource mode response (noteLeaseDeadline (LeaseExpiresUnixNano response) g1)), s')))"

definition remote_Acquire ::
  "'s LockCoordinatorClient \<Rightarrow> uuid_lib \<Rightarrow> ResourceID \<Rightarrow> LockMode \<Rightarrow> remoteGuard \<Rightarrow> 's
   \<Rightarrow> (error option \<times> remoteGuard \<times> 's) option" where
  "remote_Acquire R U = remote_AcquireContext R U Background"

definition remote_FenceGrants :: "remoteGuard \<Rightarrow> Grant list" where
  "remote_FenceGrants g = (if rg_grants g = [] then [] else rg_grants g)"

definition Lost :: "remoteGuard \<Rightarrow> bool" where
  "Lost g = rg_lost g"

definition TransactionID :: "remoteGuard \<Rightarrow> uuid" where
  "TransactionID g = rg_txn g"

subsection \<open>The heartbeat\<close>

text \<open>
  What the heartbeat does with a reply: \<open>Some d\<close> waits for \<open>d\<close> before the next renewal, \<open>None\<close>
  ends it.
\<close>

definition heartbeat_reply :: "int \<Rightarrow> error + int \<Rightarrow> remoteGuard \<Rightarrow> int option \<times> remoteGuard" where
  "heartbeat_reply now reply g =
     (case reply of
        Inr deadline \<Rightarrow> (let g' = noteLeaseDeadline deadline g in (Some (renewalDelay now g'), g'))
      | Inl e \<Rightarrow>
         if status_Code e = FailedPrecondition then (None, g\<lparr>rg_lost := True\<rparr>)
         else (Some minRenewalInterval, g))"

text \<open>
  One firing of the timer: suspended heartbeats only set it again, otherwise the lease is renewed.
\<close>

definition heartbeat_fire ::
  "'s LockCoordinatorClient \<Rightarrow> uuid_lib \<Rightarrow> int \<Rightarrow> bool \<Rightarrow> remoteGuard \<Rightarrow> 's
   \<Rightarrow> int option \<times> remoteGuard \<times> 's" where
  "heartbeat_fire R U now suspendHeartbeats g s =
     (if suspendHeartbeats then (Some minRenewalInterval, g, s)
      else case rpc_RenewLease R (ctx_WithTimeout Background) (uuid_String U (rg_txn g)) s of
        (reply, s') \<Rightarrow> (case heartbeat_reply now reply g of (next, g') \<Rightarrow> (next, g', s')))"

subsection \<open>Releasing\<close>

text \<open>\<open>None\<close> when the transaction has ended already.\<close>

definition release_begin :: "remoteGuard \<Rightarrow> remoteGuard option" where
  "release_begin g =
     (if rg_ended g then None
      else Some (g\<lparr>rg_ended := True, rg_stopClosed := rg_heartbeatStarted g\<rparr>))"

definition remote_ReleaseAll ::
  "'s LockCoordinatorClient \<Rightarrow> uuid_lib \<Rightarrow> remoteGuard \<Rightarrow> 's \<Rightarrow> remoteGuard \<times> 's" where
  "remote_ReleaseAll R U g s =
     (case release_begin g of
        None \<Rightarrow> (g, s)
      | Some g' \<Rightarrow>
         if \<not> rg_acquired g' then (g', s)
         else (g', snd (rpc_EndTransaction R (ctx_WithTimeout Background) (uuid_String U (rg_txn g')) s)))"

section \<open>As a coordination backend\<close>

text \<open>
  The guards of the process by the local transaction they were begun for, the number of uuids
  drawn, and everything beyond. A guard that was not begun has no methods to call.
\<close>

record 's remote =
  rm_guards :: "TxnID \<Rightarrow> remoteGuard option"
  rm_uuids :: nat
  rm_peer :: 's

definition put_guard :: "TxnID \<Rightarrow> remoteGuard \<Rightarrow> 's \<Rightarrow> 's remote \<Rightarrow> 's remote" where
  "put_guard txn g p s = s\<lparr>rm_guards := (rm_guards s)(txn \<mapsto> g), rm_peer := p\<rparr>"

definition RemoteBackend ::
  "'s LockCoordinatorClient \<Rightarrow> uuid_lib \<Rightarrow> (nat \<Rightarrow> uuid) \<Rightarrow> 's remote Backend" where
  "RemoteBackend R U newUUID = \<lparr>
     Backend_Begin = (\<lambda>txn s. (None, s\<lparr>rm_guards := (rm_guards s)(txn \<mapsto> remote_Begin (newUUID (rm_uuids s))),
                                       rm_uuids := Suc (rm_uuids s)\<rparr>)),
     Guard_Acquire = (\<lambda>txn r m s.
       case rm_guards s txn of
         None \<Rightarrow> None
       | Some g \<Rightarrow> map_option (\<lambda>(e, g', p). (e, put_guard txn g' p s)) (remote_Acquire R U r m g (rm_peer s))),
     Guard_AcquireContext = (\<lambda>ctx txn r m s.
       case rm_guards s txn of
         None \<Rightarrow> None
       | Some g \<Rightarrow> map_option (\<lambda>(e, g', p). (e, put_guard txn g' p s))
                    (remote_AcquireContext R U ctx r m g (rm_peer s))),
     Guard_ReleaseAll = (\<lambda>txn s.
       case rm_guards s txn of
         None \<Rightarrow> s
       | Some g \<Rightarrow> (case remote_ReleaseAll R U g (rm_peer s) of (g', p) \<Rightarrow> put_guard txn g' p s)),
     FenceGrants = Some (\<lambda>txn s. case rm_guards s txn of None \<Rightarrow> [] | Some g \<Rightarrow> remote_FenceGrants g)\<rparr>"

end
