(* ===== verification/Coord_Guard.thy ===== *)
theory Coord_Guard
  imports Coord_Client
begin

text \<open>
  One guard under concurrency: several goroutines may call \<open>AcquireContext\<close>, the heartbeat
  renews the lease, and \<open>ReleaseAll\<close> stops it, waits for it and ends the transaction. A step is
  one critical section, or the sending or answering of one RPC; replies are arbitrary. The log
  of RPCs sent and the list of recorded replies are kept for the statements only.
\<close>

section \<open>The guard as a state machine\<close>

datatype call_phase = Requested | Noted AcquireResponse

text \<open>\<open>HbWaiting\<close> is the \<open>select\<close> on the stop channel and the timer.\<close>

datatype hb_pc = HbNone | HbWaiting | HbRenewing | HbGone

text \<open>\<open>ReleaseAll\<close>, with its local variable \<open>acquired\<close>.\<close>

datatype rel_pc = RelNone | RelStopping bool | RelEnding bool | RelAwaiting | RelReturned

datatype rpc_event = SentAcquire AcquireRequest | SentRenew | SentEnd

record guard_run =
  rr_guard :: remoteGuard
  rr_calls :: "(ResourceID \<times> LockMode \<times> call_phase) list"
  rr_hb :: hb_pc
  rr_rel :: rel_pc
  rr_log :: "rpc_event list"
  rr_replies :: "(ResourceID \<times> LockMode \<times> AcquireResponse) list"

definition guard_init :: "uuid \<Rightarrow> guard_run" where
  "guard_init u = \<lparr>rr_guard = remote_Begin u, rr_calls = [], rr_hb = HbNone, rr_rel = RelNone,
     rr_log = [], rr_replies = []\<rparr>"

inductive guard_step :: "uuid_lib \<Rightarrow> guard_run \<Rightarrow> guard_run \<Rightarrow> bool" for U where
  gs_request:
    "acquire_request U r m (rr_guard s) = Inr (req, g) \<Longrightarrow>
     guard_step U s (s\<lparr>rr_guard := g, rr_calls := (r, m, Requested) # rr_calls s,
                       rr_log := rr_log s @ [SentAcquire req]\<rparr>)"
| gs_refused: "acquire_request U r m (rr_guard s) = Inl e \<Longrightarrow> guard_step U s s"
| gs_failed:
    "(r, m, Requested) \<in> set (rr_calls s) \<Longrightarrow>
     guard_step U s (s\<lparr>rr_calls := remove1 (r, m, Requested) (rr_calls s)\<rparr>)"
| gs_note:
    "(r, m, Requested) \<in> set (rr_calls s) \<Longrightarrow>
     guard_step U s (s\<lparr>rr_guard := noteLeaseDeadline (LeaseExpiresUnixNano resp) (rr_guard s),
                       rr_calls := (r, m, Noted resp) # remove1 (r, m, Requested) (rr_calls s)\<rparr>)"
| gs_record:
    "(r, m, Noted resp) \<in> set (rr_calls s) \<Longrightarrow> record_reply U r m resp (rr_guard s) = (start, g) \<Longrightarrow>
     guard_step U s (s\<lparr>rr_guard := g, rr_calls := remove1 (r, m, Noted resp) (rr_calls s),
                       rr_hb := (if start then HbWaiting else rr_hb s),
                       rr_replies := rr_replies s @ [(r, m, resp)]\<rparr>)"
| gs_hb_stop: "rr_hb s = HbWaiting \<Longrightarrow> rg_stopClosed (rr_guard s) \<Longrightarrow> guard_step U s (s\<lparr>rr_hb := HbGone\<rparr>)"
| gs_hb_suspended: "rr_hb s = HbWaiting \<Longrightarrow> guard_step U s s"
| gs_hb_fire:
    "rr_hb s = HbWaiting \<Longrightarrow> guard_step U s (s\<lparr>rr_hb := HbRenewing, rr_log := rr_log s @ [SentRenew]\<rparr>)"
| gs_hb_reply:
    "rr_hb s = HbRenewing \<Longrightarrow> heartbeat_reply now reply (rr_guard s) = (next, g) \<Longrightarrow>
     guard_step U s (s\<lparr>rr_guard := g, rr_hb := (if next = None then HbGone else HbWaiting)\<rparr>)"
| gs_release:
    "release_begin (rr_guard s) = Some g \<Longrightarrow>
     guard_step U s (s\<lparr>rr_guard := g,
       rr_rel := (if rg_heartbeatStarted g then RelStopping else RelEnding) (rg_acquired g)\<rparr>)"
| gs_release_again: "release_begin (rr_guard s) = None \<Longrightarrow> guard_step U s s"
| gs_stopped: "rr_rel s = RelStopping a \<Longrightarrow> rr_hb s = HbGone \<Longrightarrow> guard_step U s (s\<lparr>rr_rel := RelEnding a\<rparr>)"
| gs_nothing: "rr_rel s = RelEnding False \<Longrightarrow> guard_step U s (s\<lparr>rr_rel := RelReturned\<rparr>)"
| gs_end:
    "rr_rel s = RelEnding True \<Longrightarrow>
     guard_step U s (s\<lparr>rr_rel := RelAwaiting, rr_log := rr_log s @ [SentEnd]\<rparr>)"
| gs_end_reply: "rr_rel s = RelAwaiting \<Longrightarrow> guard_step U s (s\<lparr>rr_rel := RelReturned\<rparr>)"

section \<open>Its invariant\<close>

text \<open>The grants that the recorded replies stand for.\<close>

definition reply_grants ::
  "uuid_lib \<Rightarrow> uuid \<Rightarrow> (ResourceID \<times> LockMode \<times> AcquireResponse) list \<Rightarrow> Grant list" where
  "reply_grants U u rs =
     map (\<lambda>(r, m, resp). \<lparr>gr_Resource = fence_key r, gr_Token = FencingToken resp, gr_OwnerTxn = uuid_String U u\<rparr>)
       (filter (\<lambda>(r, m, resp). m = ExclusiveLock \<and> FencingToken resp \<noteq> 0) rs)"

lemma reply_grants_snoc:
  "reply_grants U u (rs @ [(r, m, resp)]) = reply_grants U u rs @
     (if m = ExclusiveLock \<and> FencingToken resp \<noteq> 0
      then [\<lparr>gr_Resource = fence_key r, gr_Token = FencingToken resp, gr_OwnerTxn = uuid_String U u\<rparr>] else [])"
  by (simp add: reply_grants_def)

definition asked :: "guard_run \<Rightarrow> bool" where
  "asked s \<longleftrightarrow> (\<exists>req. SentAcquire req \<in> set (rr_log s))"

text \<open>Who asked for what: the flags of the guard against the log.\<close>

definition inv_flags :: "uuid_lib \<Rightarrow> uuid \<Rightarrow> guard_run \<Rightarrow> bool" where
  "inv_flags U u s \<longleftrightarrow>
     rg_txn (rr_guard s) = u \<and> rg_acquired (rr_guard s) = asked s \<and>
     (rr_calls s \<noteq> [] \<longrightarrow> asked s) \<and> (rr_replies s \<noteq> [] \<longrightarrow> asked s) \<and>
     (\<forall>req. SentAcquire req \<in> set (rr_log s) \<longrightarrow> rq_TransactionId req = uuid_String U u) \<and>
     rg_grants (rr_guard s) = reply_grants U u (rr_replies s)"

text \<open>The heartbeat runs from the first reply until it is stopped or has lost the lease.\<close>

definition inv_heartbeat :: "guard_run \<Rightarrow> bool" where
  "inv_heartbeat s \<longleftrightarrow>
     rg_heartbeatStarted (rr_guard s) = (rr_hb s \<noteq> HbNone) \<and>
     (rg_heartbeatStarted (rr_guard s) \<longrightarrow> rr_replies s \<noteq> []) \<and>
     (SentRenew \<in> set (rr_log s) \<longrightarrow> rg_heartbeatStarted (rr_guard s)) \<and>
     (rr_hb s = HbGone \<longrightarrow> rg_stopClosed (rr_guard s) \<or> rg_lost (rr_guard s)) \<and>
     rg_stopClosed (rr_guard s) = (rg_ended (rr_guard s) \<and> rg_heartbeatStarted (rr_guard s))"

text \<open>The phases of the release.\<close>

definition inv_release :: "guard_run \<Rightarrow> bool" where
  "inv_release s \<longleftrightarrow>
     rg_ended (rr_guard s) = (rr_rel s \<noteq> RelNone) \<and>
     (case rr_rel s of
        RelNone \<Rightarrow> SentEnd \<notin> set (rr_log s)
      | RelStopping a \<Rightarrow> a = rg_acquired (rr_guard s) \<and> rg_heartbeatStarted (rr_guard s) \<and> SentEnd \<notin> set (rr_log s)
      | RelEnding a \<Rightarrow> a = rg_acquired (rr_guard s) \<and> rr_hb s \<in> {HbNone, HbGone} \<and> SentEnd \<notin> set (rr_log s)
      | RelAwaiting \<Rightarrow> rr_hb s \<in> {HbNone, HbGone} \<and> rg_acquired (rr_guard s) \<and>
          (\<exists>l. rr_log s = l @ [SentEnd] \<and> SentEnd \<notin> set l)
      | RelReturned \<Rightarrow> rr_hb s \<in> {HbNone, HbGone} \<and>
          (if rg_acquired (rr_guard s) then \<exists>l. rr_log s = l @ [SentEnd] \<and> SentEnd \<notin> set l
           else SentEnd \<notin> set (rr_log s)))"

definition guard_inv :: "uuid_lib \<Rightarrow> uuid \<Rightarrow> guard_run \<Rightarrow> bool" where
  "guard_inv U u s \<longleftrightarrow> inv_flags U u s \<and> inv_heartbeat s \<and> inv_release s"

lemmas section_defs = noteLeaseDeadline_def heartbeat_reply_def record_reply_def release_begin_def Let_def

lemma acquire_request_Inr:
  "acquire_request U r m g = Inr (req, g') \<Longrightarrow>
   \<not> rg_ended g \<and> g' = g\<lparr>rg_acquired := True\<rparr> \<and> rq_TransactionId req = uuid_String U (rg_txn g)"
  by (auto simp: acquire_request_def split: sum.splits if_splits)

lemma inv_flags_step: "guard_step U s t \<Longrightarrow> inv_flags U u s \<Longrightarrow> inv_flags U u t"
proof (induction rule: guard_step.induct)
  case (gs_request r m s req g)
  from acquire_request_Inr [OF this(1)] gs_request(2) show ?case by (auto simp: inv_flags_def asked_def)
next
  case (gs_record r m resp s start g)
  then have "rr_calls s \<noteq> []" by auto
  with gs_record show ?case
    by (auto simp: inv_flags_def asked_def record_reply_def Let_def reply_grants_snoc split: if_splits)
qed (auto simp: inv_flags_def asked_def section_defs split: sum.splits if_splits)

lemma inv_heartbeat_step: "guard_step U s t \<Longrightarrow> inv_heartbeat s \<Longrightarrow> inv_heartbeat t"
proof (induction rule: guard_step.induct)
  case (gs_request r m s req g)
  from acquire_request_Inr [OF this(1)] gs_request(2) show ?case by (auto simp: inv_heartbeat_def)
qed (auto simp: inv_heartbeat_def section_defs split: sum.splits if_splits)

lemma inv_release_step:
  "guard_step U s t \<Longrightarrow> inv_heartbeat s \<Longrightarrow> inv_release s \<Longrightarrow> inv_release t"
proof (induction rule: guard_step.induct)
  case (gs_request r m s req g)
  from acquire_request_Inr [OF this(1)] gs_request(3) show ?case by (auto simp: inv_release_def)
next
  case (gs_record r m resp s start g)
  then show ?case
    by (cases "rr_rel s") (auto simp: inv_release_def inv_heartbeat_def section_defs split: if_splits)
next
  case (gs_hb_reply s now reply nxt g)
  then show ?case
    by (cases "rr_rel s") (auto simp: inv_release_def section_defs split: if_splits sum.splits)
next
  case (gs_note r m s resp)
  then show ?case by (cases "rr_rel s") (auto simp: inv_release_def section_defs)
qed (auto simp: inv_release_def inv_heartbeat_def release_begin_def split: if_splits rel_pc.splits)

interpretation gi: inductive_invariant "guard_init u" "guard_step U" "guard_inv U u" for U u
proof (unfold_locales, goal_cases)
  case 1
  show ?case
    by (simp add: guard_inv_def inv_flags_def inv_heartbeat_def inv_release_def guard_init_def remote_Begin_def
        asked_def reply_grants_def)
next
  case (2 s t)
  then show ?case by (auto simp: guard_inv_def intro: inv_flags_step inv_heartbeat_step inv_release_step)
qed

section \<open>The protocol\<close>


text \<open>A reply, a renewal, a release: the heartbeat is stopped first, the end is sent once.\<close>

definition demo_request :: AcquireRequest where
  "demo_request = \<lparr>rq_TransactionId = uuid_String dec_uuid 7,
     rq_Resource = Some \<lparr>pb_Type = RESOURCE_TYPE_FILE, pb_Key = ''f''\<rparr>, rq_Mode = LOCK_MODE_EXCLUSIVE\<rparr>"

definition demo_resource :: ResourceID where
  "demo_resource = \<lparr>RType = FileResource, RKey = ''f''\<rparr>"

definition demo_reply :: AcquireResponse where
  "demo_reply = \<lparr>FencingToken = 3, LeaseExpiresUnixNano = 100\<rparr>"

definition demo_final :: guard_run where
  "demo_final =
     \<lparr>rr_guard = \<lparr>rg_txn = 7, rg_acquired = True, rg_ended = True,
        rg_grants = [\<lparr>gr_Resource = fence_key demo_resource, gr_Token = 3, gr_OwnerTxn = uuid_String dec_uuid 7\<rparr>],
        rg_heartbeatStarted = True, rg_stopClosed = True, rg_leaseExpires = Some 100, rg_lost = False\<rparr>,
      rr_calls = [], rr_hb = HbGone, rr_rel = RelReturned,
      rr_log = [SentAcquire demo_request, SentRenew, SentEnd],
      rr_replies = [(demo_resource, ExclusiveLock, demo_reply)]\<rparr>"

lemmas guard_demo_defs = guard_init_def remote_Begin_def acquire_request_def resourceToProto_def modeToProto_def
  record_reply_def noteLeaseDeadline_def heartbeat_reply_def release_begin_def
  demo_request_def demo_resource_def demo_reply_def demo_final_def

lemma demo_run: "reaches (guard_step dec_uuid) (guard_init 7) demo_final"
proof -
  note go = reaches_step [where step = "guard_step dec_uuid" and s = "guard_init 7"]
  note 1 = go [OF reaches_refl gs_request [of dec_uuid demo_resource ExclusiveLock "guard_init 7" demo_request
        "(remote_Begin 7)\<lparr>rg_acquired := True\<rparr>"]]
  note 2 = go [OF 1 gs_note [of demo_resource ExclusiveLock _ dec_uuid demo_reply]]
  note 3 = go [OF 2 gs_record [of demo_resource ExclusiveLock demo_reply _ dec_uuid True
        "(rr_guard demo_final)\<lparr>rg_ended := False, rg_stopClosed := False\<rparr>"]]
  note 4 = go [OF 3 gs_hb_fire]
  note 5 = go [OF 4 gs_hb_reply [of _ 0 "Inl Canceled" "Some minRenewalInterval"
        "(rr_guard demo_final)\<lparr>rg_ended := False, rg_stopClosed := False\<rparr>"]]
  note 6 = go [OF 5 gs_release [of _ "rr_guard demo_final"]]
  note 7 = go [OF 6 gs_hb_stop]
  note 8 = go [OF 7 gs_stopped [of _ True]]
  note 9 = go [OF 8 gs_end]
  note 10 = go [OF 9 gs_end_reply]
  from 10 show ?thesis by (simp add: guard_demo_defs)
qed


text \<open>The steps of the release and of the heartbeat, none of them a caller's.\<close>

definition release_side :: "uuid_lib \<Rightarrow> guard_run \<Rightarrow> guard_run \<Rightarrow> bool" where
  "release_side U s t \<longleftrightarrow> guard_step U s t \<and> rr_calls t = rr_calls s \<and> rr_replies t = rr_replies s"

lemma release_sideI:
  assumes "guard_step U s t" "rr_calls t = rr_calls s" "rr_replies t = rr_replies s"
    and "\<exists>w. reaches (release_side U) t w \<and> rr_rel w = RelReturned"
  shows "\<exists>w. reaches (release_side U) s w \<and> rr_rel w = RelReturned"
proof -
  have "release_side U s t" using assms by (simp add: release_side_def)
  with assms(4) show ?thesis by (blast intro: reaches_first)
qed

lemma release_returned: "rr_rel s = RelReturned \<Longrightarrow> \<exists>w. reaches (release_side U) s w \<and> rr_rel w = RelReturned"
  by (rule exI [of _ s]) (simp add: reaches_refl)

lemma release_awaiting:
  assumes "rr_rel s = RelAwaiting" shows "\<exists>w. reaches (release_side U) s w \<and> rr_rel w = RelReturned"
  by (rule release_sideI [OF gs_end_reply [OF assms]]) (simp_all add: release_returned)

lemma release_ending:
  assumes "rr_rel s = RelEnding a" shows "\<exists>w. reaches (release_side U) s w \<and> rr_rel w = RelReturned"
proof (cases a)
  case False
  with assms have "rr_rel s = RelEnding False" by simp
  from release_sideI [OF gs_nothing [OF this]] show ?thesis by (simp add: release_returned)
next
  case True
  with assms have "rr_rel s = RelEnding True" by simp
  from release_sideI [OF gs_end [OF this]] show ?thesis by (simp add: release_awaiting)
qed

lemma release_gone:
  assumes "rr_rel s = RelStopping a" "rr_hb s = HbGone"
  shows "\<exists>w. reaches (release_side U) s w \<and> rr_rel w = RelReturned"
  by (rule release_sideI [OF gs_stopped [OF assms]]) (simp_all add: release_ending)

lemma release_waiting:
  assumes "rr_rel s = RelStopping a" "rr_hb s = HbWaiting" "rg_stopClosed (rr_guard s)"
  shows "\<exists>w. reaches (release_side U) s w \<and> rr_rel w = RelReturned"
  by (rule release_sideI [OF gs_hb_stop [OF assms(2,3)]]) (use assms in \<open>simp_all add: release_gone\<close>)

lemma release_renewing:
  assumes "rr_rel s = RelStopping a" "rr_hb s = HbRenewing" "rg_stopClosed (rr_guard s)"
  shows "\<exists>w. reaches (release_side U) s w \<and> rr_rel w = RelReturned"
proof (rule release_sideI [OF gs_hb_reply [OF assms(2)]])
  show "heartbeat_reply 0 (Inl Canceled) (rr_guard s) = (Some minRenewalInterval, rr_guard s)"
    by (simp add: heartbeat_reply_def)
qed (use assms in \<open>simp_all add: release_waiting\<close>)



section \<open>Leases\<close>

definition lease_live :: "uuid \<Rightarrow> registry \<Rightarrow> bool" where
  "lease_live u r \<longleftrightarrow> distinct (map fst (byID r)) \<and>
     (case map_of (byID r) u of
        None \<Rightarrow> False
      | Some t \<Rightarrow> \<not> tx_finished (txns r t) \<and> tx_state (txns r t) = txnActive \<and> tx_leaseStarted (txns r t))"

lemma UnixNano_id: "0 \<le> t \<Longrightarrow> t < 2 ^ 63 \<Longrightarrow> UnixNano t = t"
  by (simp add: UnixNano_def int_word_sint)

lemma renew_live:
  assumes "lease_live u r"
  shows "\<exists>r'. renew now u r = (Inr (now + reg_leaseDuration r), r') \<and> lease_live u r' \<and>
    reg_leaseDuration r' = reg_leaseDuration r \<and>
    (\<forall>q \<le> now + reg_leaseDuration r. u \<notin> set (expired q r'))"
proof -
  from assms obtain t where t: "map_of (byID r) u = Some t" "distinct (map fst (byID r))"
      "\<not> tx_finished (txns r t)" "tx_state (txns r t) = txnActive" "tx_leaseStarted (txns r t)"
    by (auto simp: lease_live_def split: option.splits)
  have "t' = t" if "(u, t') \<in> set (byID r)" for t'
    using that t(1,2) by (metis map_of_is_SomeI option.inject)
  then have not_expired: "u \<notin> set (expired q (update_txn t (\<lambda>tx. tx\<lparr>tx_leaseDeadline := d\<rparr>) r))" if "q \<le> d" for q d
    using that by (auto simp: expired_def update_txn_def)
  have "renew now u r = (Inr (now + reg_leaseDuration r),
      update_txn t (\<lambda>tx. tx\<lparr>tx_leaseDeadline := now + reg_leaseDuration r\<rparr>) r)"
    using t by (simp add: renew_def)
  moreover have "lease_live u (update_txn t (\<lambda>tx. tx\<lparr>tx_leaseDeadline := d\<rparr>) r)" for d
    using t by (simp add: lease_live_def update_txn_def)
  moreover have "reg_leaseDuration (update_txn t f r) = reg_leaseDuration r" for f by (simp add: update_txn_def)
  ultimately show ?thesis using not_expired by auto
qed

lemma renewalDelay_bounds:
  assumes "rg_leaseExpires g = Some deadline" and "deadline - now \<le> L" and "150000000 \<le> L" and "L < 2 ^ 63"
  shows "minRenewalInterval \<le> renewalDelay now g" and "3 * renewalDelay now g \<le> L"
proof -
  define rem where "rem = time_Sub deadline now"
  have "rem \<le> L" using assms(2-4) by (simp add: rem_def time_Sub_def min_def max_def)
  moreover have "3 * (rem div 3) \<le> rem" by presburger
  ultimately show "minRenewalInterval \<le> renewalDelay now g" and "3 * renewalDelay now g \<le> L"
    using assms(1,3) unfolding renewalDelay_def by (simp_all add: rem_def [symmetric] Let_def minRenewalInterval_def)
qed

text \<open>
  C35. A healthy worker keeps its lease. Let a renewal reach the coordinator at time \<open>p\<close>, while
  the transaction is active and its lease of \<open>L\<close> nanoseconds has started, with \<open>L\<close> at least 150 ms,
  and let no message take longer than a third of \<open>L\<close>. Then the renewal succeeds; the heartbeat,
  getting the reply at \<open>r\<close>, waits at least the 50 ms floor and at most a third of the lease;
  and its next renewal, whenever it arrives, finds the lease not expired, so the sweeper cannot have revoked
  it, and the transaction in the same state again.
\<close>

theorem healthy_worker_keeps_lease:
  assumes "uuid_ok U" "u \<noteq> 0" "lease_live u (sv_registry s)" and L: "L = reg_leaseDuration (sv_registry s)"
    and "150000000 \<le> L" "0 < p" "p + L < 2 ^ 63" and "3 * \<delta> \<le> L" "p \<le> r" "r \<le> p + \<delta>"
  shows "\<exists>s' d g'. Server_RenewLease U p (uuid_String U u) s = (Inr (p + L), s') \<and>
     heartbeat_reply r (Inr (p + L)) g = (Some d, g') \<and> minRenewalInterval \<le> d \<and> 3 * d \<le> L \<and>
     lease_live u (sv_registry s') \<and> reg_leaseDuration (sv_registry s') = L \<and>
     (\<forall>q \<le> r + d + \<delta>. u \<notin> set (expired q (sv_registry s')))"
proof -
  from renew_live [OF assms(3), of p] obtain r' where r': "renew p u (sv_registry s) = (Inr (p + L), r')"
      "lease_live u r'" "reg_leaseDuration r' = L" "\<forall>q \<le> p + L. u \<notin> set (expired q r')"
    using L by auto
  have id: "parseTxnID U (uuid_String U u) = Inr u"
    using assms(1,2) by (auto simp: parseTxnID_def uuid_ok_def)
  have nano: "UnixNano (p + L) = p + L" using assms by (intro UnixNano_id) auto
  define d where "d = renewalDelay r (noteLeaseDeadline (p + L) g)"
  have d: "minRenewalInterval \<le> d" "3 * d \<le> L"
    using renewalDelay_bounds [of "noteLeaseDeadline (p + L) g" "p + L" r L] assms
    by (simp_all add: d_def noteLeaseDeadline_def)
  have "r + d + \<delta> \<le> p + L" using d assms by linarith
  then show ?thesis using r' id nano d
    by (auto simp: Server_RenewLease_def set_registry_def heartbeat_reply_def d_def [symmetric] Let_def)
qed

definition lease_demo :: "unit Server" where
  "lease_demo =
     (case ensure 7 (newRegistry DefaultLeaseDuration) of
        (Inr t, r) \<Rightarrow> (NewServer NewLockManager ())\<lparr>sv_registry := snd (startLeaseIfNeeded 1 t r)\<rparr>
      | (Inl e, r) \<Rightarrow> NewServer NewLockManager ())"

lemma lease_demo_live: "lease_live 7 (sv_registry lease_demo)" "reg_leaseDuration (sv_registry lease_demo) = 6000000000"
  by (simp_all add: lease_demo_def ensure_def newRegistry_def DefaultLeaseDuration_def NewServer_def
      NewServerWithConfig_def startLeaseIfNeeded_def update_txn_def
      new_transaction_def lease_live_def Let_def)

theorem healthy_worker_keeps_lease_witness:
  "\<exists>s' d g'. Server_RenewLease dec_uuid 2000000001 (uuid_String dec_uuid 7) lease_demo = (Inr 8000000001, s') \<and>
     heartbeat_reply 2900000001 (Inr 8000000001) (remote_Begin 7) = (Some d, g') \<and> minRenewalInterval \<le> d \<and>
     3 * d \<le> 6000000000 \<and> lease_live 7 (sv_registry s') \<and> reg_leaseDuration (sv_registry s') = 6000000000 \<and>
     (\<forall>q \<le> 2900000001 + d + 1000000000. 7 \<notin> set (expired q (sv_registry s')))"
  using healthy_worker_keeps_lease [of dec_uuid 7 lease_demo 6000000000 2000000001 1000000000 2900000001 "remote_Begin 7"]
    dec_uuid_ok lease_demo_live by simp

end
