(* ===== verification/Deployment.thy ===== *)
theory Deployment
  imports Coord_Guard Client_Guarantees Coordinator_Runs
begin

text \<open>
  The deployment: SAFER's client in a worker, its remote guards, the coordinator's server and one
  MongoDB shared by the workers (objects and keys) and the coordinator (fences). The stub of
  \<open>Coord_Client\<close> is bound to the server of \<open>Coordinator\<close>, over a transport that may lose requests
  and replies, and the storage of the client to the same database the server's fence store uses.
\<close>

section \<open>A driver inside a larger state\<close>

definition lift_state :: "('c \<Rightarrow> 'd) \<Rightarrow> ('d \<Rightarrow> 'c \<Rightarrow> 'c) \<Rightarrow> ('d \<Rightarrow> 'r \<times> 'd) \<Rightarrow> 'c \<Rightarrow> 'r \<times> 'c" where
  "lift_state get put f c = (case f (get c) of (r, d) \<Rightarrow> (r, put d c))"

definition lift_driver :: "('c \<Rightarrow> 'd) \<Rightarrow> ('d \<Rightarrow> 'c \<Rightarrow> 'c) \<Rightarrow> 'd mongo_driver \<Rightarrow> 'c mongo_driver" where
  "lift_driver get put D = \<lparr>
     FindOne = (\<lambda>k f. lift_state get put (FindOne D k f)),
     ReplaceOne = (\<lambda>k f d. lift_state get put (ReplaceOne D k f d)),
     DeleteOne = (\<lambda>k f. lift_state get put (DeleteOne D k f)),
     InsertOne = (\<lambda>k d. lift_state get put (InsertOne D k d)),
     IsDuplicateKeyError = IsDuplicateKeyError D,
     UpdateOne = (\<lambda>k f u. lift_state get put (UpdateOne D k f u)),
     FindOneAndUpdate = (\<lambda>k f u. lift_state get put (FindOneAndUpdate D k f u)),
     StartSession = lift_state get put (StartSession D),
     WithTransaction = (\<lambda>f c. lift_state get put
       (WithTransaction D (\<lambda>d. case f (put d c) of (e, c') \<Rightarrow> (e, get c'))) c)\<rparr>"

lemma lift_state_simps [simp]:
  assumes "\<And>d c. get (put d c) = d"
  shows "fst (lift_state get put f c) = fst (f (get c))" "get (snd (lift_state get put f c)) = snd (f (get c))"
  using assms by (simp_all add: lift_state_def split: prod.splits)

lemma lift_driver_ok:
  assumes gp: "\<And>d c. get (put d c) = d" and ok: "mongo_ok D view"
  shows "mongo_ok (lift_driver get put D) (view \<circ> get)"
proof -
  note [simp] = lift_state_simps [where get = get and put = put, OF gp]
  from ok have upd: "updates_ok D view" and txn: "transactions_ok D view" by (simp_all add: mongo_ok_def)
  have wok: "write_ok (view \<circ> get) (lift_state get put f c) b t = write_ok view (f (get c)) b t" for f c b t
    by (simp add: write_ok_def split: option.splits)
  have "reads_ok (lift_driver get put D) (view \<circ> get)"
    using ok by (simp add: mongo_ok_def reads_ok_def lift_driver_def split: sum.splits)
  moreover have "writes_ok (lift_driver get put D) (view \<circ> get)"
    using ok wok by (simp add: mongo_ok_def writes_ok_def lift_driver_def)
  moreover have "updates_ok (lift_driver get put D) (view \<circ> get)"
    unfolding updates_ok_def
  proof (intro conjI allI)
    fix k i rest u c
    have "case UpdateOne D k (by_id i rest) u (get c) of
        (Inr n, s') \<Rightarrow> (n, view s') = updated_one k i rest u (view (get c))
      | (Inl e, s') \<Rightarrow> full_or_none (view (get c)) (snd (updated_one k i rest u (view (get c)))) (view s')"
      by (rule upd [unfolded updates_ok_def, THEN conjunct1, rule_format])
    then show "case UpdateOne (lift_driver get put D) k (by_id i rest) u c of
        (Inr n, s') \<Rightarrow> (n, (view \<circ> get) s') = updated_one k i rest u ((view \<circ> get) c)
      | (Inl e, s') \<Rightarrow> full_or_none ((view \<circ> get) c) (snd (updated_one k i rest u ((view \<circ> get) c))) ((view \<circ> get) s')"
      by (cases "UpdateOne D k (by_id i rest) u (get c)") (simp add: lift_driver_def lift_state_def gp split: sum.splits)
  next
    fix k i u c
    have "case FindOneAndUpdate D k (by_id i []) u (get c) of
        (Inr doc, s') \<Rightarrow> doc = upserted k i u (view (get c)) \<and> int64_fields doc \<and> view s' = put_doc k i (Some doc) (view (get c))
      | (Inl e, s') \<Rightarrow> full_or_none (view (get c)) (put_doc k i (Some (upserted k i u (view (get c)))) (view (get c))) (view s')"
      by (rule upd [unfolded updates_ok_def, THEN conjunct2, rule_format])
    then show "case FindOneAndUpdate (lift_driver get put D) k (by_id i []) u c of
        (Inr doc, s') \<Rightarrow> doc = upserted k i u ((view \<circ> get) c) \<and> int64_fields doc \<and>
            (view \<circ> get) s' = put_doc k i (Some doc) ((view \<circ> get) c)
      | (Inl e, s') \<Rightarrow> full_or_none ((view \<circ> get) c)
            (put_doc k i (Some (upserted k i u ((view \<circ> get) c))) ((view \<circ> get) c)) ((view \<circ> get) s')"
      by (cases "FindOneAndUpdate D k (by_id i []) u (get c)") (simp add: lift_driver_def lift_state_def gp split: sum.splits)
  qed
  moreover have "transactions_ok (lift_driver get put D) (view \<circ> get)"
    unfolding transactions_ok_def
  proof (intro allI)
    fix f :: "'b \<Rightarrow> error option \<times> 'b" and c :: 'b
    define f' where "f' = (\<lambda>d. case f (put d c) of (e, c') \<Rightarrow> (e, get c'))"
    obtain e d' where w: "WithTransaction D f' (get c) = (e, d')" by fastforce
    have run: "committed_run (view \<circ> get) f before after" if "committed_run view f' before after" for before after
    proof -
      from that obtain d0 d1 where d: "view d0 = before" "f' d0 = (None, d1)" "view d1 = after"
        by (auto simp: committed_run_def)
      from d(2) obtain c1 where "f (put d0 c) = (None, c1)" "get c1 = d1"
        by (auto simp: f'_def split: prod.splits)
      with d gp show ?thesis unfolding committed_run_def
        by (intro exI [of _ "put d0 c"] exI [of _ c1]) simp
    qed
    have "case e of None \<Rightarrow> committed_run view f' (view (get c)) (view d')
        | Some _ \<Rightarrow> view d' = view (get c) \<or> committed_run view f' (view (get c)) (view d')"
      using txn [unfolded transactions_ok_def, rule_format, of f' "get c"] w by (simp split: option.splits)
    then show "case WithTransaction (lift_driver get put D) f c of
        (None, s') \<Rightarrow> committed_run (view \<circ> get) f ((view \<circ> get) c) ((view \<circ> get) s')
      | (Some e, s') \<Rightarrow> (view \<circ> get) s' = (view \<circ> get) c \<or> committed_run (view \<circ> get) f ((view \<circ> get) c) ((view \<circ> get) s')"
      using w run by (cases e) (auto simp: lift_driver_def lift_state_def f'_def [symmetric] gp)
  qed
  ultimately show ?thesis by (simp add: mongo_ok_def)
qed

section \<open>The server behind the stub\<close>

datatype transport = Delivered | RequestLost error | ReplyLost error

definition deliver :: "transport \<Rightarrow> ('s \<Rightarrow> (error + 'a) \<times> 's) \<Rightarrow> 's \<Rightarrow> (error + 'a) \<times> 's" where
  "deliver t f s =
     (case t of
        Delivered \<Rightarrow> f s
      | RequestLost e \<Rightarrow> (Inl e, s)
      | ReplyLost e \<Rightarrow> (Inl e, snd (f s)))"

text \<open>
  \<open>fate s\<close> says what the transport does to the next call; \<open>F\<close> is the fence store the server was
  started with. An \<open>Acquire\<close> whose handler is parked is not answered.
\<close>

definition served ::
  "'d FenceStore \<Rightarrow> uuid_lib \<Rightarrow> int \<Rightarrow> ('d Server \<Rightarrow> transport) \<Rightarrow> 'd Server LockCoordinatorClient" where
  "served F U now fate = \<lparr>
     rpc_Acquire = (\<lambda>ctx req s.
       case fate s of
         RequestLost e \<Rightarrow> Some (Inl e, s)
       | t \<Rightarrow> (case Server_Acquire U now ctx req (s\<lparr>sv_fences := Some F\<rparr>) of
            (Inl c, s') \<Rightarrow> None
          | (Inr res, s') \<Rightarrow> Some (case t of ReplyLost e \<Rightarrow> Inl e | _ \<Rightarrow> res, s'))),
     rpc_RenewLease = (\<lambda>ctx raw s. deliver (fate s) (\<lambda>s. Server_RenewLease U now raw (s\<lparr>sv_fences := Some F\<rparr>)) s),
     rpc_EndTransaction = (\<lambda>ctx raw s. deliver (fate s) (\<lambda>s. EndTransaction U now raw (s\<lparr>sv_fences := Some F\<rparr>)) s),
     rpc_Health = (\<lambda>ctx s. deliver (fate s) (\<lambda>s. (Inr (Server_Health s), s)) s)\<rparr>"

section \<open>The coordinator touches fences only\<close>

definition fences_only :: "('d \<Rightarrow> mongo_db) \<Rightarrow> 'd \<Rightarrow> 'd \<Rightarrow> bool" where
  "fences_only view d d' \<longleftrightarrow> (\<forall>c. c \<noteq> FencesCollection \<longrightarrow> view d' c = view d c)"

lemma fences_only_refl [simp]: "fences_only view d d"
  by (simp add: fences_only_def)

lemma fences_only_trans: "fences_only view a b \<Longrightarrow> fences_only view b c \<Longrightarrow> fences_only view a c"
  by (simp add: fences_only_def)

lemma fences_only_put: "view d' = put_doc FencesCollection r x (view d) \<Longrightarrow> fences_only view d d'"
  by (simp add: fences_only_def put_doc_def)

lemma Allocate_fences_only:
  assumes ok: "mongo_ok D view" and call: "Allocate D now r t s = (res, s')"
  shows "fences_only view s s'"
proof -
  define u where "u = [(''$inc'', BM [(FieldToken, BInt64 1)]),
    (''$set'', BM [(FieldOwnerTxn, BString t), (FieldUpdatedAt, BTime now)])]"
  obtain o1 s1 where f: "FindOneAndUpdate D FencesCollection (by_id r []) u s = (o1, s1)" by fastforce
  have "s' = s1" using call f by (auto simp: Allocate_def u_def split: sum.splits option.splits if_splits)
  moreover have "case (o1, s1) of (Inr doc, s2) \<Rightarrow> doc = upserted FencesCollection r u (view s) \<and> int64_fields doc
        \<and> view s2 = put_doc FencesCollection r (Some doc) (view s)
     | (Inl e, s2) \<Rightarrow> full_or_none (view s)
        (put_doc FencesCollection r (Some (upserted FencesCollection r u (view s))) (view s)) (view s2)"
    using ok f [symmetric] unfolding mongo_ok_def updates_ok_def by auto
  ultimately show ?thesis
    using fences_only_put [of view s' r _ s] by (cases o1) (auto simp: full_or_none_def fences_only_def put_doc_def)
qed

lemma Invalidate_fences_only:
  assumes ok: "mongo_ok D view" and call: "Invalidate D now r t s = (res, s')"
  shows "fences_only view s s'"
  by (rule Invalidate_effect [OF ok call]) (auto simp: fences_only_def put_doc_def)

lemma acquire_fence_only:
  assumes "mongo_ok D view" "sv_fences s = Some (mongo_FenceStore D)" "acquire_fence U now c s = (pc, s')"
  shows "fences_only view (sv_db s) (sv_db s')"
  using assms Allocate_fences_only [OF assms(1)]
  by (auto simp: acquire_fence_def mongo_FenceStore_def split: LockMode.splits prod.splits sum.splits)

text \<open>A server whose fences are in MongoDB, before and after a handler.\<close>

definition server_frame :: "'d mongo_driver \<Rightarrow> ('d \<Rightarrow> mongo_db) \<Rightarrow> 'd Server \<Rightarrow> 'd Server \<Rightarrow> bool" where
  "server_frame D view s s' \<longleftrightarrow>
     sv_fences s' = Some (mongo_FenceStore D) \<and> fences_only view (sv_db s) (sv_db s')"

lemma server_frame_trans: "server_frame D view a b \<Longrightarrow> server_frame D view b c \<Longrightarrow> server_frame D view a c"
  by (auto simp: server_frame_def intro: fences_only_trans)

lemma acquire_advance_frame:
  assumes "mongo_ok D view" "sv_fences s = Some (mongo_FenceStore D)" "acquire_advance U now ctx c s = (r, s')"
  shows "server_frame D view s s'"
proof (cases "ac_pc c = Active")
  case True
  obtain pc s1 where f: "acquire_fence U now c s = (pc, s1)" by fastforce
  have "sv_fences s1 = sv_fences s"
    using f by (auto simp: acquire_fence_def split: LockMode.splits option.splits prod.splits sum.splits)
  with True f assms acquire_fence_only [OF assms(1,2) f] show ?thesis
    by (auto simp: acquire_advance_def server_frame_def)
next
  case False
  with assms show ?thesis
    by (cases "ac_pc c")
       (auto simp: acquire_advance_def server_frame_def Let_def set_registry_def clear_request_def
         cancel_pending_def releaseOne_def split: option.splits prod.splits if_splits)
qed

lemma acquire_run_frame:
  assumes "mongo_ok D view"
  shows "sv_fences s = Some (mongo_FenceStore D) \<Longrightarrow> acquire_run n U now ctx c s = (r, s') \<Longrightarrow> server_frame D view s s'"
proof (induction n arbitrary: c s)
  case 0
  then show ?case by (simp add: server_frame_def)
next
  case (Suc n)
  obtain r1 s1 where a: "acquire_advance U now ctx c s = (r1, s1)" by fastforce
  note f = acquire_advance_frame [OF assms Suc.prems(1) a]
  show ?case
  proof (cases "r1 = Inr (projr r1) \<or> (\<exists>rid. ac_pc (projl r1) = Queued rid)")
    case True
    then have "s' = s1" using Suc.prems(2) a by (cases r1) auto
    then show ?thesis using f by simp
  next
    case False
    then have "acquire_run n U now ctx (projl r1) s1 = (r, s')"
      using Suc.prems(2) a by (cases r1) (auto split: acquire_pc.splits)
    moreover have "sv_fences s1 = Some (mongo_FenceStore D)" using f by (simp add: server_frame_def)
    ultimately show ?thesis using Suc.IH f server_frame_trans by blast
  qed
qed

lemma Server_Acquire_frame:
  assumes "mongo_ok D view" "sv_fences s = Some (mongo_FenceStore D)" "Server_Acquire U now ctx req s = (r, s')"
  shows "server_frame D view s s'"
proof -
  obtain o1 s1 where a: "acquire_admit U req s = (o1, s1)" by fastforce
  then have s1: "sv_db s1 = sv_db s" "sv_fences s1 = sv_fences s"
    by (auto simp: acquire_admit_def set_registry_def split: sum.splits prod.splits)
  show ?thesis
  proof (cases o1)
    case (Inl e)
    with a s1 assms show ?thesis by (simp add: Server_Acquire_def server_frame_def)
  next
    case (Inr c)
    with a assms(3) have "acquire_run 10 U now ctx c s1 = (r, s')" by (simp add: Server_Acquire_def)
    from acquire_run_frame [OF assms(1) _ this] s1 assms(2) show ?thesis by (simp add: server_frame_def)
  qed
qed

lemma invalidate_each_only:
  assumes "mongo_ok D view"
  shows "invalidate_each (mongo_FenceStore D) now gs d = (e, d') \<Longrightarrow> fences_only view d d'"
proof (induction gs arbitrary: d)
  case (Cons g gs)
  obtain e1 d1 where call: "Invalidate D now (gr_Resource g) (gr_OwnerTxn g) d = (e1, d1)" by fastforce
  from Invalidate_fences_only [OF assms call] Cons call show ?case
    by (cases e1) (auto simp: mongo_FenceStore_def intro: fences_only_trans)
qed simp

lemma teardown_server_frame:
  assumes ok: "mongo_ok D view" and F: "sv_fences s = Some (mongo_FenceStore D)" and "teardown U now t s = (r, s')"
  shows "server_frame D view s s'"
proof -
  obtain e d where i: "invalidate_each (mongo_FenceStore D) now (fenceGrantsOf U t s) (sv_db s) = (e, d)" by fastforce
  from invalidate_each_only [OF ok i] i F assms(3) show ?thesis
    by (cases e) (auto simp: teardown_def Let_def release_and_finish_def set_registry_def server_frame_def)
qed

lemma EndTransaction_frame:
  assumes ok: "mongo_ok D view" and F: "sv_fences s = Some (mongo_FenceStore D)"
    and call: "EndTransaction U now raw s = (r, s')"
  shows "server_frame D view s s'"
proof (cases "parseTxnID U raw")
  case (Inl e)
  with F call show ?thesis by (simp add: EndTransaction_def server_frame_def)
next
  case (Inr u)
  obtain tt s1 where b: "begin_teardown u txnEnding s = (tt, s1)" by fastforce
  then have s1: "sv_db s1 = sv_db s" "sv_fences s1 = sv_fences s"
    by (auto simp: begin_teardown_def set_registry_def cancel_pending_def split: prod.splits option.splits)
  show ?thesis
  proof (cases tt)
    case None
    with Inr b s1 F call show ?thesis by (simp add: EndTransaction_def server_frame_def)
  next
    case (Some t)
    obtain o1 s2 where t: "teardown U now t s1 = (o1, s2)" by fastforce
    have "server_frame D view s1 s2" using teardown_server_frame [OF ok _ t] s1 F by simp
    with Inr b Some t s1 call show ?thesis
      by (cases o1) (auto simp: EndTransaction_def server_frame_def scheduleRetry_def Let_def)
  qed
qed

section \<open>A worker in the deployment\<close>

definition cl_db :: "'d Server remote \<Rightarrow> 'd" where
  "cl_db c = sv_db (rm_peer c)"

definition cl_put :: "'d \<Rightarrow> 'd Server remote \<Rightarrow> 'd Server remote" where
  "cl_put d c = c\<lparr>rm_peer := (rm_peer c)\<lparr>sv_db := d\<rparr>\<rparr>"

definition cluster_store :: "'d mongo_store \<Rightarrow> 'd Server remote mongo_store" where
  "cluster_store M = \<lparr>ms_driver = lift_driver cl_db cl_put (ms_driver M), ms_uuid = ms_uuid M, ms_x509 = ms_x509 M,
     ms_timeout = ms_timeout M, ms_transactionTimeout = ms_transactionTimeout M\<rparr>"

definition cluster_rpc :: "'d mongo_store \<Rightarrow> int \<Rightarrow> ('d Server \<Rightarrow> transport) \<Rightarrow> 'd Server LockCoordinatorClient" where
  "cluster_rpc M now fate = served (mongo_FenceStore (ms_driver M)) (ms_uuid M) now fate"

definition worker_client ::
  "'d mongo_store \<Rightarrow> int \<Rightarrow> ('d Server \<Rightarrow> transport) \<Rightarrow> (nat \<Rightarrow> uuid) \<Rightarrow> userlib
   \<Rightarrow> (nat \<Rightarrow> string list \<Rightarrow> string list) \<Rightarrow> 'd Server remote env" where
  "worker_client M now fate newUUID lib ord =
     mongo_client (cluster_store M) now (RemoteBackend (cluster_rpc M now fate) (ms_uuid M) newUUID) lib (ms_uuid M) ord"

lemma cluster_store_ok: "store_ok M view \<Longrightarrow> store_ok (cluster_store M) (view \<circ> cl_db)"
  using lift_driver_ok [where get = cl_db and put = cl_put and D = "ms_driver M" and view = view]
  by (simp add: store_ok_def cluster_store_def cl_db_def cl_put_def)

lemma server_frame_fences_only:
  "server_frame D view (s\<lparr>sv_fences := x\<rparr>) s' \<Longrightarrow> fences_only view (sv_db s) (sv_db s')"
  by (simp add: server_frame_def)

lemma rpc_Acquire_only:
  assumes ok: "mongo_ok (ms_driver M) view" and call: "rpc_Acquire (cluster_rpc M now fate) ctx req s = Some (r, s')"
  shows "fences_only view (sv_db s) (sv_db s')"
proof -
  obtain o1 s1 where a: "Server_Acquire (ms_uuid M) now ctx req (s\<lparr>sv_fences := Some (mongo_FenceStore (ms_driver M))\<rparr>) = (o1, s1)"
    by fastforce
  note f = server_frame_fences_only [OF Server_Acquire_frame [OF ok _ a]]
  show ?thesis using call a f by (auto simp: cluster_rpc_def served_def split: transport.splits sum.splits)
qed

lemma rpc_EndTransaction_only:
  assumes ok: "mongo_ok (ms_driver M) view"
  shows "fences_only view (sv_db s) (sv_db (snd (rpc_EndTransaction (cluster_rpc M now fate) ctx raw s)))"
proof -
  obtain o1 s1 where a: "EndTransaction (ms_uuid M) now raw (s\<lparr>sv_fences := Some (mongo_FenceStore (ms_driver M))\<rparr>) = (o1, s1)"
    by fastforce
  note f = server_frame_fences_only [OF EndTransaction_frame [OF ok _ a]]
  show ?thesis using a f by (auto simp: cluster_rpc_def served_def deliver_def split: transport.splits)
qed

lemma remote_AcquireContext_only:
  assumes ok: "mongo_ok (ms_driver M) view"
    and call: "remote_AcquireContext (cluster_rpc M now fate) U ctx r m g s = Some (e, g', s')"
  shows "fences_only view (sv_db s) (sv_db s')"
  using call rpc_Acquire_only [OF ok]
  by (auto simp: remote_AcquireContext_def split: sum.splits option.splits prod.splits)

lemma remote_ReleaseAll_only:
  assumes "mongo_ok (ms_driver M) view" and "remote_ReleaseAll (cluster_rpc M now fate) U g s = (g', s')"
  shows "fences_only view (sv_db s) (sv_db s')"
  using assms rpc_EndTransaction_only [OF assms(1)]
  by (auto simp: remote_ReleaseAll_def split: option.splits if_splits)

lemma cluster_view:
  "fences_only view (cl_db c) (cl_db c') \<Longrightarrow>
   db_view (cluster_store M) (view \<circ> cl_db) c' = db_view (cluster_store M) (view \<circ> cl_db) c"
  by (rule db_view_cong) (simp add: fences_only_def)

text \<open>The remote backend leaves the objects and keys alone, whatever the transport does.\<close>

lemma remote_backend_ok:
  assumes "mongo_ok (ms_driver M) view"
  shows "lock_backend_ok (RemoteBackend (cluster_rpc M now fate) U newUUID) (db_view (cluster_store M) (view \<circ> cl_db))"
proof -
  have a: "db_view (cluster_store M) (view \<circ> cl_db) (put_guard t g' p s) = db_view (cluster_store M) (view \<circ> cl_db) s"
    if "remote_AcquireContext (cluster_rpc M now fate) U ctx r m g (rm_peer s) = Some (e, g', p)" for t g' p s ctx r m g e
    using remote_AcquireContext_only [OF assms that] by (intro cluster_view) (simp add: cl_db_def put_guard_def)
  have b: "db_view (cluster_store M) (view \<circ> cl_db) (put_guard t g' p s) = db_view (cluster_store M) (view \<circ> cl_db) s"
    if "remote_ReleaseAll (cluster_rpc M now fate) U g (rm_peer s) = (g', p)" for t g' p s g
    using remote_ReleaseAll_only [OF assms that] by (intro cluster_view) (simp add: cl_db_def put_guard_def)
  have c: "db_view (cluster_store M) (view \<circ> cl_db) (s\<lparr>rm_guards := x, rm_uuids := y\<rparr>) = db_view (cluster_store M) (view \<circ> cl_db) s" for s x y
    by (intro cluster_view) (simp add: cl_db_def)
  show ?thesis
    unfolding lock_backend_ok_def
  proof (intro conjI allI impI, goal_cases)
    case (1 t s)
    show ?case using c by (simp add: RemoteBackend_def)
  next
    case (2 t r m s e s')
    then show ?case using a by (auto simp: RemoteBackend_def remote_Acquire_def split: option.splits)
  next
    case (3 ctx t r m s e s')
    then show ?case using a by (auto simp: RemoteBackend_def split: option.splits)
  next
    case (4 t s)
    then show ?case using b by (auto simp: RemoteBackend_def split: option.splits prod.splits)
  qed
qed


text \<open>A deployment in memory, with one worker; no account exists yet.\<close>

definition ex_worker :: "mongo_db Server remote env" where
  "ex_worker = worker_client mem_store 5 (\<lambda>_. Delivered) (\<lambda>n. of_nat (n + 1)) plain_lib (\<lambda>d ks. ks)"

definition ex_cluster :: "mongo_db Server remote" where
  "ex_cluster = \<lparr>rm_guards = (\<lambda>_. None), rm_uuids = 0, rm_peer = NewServer NewLockManager mem_empty\<rparr>"

definition ex_worker_world :: "mongo_db Server remote world" where
  "ex_worker_world = \<lparr>w_ext = ex_cluster, w_draws = 0, w_txnIDs = 0, w_mutex = None\<rparr>"

lemma ex_worker_lookup:
  "run_call ex_worker (CallGetUser op_Background ''alice'' ''pw'') ex_worker_world =
     Some (Inl (ErrorMsg ''user account does not exits''), ex_worker_world)"
proof -
  have g: "datastoreGet ex_worker c i ex_worker_world = Some (Inr None, ex_worker_world)" for c i
    by (simp add: datastoreGet_def on_ext_def ex_worker_def worker_client_def mongo_client_def mongo_Storage_def
        mongo_Objects_Get_def cluster_store_def lift_driver_def lift_state_def mem_store_def mem_driver_def
        ex_worker_world_def ex_cluster_def cl_db_def cl_put_def NewServer_def NewServerWithConfig_def Let_def mem_empty_def)
  have "e_uuid ex_worker = dec_uuid" "e_lib ex_worker = plain_lib"
    by (simp_all add: ex_worker_def worker_client_def mongo_client_def mem_store_def)
  then obtain i where "getUserUUID ex_worker ''alice'' = Inr i"
    by (simp add: getUserUUID_def uuid_from_def plain_lib_def dec_uuid_def pad_def)
  then show ?thesis by (simp add: reply_def GetUserContext_def bindE_assoc exec bindE_run g)
qed


section \<open>A worker that lost its lease\<close>

lemma proto_roundtrip:
  "resourceToProto r = Inr p \<Longrightarrow> resourceFromProto (Some p) = Inr r' \<Longrightarrow> r' = r"
  "modeToProto m = Inr q \<Longrightarrow> modeFromProto q = Inr m' \<Longrightarrow> m' = m"
  by (auto simp: resourceToProto_def resourceFromProto_def modeToProto_def modeFromProto_def
      split: ResourceType.splits LockMode.splits if_splits)

lemma Allocate_signed:
  assumes ok: "mongo_ok D view" and call: "Allocate D now r t s = (Inr n, s')"
  shows "sint n = uint n"
proof -
  define u where "u = [(''$inc'', BM [(FieldToken, BInt64 1)]),
    (''$set'', BM [(FieldOwnerTxn, BString t), (FieldUpdatedAt, BTime now)])]"
  obtain o1 s1 where f: "FindOneAndUpdate D FencesCollection (by_id r []) u s = (o1, s1)" by fastforce
  with call obtain doc token where doc: "o1 = Inr doc" "decode_token doc = Inr token" "0 < token" "n = word_of_int token"
    by (auto simp: Allocate_def u_def split: sum.splits if_splits)
  from ok have upd: "updates_ok D view" by (simp add: mongo_ok_def)
  from upd [unfolded updates_ok_def, THEN conjunct2, rule_format,
      where c = FencesCollection and i = r and u = u and s = s]
  have "int64_fields doc" using f doc(1) by auto
  moreover have "map_of doc FieldToken = Some (BInt64 token)"
    using doc(2,3) by (auto simp: decode_token_def split: option.splits bson.splits)
  ultimately have "token < 2 ^ 63" by (fastforce simp: int64_fields_def list_all_iff dest: map_of_SomeD)
  with doc(3,4) show ?thesis by (simp add: int_word_sint uint_word_of_int)
qed

lemma tx_external_kept [simp]:
  "tx_external (sv_txn (set_registry (recordGrant t g reg) s) q) = tx_external (txns reg q)"
  "tx_external (sv_txn (set_registry (clearPending t i reg) s) q) = tx_external (txns reg q)"
  by (simp_all add: sv_txn_def set_registry_def recordGrant_def clearPending_def update_txn_def)

lemma acquire_advance_external:
  assumes "acquire_advance U now ctx c s = (r, s')" shows "tx_external (sv_txn s' q) = tx_external (sv_txn s q)"
  using assms
  by (cases "ac_pc c")
     (auto simp: acquire_advance_def Let_def clear_request_def acquire_fence_def registerPending_def recordGrant_def
       clearPending_def startLeaseIfNeeded_def update_txn_def releaseOne_def cancel_pending_def set_registry_def sv_txn_def
      split: option.splits prod.splits if_splits LockMode.splits sum.splits)

lemma acquire_run_external:
  "acquire_run n U now ctx c s = (r, s') \<Longrightarrow> tx_external (sv_txn s' q) = tx_external (sv_txn s q)"
proof (induction n arbitrary: c s)
  case (Suc n)
  obtain r1 s1 where a: "acquire_advance U now ctx c s = (r1, s1)" by fastforce
  show ?case
  proof (cases "r1 = Inr (projr r1) \<or> (\<exists>rid. ac_pc (projl r1) = Queued rid)")
    case True
    then have "s' = s1" using Suc.prems a by (cases r1) auto
    then show ?thesis using acquire_advance_external [OF a] by simp
  next
    case False
    then have "acquire_run n U now ctx (projl r1) s1 = (r, s')"
      using Suc.prems a by (cases r1) (auto split: acquire_pc.splits)
    from Suc.IH [OF this] acquire_advance_external [OF a] show ?thesis by simp
  qed
qed simp

text \<open>The first lock of a new transaction, taken through the stub.\<close>

lemma first_acquire:
  assumes U: "uuid_ok (ms_uuid M)" and F: "sv_fences s = Some (mongo_FenceStore (ms_driver M))"
    and new: "map_of (byID (sv_registry s)) u = None"
    and acq: "remote_AcquireContext (cluster_rpc M now fate) (ms_uuid M) ctx r ExclusiveLock (remote_Begin u) s = Some (None, g, s1)"
  obtains t token where
    "Allocate (ms_driver M) now (fence_key r) (uuid_String (ms_uuid M) u) (sv_db s) = (Inr token, sv_db s1)"
    "rg_grants g = (if token \<noteq> 0 then
       [\<lparr>gr_Resource = fence_key r, gr_Token = token, gr_OwnerTxn = uuid_String (ms_uuid M) u\<rparr>] else [])"
    "map_of (byID (sv_registry s1)) u = Some t" "tx_external (sv_txn s1 t) = u" "\<not> tx_finished (sv_txn s1 t)"
    "tx_grants (sv_txn s1 t) = [\<lparr>g_resource = r, g_mode = ExclusiveLock, g_token = token\<rparr>]"
    "sv_fences s1 = sv_fences s"
proof -
  let ?U = "ms_uuid M"
  obtain req g1 where rq: "acquire_request ?U r ExclusiveLock (remote_Begin u) = Inr (req, g1)"
    using acq by (auto simp: remote_AcquireContext_def split: sum.splits)
  then have req: "rq_TransactionId req = uuid_String ?U u" and g1: "g1 = (remote_Begin u)\<lparr>rg_acquired := True\<rparr>"
    and wire: "\<exists>p. resourceToProto r = Inr p \<and> rq_Resource req = Some p" "modeToProto ExclusiveLock = Inr (rq_Mode req)"
    by (auto simp: acquire_request_def remote_Begin_def split: sum.splits if_splits)
  have same: "s\<lparr>sv_fences := Some (mongo_FenceStore (ms_driver M))\<rparr> = s" using F by simp
  from acq rq obtain resp where reply: "Server_Acquire ?U now ctx req s = (Inr (Inr resp), s1)"
    and g: "g = snd (record_reply ?U r ExclusiveLock resp (noteLeaseDeadline (LeaseExpiresUnixNano resp) g1))"
    by (auto simp: remote_AcquireContext_def cluster_rpc_def served_def same
        split: transport.splits option.splits sum.splits prod.splits)
  obtain c s0 where adm: "acquire_admit ?U req s = (Inr c, s0)"
    using reply by (auto simp: Server_Acquire_def split: prod.splits sum.splits)
  note a = acquire_admit_Inr [OF adm]
  have u: "ac_external c = u" using a(5) U by (auto simp: req parseTxnID_def uuid_ok_def split: if_splits)
  have r: "ac_resource c = r" and m: "ac_mode c = ExclusiveLock"
    using wire a(6,7) proto_roundtrip(1) [of r] proto_roundtrip(2) [of ExclusiveLock] by auto
  define t where "t = ac_txn c"
  have "sv_registry s0 = (sv_registry s)\<lparr>reg_next := t, txns := (txns (sv_registry s))(t := new_transaction u t),
      byID := AList.update u t (byID (sv_registry s))\<rparr>"
    using a(8) new by (auto simp: ensure_def u t_def Let_def split: if_splits)
  then have reg0: "txns (sv_registry s0) t = new_transaction u t" "map_of (byID (sv_registry s0)) u = Some t"
    by simp_all
  then have none: "heldGrant (ac_txn c) (ac_resource c) s0 = None"
    by (simp add: heldGrant_def grantFor_def sv_txn_def t_def new_transaction_def)
  from adm none reply show thesis
  proof (rule acquire_reply_path)
    fix wc s2 s3
    assume p: "byID (sv_registry s1) = byID (sv_registry s0)" "sv_db s2 = sv_db s" "sv_fences s2 = sv_fences s"
        "acquire_fence ?U now c s2 = (Fenced (FencingToken resp), s3)" "sv_db s1 = sv_db s3"
        "tx_grants (sv_txn s1 (ac_txn c)) = tx_grants (sv_txn s0 (ac_txn c)) @
          [\<lparr>g_resource = ac_resource c, g_mode = ac_mode c, g_token = FencingToken resp\<rparr>]"
        "tx_finished (sv_txn s1 (ac_txn c)) = tx_finished (sv_txn s0 (ac_txn c))" "sv_fences s1 = sv_fences s"
    have "Allocate (ms_driver M) now (fence_key r) (uuid_String ?U u) (sv_db s) = (Inr (FencingToken resp), sv_db s1)"
      using p(2-5) F m r u by (auto simp: acquire_fence_def mongo_FenceStore_def split: prod.splits sum.splits)
    moreover have "tx_external (sv_txn s1 t) = tx_external (sv_txn s0 t)"
      using acquire_run_external reply Server_Acquire_admitted [OF adm] by metis
    ultimately show thesis
      using p r m reg0
      by (intro that [of "FencingToken resp" t])
         (auto simp: g g1 remote_Begin_def record_reply_def noteLeaseDeadline_def Let_def t_def [symmetric]
            sv_txn_def new_transaction_def)
  qed
qed

text \<open>What a completed revocation of such a transaction leaves in the database.\<close>

lemma invalidate_each_token:
  assumes "fences_good D view d" and "invalidate_each (mongo_FenceStore D) now gs d = (e, d')"
  shows "fence_token (view d') k = fence_token (view d) k"
  using assms
proof (induction gs arbitrary: d)
  case (Cons g gs)
  obtain e1 d1 where call: "Invalidate D now (gr_Resource g) (gr_OwnerTxn g) d = (e1, d1)" by fastforce
  have good: "fences_good D view d1"
    using mf.good_inval [OF Cons.prems(1), of now "gr_Resource g" "gr_OwnerTxn g"] call by simp
  note tok = mf.inval_token [OF Cons.prems(1) call, of k]
  show ?case
  proof (cases e1)
    case None
    with Cons.prems(2) call have "invalidate_each (mongo_FenceStore D) now gs d1 = (e, d')"
      by (simp add: mongo_FenceStore_def)
    from Cons.IH [OF good this] tok show ?thesis by simp
  next
    case (Some x)
    with Cons.prems(2) call tok show ?thesis by (simp add: mongo_FenceStore_def)
  qed
qed simp

lemma revoke_completed:
  assumes good: "fences_good D view (sv_db s1)" and F: "sv_fences s1 = Some (mongo_FenceStore D)"
    and t: "map_of (byID (sv_registry s1)) u = Some t" "tx_external (sv_txn s1 t) = u" "\<not> tx_finished (sv_txn s1 t)"
    and gr: "\<lparr>g_resource = r, g_mode = ExclusiveLock, g_token = token\<rparr> \<in> set (tx_grants (sv_txn s1 t))"
    and fin: "tx_finished (sv_txn (revoke U now u s1) t)"
  shows "fences_wf (view (sv_db (revoke U now u s1))) \<and>
    fence_owner (view (sv_db (revoke U now u s1))) (fence_key r) \<noteq> Some (uuid_String U u) \<and>
    fence_token (view (sv_db (revoke U now u s1))) k = fence_token (view (sv_db s1)) k"
proof -
  obtain tt s2 where b: "begin_teardown u txnRevoking s1 = (tt, s2)" by fastforce
  show ?thesis
  proof (cases tt)
    case None
    with b have "revoke U now u s1 = s2" "sv_txn s2 = sv_txn s1"
      using t(1) by (auto simp: revoke_def begin_teardown_def beginTeardown_def set_registry_def sv_txn_def fun_eq_iff
          split: option.splits prod.splits if_splits)
    with fin t show ?thesis by simp
  next
    case (Some t')
    then have s2: "t' = t" "sv_db s2 = sv_db s1" "sv_fences s2 = sv_fences s1" "tx_external (sv_txn s2 t) = u"
        "tx_grants (sv_txn s2 t) = tx_grants (sv_txn s1 t)" "\<not> tx_finished (sv_txn s2 t)"
      using b t by (auto simp: begin_teardown_def beginTeardown_def set_registry_def sv_txn_def cancel_pending_def
          update_txn_def split: option.splits prod.splits if_splits)
    obtain res s3 where td: "teardown U now t s2 = (res, s3)" by fastforce
    show ?thesis
    proof (cases res)
      case (Inl e)
      with td b Some s2(1) teardown_failed [of U now t s2 e s3] fin s2(6) show ?thesis
        by (simp add: revoke_def sv_txn_def)
    next
      case (Inr n)
      with td b Some s2(1) have rv: "revoke U now u s1 = s3" by (simp add: revoke_def)
      from td [unfolded Inr] show ?thesis
      proof (rule teardown_done)
        fix d
        assume s3: "s3 = set_registry (finish now (tx_external (sv_txn s2 t)) (sv_registry s2))
              (s2\<lparr>sv_db := d, sv_lm := snd (ReleaseAll t (sv_lm s2))\<rparr>)"
          and inv: "\<And>F. sv_fences s2 = Some F \<Longrightarrow> invalidate_each F now (fenceGrantsOf U t s2) (sv_db s2) = (None, d)"
        have inv': "invalidate_each (mongo_FenceStore D) now (fenceGrantsOf U t s2) (sv_db s1) = (None, d)"
          using inv F s2 by simp
        have "\<lparr>gr_Resource = fence_key r, gr_Token = token, gr_OwnerTxn = uuid_String U u\<rparr> \<in> set (fenceGrantsOf U t s2)"
          using gr s2 by (force simp: fenceGrantsOf_def fenceGrants_def fence_grants_of_set)
        with invalidate_each_cleared [OF good inv'] invalidate_each_token [OF good inv', of k] show ?thesis
          unfolding rv s3 by (auto simp: fences_good_def)
      qed
    qed
  qed
qed

text \<open>
  C37. A worker that lost its lease cannot commit, across all the components. Let a worker begin a
  transaction and take its first exclusive lock through the stub, over any transport that lets the
  reply through. Then the grant it will present is current in the database. Let the coordinator
  later revoke the transaction, and the revocation complete; and then let anything happen in the
  database, other allocations, invalidations and transactions of any parties. A storage
  transaction that presents the guard's grants fails and changes no document.
\<close>

theorem revoked_worker_cannot_commit:
  assumes ok: "store_ok M view" and wf: "fences_wf (view (sv_db s))"
    and F: "sv_fences s = Some (mongo_FenceStore (ms_driver M))" and new: "map_of (byID (sv_registry s)) u = None"
    and acq: "remote_AcquireContext (cluster_rpc M now fate) (ms_uuid M) ctx r ExclusiveLock (remote_Begin u) s = Some (None, g, s1)"
    and known: "map_of (byID (sv_registry s1)) u = Some t"
    and fin: "tx_finished (sv_txn (revoke (ms_uuid M) now2 u s1) t)"
    and hist: "(db_step M)\<^sup>*\<^sup>* (sv_db (revoke (ms_uuid M) now2 u s1)) d"
    and grants: "GrantsFromContext ctx2 = remote_FenceGrants g" "\<not> ValidationSkippedForTest ctx2"
    and commit: "mongo_RunAtomic M now3 ctx2 (do_writes (mongo_Storage M now3) ws) d = (e, d')"
  shows "(\<exists>x. remote_FenceGrants g = [x] \<and> gr_Resource x = fence_key r \<and> fence_current (view (sv_db s1)) x) \<and>
    e \<noteq> None \<and> view d' = view d"
proof -
  have mok: "mongo_ok (ms_driver M) view" and U: "uuid_ok (ms_uuid M)" using ok by (simp_all add: store_ok_def)
  have good: "fences_good (ms_driver M) view (sv_db s)" using mok wf by (simp add: fences_good_def)
  from U F new acq obtain t' token where
      al: "Allocate (ms_driver M) now (fence_key r) (uuid_String (ms_uuid M) u) (sv_db s) = (Inr token, sv_db s1)"
    and gs: "rg_grants g = (if token \<noteq> 0 then
       [\<lparr>gr_Resource = fence_key r, gr_Token = token, gr_OwnerTxn = uuid_String (ms_uuid M) u\<rparr>] else [])"
    and t': "map_of (byID (sv_registry s1)) u = Some t'" "tx_external (sv_txn s1 t') = u" "\<not> tx_finished (sv_txn s1 t')"
    and tg: "tx_grants (sv_txn s1 t') = [\<lparr>g_resource = r, g_mode = ExclusiveLock, g_token = token\<rparr>]"
    and F1: "sv_fences s1 = sv_fences s" by (rule first_acquire) (rule that)
  have t: "t' = t" using t'(1) known by simp
  note a = mf.alloc_ok [OF good al] and sgn = Allocate_signed [OF mok al]
  have tok: "token \<noteq> 0" using a fence_token_nonneg [OF wf, of "fence_key r"] by auto
  define x where "x = \<lparr>gr_Resource = fence_key r, gr_Token = token, gr_OwnerTxn = uuid_String (ms_uuid M) u\<rparr>"
  have gx: "remote_FenceGrants g = [x]" using gs tok by (simp add: remote_FenceGrants_def x_def)
  have good1: "fences_good (ms_driver M) view (sv_db s1)"
    using mf.good_alloc [OF good, of now "fence_key r" "uuid_String (ms_uuid M) u"] al by simp
  have cur: "fence_current (view (sv_db s1)) x"
    using a sgn by (auto simp: fence_current_def x_def fence_owner_def split: option.splits)
  have in_t: "\<lparr>g_resource = r, g_mode = ExclusiveLock, g_token = token\<rparr> \<in> set (tx_grants (sv_txn s1 t'))"
    using tg by simp
  note rv = revoke_completed [OF good1 F1 [unfolded F] t' in_t fin [folded t], of "fence_key r"]
  have "stale (view (sv_db (revoke (ms_uuid M) now2 u s1))) x" using rv a sgn by (simp add: stale_def x_def)
  then have "\<not> fence_current (view d) x"
    using db_steps_stale [OF ok hist, of x] rv stale_not_current by blast
  then have "\<not> committed_writes M view ctx2 ws d d'"
    using gx grants by (auto simp: committed_writes_def list_all_iff)
  with mongo_RunAtomic_effect [OF ok commit] gx cur show ?thesis by (auto simp: x_def)
qed

text \<open>The example of \<open>Coordinator_Runs\<close>, through the stub, then revoked.\<close>

definition lost_guard :: remoteGuard where
  "lost_guard = snd (record_reply dec_uuid ex_file_k ExclusiveLock ex_resp
     (noteLeaseDeadline (LeaseExpiresUnixNano ex_resp) ((remote_Begin 7)\<lparr>rg_acquired := True\<rparr>)))"

definition lost_server :: "mongo_db Server" where
  "lost_server = revoke dec_uuid 6 7 ex_granted"

lemma lost_acquire:
  "remote_AcquireContext (cluster_rpc mem_store 5 (\<lambda>_. Delivered)) (ms_uuid mem_store) Background ex_file_k ExclusiveLock
     (remote_Begin 7) ex_server = Some (None, lost_guard, ex_granted)"
proof -
  have "acquire_request dec_uuid ex_file_k ExclusiveLock (remote_Begin 7) = Inr (ex_reqA, (remote_Begin 7)\<lparr>rg_acquired := True\<rparr>)"
    by code_simp
  moreover have "ex_server\<lparr>sv_fences := Some (mongo_FenceStore mem_driver)\<rparr> = ex_server" using ex_fences by simp
  ultimately show ?thesis
    by (simp add: remote_AcquireContext_def cluster_rpc_def served_def mem_store_def ex_reply lost_guard_def)
qed

theorem revoked_worker_cannot_commit_witness:
  "fst (mongo_RunAtomic mem_store 9 (WithGrants op_Background (remote_FenceGrants lost_guard))
     (do_writes (mongo_Storage mem_store 9) mem_writes) (sv_db lost_server)) \<noteq> None"
proof -
  let ?ctx = "WithGrants op_Background (remote_FenceGrants lost_guard)"
  obtain e d where c: "mongo_RunAtomic mem_store 9 ?ctx (do_writes (mongo_Storage mem_store 9) mem_writes) (sv_db lost_server) = (e, d)"
    by fastforce
  have wf: "fences_wf (id (sv_db ex_server))" using fences_goodD(2) [OF ex_good] .
  have F: "sv_fences ex_server = Some (mongo_FenceStore (ms_driver mem_store))" by (simp add: mem_store_def ex_fences)
  have new: "map_of (byID (sv_registry ex_server)) 7 = None" by code_simp
  have known: "map_of (byID (sv_registry ex_granted)) 7 = Some 1" by (rule ex_granted_facts(3))
  have fin: "tx_finished (sv_txn (revoke dec_uuid 6 7 ex_granted) 1)" by code_simp
  have "GrantsFromContext ?ctx = remote_FenceGrants lost_guard" "\<not> ValidationSkippedForTest ?ctx"
    by (simp_all add: GrantsFromContext_def ValidationSkippedForTest_def WithGrants_def op_Background_def)
  from revoked_worker_cannot_commit [OF mem_store_ok wf F new lost_acquire known _ _ this, of 6 "sv_db lost_server"] fin c
  show ?thesis by (simp add: mem_store_def lost_server_def)
qed

end
