(* ===== verification/Worker.thy ===== *)
theory Worker
  imports Deployment
begin

text \<open>
  The worker service, \<open>cmd/worker\<close>: the admission limiter (\<open>authlimit.go\<close>), the gRPC handlers that
  adapt the client's interface (\<open>service.go\<close>), readiness (\<open>health.go\<close>) and the instance header
  (\<open>instance.go\<close>). The process keeps nothing between calls but the limiter, so a handler runs on
  the limiter and the client's world. Spans and metrics have no effect on either and are left out.
\<close>

section \<open>The admission limiter\<close>

text \<open>The semaphore channel: its capacity, and the number of slots taken.\<close>

record authLimiter =
  al_cap :: nat
  al_held :: nat

definition newAuthLimiter :: "int \<Rightarrow> authLimiter" where
  "newAuthLimiter n = \<lparr>al_cap = (if n \<le> 0 then 1 else nat n), al_held = 0\<rparr>"

text \<open>
  \<open>acquire\<close>: \<open>None\<close> blocks. When a slot is free and the context has ended as well, \<open>select\<close> takes
  either case; \<open>slot_first\<close> is its choice.
\<close>

definition limiter_acquire :: "bool \<Rightarrow> go_context \<Rightarrow> authLimiter \<Rightarrow> (error option \<times> authLimiter) option" where
  "limiter_acquire slot_first ctx a =
     (case ctx_Err ctx of
        Some e \<Rightarrow> if al_held a < al_cap a \<and> slot_first then Some (None, a\<lparr>al_held := al_held a + 1\<rparr>)
                  else Some (Some e, a)
      | None \<Rightarrow> if al_held a < al_cap a then Some (None, a\<lparr>al_held := al_held a + 1\<rparr>) else None)"

text \<open>\<open>release\<close> receives from the channel, which blocks when it is empty.\<close>

definition limiter_release :: "authLimiter \<Rightarrow> authLimiter option" where
  "limiter_release a = (if al_held a = 0 then None else Some (a\<lparr>al_held := al_held a - 1\<rparr>))"

section \<open>Errors\<close>

definition translateErr :: "go_context \<Rightarrow> string \<Rightarrow> error \<Rightarrow> error" where
  "translateErr ctx op err =
     (let msg = ''worker: '' @ op @ '': '' @ err_Error err
      in if errors_Is err Canceled then Status CanceledCode msg
         else if errors_Is err DeadlineExceeded then Status DeadlineExceededCode msg
         else case ctx_Err ctx of
           Some ctxErr \<Rightarrow> FromContextError ctxErr
         | None \<Rightarrow> Status FailedPrecondition msg)"

section \<open>Handlers\<close>

record 's workerServer =
  ws_limiter :: authLimiter
  ws_world :: "'s world"

type_synonym ('s, 'a) handler = "'s workerServer \<Rightarrow> ((error + 'a) \<times> 's workerServer) option"

definition request_context :: "go_context \<Rightarrow> op_context" where
  "request_context ctx = op_Background\<lparr>oc_ctx := ctx\<rparr>"

text \<open>
  A section under the limiter: a slot, the client call, and the deferred release. The error of
  either is reported under the name \<open>op\<close>.
\<close>

definition limited :: "bool \<Rightarrow> go_context \<Rightarrow> string \<Rightarrow> ('s, 'a) op \<Rightarrow> ('s, 'a) handler" where
  "limited slot_first ctx op m st =
     (case limiter_acquire slot_first ctx (ws_limiter st) of
        None \<Rightarrow> None
      | Some (Some e, a) \<Rightarrow> Some (Inl (translateErr ctx op e), st\<lparr>ws_limiter := a\<rparr>)
      | Some (None, a) \<Rightarrow>
         (case m (ws_world st) of
            None \<Rightarrow> None
          | Some (r, w) \<Rightarrow>
             (case limiter_release a of
                None \<Rightarrow> None
              | Some a' \<Rightarrow>
                  Some (case r of Inl e \<Rightarrow> Inl (translateErr ctx op e) | Inr x \<Rightarrow> Inr x,
                        \<lparr>ws_limiter = a', ws_world = w\<rparr>))))"

definition missing :: "string \<Rightarrow> error" where
  "missing what = Status InvalidArgument (''worker: '' @ what @ '' is required'')"

definition worker_InitUser ::
  "'s env \<Rightarrow> bool \<Rightarrow> go_context \<Rightarrow> string \<Rightarrow> string \<Rightarrow> ('s, unit) handler" where
  "worker_InitUser E slot_first ctx username password st =
     (if username = [] then Some (Inl (missing ''username''), st)
      else if password = [] then Some (Inl (missing ''password''), st)
      else limited slot_first ctx ''InitUser''
        (bindE (InitUserContext E (request_context ctx) username password) (\<lambda>_. returnE ())) st)"

definition authenticate ::
  "'s env \<Rightarrow> bool \<Rightarrow> go_context \<Rightarrow> string \<Rightarrow> string \<Rightarrow> ('s, User) handler" where
  "authenticate E slot_first ctx username password st =
     (if username = [] then Some (Inl (missing ''username''), st)
      else if password = [] then Some (Inl (missing ''password''), st)
      else limited slot_first ctx ''GetUser'' (GetUserContext E (request_context ctx) username password) st)"

text \<open>
  The shape of the three file handlers: authenticate, insist on a file name, run the operation as
  the user. Each of them writes it out.
\<close>

definition as_user ::
  "'s env \<Rightarrow> bool \<Rightarrow> go_context \<Rightarrow> string \<Rightarrow> string \<Rightarrow> string \<Rightarrow> string \<Rightarrow> (User \<Rightarrow> ('s, 'a) op) \<Rightarrow> ('s, 'a) handler" where
  "as_user E slot_first ctx username password filename op m st =
     (case authenticate E slot_first ctx username password st of
        None \<Rightarrow> None
      | Some (Inl e, st') \<Rightarrow> Some (Inl e, st')
      | Some (Inr user, st') \<Rightarrow>
         if filename = [] then Some (Inl (missing ''filename''), st')
         else case m user (ws_world st') of
           None \<Rightarrow> None
         | Some (Inl e, w) \<Rightarrow> Some (Inl (translateErr ctx op e), st'\<lparr>ws_world := w\<rparr>)
         | Some (Inr x, w) \<Rightarrow> Some (Inr x, st'\<lparr>ws_world := w\<rparr>))"

definition worker_StoreFile ::
  "'s env \<Rightarrow> bool \<Rightarrow> go_context \<Rightarrow> string \<Rightarrow> string \<Rightarrow> string \<Rightarrow> bytes \<Rightarrow> ('s, unit) handler" where
  "worker_StoreFile E slot_first ctx username password filename content =
     as_user E slot_first ctx username password filename ''StoreFile''
       (\<lambda>user. StoreFileContext E user (request_context ctx) filename content)"

definition worker_AppendToFile ::
  "'s env \<Rightarrow> bool \<Rightarrow> go_context \<Rightarrow> string \<Rightarrow> string \<Rightarrow> string \<Rightarrow> bytes \<Rightarrow> ('s, unit) handler" where
  "worker_AppendToFile E slot_first ctx username password filename content =
     as_user E slot_first ctx username password filename ''AppendToFile''
       (\<lambda>user. AppendToFileContext E user (request_context ctx) filename content)"

definition worker_LoadFile ::
  "'s env \<Rightarrow> bool \<Rightarrow> go_context \<Rightarrow> string \<Rightarrow> string \<Rightarrow> string \<Rightarrow> ('s, bytes) handler" where
  "worker_LoadFile E slot_first ctx username password filename =
     as_user E slot_first ctx username password filename ''LoadFile''
       (\<lambda>user. LoadFileContext E user (request_context ctx) filename)"

section \<open>Readiness and identity\<close>

datatype serving_status = SERVING | NOT_SERVING

definition readinessServiceName :: string where "readinessServiceName = []"
definition livenessServiceName :: string where "livenessServiceName = ''liveness''"

text \<open>One round of checks: the errors of \<open>store.Ping\<close> and \<open>backend.Health\<close> set the status.\<close>

definition readiness_check ::
  "error option \<Rightarrow> error option \<Rightarrow> (string \<Rightarrow> serving_status option) \<Rightarrow> string \<Rightarrow> serving_status option" where
  "readiness_check mongoErr coordErr hs =
     hs(readinessServiceName \<mapsto> (if mongoErr = None \<and> coordErr = None then SERVING else NOT_SERVING))"

text \<open>The loop: one check at once, then one per tick until it is stopped.\<close>

definition readiness_loop ::
  "(error option \<times> error option) list \<Rightarrow> (string \<Rightarrow> serving_status option) \<Rightarrow> string \<Rightarrow> serving_status option" where
  "readiness_loop rounds hs = foldl (\<lambda>h (m, c). readiness_check m c h) hs rounds"

definition readiness_interval :: "int \<Rightarrow> int" where
  "readiness_interval interval = (if interval \<le> 0 then DefaultReadinessInterval else interval)"

definition instanceID :: "error + string \<Rightarrow> nat \<Rightarrow> string" where
  "instanceID hostname pid =
     (let host = (case hostname of Inl e \<Rightarrow> ''unknown-host'' | Inr h \<Rightarrow> if h = [] then ''unknown-host'' else h)
      in host @ ''-'' @ itoa pid)"

definition InstanceHeaderKey :: string where "InstanceHeaderKey = ''x-safer-worker-instance''"

text \<open>The interceptor adds the header to the reply and hands the handler's result through.\<close>

definition instanceHeaderInterceptor ::
  "string \<Rightarrow> ('req \<Rightarrow> 'st \<Rightarrow> 'out) \<Rightarrow> 'req \<Rightarrow> 'st \<Rightarrow> (string \<times> string) list \<times> 'out" where
  "instanceHeaderInterceptor iid handler req st = ([(InstanceHeaderKey, iid)], handler req st)"

end
