(* ===== verification/Worker_Thms.thy ===== *)
theory Worker_Thms
  imports Worker
begin

text \<open>
  What the worker promises: its limiter bounds the expensive sections and returns every slot, and
  its RPCs are the client's operations, whole or not at all.
\<close>

section \<open>Concurrent requests at the limiter\<close>

text \<open>Requests waiting for a slot, those inside the expensive section, and those that have left.\<close>

record limiter_run =
  lr_limiter :: authLimiter
  lr_waiting :: "nat list"
  lr_inside :: "nat list"
  lr_left :: "nat list"

definition limiter_init :: "int \<Rightarrow> limiter_run" where
  "limiter_init n = \<lparr>lr_limiter = newAuthLimiter n, lr_waiting = [], lr_inside = [], lr_left = []\<rparr>"

inductive limiter_step :: "limiter_run \<Rightarrow> limiter_run \<Rightarrow> bool" where
  ls_arrive:
    "i \<notin> set (lr_waiting s) \<union> set (lr_inside s) \<union> set (lr_left s) \<Longrightarrow>
     limiter_step s (s\<lparr>lr_waiting := i # lr_waiting s\<rparr>)"
| ls_admit:
    "i \<in> set (lr_waiting s) \<Longrightarrow> limiter_acquire slot_first ctx (lr_limiter s) = Some (None, a) \<Longrightarrow>
     limiter_step s (s\<lparr>lr_limiter := a, lr_waiting := remove1 i (lr_waiting s), lr_inside := i # lr_inside s\<rparr>)"
| ls_cancel:
    "i \<in> set (lr_waiting s) \<Longrightarrow> limiter_acquire slot_first ctx (lr_limiter s) = Some (Some e, a) \<Longrightarrow>
     limiter_step s (s\<lparr>lr_limiter := a, lr_waiting := remove1 i (lr_waiting s), lr_left := i # lr_left s\<rparr>)"
| ls_leave:
    "i \<in> set (lr_inside s) \<Longrightarrow> limiter_release (lr_limiter s) = Some a \<Longrightarrow>
     limiter_step s (s\<lparr>lr_limiter := a, lr_inside := remove1 i (lr_inside s), lr_left := i # lr_left s\<rparr>)"

definition limiter_inv :: "int \<Rightarrow> limiter_run \<Rightarrow> bool" where
  "limiter_inv n s \<longleftrightarrow>
     al_cap (lr_limiter s) = (if n \<le> 0 then 1 else nat n) \<and>
     al_held (lr_limiter s) = length (lr_inside s) \<and> length (lr_inside s) \<le> al_cap (lr_limiter s) \<and>
     distinct (lr_waiting s @ lr_inside s @ lr_left s)"

interpretation lim: inductive_invariant "limiter_init n" limiter_step "limiter_inv n" for n
proof (unfold_locales, goal_cases)
  case 1
  show ?case by (simp add: limiter_inv_def limiter_init_def newAuthLimiter_def)
next
  case (2 s t)
  from 2(2,1) show ?case
    by (induction rule: limiter_step.induct)
       (auto simp: limiter_inv_def limiter_acquire_def limiter_release_def length_remove1 split: option.splits if_splits)
qed

text \<open>
  C38. The limiter does its job. Whatever requests arrive, are admitted, give up or finish, and in
  whatever order: at most the configured number (and at least one, for a nonsensical
  configuration) is in the expensive section at once; the slots taken are exactly those of the
  requests inside; a request that finishes can always give its slot back without blocking; a
  waiting request that is still wanted is let in as soon as fewer than the limit are inside; and no
  request is ever in two places.
\<close>

theorem limiter_bounds_sections:
  assumes "reaches limiter_step (limiter_init n) s"
  shows "int (length (lr_inside s)) \<le> max 1 n \<and> al_held (lr_limiter s) = length (lr_inside s) \<and>
    (lr_inside s \<noteq> [] \<longrightarrow> (\<exists>a. limiter_release (lr_limiter s) = Some a)) \<and>
    (int (length (lr_inside s)) < max 1 n \<longrightarrow>
       (\<exists>a. limiter_acquire slot_first Background (lr_limiter s) = Some (None, a))) \<and>
    distinct (lr_waiting s @ lr_inside s @ lr_left s)"
  using lim.reachable_inv [OF assms]
  by (auto simp: limiter_inv_def limiter_release_def limiter_acquire_def)

theorem limiter_bounds_sections_witness:
  "\<exists>s. reaches limiter_step (limiter_init 2) s \<and> lr_inside s = [4] \<and> int (length (lr_inside s)) \<le> max 1 2"
proof -
  note go = reaches_step [where step = limiter_step and s = "limiter_init 2"]
  note 1 = go [OF reaches_refl ls_arrive [of 4 "limiter_init 2"]]
  note 2 = go [OF 1 ls_admit [of 4 _ True Background "\<lparr>al_cap = 2, al_held = 1\<rparr>"]]
  let ?s = "\<lparr>lr_limiter = \<lparr>al_cap = 2, al_held = 1\<rparr>, lr_waiting = [], lr_inside = [4], lr_left = []\<rparr>"
  have r: "reaches limiter_step (limiter_init 2) ?s"
    using 2 by (simp add: limiter_init_def newAuthLimiter_def limiter_acquire_def)
  from limiter_bounds_sections [OF r] r show ?thesis by (intro exI [of _ ?s]) simp
qed

section \<open>The RPCs\<close>

datatype worker_rpc =
    RpcInitUser string string
  | RpcStoreFile string string string bytes
  | RpcAppendToFile string string string bytes
  | RpcLoadFile string string string

text \<open>The handlers under one type; the empty replies carry no bytes.\<close>

definition no_content :: "('s, unit) handler \<Rightarrow> ('s, bytes) handler" where
  "no_content h st = map_option (\<lambda>(r, st'). (case r of Inl e \<Rightarrow> Inl e | Inr _ \<Rightarrow> Inr [], st')) (h st)"

fun run_rpc :: "'s env \<Rightarrow> bool \<Rightarrow> go_context \<Rightarrow> worker_rpc \<Rightarrow> ('s, bytes) handler" where
  "run_rpc E sf ctx (RpcInitUser u p) = no_content (worker_InitUser E sf ctx u p)"
| "run_rpc E sf ctx (RpcStoreFile u p f b) = no_content (worker_StoreFile E sf ctx u p f b)"
| "run_rpc E sf ctx (RpcAppendToFile u p f b) = no_content (worker_AppendToFile E sf ctx u p f b)"
| "run_rpc E sf ctx (RpcLoadFile u p f) = worker_LoadFile E sf ctx u p f"

text \<open>The client's operations behind an RPC: what happens with the credentials it carries.\<close>

fun rpc_op :: "'s env \<Rightarrow> go_context \<Rightarrow> worker_rpc \<Rightarrow> ('s, bytes) op" where
  "rpc_op E ctx (RpcInitUser u p) = bindE (InitUserContext E (request_context ctx) u p) (\<lambda>_. returnE [])"
| "rpc_op E ctx (RpcStoreFile u p f b) =
     bindE (GetUserContext E (request_context ctx) u p) (\<lambda>user.
     bindE (StoreFileContext E user (request_context ctx) f b) (\<lambda>_. returnE []))"
| "rpc_op E ctx (RpcAppendToFile u p f b) =
     bindE (GetUserContext E (request_context ctx) u p) (\<lambda>user.
     bindE (AppendToFileContext E user (request_context ctx) f b) (\<lambda>_. returnE []))"
| "rpc_op E ctx (RpcLoadFile u p f) =
     bindE (GetUserContext E (request_context ctx) u p) (\<lambda>user. LoadFileContext E user (request_context ctx) f)"

fun credentials :: "worker_rpc \<Rightarrow> string \<times> string" where
  "credentials (RpcInitUser u p) = (u, p)"
| "credentials (RpcStoreFile u p f b) = (u, p)"
| "credentials (RpcAppendToFile u p f b) = (u, p)"
| "credentials (RpcLoadFile u p f) = (u, p)"

text \<open>
  How a handler's outcome comes about: it has the limiter \<open>a\<close> it started with, and its reply and
  world are the client's (\<open>out\<close>), or an error with a world that \<open>same\<close> says was only read.
\<close>

definition carries ::
  "authLimiter \<Rightarrow> ('s world \<Rightarrow> bool) \<Rightarrow> ((error + 'a) \<times> 's world) option
   \<Rightarrow> ((error + 'a) \<times> 's workerServer) option \<Rightarrow> bool" where
  "carries a same out hout \<longleftrightarrow>
     (case hout of
        None \<Rightarrow> True
      | Some (Inr x, st) \<Rightarrow> ws_limiter st = a \<and> out = Some (Inr x, ws_world st)
      | Some (Inl e, st) \<Rightarrow> ws_limiter st = a \<and> (\<exists>c m. e = Status c m) \<and>
          (same (ws_world st) \<or> (\<exists>e'. out = Some (Inl e', ws_world st))))"

lemma carries_simps [simp]:
  "carries a same out None"
  "carries a same out (Some (Inr x, st)) \<longleftrightarrow> ws_limiter st = a \<and> out = Some (Inr x, ws_world st)"
  "carries a same out (Some (Inl e, st)) \<longleftrightarrow> ws_limiter st = a \<and> (\<exists>c m. e = Status c m) \<and>
     (same (ws_world st) \<or> (\<exists>e'. out = Some (Inl e', ws_world st)))"
  by (simp_all add: carries_def)

lemma translateErr_Status [simp]: "\<exists>c m. translateErr ctx op e = Status c m"
  by (auto simp: translateErr_def Let_def FromContextError_def split: option.splits)

lemma missing_Status [simp]: "\<exists>c m. missing what = Status c m"
  by (simp add: missing_def)

lemma limiter_roundtrip:
  assumes "limiter_acquire sf ctx a = Some (e, a')"
  shows "e = None \<Longrightarrow> limiter_release a' = Some a" "e = Some x \<Longrightarrow> a' = a"
proof -
  have "(e = None \<longrightarrow> limiter_release a' = Some a) \<and> (e \<noteq> None \<longrightarrow> a' = a)"
    using assms by (cases "ctx_Err ctx"; cases e) (auto simp: limiter_acquire_def limiter_release_def split: if_splits)
  then show "e = None \<Longrightarrow> limiter_release a' = Some a" "e = Some x \<Longrightarrow> a' = a" by auto
qed

lemma limited_carries: "carries (ws_limiter st) ((=) (ws_world st)) (m (ws_world st)) (limited sf ctx op m st)"
proof (cases "limiter_acquire sf ctx (ws_limiter st)")
  case (Some p)
  obtain e a where p: "p = (e, a)" by fastforce
  show ?thesis
    using limiter_roundtrip [OF Some [unfolded p]] Some p
    by (cases e; cases "m (ws_world st)" rule: out_cases) (simp_all add: limited_def)
qed (simp add: limited_def)

lemma authenticate_carries:
  "carries (ws_limiter st) ((=) (ws_world st)) (GetUserContext E (request_context ctx) u p (ws_world st))
     (authenticate E sf ctx u p st)"
  using limited_carries [of st "GetUserContext E (request_context ctx) u p" sf ctx "''GetUser''"]
  by (auto simp: authenticate_def)

text \<open>The world was only read when it is still the same, or is what looking up the user leaves.\<close>

definition looked_up :: "'s env \<Rightarrow> go_context \<Rightarrow> string \<Rightarrow> string \<Rightarrow> 's world \<Rightarrow> 's world \<Rightarrow> bool" where
  "looked_up E ctx u p w w' \<longleftrightarrow>
     w' = w \<or> (\<exists>user. GetUserContext E (request_context ctx) u p w = Some (Inr user, w'))"

lemma as_user_carries:
  "carries (ws_limiter st) (looked_up E ctx u p (ws_world st))
     (bindE (GetUserContext E (request_context ctx) u p) m (ws_world st)) (as_user E sf ctx u p f op m st)"
proof (cases "authenticate E sf ctx u p st")
  case (Some q)
  obtain r st' where q: "q = (r, st')" by fastforce
  note a = authenticate_carries [of st E ctx u p sf, unfolded Some q]
  show ?thesis
  proof (cases r)
    case (Inl e)
    with Some q a show ?thesis by (auto simp: as_user_def looked_up_def bindE_def)
  next
    case (Inr user)
    with Some q a show ?thesis
      by (cases "m user (ws_world st')" rule: out_cases) (auto simp: as_user_def looked_up_def bindE_def)
  qed
qed (simp add: as_user_def)

lemma no_content_carries:
  assumes "carries a same (m w) (h st)"
  shows "carries a same (bindE m (\<lambda>_. returnE []) w) (no_content h st)"
proof (cases "h st")
  case (Some q)
  obtain r st' where q: "q = (r, st')" by fastforce
  from assms show ?thesis
    unfolding Some q by (cases r) (auto simp: no_content_def Some q bindE_def returnE_def)
qed (simp add: no_content_def)

lemma run_rpc_carries:
  "carries (ws_limiter st) (looked_up E ctx (fst (credentials x)) (snd (credentials x)) (ws_world st))
     (rpc_op E ctx x (ws_world st)) (run_rpc E sf ctx x st)"
proof (cases x)
  case (RpcInitUser u p)
  let ?m = "bindE (InitUserContext E (request_context ctx) u p) (\<lambda>_. returnE ())"
  have "carries (ws_limiter st) (looked_up E ctx u p (ws_world st)) (?m (ws_world st)) (worker_InitUser E sf ctx u p st)"
    using limited_carries [of st ?m sf ctx "''InitUser''"]
    by (cases "limited sf ctx ''InitUser'' ?m st") (auto simp: worker_InitUser_def looked_up_def carries_def split: sum.splits)
  from no_content_carries [where m = ?m and w = "ws_world st" and h = "worker_InitUser E sf ctx u p" and st = st, OF this]
    RpcInitUser show ?thesis by (simp add: bindE_assoc)
next
  case (RpcStoreFile u p f b)
  let ?m = "\<lambda>user. StoreFileContext E user (request_context ctx) f b"
  from no_content_carries [where m = "bindE (GetUserContext E (request_context ctx) u p) ?m" and w = "ws_world st"
      and h = "as_user E sf ctx u p f ''StoreFile'' ?m" and st = st, OF as_user_carries] RpcStoreFile
  show ?thesis by (simp add: bindE_assoc worker_StoreFile_def)
next
  case (RpcAppendToFile u p f b)
  let ?m = "\<lambda>user. AppendToFileContext E user (request_context ctx) f b"
  from no_content_carries [where m = "bindE (GetUserContext E (request_context ctx) u p) ?m" and w = "ws_world st"
      and h = "as_user E sf ctx u p f ''AppendToFile'' ?m" and st = st, OF as_user_carries] RpcAppendToFile
  show ?thesis by (simp add: bindE_assoc worker_AppendToFile_def)
next
  case (RpcLoadFile u p f)
  then show ?thesis by (simp add: worker_LoadFile_def as_user_carries)
qed

section \<open>In the deployment\<close>

fun rpc_names :: "'s env \<Rightarrow> worker_rpc \<Rightarrow> bool" where
  "rpc_names E (RpcInitUser u p) \<longleftrightarrow> getPKEKeyName E u \<noteq> getVerifyKeyName E u"
| "rpc_names E _ \<longleftrightarrow> True"

lemma sim_done:
  assumes "sim V tot False P Q R m m'"
  shows "sim V tot False P Q R (bindE m (\<lambda>x. returnE (f x))) (bindE m' (\<lambda>x. returnE (f x)))"
proof (rule simI)
  fix w :: "'a world" assume "P (w_ext w)"
  from simD [OF assms this]
  show "agrees V tot False Q R (V (w_ext w)) (bindE m (\<lambda>x. returnE (f x)) w) (bindE m' (\<lambda>x. returnE (f x)) (pr V w))"
    by (cases "m w" rule: out_cases; cases "m' (pr V w)" rule: out_cases) (auto simp: bindE_def returnE_def)
qed

lemma rpc_op_mongo:
  assumes "rpc_names (mongo_client M now B lib U ord) x"
  shows "sim (db_view M view) False False (\<lambda>s. store_ok M view \<and> lock_backend_ok B (db_view M view))
    (\<lambda>s. store_ok M view \<and> lock_backend_ok B (db_view M view)) (\<lambda>s. store_ok M view \<and> lock_backend_ok B (db_view M view))
    (rpc_op (mongo_client M now B lib U ord) ctx x) (rpc_op (ideal_of (mongo_client M now B lib U ord)) ctx x)"
  using assms
  by (cases x) (auto intro!: sim_done sim_bind [OF mgc.GetUser_sim] mgc.InitUser_sim mgc.StoreFile_sim mgc.AppendToFile_sim
      mgc.LoadFile_sim)

text \<open>
  C39. An RPC of a deployed worker happens completely or not at all. Whatever RPC comes in, with
  whatever credentials and context: when the handler answers, the limiter is as it was, so no slot
  is lost on any path. A reply without an error, and what the RPC did to the objects and keys, are
  those of authenticating and running the operation on the ideal store. An error is always a gRPC
  status, and then the objects and keys are untouched, or the whole effect is there. A request
  without a user name or a password is refused as an invalid argument before anything is touched.
\<close>

theorem worker_rpc_all_or_nothing:
  assumes E: "E = worker_client M now fate newUUID lib ord" and V: "V = db_view (cluster_store M) (view \<circ> cl_db)"
    and ok: "store_ok M view" and names: "rpc_names E x" and run: "run_rpc E sf ctx x st = Some (r, st')"
  shows "ws_limiter st' = ws_limiter st \<and>
    (case r of
       Inr y \<Rightarrow> rpc_op (ideal_of E) ctx x (pr V (ws_world st)) = Some (Inr y, pr V (ws_world st'))
     | Inl e \<Rightarrow> (\<exists>c m. e = Status c m) \<and>
         (V (w_ext (ws_world st')) = V (w_ext (ws_world st)) \<or>
          (\<exists>y w2. rpc_op (ideal_of E) ctx x (pr V (ws_world st)) = Some (Inr y, w2) \<and>
             w_ext w2 = V (w_ext (ws_world st'))))) \<and>
    (fst (credentials x) = [] \<or> snd (credentials x) = [] \<longrightarrow>
       (\<exists>what. r = Inl (Status InvalidArgument what)) \<and> st' = st)"
proof -
  define B where "B = RemoteBackend (cluster_rpc M now fate) (ms_uuid M) newUUID"
  have E': "E = mongo_client (cluster_store M) now B lib (ms_uuid M) ord" by (simp add: E worker_client_def B_def)
  have P: "store_ok (cluster_store M) (view \<circ> cl_db) \<and> lock_backend_ok B V"
    using cluster_store_ok [OF ok] remote_backend_ok [of M view] ok by (simp add: V B_def store_ok_def)
  note s = simD [OF rpc_op_mongo [where view = "view \<circ> cl_db" and ctx = ctx, OF names [unfolded E']], where w = "ws_world st",
      folded V E', OF P]
  have looked: "V (w_ext w') = V (w_ext w)" if "looked_up E ctx u p w w'" for u p w w'
    using that simD [OF mgc.GetUser_sim [where view = "view \<circ> cl_db" and M = "cluster_store M" and now = now and B = B
        and lib = lib and U = "ms_uuid M" and ord = ord and c = "request_context ctx" and n = u and pw = p],
        where w = w, folded V E', OF P]
    by (auto simp: looked_up_def)
  note c = run_rpc_carries [of st E ctx x sf, unfolded run]
  have "(\<exists>what. r = Inl (Status InvalidArgument what)) \<and> st' = st" if "fst (credentials x) = [] \<or> snd (credentials x) = []"
    using run that
    by (cases x) (auto simp: no_content_def worker_InitUser_def worker_StoreFile_def worker_AppendToFile_def
        worker_LoadFile_def as_user_def authenticate_def missing_def split: if_splits)
  moreover have "ws_limiter st' = ws_limiter st" using c by (cases r) auto
  ultimately show ?thesis
    using c s looked by (cases r) auto
qed

definition ex_server_state :: "mongo_db Server remote workerServer" where
  "ex_server_state = \<lparr>ws_limiter = newAuthLimiter 2, ws_world = ex_worker_world\<rparr>"

lemma ex_rpc:
  "run_rpc ex_worker True Background (RpcLoadFile ''alice'' ''pw'' ''f'') ex_server_state =
     Some (Inl (Status FailedPrecondition ''worker: GetUser: user account does not exits''), ex_server_state)"
proof -
  have "GetUserContext ex_worker op_Background ''alice'' ''pw'' ex_worker_world =
      Some (Inl (ErrorMsg ''user account does not exits''), ex_worker_world)"
    using ex_worker_lookup
    by (cases "GetUserContext ex_worker op_Background ''alice'' ''pw'' ex_worker_world" rule: out_cases)
       (auto simp: reply_def bindE_def returnE_def)
  moreover have "request_context Background = op_Background" by (simp add: request_context_def op_Background_def)
  ultimately show ?thesis
    by (simp add: worker_LoadFile_def as_user_def authenticate_def limited_def limiter_acquire_def limiter_release_def
        ex_server_state_def newAuthLimiter_def translateErr_def Let_def)
qed

theorem worker_rpc_all_or_nothing_witness:
  "\<exists>r st'. run_rpc ex_worker True Background (RpcLoadFile ''alice'' ''pw'' ''f'') ex_server_state = Some (r, st') \<and>
     ws_limiter st' = ws_limiter ex_server_state \<and>
     db_view (cluster_store mem_store) (id \<circ> cl_db) (w_ext (ws_world st')) =
       db_view (cluster_store mem_store) (id \<circ> cl_db) (w_ext (ws_world ex_server_state))"
  using worker_rpc_all_or_nothing [OF ex_worker_def refl mem_store_ok _ ex_rpc] ex_rpc by auto

section \<open>Readiness\<close>

text \<open>
  Liveness never follows the dependencies, and readiness is the outcome of the last round alone.
\<close>

lemma readiness_last:
  "readiness_loop (rounds @ [(m, c)]) hs readinessServiceName =
     Some (if m = None \<and> c = None then SERVING else NOT_SERVING)"
  "readiness_loop rounds hs livenessServiceName = hs livenessServiceName"
proof -
  show "readiness_loop (rounds @ [(m, c)]) hs readinessServiceName =
     Some (if m = None \<and> c = None then SERVING else NOT_SERVING)"
    by (simp add: readiness_loop_def readiness_check_def)
  show "readiness_loop rounds hs livenessServiceName = hs livenessServiceName"
    by (induction rounds arbitrary: hs)
       (auto simp: readiness_loop_def readiness_check_def readinessServiceName_def livenessServiceName_def)
qed

end
