(* ===== verification/Loadgen.thy ===== *)
theory Loadgen
  imports Configs "HOL-Library.Multiset"
begin

text \<open>
  The load generator, \<open>cmd/loadgen/workload.go\<close>. The generated stub of the worker service is the
  parameter \<open>SaferWorkerClient\<close>: each call returns its error, if any, the response header, and the
  state of everything beyond. \<open>runWorkloadClient\<close> starts the callers as goroutines; their loop is
  cut at its atomic operations, and a step relation interleaves them. The clock, the coin of the
  mixed workload and the floating-point index of \<open>percentile\<close> are parameters.
\<close>

section \<open>The stub, users and the tally\<close>

type_synonym header = "(string \<times> string list) list"

record 's SaferWorkerClient =
  call_InitUser :: "string \<Rightarrow> string \<Rightarrow> 's \<Rightarrow> error option \<times> header \<times> 's"
  call_StoreFile :: "string \<Rightarrow> string \<Rightarrow> string \<Rightarrow> bytes \<Rightarrow> 's \<Rightarrow> error option \<times> header \<times> 's"
  call_AppendToFile :: "string \<Rightarrow> string \<Rightarrow> string \<Rightarrow> bytes \<Rightarrow> 's \<Rightarrow> error option \<times> header \<times> 's"
  call_LoadFile :: "string \<Rightarrow> string \<Rightarrow> string \<Rightarrow> 's \<Rightarrow> (error + bytes) \<times> header \<times> 's"

record lg_user =
  lu_username :: string
  lu_password :: string
  lu_filename :: string
  lu_successfulAppends :: int

text \<open>\<open>replicaTally\<close>: RPCs per worker instance, by the first value of the instance header.\<close>

type_synonym replicaTally = "(string \<times> nat) list"

definition tally_record :: "header \<Rightarrow> replicaTally \<Rightarrow> replicaTally" where
  "tally_record h ct =
     (case map_of h ''x-safer-worker-instance'' of
        None \<Rightarrow> ct
      | Some [] \<Rightarrow> ct
      | Some (i # _) \<Rightarrow>
          AList.update i (Suc (case map_of ct i of None \<Rightarrow> 0 | Some n \<Rightarrow> n)) ct)"

definition tally_snapshot :: "replicaTally \<Rightarrow> replicaTally" where
  "tally_snapshot ct = ct"

definition zeros :: "int \<Rightarrow> bytes" where
  "zeros n = replicate (nat n) CHR 0x00"

section \<open>Setup\<close>

definition setup_user :: "int \<Rightarrow> nat \<Rightarrow> lg_user" where
  "setup_user now i =
     \<lparr>lu_username = ''loadgen-'' @ itoa (nat now) @ ''-'' @ itoa i, lu_password = ''password-'' @ itoa i,
      lu_filename = ''loadgen.dat'', lu_successfulAppends = 0\<rparr>"

text \<open>The users from index \<open>i\<close> on; \<open>clock i\<close> is the time read for the user \<open>i\<close>.\<close>

fun setup_from ::
  "loadgen_config \<Rightarrow> 's SaferWorkerClient \<Rightarrow> (nat \<Rightarrow> int) \<Rightarrow> nat \<Rightarrow> nat \<Rightarrow> replicaTally \<Rightarrow> 's
   \<Rightarrow> (error + lg_user list) \<times> replicaTally \<times> 's" where
  "setup_from cfg C clock i 0 tally s = (Inr [], tally, s)"
| "setup_from cfg C clock i (Suc n) tally s =
     (let u = setup_user (clock i) i
      in case call_InitUser C (lu_username u) (lu_password u) s of
        (Some e, h, s1) \<Rightarrow> (Inl (Wrap ''setup: InitUser %d'' e), tally, s1)
      | (None, h, s1) \<Rightarrow>
         (let t1 = tally_record h tally
          in case (if Workload_valid (lc_Workload cfg)
                   then case call_StoreFile C (lu_username u) (lu_password u) (lu_filename u) (zeros (lc_ContentSize cfg)) s1 of
                          (None, h2, s2) \<Rightarrow> (None, tally_record h2 t1, s2)
                        | (Some e, h2, s2) \<Rightarrow> (Some e, t1, s2)
                   else (None, t1, s1)) of
            (Some e, t2, s2) \<Rightarrow> (Inl (Wrap ''setup: StoreFile %d'' e), t2, s2)
          | (None, t2, s2) \<Rightarrow>
             (case setup_from cfg C clock (Suc i) n t2 s2 of
                (Inl e, t3, s3) \<Rightarrow> (Inl e, t3, s3)
              | (Inr us, t3, s3) \<Rightarrow> (Inr (u # us), t3, s3))))"

definition lg_setup ::
  "loadgen_config \<Rightarrow> 's SaferWorkerClient \<Rightarrow> (nat \<Rightarrow> int) \<Rightarrow> replicaTally \<Rightarrow> 's
   \<Rightarrow> (error + lg_user list) \<times> replicaTally \<times> 's" where
  "lg_setup cfg C clock tally s = setup_from cfg C clock 0 (nat (lc_Users cfg)) tally s"

section \<open>One operation\<close>

definition callerUser :: "lg_user list \<Rightarrow> nat \<Rightarrow> nat" where
  "callerUser users callerIndex = callerIndex mod length users"

definition count_append :: "lg_user \<Rightarrow> lg_user" where
  "count_append u = u\<lparr>lu_successfulAppends := lu_successfulAppends u + 1\<rparr>"

text \<open>\<open>coin\<close> is \<open>rand.Intn(2) == 0\<close>.\<close>

definition runOne ::
  "loadgen_config \<Rightarrow> 's SaferWorkerClient \<Rightarrow> bool \<Rightarrow> bytes \<Rightarrow> bytes \<Rightarrow> lg_user \<Rightarrow> replicaTally \<Rightarrow> 's
   \<Rightarrow> error option \<times> lg_user \<times> replicaTally \<times> 's" where
  "runOne cfg C coin content initialContent u tally s =
     (let append = (case call_AppendToFile C (lu_username u) (lu_password u) (lu_filename u) content s of
            (e, h, s') \<Rightarrow> (e, if e = None then count_append u else u, tally_record h tally, s'))
      in if lc_Workload cfg = WorkloadIndependentWrites \<or> lc_Workload cfg = WorkloadSameFileWrites then append
         else if lc_Workload cfg = WorkloadReads then
           (case call_LoadFile C (lu_username u) (lu_password u) (lu_filename u) s of
              (Inl e, h, s') \<Rightarrow> (Some e, u, tally_record h tally, s')
            | (Inr b, h, s') \<Rightarrow>
                (if b \<noteq> initialContent
                 then Some (ErrorMsg ''read returned %d bytes not matching the file's only ever-written content (%d bytes)'')
                 else None, u, tally_record h tally, s'))
         else if lc_Workload cfg = WorkloadMixed then
           (if coin then append
            else case call_LoadFile C (lu_username u) (lu_password u) (lu_filename u) s of
              (Inl e, h, s') \<Rightarrow> (Some e, u, tally_record h tally, s')
            | (Inr b, h, s') \<Rightarrow> (None, u, tally_record h tally, s'))
         else (Some (ErrorMsg ''loadgen: unknown workload %q''), u, tally, s))"

section \<open>Oracles and percentiles\<close>

text \<open>The users still to check, the names seen, and the two kinds of findings so far.\<close>

fun check_users ::
  "loadgen_config \<Rightarrow> 's SaferWorkerClient \<Rightarrow> string list \<Rightarrow> lg_user list \<Rightarrow> 's
   \<Rightarrow> (string list \<times> string list) \<times> 's" where
  "check_users cfg C seen [] s = (([], []), s)"
| "check_users cfg C seen (u # us) s =
     (if lu_username u \<in> set seen then check_users cfg C seen us s
      else let want = lc_ContentSize cfg + lu_successfulAppends u * lc_ContentSize cfg
      in case call_LoadFile C (lu_username u) (lu_password u) (lu_filename u) s of
        (Inl e, h, s') \<Rightarrow>
          (case check_users cfg C (lu_username u # seen) us s' of
             ((ds, vs), s2) \<Rightarrow> ((ds, ''user %s: could not verify final content: %v'' # vs), s2))
      | (Inr b, h, s') \<Rightarrow>
          (case check_users cfg C (lu_username u # seen) us s' of
             ((ds, vs), s2) \<Rightarrow>
               ((if int (length b) \<noteq> want then ''user %s: file is %d bytes, want %d'' # ds else ds, vs), s2)))"

definition checkOracles ::
  "loadgen_config \<Rightarrow> 's SaferWorkerClient \<Rightarrow> lg_user list \<Rightarrow> 's \<Rightarrow> (string list \<times> string list) \<times> 's" where
  "checkOracles cfg C users s =
     (if lc_Workload cfg = WorkloadReads then (([], []), s) else check_users cfg C [] users s)"

text \<open>\<open>index n\<close> is \<open>int(p * float64(n - 1))\<close>.\<close>

definition percentile :: "(nat \<Rightarrow> int) \<Rightarrow> int list \<Rightarrow> int" where
  "percentile index sorted_samples =
     (if sorted_samples = [] then 0
      else let idx = index (length sorted_samples);
               idx = (if idx < 0 then 0 else idx);
               idx = (if idx \<ge> int (length sorted_samples) then int (length sorted_samples) - 1 else idx)
           in sorted_samples ! nat idx)"

section \<open>The callers\<close>

text \<open>
  One caller: about to take an operation, about to run it, having run it (its error and latency),
  having counted the attempt, or gone; and its own latency samples.
\<close>

datatype caller_pc = Taking | Running | Ran "error option" int | Counted "error option" int | Gone

record lg_caller =
  lg_pc :: caller_pc
  lg_local :: "int list"

text \<open>\<open>lw_log\<close> records every operation with its outcome as it is counted, for the statements only.\<close>

record 's lg_run =
  lw_remaining :: int
  lw_attempted :: int
  lw_succeeded :: int
  lw_failed :: int
  lw_firstErrors :: "string list"
  lw_latencies :: "int list"
  lw_callers :: "lg_caller list"
  lw_users :: "lg_user list"
  lw_tally :: replicaTally
  lw_ext :: 's
  lw_log :: "(error option \<times> int) list"

definition lg_start :: "loadgen_config \<Rightarrow> lg_user list \<Rightarrow> replicaTally \<Rightarrow> 's \<Rightarrow> 's lg_run" where
  "lg_start cfg users tally s =
     \<lparr>lw_remaining = (if lc_Duration cfg \<le> 0 then lc_Count cfg else 0), lw_attempted = 0, lw_succeeded = 0,
      lw_failed = 0, lw_firstErrors = [], lw_latencies = [],
      lw_callers = replicate (nat (lc_Concurrency cfg)) \<lparr>lg_pc = Taking, lg_local = []\<rparr>,
      lw_users = users, lw_tally = tally, lw_ext = s, lw_log = []\<rparr>"

definition set_caller :: "nat \<Rightarrow> lg_caller \<Rightarrow> 's lg_run \<Rightarrow> 's lg_run" where
  "set_caller i c st = st\<lparr>lw_callers := (lw_callers st)[i := c]\<rparr>"

text \<open>The head of the loop: the deadline, or the shared counter; a caller that leaves merges its samples.\<close>

definition caller_take :: "loadgen_config \<Rightarrow> bool \<Rightarrow> nat \<Rightarrow> 's lg_run \<Rightarrow> 's lg_run" where
  "caller_take cfg past_deadline i st =
     (let c = lw_callers st ! i;
          leave = (\<lambda>st. set_caller i (c\<lparr>lg_pc := Gone\<rparr>) (st\<lparr>lw_latencies := lw_latencies st @ lg_local c\<rparr>));
          go = set_caller i (c\<lparr>lg_pc := Running\<rparr>)
      in if lc_Duration cfg > 0 then (if past_deadline then leave st else go st)
         else let rem = lw_remaining st - 1; st' = st\<lparr>lw_remaining := rem\<rparr>
              in if rem < 0 then leave st' else go st')"

definition caller_run ::
  "loadgen_config \<Rightarrow> 's SaferWorkerClient \<Rightarrow> bool \<Rightarrow> int \<Rightarrow> nat \<Rightarrow> 's lg_run \<Rightarrow> 's lg_run" where
  "caller_run cfg C coin opLatency i st =
     (let k = callerUser (lw_users st) i; zs = zeros (lc_ContentSize cfg)
      in case runOne cfg C coin zs zs (lw_users st ! k) (lw_tally st) (lw_ext st) of
        (err, u, tally, s) \<Rightarrow>
          set_caller i ((lw_callers st ! i)\<lparr>lg_pc := Ran err opLatency\<rparr>)
            (st\<lparr>lw_users := (lw_users st)[k := u], lw_tally := tally, lw_ext := s\<rparr>))"

definition caller_attempt :: "error option \<Rightarrow> int \<Rightarrow> nat \<Rightarrow> 's lg_run \<Rightarrow> 's lg_run" where
  "caller_attempt err lat i st =
     set_caller i ((lw_callers st ! i)\<lparr>lg_pc := Counted err lat\<rparr>) (st\<lparr>lw_attempted := lw_attempted st + 1\<rparr>)"

definition recordErr :: "error \<Rightarrow> string list \<Rightarrow> string list" where
  "recordErr err firstErrors = (if length firstErrors < 5 then firstErrors @ [err_Error err] else firstErrors)"

definition caller_outcome :: "error option \<Rightarrow> int \<Rightarrow> nat \<Rightarrow> 's lg_run \<Rightarrow> 's lg_run" where
  "caller_outcome err lat i st =
     (let c = lw_callers st ! i; st = st\<lparr>lw_log := lw_log st @ [(err, lat)]\<rparr>
      in case err of
        Some e \<Rightarrow> set_caller i (c\<lparr>lg_pc := Taking\<rparr>)
                   (st\<lparr>lw_failed := lw_failed st + 1, lw_firstErrors := recordErr e (lw_firstErrors st)\<rparr>)
      | None \<Rightarrow> set_caller i (c\<lparr>lg_pc := Taking, lg_local := lg_local c @ [lat]\<rparr>)
                   (st\<lparr>lw_succeeded := lw_succeeded st + 1\<rparr>))"

inductive lg_step :: "loadgen_config \<Rightarrow> 's SaferWorkerClient \<Rightarrow> 's lg_run \<Rightarrow> 's lg_run \<Rightarrow> bool" for cfg C where
  lg_take: "i < length (lw_callers st) \<Longrightarrow> lg_pc (lw_callers st ! i) = Taking \<Longrightarrow>
     lg_step cfg C st (caller_take cfg past_deadline i st)"
| lg_runs: "i < length (lw_callers st) \<Longrightarrow> lg_pc (lw_callers st ! i) = Running \<Longrightarrow>
     lg_step cfg C st (caller_run cfg C coin lat i st)"
| lg_attempt: "i < length (lw_callers st) \<Longrightarrow> lg_pc (lw_callers st ! i) = Ran err lat \<Longrightarrow>
     lg_step cfg C st (caller_attempt err lat i st)"
| lg_outcome: "i < length (lw_callers st) \<Longrightarrow> lg_pc (lw_callers st ! i) = Counted err lat \<Longrightarrow>
     lg_step cfg C st (caller_outcome err lat i st)"

section \<open>The report\<close>

record Report =
  rp_Workload :: string
  rp_Requested :: int
  rp_Attempted :: int
  rp_Succeeded :: int
  rp_Failed :: int
  rp_Elapsed :: int
  rp_LatencySamples :: nat
  rp_P50Latency :: int
  rp_P95Latency :: int
  rp_P99Latency :: int
  rp_FirstErrors :: "string list"
  rp_Replicas :: replicaTally
  rp_OracleFailures :: "string list"
  rp_VerificationErrors :: "string list"

text \<open>
  After \<open>wg.Wait()\<close>: the samples are sorted, the oracles run, and the report is made. The three
  indices are those of the quantiles 0.50, 0.95 and 0.99.
\<close>

definition lg_report ::
  "loadgen_config \<Rightarrow> 's SaferWorkerClient \<Rightarrow> (nat \<Rightarrow> int) \<Rightarrow> (nat \<Rightarrow> int) \<Rightarrow> (nat \<Rightarrow> int) \<Rightarrow> int \<Rightarrow> 's lg_run
   \<Rightarrow> Report \<times> 's" where
  "lg_report cfg C i50 i95 i99 elapsed st =
     (let latencies = sort (lw_latencies st)
      in case checkOracles cfg C (lw_users st) (lw_ext st) of
        ((ds, vs), s) \<Rightarrow>
          (\<lparr>rp_Workload = lc_Workload cfg, rp_Requested = lc_Count cfg, rp_Attempted = lw_attempted st,
            rp_Succeeded = lw_succeeded st, rp_Failed = lw_failed st, rp_Elapsed = elapsed,
            rp_LatencySamples = length latencies, rp_P50Latency = percentile i50 latencies,
            rp_P95Latency = percentile i95 latencies, rp_P99Latency = percentile i99 latencies,
            rp_FirstErrors = lw_firstErrors st, rp_Replicas = tally_snapshot (lw_tally st),
            rp_OracleFailures = ds, rp_VerificationErrors = vs\<rparr>, s))"

text \<open>The exit status of \<open>main\<close>.\<close>

definition run_failed :: "Report \<Rightarrow> bool" where
  "run_failed r \<longleftrightarrow> rp_Failed r > 0 \<or> length (rp_OracleFailures r) > 0 \<or> length (rp_VerificationErrors r) > 0"

end
