(* ===== verification/Loadgen_Thms.thy ===== *)
theory Loadgen_Thms
  imports Loadgen
begin

text \<open>
  What a load run reports: the accounts of its callers, whatever their interleaving, and the
  report against a reference computed from the sequence of operations.
\<close>

section \<open>Sums over the callers\<close>

definition over :: "(lg_caller \<Rightarrow> 'n :: comm_monoid_add) \<Rightarrow> 's lg_run \<Rightarrow> 'n" where
  "over f st = sum_list (map f (lw_callers st))"

text \<open>Everything but the caller \<open>i\<close>.\<close>

definition others :: "(lg_caller \<Rightarrow> 'n :: comm_monoid_add) \<Rightarrow> nat \<Rightarrow> 's lg_run \<Rightarrow> 'n" where
  "others f i st = sum_list (map f (take i (lw_callers st) @ drop (Suc i) (lw_callers st)))"

lemma over_split:
  assumes "i < length (lw_callers st)"
  shows "over f st = f (lw_callers st ! i) + others f i st"
proof -
  have "lw_callers st = take i (lw_callers st) @ lw_callers st ! i # drop (Suc i) (lw_callers st)"
    using id_take_nth_drop [OF assms] .
  then have "over f st = sum_list (map f (take i (lw_callers st) @ lw_callers st ! i # drop (Suc i) (lw_callers st)))"
    unfolding over_def by (rule arg_cong)
  then show ?thesis by (simp add: others_def ac_simps)
qed

lemma over_set:
  assumes "i < length (lw_callers st)"
  shows "over f (set_caller i c st) = f c + others f i st"
  using assms by (simp add: over_def set_caller_def others_def upd_conv_take_nth_drop ac_simps)

lemma over_frame [simp]:
  "over f (st\<lparr>lw_remaining := a\<rparr>) = over f st" "over f (st\<lparr>lw_attempted := a\<rparr>) = over f st"
  "over f (st\<lparr>lw_succeeded := a\<rparr>) = over f st" "over f (st\<lparr>lw_failed := a\<rparr>) = over f st"
  "over f (st\<lparr>lw_firstErrors := e\<rparr>) = over f st" "over f (st\<lparr>lw_latencies := l\<rparr>) = over f st"
  "over f (st\<lparr>lw_log := g\<rparr>) = over f st"
  "over f (st\<lparr>lw_users := us, lw_tally := t, lw_ext := s\<rparr>) = over f st"
  by (simp_all add: over_def)

lemma others_frame [simp]:
  "others f i (st\<lparr>lw_remaining := a\<rparr>) = others f i st" "others f i (st\<lparr>lw_attempted := a\<rparr>) = others f i st"
  "others f i (st\<lparr>lw_succeeded := a\<rparr>) = others f i st" "others f i (st\<lparr>lw_failed := a\<rparr>) = others f i st"
  "others f i (st\<lparr>lw_firstErrors := e\<rparr>) = others f i st" "others f i (st\<lparr>lw_latencies := l\<rparr>) = others f i st"
  "others f i (st\<lparr>lw_log := g\<rparr>) = others f i st"
  "others f i (st\<lparr>lw_users := us\<rparr>) = others f i st" "others f i (st\<lparr>lw_tally := t\<rparr>) = others f i st"
  "others f i (st\<lparr>lw_ext := s\<rparr>) = others f i st"
  by (simp_all add: others_def)

lemma set_caller_frame [simp]:
  "lw_remaining (set_caller i c st) = lw_remaining st" "lw_attempted (set_caller i c st) = lw_attempted st"
  "lw_succeeded (set_caller i c st) = lw_succeeded st" "lw_failed (set_caller i c st) = lw_failed st"
  "lw_firstErrors (set_caller i c st) = lw_firstErrors st" "lw_latencies (set_caller i c st) = lw_latencies st"
  "lw_log (set_caller i c st) = lw_log st" "length (lw_callers (set_caller i c st)) = length (lw_callers st)"
  by (simp_all add: set_caller_def)

section \<open>The invariant\<close>

definition counted :: "lg_caller \<Rightarrow> int" where
  "counted c = (case lg_pc c of Counted _ _ \<Rightarrow> 1 | _ \<Rightarrow> 0)"

definition flying :: "lg_caller \<Rightarrow> int" where
  "flying c = (case lg_pc c of Running \<Rightarrow> 1 | Ran _ _ \<Rightarrow> 1 | _ \<Rightarrow> 0)"

definition gone_one :: "lg_caller \<Rightarrow> int" where
  "gone_one c = (case lg_pc c of Gone \<Rightarrow> 1 | _ \<Rightarrow> 0)"

definition unmerged :: "lg_caller \<Rightarrow> int multiset" where
  "unmerged c = (case lg_pc c of Gone \<Rightarrow> {#} | _ \<Rightarrow> mset (lg_local c))"

definition oks :: "(error option \<times> int) list \<Rightarrow> int list" where
  "oks l = map snd (filter (\<lambda>(e, lat). e = None) l)"

definition errs :: "(error option \<times> int) list \<Rightarrow> string list" where
  "errs l = map (\<lambda>(e, lat). err_Error (the e)) (filter (\<lambda>(e, lat). e \<noteq> None) l)"

lemma oks_errs_snoc [simp]:
  "oks (l @ [(None, lat)]) = oks l @ [lat]" "errs (l @ [(None, lat)]) = errs l"
  "oks (l @ [(Some e, lat)]) = oks l" "errs (l @ [(Some e, lat)]) = errs l @ [err_Error e]"
  by (simp_all add: oks_def errs_def)

lemma recordErr_take: "recordErr e (take 5 xs) = take 5 (xs @ [err_Error e])"
  by (auto simp: recordErr_def)

text \<open>The counters against the log, and the samples against its successes.\<close>

definition inv_counts :: "'s lg_run \<Rightarrow> bool" where
  "inv_counts st \<longleftrightarrow>
     lw_attempted st = int (length (lw_log st)) + over counted st \<and>
     lw_succeeded st = int (length (oks (lw_log st))) \<and> lw_failed st = int (length (errs (lw_log st))) \<and>
     lw_firstErrors st = take 5 (errs (lw_log st)) \<and>
     mset (lw_latencies st) + over unmerged st = mset (oks (lw_log st))"

text \<open>The shared counter of a run with a fixed number of operations.\<close>

definition inv_remaining :: "loadgen_config \<Rightarrow> 's lg_run \<Rightarrow> bool" where
  "inv_remaining cfg st \<longleftrightarrow>
     (lc_Duration cfg \<le> 0 \<longrightarrow>
        lw_attempted st + over flying st + lw_remaining st + over gone_one st = lc_Count cfg \<and>
        (if over gone_one st = 0 then 0 \<le> lw_remaining st else lw_remaining st = - over gone_one st))"

lemmas caller_weights = counted_def flying_def gone_one_def unmerged_def

lemma others_gone_nonneg: "0 \<le> others gone_one i st"
proof -
  have "0 \<le> sum_list (map gone_one xs)" for xs
    by (induction xs) (auto simp: gone_one_def split: caller_pc.splits)
  then show ?thesis unfolding others_def .
qed

lemma inv_counts_step:
  assumes "lg_step cfg C st st'" "inv_counts st" shows "inv_counts st'"
  using assms
proof (induction rule: lg_step.induct)
  case (lg_take i st pd)
  then show ?case
    by (simp add: inv_counts_def caller_take_def Let_def over_set over_split [of i st] caller_weights ac_simps)
next
  case (lg_runs i st coin lat)
  obtain e u t s where r: "runOne cfg C coin (zeros (lc_ContentSize cfg)) (zeros (lc_ContentSize cfg))
      (lw_users st ! callerUser (lw_users st) i) (lw_tally st) (lw_ext st) = (e, u, t, s)" by (metis prod_cases4)
  from lg_runs show ?case
    by (simp add: inv_counts_def caller_run_def Let_def r over_set over_split [of i st] caller_weights)
next
  case (lg_attempt i st err lat)
  then show ?case
    by (simp add: inv_counts_def caller_attempt_def over_set over_split [of i st] caller_weights)
next
  case (lg_outcome i st err lat)
  then show ?case
    by (cases err) (simp_all add: inv_counts_def caller_outcome_def Let_def over_set over_split [of i st] caller_weights
        recordErr_take ac_simps)
qed

lemma inv_remaining_step:
  assumes "lg_step cfg C st st'" "inv_remaining cfg st" shows "inv_remaining cfg st'"
  using assms
proof (induction rule: lg_step.induct)
  case (lg_take i st pd)
  then show ?case
    using others_gone_nonneg [of i st]
    by (auto simp: inv_remaining_def caller_take_def Let_def over_set over_split [of i st] caller_weights split: if_splits)
next
  case (lg_runs i st coin lat)
  obtain e u t s where r: "runOne cfg C coin (zeros (lc_ContentSize cfg)) (zeros (lc_ContentSize cfg))
      (lw_users st ! callerUser (lw_users st) i) (lw_tally st) (lw_ext st) = (e, u, t, s)" by (metis prod_cases4)
  from lg_runs show ?case
    by (simp add: inv_remaining_def caller_run_def Let_def r over_set over_split [of i st] caller_weights)
next
  case (lg_attempt i st err lat)
  then show ?case
    by (auto simp: inv_remaining_def caller_attempt_def over_set over_split [of i st] caller_weights split: if_splits)
next
  case (lg_outcome i st err lat)
  then show ?case
    by (cases err) (simp_all add: inv_remaining_def caller_outcome_def Let_def over_set over_split [of i st] caller_weights)
qed

definition lg_inv :: "loadgen_config \<Rightarrow> 's lg_run \<Rightarrow> bool" where
  "lg_inv cfg st \<longleftrightarrow> inv_counts st \<and> inv_remaining cfg st \<and> length (lw_callers st) = nat (lc_Concurrency cfg)"

lemma lg_step_callers: "lg_step cfg C st st' \<Longrightarrow> length (lw_callers st') = length (lw_callers st)"
  by (induction rule: lg_step.induct)
     (auto simp: caller_take_def caller_run_def caller_attempt_def caller_outcome_def Let_def
       split: prod.splits option.splits)

lemma lg_inv_start:
  assumes "loadgen_config_ok cfg" shows "lg_inv cfg (lg_start cfg users tally s)"
proof -
  have none: "sum_list (replicate n (0 :: 'n :: comm_monoid_add)) = 0" for n by (induction n) simp_all
  have "0 \<le> lc_Count cfg" if "lc_Duration cfg \<le> 0" using assms that by (auto simp: loadgen_config_ok_def duration64_def)
  then show ?thesis
    by (simp add: lg_inv_def inv_counts_def inv_remaining_def lg_start_def over_def none caller_weights oks_def errs_def)
qed

lemma lg_reachable:
  assumes "reaches (lg_step cfg C) st0 st" "lg_inv cfg st0" shows "lg_inv cfg st"
  using assms
proof (induction rule: reaches.induct)
  case (reaches_step s t u)
  then show ?case using inv_counts_step inv_remaining_step lg_step_callers unfolding lg_inv_def by metis
qed

section \<open>Finished runs\<close>

text \<open>\<open>wg.Wait()\<close> returns when every caller is gone.\<close>

definition finished :: "'s lg_run \<Rightarrow> bool" where
  "finished st \<longleftrightarrow> list_all (\<lambda>c. lg_pc c = Gone) (lw_callers st)"

lemma finished_over:
  assumes "finished st"
  shows "over counted st = 0" "over flying st = 0" "over unmerged st = {#}"
    "over gone_one st = int (length (lw_callers st))"
proof -
  have "list_all (\<lambda>c. lg_pc c = Gone) cs \<Longrightarrow> sum_list (map counted cs) = 0 \<and> sum_list (map flying cs) = 0 \<and>
      sum_list (map unmerged cs) = {#} \<and> sum_list (map gone_one cs) = int (length cs)" for cs
    by (induction cs) (simp_all add: caller_weights)
  from this [OF assms [unfolded finished_def]]
  show "over counted st = 0" "over flying st = 0" "over unmerged st = {#}"
    "over gone_one st = int (length (lw_callers st))" by (simp_all add: over_def)
qed

lemma over_counted_bounds: "0 \<le> over counted st" "0 \<le> over flying st" "0 \<le> over gone_one st"
proof -
  have "0 \<le> sum_list (map counted cs) \<and> 0 \<le> sum_list (map flying cs) \<and> 0 \<le> sum_list (map gone_one cs)" for cs
    by (induction cs) (auto simp: caller_weights split: caller_pc.splits)
  then show "0 \<le> over counted st" "0 \<le> over flying st" "0 \<le> over gone_one st" unfolding over_def by auto
qed

lemma oks_errs_length: "length (oks l) + length (errs l) = length l"
  by (induction l) (auto simp: oks_def errs_def)

text \<open>
  C14. A load run accounts for every operation. Start the callers of an accepted configuration and
  interleave them in any way, with any replies. At every moment the operations counted as
  succeeded or failed are among the attempted ones, and a run with a fixed count never attempts
  more. When all callers are gone, every attempt succeeded or failed, there is one latency sample
  per success, and a run with a fixed count has made exactly that many attempts; so when such a
  run exits with success, all of them succeeded.
\<close>

theorem load_run_accounts:
  assumes ok: "loadgen_config_ok cfg" and run: "reaches (lg_step cfg C) (lg_start cfg users tally s) st"
  shows "lw_succeeded st + lw_failed st \<le> lw_attempted st \<and>
    (lc_Duration cfg \<le> 0 \<longrightarrow> lw_attempted st \<le> lc_Count cfg) \<and>
    (finished st \<longrightarrow>
       lw_attempted st = lw_succeeded st + lw_failed st \<and> int (length (lw_latencies st)) = lw_succeeded st \<and>
       (lc_Duration cfg \<le> 0 \<longrightarrow> lw_attempted st = lc_Count cfg \<and>
          (\<not> run_failed (fst (lg_report cfg C i50 i95 i99 elapsed st)) \<longrightarrow> lw_succeeded st = lc_Count cfg)))"
proof -
  from lg_reachable [OF run lg_inv_start [OF ok]]
  have i: "inv_counts st" "inv_remaining cfg st" "length (lw_callers st) = nat (lc_Concurrency cfg)"
    by (simp_all add: lg_inv_def)
  note c = i(1) [unfolded inv_counts_def] and b = over_counted_bounds [of st]
  have len: "int (length (lw_log st)) = lw_succeeded st + lw_failed st"
    using c oks_errs_length [of "lw_log st"] by simp
  have most: "lw_attempted st \<le> lc_Count cfg" if "lc_Duration cfg \<le> 0"
    using i(2) that b by (auto simp: inv_remaining_def split: if_splits)
  have fin: "lw_attempted st = lw_succeeded st + lw_failed st" "int (length (lw_latencies st)) = lw_succeeded st"
    if "finished st"
    using c len finished_over [OF that] by (auto dest: arg_cong [where f = size])
  have all: "lw_attempted st = lc_Count cfg" if "finished st" "lc_Duration cfg \<le> 0"
  proof -
    have "0 < lc_Concurrency cfg" using ok by (simp add: loadgen_config_ok_def duration64_def)
    then show ?thesis using i(2,3) that finished_over [OF that(1)] by (auto simp: inv_remaining_def split: if_splits)
  qed
  have "lw_failed st = 0" if "\<not> run_failed (fst (lg_report cfg C i50 i95 i99 elapsed st))"
    using that c by (auto simp: run_failed_def lg_report_def Let_def split: prod.splits)
  then show ?thesis using len c b most fin all by auto
qed

section \<open>The report against a reference\<close>

text \<open>The \<open>k\<close>-th smallest of unsorted samples: the least one with more than \<open>k\<close> samples up to it.\<close>

definition kth_smallest :: "nat \<Rightarrow> int list \<Rightarrow> int" where
  "kth_smallest k xs = Min (set (filter (\<lambda>x. k < length (filter (\<lambda>y. y \<le> x) xs)) xs))"

definition clamp :: "int \<Rightarrow> nat \<Rightarrow> nat" where
  "clamp idx n = min (nat idx) (n - 1)"

definition reference_percentile :: "(nat \<Rightarrow> int) \<Rightarrow> int list \<Rightarrow> int" where
  "reference_percentile index xs = (if xs = [] then 0 else kth_smallest (clamp (index (length xs)) (length xs)) xs)"

lemma filter_sort_length: "length (filter P (sort xs)) = length (filter P xs)"
proof -
  have "mset (filter P (sort xs)) = mset (filter P xs)" by simp
  then show ?thesis by (metis size_mset)
qed

lemma sort_nth_kth:
  assumes "k < length xs" shows "sort xs ! k = kth_smallest k (xs :: int list)"
proof -
  define ys where "ys = sort xs"
  have ys: "sorted ys" "length ys = length xs" "set ys = set xs" by (simp_all add: ys_def)
  have len: "length (filter (\<lambda>y. y \<le> z) xs) = card {i. i < length ys \<and> ys ! i \<le> z}" for z
    unfolding ys_def by (rule trans [OF filter_sort_length [symmetric] length_filter_conv_card])
  have in_set: "ys ! k \<in> set xs" using assms ys by (metis nth_mem)
  have "{..k} \<subseteq> {i. i < length ys \<and> ys ! i \<le> ys ! k}"
    using assms ys by (auto simp: sorted_nth_mono)
  from card_mono [OF _ this] have enough: "k < length (filter (\<lambda>y. y \<le> ys ! k) xs)" by (simp add: len)
  have least: "ys ! k \<le> z" if "k < length (filter (\<lambda>y. y \<le> z) xs)" for z
  proof (rule ccontr)
    assume z: "\<not> ys ! k \<le> z"
    have "{i. i < length ys \<and> ys ! i \<le> z} \<subseteq> {..<k}"
    proof
      fix i assume "i \<in> {i. i < length ys \<and> ys ! i \<le> z}"
      then have i: "i < length ys" "ys ! i \<le> z" by auto
      show "i \<in> {..<k}"
      proof (rule ccontr)
        assume "i \<notin> {..<k}"
        then have "ys ! k \<le> ys ! i" using i(1) by (intro sorted_nth_mono [OF ys(1)]) simp_all
        with z i show False by simp
      qed
    qed
    from card_mono [OF _ this] that show False by (simp add: len)
  qed
  have "Min (set (filter (\<lambda>x. k < length (filter (\<lambda>y. y \<le> x) xs)) xs)) = ys ! k"
    by (rule Min_eqI) (use in_set enough least in auto)
  then show ?thesis by (simp add: kth_smallest_def ys_def)
qed

lemma percentile_sorted: "percentile index (sort xs) = reference_percentile index xs"
proof (cases "xs = []")
  case False
  define k where "k = clamp (index (length xs)) (length xs)"
  have n: "0 < length xs" using False by simp
  have k: "k < length xs" unfolding k_def clamp_def by (rule le_less_trans [OF min.cobounded2]) (use n in simp)
  consider (neg) "index (length xs) < 0" | (big) "int (length xs) \<le> index (length xs)"
    | (mid) "0 \<le> index (length xs)" "index (length xs) < int (length xs)" by linarith
  moreover have "sort xs \<noteq> []" "nat (int (length xs) - 1) = length xs - 1" using n by (metis length_sort length_greater_0_conv, simp)
  ultimately have "percentile index (sort xs) = sort xs ! k"
    using n by cases (simp_all add: percentile_def Let_def k_def clamp_def min_def)
  then show ?thesis using sort_nth_kth [OF k] False by (simp add: reference_percentile_def k_def)
qed (simp add: percentile_def reference_percentile_def)

text \<open>The report a single sequential collector would make of the operations \<open>l\<close>.\<close>

definition reference_report ::
  "loadgen_config \<Rightarrow> (nat \<Rightarrow> int) \<Rightarrow> (nat \<Rightarrow> int) \<Rightarrow> (nat \<Rightarrow> int) \<Rightarrow> int \<Rightarrow> (error option \<times> int) list
   \<Rightarrow> replicaTally \<Rightarrow> string list \<times> string list \<Rightarrow> Report" where
  "reference_report cfg i50 i95 i99 elapsed l tally oracles =
     \<lparr>rp_Workload = lc_Workload cfg, rp_Requested = lc_Count cfg, rp_Attempted = int (length l),
      rp_Succeeded = int (length (oks l)), rp_Failed = int (length (errs l)), rp_Elapsed = elapsed,
      rp_LatencySamples = length (oks l), rp_P50Latency = reference_percentile i50 (oks l),
      rp_P95Latency = reference_percentile i95 (oks l), rp_P99Latency = reference_percentile i99 (oks l),
      rp_FirstErrors = take 5 (errs l), rp_Replicas = tally,
      rp_OracleFailures = fst oracles, rp_VerificationErrors = snd oracles\<rparr>"


section \<open>A run\<close>

text \<open>One caller, one append that succeeds.\<close>

definition lg_cfg :: loadgen_config where
  "lg_cfg = \<lparr>lc_Addresses = [''w:1''], lc_Concurrency = 1, lc_Count = 1, lc_Duration = 0,
     lc_Workload = WorkloadIndependentWrites, lc_Users = 1, lc_ContentSize = 2\<rparr>"

definition lg_stub :: "nat SaferWorkerClient" where
  "lg_stub = \<lparr>call_InitUser = (\<lambda>u p n. (None, [], n)), call_StoreFile = (\<lambda>u p f b n. (None, [], length b)),
     call_AppendToFile = (\<lambda>u p f b n. (None, [], n + length b)),
     call_LoadFile = (\<lambda>u p f n. (Inr (replicate n CHR 0x00), [], n))\<rparr>"

definition lg_done :: "nat lg_run" where
  "lg_done = caller_take lg_cfg False 0 (caller_outcome None 7 0 (caller_attempt None 7 0
     (caller_run lg_cfg lg_stub True 7 0 (caller_take lg_cfg False 0 (lg_start lg_cfg [setup_user 0 0] [] 2)))))"

lemma lg_cfg_ok: "loadgen_config_ok lg_cfg"
  by (simp add: loadgen_config_ok_def lg_cfg_def duration64_def Workload_valid_def
      WorkloadIndependentWrites_def WorkloadSameFileWrites_def WorkloadReads_def)

lemmas lg_run_defs = lg_done_def lg_start_def caller_take_def caller_run_def caller_attempt_def caller_outcome_def
  runOne_def set_caller_def callerUser_def count_append_def tally_record_def lg_cfg_def lg_stub_def

lemma lg_done_run: "reaches (lg_step lg_cfg lg_stub) (lg_start lg_cfg [setup_user 0 0] [] 2) lg_done" "finished lg_done"
proof -
  let ?s = "lg_start lg_cfg [setup_user 0 0] [] 2"
  note go = reaches_step [where step = "lg_step lg_cfg lg_stub" and s = ?s]
  note 1 = go [OF reaches_refl lg_take [of 0 ?s lg_cfg lg_stub False]]
  note 2 = go [OF 1 lg_runs [where coin = True and lat = 7]]
  note 3 = go [OF 2 lg_attempt [where err = None and lat = 7]]
  note 4 = go [OF 3 lg_outcome [where err = None and lat = 7]]
  note 5 = go [OF 4 lg_take [where past_deadline = False and i = 0]]
  show "reaches (lg_step lg_cfg lg_stub) ?s lg_done"
    unfolding lg_done_def by (rule 5) (simp_all add: lg_run_defs Let_def)
  show "finished lg_done" by (simp add: finished_def lg_run_defs Let_def)
qed

theorem load_run_accounts_witness:
  "lw_attempted lg_done = 1 \<and> lw_attempted lg_done = lw_succeeded lg_done + lw_failed lg_done"
  using load_run_accounts [OF lg_cfg_ok lg_done_run(1), where ?i50.0 = "\<lambda>_. 0" and ?i95.0 = "\<lambda>_. 0"
      and ?i99.0 = "\<lambda>_. 0" and elapsed = 0] lg_done_run(2)
  by (simp add: lg_cfg_def)


text \<open>
  \<open>Report.Requested\<close> is documented as \<open>Count\<close>, or 0 when the run was bounded by its duration; the
  code always sets \<open>Count\<close>.
\<close>

lemma requested_of_duration_run:
  "rp_Requested (fst (lg_report cfg C i50 i95 i99 elapsed st)) = lc_Count cfg"
  by (simp add: lg_report_def Let_def split: prod.splits)

end
