(* ===== verification/Telemetry.thy ===== *)
theory Telemetry
  imports Safer_Prelude
begin

text \<open>
  The telemetry bootstrap, \<open>internal/telemetry/telemetry.go\<close>, and the \<open>setupTelemetry\<close> with which
  the three programs call it. The OpenTelemetry SDK is a parameter: what building the resource,
  creating each exporter and shutting each exporter down report. The model keeps what \<open>Setup\<close>
  changes of the process: the propagator, the two global providers (\<open>None\<close> is the SDK's no-op), and
  the exporters that hold a connection and have not been shut down.
\<close>

section \<open>State and parameters\<close>

definition EnvEndpoint :: string where "EnvEndpoint = ''OTEL_EXPORTER_OTLP_ENDPOINT''"
definition EnvTracesEndpoint :: string where "EnvTracesEndpoint = ''OTEL_EXPORTER_OTLP_TRACES_ENDPOINT''"
definition EnvMetricsEndpoint :: string where "EnvMetricsEndpoint = ''OTEL_EXPORTER_OTLP_METRICS_ENDPOINT''"

datatype exporter = TraceExporter | MetricExporter

record otel =
  ot_propagator :: bool
  ot_tracerProvider :: "exporter option"
  ot_meterProvider :: "exporter option"
  ot_live :: "exporter list"

record telemetry_config =
  tc_ServiceName :: string
  tc_ServiceVersion :: string

text \<open>What the SDK reports; \<open>None\<close> is success.\<close>

record otel_sdk =
  resource_New :: "(string \<times> string) list \<Rightarrow> error option"
  exporter_New :: "exporter \<Rightarrow> error option"
  exporter_Shutdown :: "exporter \<Rightarrow> error option"

section \<open>Operations\<close>

fun firstNonEmpty :: "string list \<Rightarrow> string" where
  "firstNonEmpty [] = []"
| "firstNonEmpty (v # vs) = (if v \<noteq> [] then v else firstNonEmpty vs)"

text \<open>\<open>fresh\<close> is a new uuid, the identity of this process.\<close>

definition buildResource :: "otel_sdk \<Rightarrow> string \<Rightarrow> telemetry_config \<Rightarrow> error option" where
  "buildResource K fresh cfg =
     (let attrs = [(''service.name'', tc_ServiceName cfg), (''service.instance.id'', fresh)];
          attrs = (if tc_ServiceVersion cfg \<noteq> [] then attrs @ [(''service.version'', tc_ServiceVersion cfg)] else attrs)
      in resource_New K attrs)"

definition create :: "exporter \<Rightarrow> otel \<Rightarrow> otel" where
  "create x st = st\<lparr>ot_live := x # ot_live st\<rparr>"

text \<open>Shutting an exporter down releases what it holds, also when the final flush fails.\<close>

definition release :: "exporter \<Rightarrow> otel \<Rightarrow> otel" where
  "release x st = st\<lparr>ot_live := remove1 x (ot_live st)\<rparr>"

text \<open>
  \<open>Setup\<close>: the exporters whose providers the returned \<open>Shutdown\<close> shuts down (none for
  \<open>noopShutdown\<close>), the error, and the process afterwards.
\<close>

definition Setup ::
  "otel_sdk \<Rightarrow> (string \<Rightarrow> string) \<Rightarrow> string \<Rightarrow> telemetry_config \<Rightarrow> otel \<Rightarrow> (exporter list \<times> error option) \<times> otel" where
  "Setup K getenv fresh cfg st0 =
     (let st = st0\<lparr>ot_propagator := True\<rparr>;
          tracesEndpoint = firstNonEmpty [getenv EnvTracesEndpoint, getenv EnvEndpoint];
          metricsEndpoint = firstNonEmpty [getenv EnvMetricsEndpoint, getenv EnvEndpoint]
      in if tracesEndpoint = [] \<and> metricsEndpoint = [] then (([], None), st)
      else case buildResource K fresh cfg of
        Some e \<Rightarrow> (([], Some (Wrap ''telemetry: building resource'' e)), st)
      | None \<Rightarrow>
     (case (if tracesEndpoint \<noteq> [] then exporter_New K TraceExporter else None) of
        Some e \<Rightarrow> (([], Some (Wrap ''telemetry: creating trace exporter'' e)), st)
      | None \<Rightarrow>
     (let traces = tracesEndpoint \<noteq> []; st1 = (if traces then create TraceExporter st else st)
      in case (if metricsEndpoint \<noteq> [] then exporter_New K MetricExporter else None) of
        Some e \<Rightarrow> (([], Some (Wrap ''telemetry: creating metric exporter'' e)),
                   if traces then release TraceExporter st1 else st1)
      | None \<Rightarrow>
     (let metrics = metricsEndpoint \<noteq> []; st2 = (if metrics then create MetricExporter st1 else st1);
          st3 = (if traces then st2\<lparr>ot_tracerProvider := Some TraceExporter\<rparr> else st2);
          st4 = (if metrics then st3\<lparr>ot_meterProvider := Some MetricExporter\<rparr> else st3)
      in (((if traces then [TraceExporter] else []) @ (if metrics then [MetricExporter] else []), None), st4)))))"

text \<open>
  The returned \<open>Shutdown\<close>: every provider is shut down, whatever the others report, and the
  errors are joined.
\<close>

definition errors_Join :: "error list \<Rightarrow> error option" where
  "errors_Join es = (if es = [] then None else Some (ErrorMsg (butlast (concat (map (\<lambda>e. err_Error e @ [CHR 0x0A]) es)))))"

definition run_Shutdown :: "otel_sdk \<Rightarrow> exporter list \<Rightarrow> otel \<Rightarrow> error option \<times> otel" where
  "run_Shutdown K shutdownFuncs st =
     (errors_Join (List.map_filter (exporter_Shutdown K) shutdownFuncs), fold release shutdownFuncs st)"

text \<open>\<open>setupTelemetry\<close>, the same in the three programs: an error is logged and telemetry is off.\<close>

definition setupTelemetry ::
  "otel_sdk \<Rightarrow> (string \<Rightarrow> string) \<Rightarrow> string \<Rightarrow> telemetry_config \<Rightarrow> otel \<Rightarrow> exporter list \<times> otel" where
  "setupTelemetry K getenv fresh cfg st =
     (case Setup K getenv fresh cfg st of
        ((shutdownTelemetry, None), st') \<Rightarrow> (shutdownTelemetry, st')
      | ((_, Some e), st') \<Rightarrow> ([], st'))"

section \<open>All or nothing\<close>

definition enabled :: "(string \<Rightarrow> string) \<Rightarrow> exporter \<Rightarrow> bool" where
  "enabled getenv x \<longleftrightarrow>
     getenv EnvEndpoint \<noteq> [] \<or>
     getenv (case x of TraceExporter \<Rightarrow> EnvTracesEndpoint | MetricExporter \<Rightarrow> EnvMetricsEndpoint) \<noteq> []"

text \<open>How a call of \<open>Setup\<close> ends: with an error and nothing but the propagator changed, or without.\<close>

lemma Setup_cases:
  assumes "Setup K getenv fresh cfg st = ((fns, err), st')"
  shows "case err of
      Some e \<Rightarrow> fns = [] \<and> st' = st\<lparr>ot_propagator := True\<rparr>
    | None \<Rightarrow> fns = filter (enabled getenv) [TraceExporter, MetricExporter] \<and>
        st' = st\<lparr>ot_propagator := True,
          ot_tracerProvider := (if enabled getenv TraceExporter then Some TraceExporter else ot_tracerProvider st),
          ot_meterProvider := (if enabled getenv MetricExporter then Some MetricExporter else ot_meterProvider st),
          ot_live := rev fns @ ot_live st\<rparr>"
proof -
  obtain te me where ends: "te = firstNonEmpty [getenv EnvTracesEndpoint, getenv EnvEndpoint]"
    "me = firstNonEmpty [getenv EnvMetricsEndpoint, getenv EnvEndpoint]" by blast
  then have e: "enabled getenv TraceExporter \<longleftrightarrow> te \<noteq> []" "enabled getenv MetricExporter \<longleftrightarrow> me \<noteq> []"
    by (auto simp: enabled_def)
  show ?thesis
    using assms unfolding Setup_def Let_def ends [symmetric]
    by (cases "te = []"; cases "me = []"; cases st)
       (auto simp: e create_def release_def split: option.splits)
qed

text \<open>
  C5. Telemetry is set up completely or not at all, and nothing leaks. Whatever the SDK reports:
  when \<open>Setup\<close> fails, nothing is installed, no exporter is left alive, and the \<open>Shutdown\<close> it returns
  does nothing, so a program that goes on without telemetry really has none. When it succeeds, a
  provider is installed for exactly the signals that have an endpoint; without an endpoint that
  is none and nothing is created. Running the returned \<open>Shutdown\<close> releases every exporter \<open>Setup\<close>
  created, even when one of them reports an error, and reports an error exactly then. The
  propagator is installed in every case.
\<close>

theorem telemetry_all_or_nothing:
  assumes run: "Setup K getenv fresh cfg st = ((fns, err), st')" and down: "run_Shutdown K fns st' = (err2, st2)"
  shows "ot_propagator st' \<and>
    (err \<noteq> None \<longrightarrow> st' = st\<lparr>ot_propagator := True\<rparr> \<and> setupTelemetry K getenv fresh cfg st = ([], st')) \<and>
    (err = None \<longrightarrow> setupTelemetry K getenv fresh cfg st = (fns, st') \<and>
       ot_tracerProvider st' = (if enabled getenv TraceExporter then Some TraceExporter else ot_tracerProvider st) \<and>
       ot_meterProvider st' = (if enabled getenv MetricExporter then Some MetricExporter else ot_meterProvider st)) \<and>
    (\<not> enabled getenv TraceExporter \<and> \<not> enabled getenv MetricExporter \<longrightarrow>
       err = None \<and> st' = st\<lparr>ot_propagator := True\<rparr>) \<and>
    ot_live st2 = ot_live st \<and> (err2 = None) = (\<forall>x \<in> set fns. exporter_Shutdown K x = None)"
proof -
  note c = Setup_cases [OF run]
  have none: "err = None" if "\<not> enabled getenv TraceExporter" "\<not> enabled getenv MetricExporter"
    using run that by (simp add: Setup_def enabled_def)
  have live: "ot_live st2 = ot_live st"
    using down c by (cases err) (auto simp: run_Shutdown_def release_def)
  have "(err2 = None) = (\<forall>x \<in> set fns. exporter_Shutdown K x = None)"
    using down by (auto simp: run_Shutdown_def errors_Join_def List.map_filter_def filter_empty_conv split: if_splits)
  with c none live run show ?thesis by (cases err) (auto simp: setupTelemetry_def)
qed

definition demo_sdk :: otel_sdk where
  "demo_sdk = \<lparr>resource_New = (\<lambda>_. None),
     exporter_New = (\<lambda>x. if x = MetricExporter then Some (ErrorMsg ''bad endpoint'') else None), exporter_Shutdown = (\<lambda>_. None)\<rparr>"

definition demo_otel :: otel where
  "demo_otel = \<lparr>ot_propagator = False, ot_tracerProvider = None, ot_meterProvider = None, ot_live = []\<rparr>"

text \<open>Traces and metrics are enabled and the second exporter fails: the first is shut down again.\<close>

theorem telemetry_all_or_nothing_witness:
  "Setup demo_sdk (\<lambda>_. ''http://otel:4317'') ''i'' \<lparr>tc_ServiceName = ''safer-worker'', tc_ServiceVersion = []\<rparr> demo_otel =
     (([], Some (Wrap ''telemetry: creating metric exporter'' (ErrorMsg ''bad endpoint''))), demo_otel\<lparr>ot_propagator := True\<rparr>) \<and>
   setupTelemetry demo_sdk (\<lambda>_. ''http://otel:4317'') ''i'' \<lparr>tc_ServiceName = ''safer-worker'', tc_ServiceVersion = []\<rparr> demo_otel =
     ([], demo_otel\<lparr>ot_propagator := True\<rparr>)"
proof -
  have s: "Setup demo_sdk (\<lambda>_. ''http://otel:4317'') ''i'' \<lparr>tc_ServiceName = ''safer-worker'', tc_ServiceVersion = []\<rparr> demo_otel =
     (([], Some (Wrap ''telemetry: creating metric exporter'' (ErrorMsg ''bad endpoint''))), demo_otel\<lparr>ot_propagator := True\<rparr>)"
    by (simp add: Setup_def buildResource_def demo_sdk_def demo_otel_def create_def release_def)
  show ?thesis using telemetry_all_or_nothing [OF s, of None "demo_otel\<lparr>ot_propagator := True\<rparr>"] s
    by (simp add: run_Shutdown_def errors_Join_def)
qed

end
