(* ===== verification/Startup.thy ===== *)
theory Startup
  imports Worker
begin

text \<open>
  How the two services start and stop: \<open>cmd/worker/main.go\<close>, \<open>cmd/coordinator/main.go\<close>, and the
  opening of MongoDB in \<open>mongostore/store.go\<close> and \<open>mongofence/store.go\<close>. What the outside does, the
  MongoDB driver's \<open>Connect\<close> and \<open>Ping\<close>, \<open>grpc.DialContext\<close>, \<open>net.Listen\<close>, and how serving ends, is
  given by parameters. A run yields its error and the trace of the effects it had; deferred calls
  run in reverse order on every return. Logging is left out, and telemetry appears in the trace
  only as its final flush.
\<close>

section \<open>Opening MongoDB\<close>

record mongo_open =
  mo_database :: string
  mo_timeout :: int
  mo_transactionTimeout :: int

definition mongo_Open ::
  "(string \<Rightarrow> error option) \<Rightarrow> (string \<Rightarrow> error option) \<Rightarrow> mongo_config \<Rightarrow> error + mongo_open" where
  "mongo_Open connect ping cfg0 =
     (let cfg = withDefaults cfg0
      in case config_validate cfg of
        Some e \<Rightarrow> Inl e
      | None \<Rightarrow>
         (case connect (mc_URI cfg) of
            Some e \<Rightarrow> Inl (Wrap ''mongostore: connect'' e)
          | None \<Rightarrow>
             (case ping (mc_URI cfg) of
                Some e \<Rightarrow> Inl (Wrap ''mongostore: ping'' e)
              | None \<Rightarrow> Inr \<lparr>mo_database = mc_Database cfg, mo_timeout = mc_Timeout cfg,
                             mo_transactionTimeout = mc_TransactionTimeout cfg\<rparr>)))"

definition mongofence_Open ::
  "(string \<Rightarrow> error option) \<Rightarrow> (string \<Rightarrow> error option) \<Rightarrow> string \<Rightarrow> string \<Rightarrow> int \<Rightarrow> error + int" where
  "mongofence_Open connect ping uri database timeout =
     (if uri = [] then Inl (ErrorMsg ''mongofence: a MongoDB URI is required'')
      else if database = [] then Inl (ErrorMsg ''mongofence: a database name is required'')
      else case connect uri of
        Some e \<Rightarrow> Inl (Wrap ''mongofence: connect'' e)
      | None \<Rightarrow>
         (case ping uri of
            Some e \<Rightarrow> Inl (Wrap ''mongofence: ping'' e)
          | None \<Rightarrow> Inr (if timeout \<le> 0 then 10 * Second else timeout)))"

section \<open>The installed backends\<close>

text \<open>
  The two handles of \<open>client/client.go\<close> that select where operations store and lock. A handle names
  the backend that was installed; a missing object or key store is \<open>None\<close>. Installing panics
  (\<open>None\<close>) without a backend and otherwise returns the function that puts the previous one back.
\<close>

datatype storage_handle = UserlibStorage | MongoStorage mongo_open
datatype coordination_handle = LocalCoordination | RemoteCoordination coord_backend

record globals =
  activeStorage :: "storage_handle option \<times> storage_handle option"
  activeCoordination :: coordination_handle

definition UseStorage ::
  "storage_handle option \<Rightarrow> storage_handle option \<Rightarrow> globals \<Rightarrow> (globals \<times> (globals \<Rightarrow> globals)) option" where
  "UseStorage objects ks g =
     (if objects = None \<or> ks = None then None
      else let previous = activeStorage g
           in Some (g\<lparr>activeStorage := (objects, ks)\<rparr>, \<lambda>g'. g'\<lparr>activeStorage := previous\<rparr>))"

definition UseUserlibStorage :: "globals \<Rightarrow> (globals \<times> (globals \<Rightarrow> globals)) option" where
  "UseUserlibStorage = UseStorage (Some UserlibStorage) (Some UserlibStorage)"

definition UseCoordination ::
  "coordination_handle option \<Rightarrow> globals \<Rightarrow> (globals \<times> (globals \<Rightarrow> globals)) option" where
  "UseCoordination b g =
     (case b of
        None \<Rightarrow> None
      | Some c \<Rightarrow> let previous = activeCoordination g
                  in Some (g\<lparr>activeCoordination := c\<rparr>, \<lambda>g'. g'\<lparr>activeCoordination := previous\<rparr>))"

definition UseLocalCoordination :: "globals \<Rightarrow> (globals \<times> (globals \<Rightarrow> globals)) option" where
  "UseLocalCoordination = UseCoordination (Some LocalCoordination)"

section \<open>The trace\<close>

datatype effect = OpenMongo | CloseMongo | OpenCoordinator | CloseCoordinator
  | InstallStorage | RestoreStorage | InstallCoordination | RestoreCoordination
  | Listen | SetLive | StartReadiness | StopReadiness | Serve | SetUnready | GracefulStop | ForceStop
  | OpenFences | CloseFences | StartServer | StopServer | FlushTelemetry

datatype serve_end = Signalled bool | ServeError error

text \<open>\<open>shutdown\<close>: \<open>in_time\<close> says whether the graceful stop ended before the timeout.\<close>

definition shutdown :: "bool \<Rightarrow> effect list" where
  "shutdown in_time = [SetUnready, GracefulStop] @ (if in_time then [] else [ForceStop])"

section \<open>The worker\<close>

text \<open>
  The last two results are the handles while the worker serves, if it does, and in the end. A
  panic of an installation unwinds through the deferred calls.
\<close>

definition worker_run ::
  "(string \<Rightarrow> error option) \<Rightarrow> (string \<Rightarrow> error option) \<Rightarrow> (string \<Rightarrow> error option) \<Rightarrow> 's LockCoordinatorClient
   \<Rightarrow> (string \<Rightarrow> error option) \<Rightarrow> serve_end \<Rightarrow> worker_config \<Rightarrow> globals \<Rightarrow> 's
   \<Rightarrow> error option \<times> effect list \<times> globals option \<times> globals" where
  "worker_run connect ping dial R listen served_until cfg g s =
     (case mongo_Open connect ping (wc_Mongo cfg) of
        Inl e \<Rightarrow> (Some (Wrap ''opening mongo'' e), [FlushTelemetry], None, g)
      | Inr store \<Rightarrow>
     (case Dial dial R Background (wc_Coordinator cfg) s of
        (Inl e, _, _) \<Rightarrow> (Some (Wrap ''dialing coordinator'' e), [OpenMongo, CloseMongo, FlushTelemetry], None, g)
      | (Inr backend, _, _) \<Rightarrow>
     (let up0 = [OpenMongo, OpenCoordinator]; down0 = [CloseCoordinator, CloseMongo, FlushTelemetry]
      in case UseStorage (Some (MongoStorage store)) (Some (MongoStorage store)) g of
        None \<Rightarrow> (Some (ErrorMsg ''client: UseStorage requires both an ObjectStore and a KeyStore''), up0 @ down0, None, g)
      | Some (g1, restoreStorage) \<Rightarrow>
     (let up1 = up0 @ [InstallStorage]; down1 = RestoreStorage # down0
      in case UseCoordination (Some (RemoteCoordination backend)) g1 of
        None \<Rightarrow> (Some (ErrorMsg ''client: UseCoordination requires a backend''), up1 @ down1, None, restoreStorage g1)
      | Some (g2, restoreCoordination) \<Rightarrow>
     (let up = up1 @ [InstallCoordination]; down = RestoreCoordination # down1;
          final = restoreStorage (restoreCoordination g2)
      in case listen (wc_ListenAddr cfg) of
        Some e \<Rightarrow> (Some (Wrap ''listen on %s'' e), up @ down, None, final)
      | None \<Rightarrow>
     (let serving = up @ [Listen, SetLive, StartReadiness, Serve]
      in case served_until of
        Signalled in_time \<Rightarrow> (None, serving @ shutdown in_time @ StopReadiness # down, Some g2, final)
      | ServeError e \<Rightarrow> (Some (Wrap ''serve'' e), serving @ StopReadiness # down, Some g2, final)))))))"

section \<open>The coordinator\<close>

text \<open>\<open>openFenceStore\<close>: \<open>Inr None\<close> is no store and no error.\<close>

definition openFenceStore ::
  "(nat \<Rightarrow> nat \<Rightarrow> nat \<Rightarrow> nat) \<Rightarrow> (string \<Rightarrow> string) \<Rightarrow> (string \<Rightarrow> error option) \<Rightarrow> (string \<Rightarrow> error option)
   \<Rightarrow> 'd FenceStore \<Rightarrow> coordinator_config \<Rightarrow> error + 'd FenceStore option" where
  "openFenceStore frac getenv connect ping F cfg =
     (case mongo_ConfigFromEnv frac getenv of
        Inl e \<Rightarrow> Inl (Wrap ''MongoDB configuration'' e)
      | Inr None \<Rightarrow>
         if \<not> oc_AllowUnfenced cfg
         then Inl (ErrorMsg ''%s is not set; a production coordinator refuses to start without a durable fencing store'')
         else Inr None
      | Inr (Some mongoCfg) \<Rightarrow>
         (case mongofence_Open connect ping (mc_URI mongoCfg) (mc_Database mongoCfg) (mc_Timeout mongoCfg) of
            Inl e \<Rightarrow> if \<not> oc_AllowUnfenced cfg then Inl (Wrap ''opening the fence store'' e) else Inr None
          | Inr _ \<Rightarrow> Inr (Some F)))"

definition server_config :: "coordinator_config \<Rightarrow> 'd FenceStore option \<Rightarrow> 'd ServerConfig" where
  "server_config cfg fences = \<lparr>cfg_LockManager = None, cfg_Fences = fences, cfg_LeaseDuration = oc_LeaseDuration cfg,
     cfg_SweepInterval = oc_SweepInterval cfg, cfg_CleanupRetryInterval = 0\<rparr>"

text \<open>The server the run put into service, if it got that far.\<close>

definition coordinator_run ::
  "(nat \<Rightarrow> nat \<Rightarrow> nat \<Rightarrow> nat) \<Rightarrow> (string \<Rightarrow> string) \<Rightarrow> (string \<Rightarrow> error option) \<Rightarrow> (string \<Rightarrow> error option)
   \<Rightarrow> 'd FenceStore \<Rightarrow> (string \<Rightarrow> error option) \<Rightarrow> serve_end \<Rightarrow> coordinator_config \<Rightarrow> 'd
   \<Rightarrow> error option \<times> effect list \<times> 'd Server option" where
  "coordinator_run frac getenv connect ping F listen served_until cfg db =
     (case openFenceStore frac getenv connect ping F cfg of
        Inl e \<Rightarrow> (Some e, [FlushTelemetry], None)
      | Inr fences \<Rightarrow>
         (let opened = (if fences = None then [] else [OpenFences]);
              closed = (if fences = None then [] else [CloseFences])
          in case listen (oc_Address cfg) of
            Some e \<Rightarrow> (Some (Wrap ''listen on %s'' e), opened @ closed @ [FlushTelemetry], None)
          | None \<Rightarrow>
              (case served_until of ServeError e \<Rightarrow> Some (Wrap ''serve'' e) | Signalled _ \<Rightarrow> None,
               opened @ [Listen, StartServer, SetLive, Serve]
                 @ (case served_until of Signalled _ \<Rightarrow> [GracefulStop] | ServeError _ \<Rightarrow> [])
                 @ [StopServer] @ closed @ [FlushTelemetry],
               Some (NewServerWithConfig (server_config cfg fences) db))))"

section \<open>Starting and stopping safely\<close>

text \<open>What each closing effect closes; a trace is balanced when closings match openings, innermost first.\<close>

definition openings :: "effect list" where
  "openings = [OpenMongo, OpenCoordinator, InstallStorage, InstallCoordination, StartReadiness, OpenFences, StartServer]"

fun closes :: "effect \<Rightarrow> effect option" where
  "closes CloseMongo = Some OpenMongo" | "closes CloseCoordinator = Some OpenCoordinator"
| "closes RestoreStorage = Some InstallStorage" | "closes RestoreCoordination = Some InstallCoordination"
| "closes StopReadiness = Some StartReadiness" | "closes CloseFences = Some OpenFences"
| "closes StopServer = Some StartServer" | "closes _ = None"

fun balanced :: "effect list \<Rightarrow> effect list \<Rightarrow> bool" where
  "balanced st [] = (st = [])"
| "balanced st (e # tr) =
     (if e \<in> set openings then balanced (e # st) tr
      else case closes e of
        None \<Rightarrow> balanced st tr
      | Some o1 \<Rightarrow> (case st of [] \<Rightarrow> False | x # xs \<Rightarrow> x = o1 \<and> balanced xs tr))"

text \<open>What is open while the service serves.\<close>

fun open_at :: "effect list \<Rightarrow> effect list \<Rightarrow> effect list option" where
  "open_at st [] = None"
| "open_at st (e # tr) =
     (if e = Serve then Some st
      else if e \<in> set openings then open_at (e # st) tr
      else case closes e of None \<Rightarrow> open_at st tr | Some o1 \<Rightarrow> open_at (tl st) tr)"

lemma mongofence_Open_Inr:
  "mongofence_Open connect ping uri d t = Inr x \<Longrightarrow> connect uri = None \<and> ping uri = None"
  by (auto simp: mongofence_Open_def split: if_splits option.splits)

lemma openFenceStore_closed:
  assumes "openFenceStore frac getenv connect ping F cfg = Inr fences" "\<not> oc_AllowUnfenced cfg"
  shows "fences = Some F \<and> connect (getenv EnvURI) = None \<and> ping (getenv EnvURI) = None"
  using assms mongo_ConfigFromEnv_ok [of frac getenv] mongofence_Open_Inr [of connect ping "getenv EnvURI"]
  by (auto simp: openFenceStore_def split: sum.splits option.splits if_splits)

lemma coordinator_run_trace:
  assumes "coordinator_run frac getenv connect ping F listen fin cfg db = (e, tr, sv)"
  shows "balanced [] tr" "(Serve \<in> set tr) = (sv \<noteq> None)"
  using assms
  by (auto simp: coordinator_run_def Let_def openings_def split: sum.splits option.splits serve_end.splits if_splits)

lemmas installing = UseStorage_def UseCoordination_def

lemma worker_run_trace:
  assumes "worker_run connect ping dial R listen fin cfg g s = (e, tr, sg, g')"
  shows "balanced [] tr" "g' = g" "(Serve \<in> set tr) = (sg \<noteq> None)"
    "Serve \<in> set tr \<Longrightarrow> open_at [] tr = Some [StartReadiness, InstallCoordination, InstallStorage, OpenCoordinator, OpenMongo]"
    "sg = Some h \<Longrightarrow> \<exists>st b x. mongo_Open connect ping (wc_Mongo cfg) = Inr st \<and>
       Dial dial R Background (wc_Coordinator cfg) s = (Inr b, x) \<and>
       h = \<lparr>activeStorage = (Some (MongoStorage st), Some (MongoStorage st)), activeCoordination = RemoteCoordination b\<rparr>"
  using assms
  by (auto simp: worker_run_def installing Let_def openings_def shutdown_def
      split: sum.splits option.splits prod.splits serve_end.splits if_splits)


text \<open>A deployment in which everything can be reached.\<close>

definition demo_env :: "string \<Rightarrow> string" where
  "demo_env n = (if n = EnvURI then ''mongodb://m'' else if n = EnvAddress then ''c:50051'' else [])"

definition demo_rpc :: "unit LockCoordinatorClient" where
  "demo_rpc = \<lparr>rpc_Acquire = (\<lambda>ctx req s. None), rpc_RenewLease = (\<lambda>ctx raw s. (Inr 0, s)),
     rpc_EndTransaction = (\<lambda>ctx raw s. (Inr 0, s)),
     rpc_Health = (\<lambda>ctx s. (Inr \<lparr>h_ActiveTransactions = 0, h_HeldLocks = 0, h_RevokingTransactions = 0\<rparr>, s))\<rparr>"

definition demo_coordinator :: coordinator_config where
  "demo_coordinator = \<lparr>oc_Address = '':0'', oc_LeaseDuration = DefaultLeaseDuration,
     oc_SweepInterval = DefaultSweepInterval, oc_AllowUnfenced = False\<rparr>"

definition demo_worker :: worker_config where
  "demo_worker = \<lparr>wc_ListenAddr = '':0'', wc_ShutdownTimeout = Second, wc_ReadinessInterval = Second,
     wc_AuthConcurrency = 4,
     wc_Mongo = \<lparr>mc_URI = ''mongodb://m'', mc_Database = ''safer'', mc_Timeout = Second, mc_TransactionTimeout = Second\<rparr>,
     wc_Coordinator = \<lparr>cc_Address = ''c:50051'', cc_Timeout = Second, cc_RenewInterval = 0\<rparr>\<rparr>"

definition demo_globals :: globals where
  "demo_globals = \<lparr>activeStorage = (Some UserlibStorage, Some UserlibStorage), activeCoordination = LocalCoordination\<rparr>"


end
