(* ===== verification/Process_Worker.thy ===== *)
theory Process_Worker
  imports Startup Worker_Thms
begin

text \<open>
  The one-shot worker process, \<open>cmd/saferworker/main.go\<close>: it opens the shared store, dials the
  coordinator, logs in, meets the other processes at a barrier, runs one operation and reports the
  file's metadata afterwards. What its connection to the barrier does is a parameter, and so is the
  clock. The command line, the pause hook and the report follow in \<open>Process_Main\<close>.
\<close>

section \<open>Rendezvous\<close>

text \<open>A connection: what dialling, setting the deadline, writing and reading one line report.\<close>

record conn =
  cn_dial :: "string \<Rightarrow> error option"
  cn_deadline :: "error option"
  cn_write :: "string \<Rightarrow> error option"
  cn_read :: "error + string"

definition newline :: char where "newline = CHR 0x0A"

definition waitAtBarrier :: "conn \<Rightarrow> string \<Rightarrow> string \<Rightarrow> error option" where
  "waitAtBarrier c address name =
     (case cn_dial c address of
        Some e \<Rightarrow> Some (Wrap ''dialing %s'' e)
      | None \<Rightarrow>
     (case cn_deadline c of
        Some e \<Rightarrow> Some e
      | None \<Rightarrow>
     (case cn_write c (name @ [newline]) of
        Some e \<Rightarrow> Some (Wrap ''announcing'' e)
      | None \<Rightarrow>
     (case cn_read c of
        Inl e \<Rightarrow> Some (Wrap ''waiting for release'' e)
      | Inr release \<Rightarrow>
          if release \<noteq> ''go'' @ [newline] then Some (ErrorMsg ''unexpected release message %q'') else None))))"

definition announceAndWait :: "conn \<Rightarrow> string \<Rightarrow> string \<Rightarrow> error option" where
  "announceAndWait c address tag =
     (case cn_dial c address of
        Some e \<Rightarrow> Some (Wrap ''dialing %s'' e)
      | None \<Rightarrow>
     (case cn_write c (''paused '' @ tag @ [newline]) of
        Some e \<Rightarrow> Some (Wrap ''announcing the pause'' e)
      | None \<Rightarrow>
     (case cn_read c of
        Inl e \<Rightarrow> Some (Wrap ''waiting to be resumed'' e)
      | Inr release \<Rightarrow>
          if TrimSpace release \<noteq> ''resume'' then Some (ErrorMsg ''unexpected resume message %q'') else None)))"

section \<open>The run\<close>

record result =
  rs_Worker :: string
  rs_Op :: string
  rs_OK :: bool
  rs_Error :: string
  rs_Content :: bytes
  rs_Version :: uint64
  rs_ChunkCount :: uint64
  rs_StartedAt :: int
  rs_EndedAt :: int

definition new_result :: "string \<Rightarrow> string \<Rightarrow> result" where
  "new_result name op = \<lparr>rs_Worker = name, rs_Op = op, rs_OK = False, rs_Error = [], rs_Content = [],
     rs_Version = 0, rs_ChunkCount = 0, rs_StartedAt = 0, rs_EndedAt = 0\<rparr>"

text \<open>Up to the coordinator's connection: the store and the backend that are installed.\<close>

definition sw_connect ::
  "(nat \<Rightarrow> nat \<Rightarrow> nat \<Rightarrow> nat) \<Rightarrow> (string \<Rightarrow> string) \<Rightarrow> (string \<Rightarrow> error option) \<Rightarrow> (string \<Rightarrow> error option)
   \<Rightarrow> (string \<Rightarrow> error option) \<Rightarrow> 's LockCoordinatorClient \<Rightarrow> string \<Rightarrow> 's \<Rightarrow> (error + mongo_open \<times> coord_backend) \<times> 's" where
  "sw_connect frac getenv connect ping dial R database s =
     (case mongo_ConfigFromEnv frac getenv of
        Inl e \<Rightarrow> (Inl (Wrap ''mongo configuration'' e), s)
      | Inr None \<Rightarrow> (Inl (ErrorMsg (EnvURI @ '' is not set'')), s)
      | Inr (Some mongoCfg) \<Rightarrow>
     (case mongo_Open connect ping (if database \<noteq> [] then mongoCfg\<lparr>mc_Database := database\<rparr> else mongoCfg) of
        Inl e \<Rightarrow> (Inl (Wrap ''opening mongo'' e), s)
      | Inr store \<Rightarrow>
     (case coord_ConfigFromEnv frac getenv of
        Inl e \<Rightarrow> (Inl (Wrap ''coordinator configuration'' e), s)
      | Inr None \<Rightarrow> (Inl (ErrorMsg (EnvAddress @ '' is not set'')), s)
      | Inr (Some coordCfg) \<Rightarrow>
     (case Dial dial R Background coordCfg s of
        (Inl e, _, s') \<Rightarrow> (Inl (Wrap ''dialing coordinator'' e), s')
      | (Inr backend, _, s') \<Rightarrow> (Inr (store, backend), s')))))"

text \<open>The operation, with what it puts into \<open>res.Content\<close>; the wrapped error names it.\<close>

definition sw_operation :: "'s env \<Rightarrow> User \<Rightarrow> string \<Rightarrow> string \<Rightarrow> bytes \<Rightarrow> ('s, bytes) op" where
  "sw_operation E user op filename content =
     (if op = ''append'' then bindE (AppendToFile E user filename content) (\<lambda>_. returnE [])
      else if op = ''store'' then bindE (StoreFile E user filename content) (\<lambda>_. returnE [])
      else if op = ''load'' then LoadFile E user filename
      else if op = ''metadata'' then returnE []
      else liftE (Inl (ErrorMsg ''unknown op %q'')))"

definition sw_label :: "string \<Rightarrow> error \<Rightarrow> error" where
  "sw_label op e =
     (if op = ''append'' then Wrap ''AppendToFile'' e else if op = ''store'' then Wrap ''StoreFile'' e
      else if op = ''load'' then Wrap ''LoadFile'' e else e)"

text \<open>From the barrier on, as the user; \<open>t0\<close> and \<open>t1\<close> are the two readings of the clock.\<close>

definition sw_work ::
  "'s env \<Rightarrow> int \<Rightarrow> int \<Rightarrow> User \<Rightarrow> string \<Rightarrow> string \<Rightarrow> bytes \<Rightarrow> result \<Rightarrow> 's world
   \<Rightarrow> (error option \<times> result \<times> 's world) option" where
  "sw_work E t0 t1 user op filename content res w =
     (let res = res\<lparr>rs_StartedAt := t0, rs_EndedAt := t1\<rparr>
      in case sw_operation E user op filename content w of
        None \<Rightarrow> None
      | Some (Inl e, w1) \<Rightarrow> Some (Some (sw_label op e), res, w1)
      | Some (Inr loaded, w1) \<Rightarrow>
         (let res = res\<lparr>rs_Content := loaded\<rparr>
          in case ReadFileMetadata E user filename w1 of
            None \<Rightarrow> None
          | Some (Inl e, w2) \<Rightarrow> Some (Some (Wrap ''ReadFileMetadata'' e), res, w2)
          | Some (Inr snapshot, w2) \<Rightarrow>
              Some (None, res\<lparr>rs_Version := sn_Version snapshot, rs_ChunkCount := sn_ChunkCount snapshot\<rparr>, w2)))"

text \<open>\<open>client_of\<close> is the client with the store and the backend installed.\<close>

definition sw_run ::
  "(nat \<Rightarrow> nat \<Rightarrow> nat \<Rightarrow> nat) \<Rightarrow> (string \<Rightarrow> string) \<Rightarrow> (string \<Rightarrow> error option) \<Rightarrow> (string \<Rightarrow> error option)
   \<Rightarrow> (string \<Rightarrow> error option) \<Rightarrow> 's LockCoordinatorClient \<Rightarrow> (mongo_open \<times> coord_backend \<Rightarrow> 's env) \<Rightarrow> conn \<Rightarrow> int \<Rightarrow> int
   \<Rightarrow> result \<Rightarrow> string \<Rightarrow> string \<Rightarrow> string \<Rightarrow> string \<Rightarrow> bytes \<Rightarrow> string \<Rightarrow> string \<Rightarrow> 's world
   \<Rightarrow> (error option \<times> result \<times> 's world) option" where
  "sw_run frac getenv connect ping dial R client_of c t0 t1 res op username password filename content barrier database w =
     (case sw_connect frac getenv connect ping dial R database (w_ext w) of
        (Inl e, s) \<Rightarrow> Some (Some e, res, w\<lparr>w_ext := s\<rparr>)
      | (Inr installed, s) \<Rightarrow>
     (let E = client_of installed
      in case GetUser E username password (w\<lparr>w_ext := s\<rparr>) of
        None \<Rightarrow> None
      | Some (Inl e, w1) \<Rightarrow> Some (Some (Wrap ''GetUser'' e), res, w1)
      | Some (Inr user, w1) \<Rightarrow>
         (case (if barrier = [] then None else waitAtBarrier c barrier (rs_Worker res)) of
            Some e \<Rightarrow> Some (Some (Wrap ''barrier'' e), res, w1)
          | None \<Rightarrow> sw_work E t0 t1 user op filename content res w1)))"

text \<open>\<open>main\<close>: the error, if any, becomes part of the reported result.\<close>

definition sw_main :: "error option \<Rightarrow> result \<Rightarrow> result" where
  "sw_main err res =
     (case err of
        Some e \<Rightarrow> res\<lparr>rs_OK := False, rs_Error := err_Error e\<rparr>
      | None \<Rightarrow> res\<lparr>rs_OK := True\<rparr>)"

section \<open>What it reports\<close>

text \<open>The process next to the coordinator's server: its stub reaches the server through the remote state.\<close>

definition peer_rpc :: "'s LockCoordinatorClient \<Rightarrow> 's remote LockCoordinatorClient" where
  "peer_rpc R = \<lparr>
     rpc_Acquire = (\<lambda>ctx req s. map_option (\<lambda>(r, p). (r, s\<lparr>rm_peer := p\<rparr>)) (rpc_Acquire R ctx req (rm_peer s))),
     rpc_RenewLease = (\<lambda>ctx raw s. case rpc_RenewLease R ctx raw (rm_peer s) of (r, p) \<Rightarrow> (r, s\<lparr>rm_peer := p\<rparr>)),
     rpc_EndTransaction = (\<lambda>ctx raw s. case rpc_EndTransaction R ctx raw (rm_peer s) of (r, p) \<Rightarrow> (r, s\<lparr>rm_peer := p\<rparr>)),
     rpc_Health = (\<lambda>ctx s. case rpc_Health R ctx (rm_peer s) of (r, p) \<Rightarrow> (r, s\<lparr>rm_peer := p\<rparr>))\<rparr>"

text \<open>Connecting changes nothing, as a health check changes nothing at the server.\<close>

lemma sw_connect_same:
  assumes "sw_connect frac getenv connect ping dial (peer_rpc (cluster_rpc M now fate)) database s = (r, s')"
  shows "s' = s"
proof -
  have "snd (coord_Health (peer_rpc (cluster_rpc M now fate)) ctx s) = s" for ctx
    by (simp add: coord_Health_def peer_rpc_def cluster_rpc_def served_def deliver_def split: transport.split)
  then have "snd (snd (Dial dial (peer_rpc (cluster_rpc M now fate)) ctx cfg s)) = s" for ctx cfg
    by (auto simp: Dial_def Let_def split: option.split prod.split) (metis snd_conv)+
  then show ?thesis
    using assms by (auto simp: sw_connect_def split: sum.splits option.splits prod.splits) (metis snd_conv)+
qed

definition sw_login :: "'s env \<Rightarrow> string \<Rightarrow> string \<Rightarrow> string \<Rightarrow> string \<Rightarrow> bytes \<Rightarrow> ('s, User \<times> bytes) op" where
  "sw_login E n pw op fn content =
     bindE (GetUser E n pw) (\<lambda>user. bindE (sw_operation E user op fn content) (\<lambda>b. returnE (user, b)))"

definition sw_session ::
  "'s env \<Rightarrow> string \<Rightarrow> string \<Rightarrow> string \<Rightarrow> string \<Rightarrow> bytes \<Rightarrow> ('s, bytes \<times> FileMetadataSnapshot) op" where
  "sw_session E n pw op fn content =
     bindE (sw_login E n pw op fn content) (\<lambda>(user, b). bindE (ReadFileMetadata E user fn) (\<lambda>sn. returnE (b, sn)))"

lemma sw_operation_sim:
  "sim (db_view M view) False False (\<lambda>s. store_ok M view \<and> lock_backend_ok B (db_view M view))
    (\<lambda>s. store_ok M view \<and> lock_backend_ok B (db_view M view)) (\<lambda>s. store_ok M view \<and> lock_backend_ok B (db_view M view))
    (sw_operation (mongo_client M now B lib U ord) user op fn b)
    (sw_operation (ideal_of (mongo_client M now B lib U ord)) user op fn b)"
proof -
  have "sim V False False P P P (returnE x) (returnE x)" "sim V False False P P P (liftE (Inl e) :: ('a, bytes) op) (liftE (Inl e))"
    for V :: "'a \<Rightarrow> store_view" and P and x :: bytes and e
    by (auto simp: sim_def returnE_def liftE_def pr_def)
  then show ?thesis
    unfolding sw_operation_def AppendToFile_def StoreFile_def LoadFile_def
    by (simp add: sim_done mgc.AppendToFile_sim mgc.StoreFile_sim mgc.LoadFile_sim)
qed

text \<open>
  The process reports the truth. When it reports success, the content, the version and the chunk
  count in its result, and the objects and keys it leaves, are those of logging in, running the
  operation and reading the metadata on the ideal store. When it reports an error, the objects
  and keys are untouched or the operation had its whole effect.
\<close>

theorem process_reports_faithfully:
  assumes E: "E = worker_client M now fate newUUID lib ord" and V: "V = db_view (cluster_store M) (view \<circ> cl_db)"
    and ok: "store_ok M view"
    and run: "sw_run frac getenv connect ping dial (peer_rpc (cluster_rpc M now fate)) (\<lambda>_. E) c t0 t1 (new_result name op) op
      n pw fn content barrier database w = Some (err, res, w')"
  shows "if rs_OK (sw_main err res)
    then sw_session (ideal_of E) n pw op fn content (pr V w) =
      Some (Inr (rs_Content res, \<lparr>sn_Version = rs_Version res, sn_ChunkCount = rs_ChunkCount res\<rparr>), pr V w')
    else V (w_ext w') = V (w_ext w) \<or>
      (\<exists>y w2. sw_login (ideal_of E) n pw op fn content (pr V w) = Some (Inr y, w2) \<and> w_ext w2 = V (w_ext w')) \<or>
      (\<exists>y w2. sw_session (ideal_of E) n pw op fn content (pr V w) = Some (Inr y, w2) \<and> w_ext w2 = V (w_ext w'))"
proof -
  define B where "B = RemoteBackend (cluster_rpc M now fate) (ms_uuid M) newUUID"
  have E': "E = mongo_client (cluster_store M) now B lib (ms_uuid M) ord" by (simp add: E worker_client_def B_def)
  have P: "store_ok (cluster_store M) (view \<circ> cl_db) \<and> lock_backend_ok B V"
    using cluster_store_ok [OF ok] remote_backend_ok [of M view] ok by (simp add: V B_def store_ok_def)
  note get = simD [OF mgc.GetUser_sim [where view = "view \<circ> cl_db" and M = "cluster_store M" and now = now and B = B
      and lib = lib and U = "ms_uuid M" and ord = ord and c = operationContext and n = n and pw = pw], folded V E' GetUser_def, OF P]
  note opn = simD [OF sw_operation_sim [where view = "view \<circ> cl_db" and M = "cluster_store M" and now = now and B = B
      and lib = lib and U = "ms_uuid M" and ord = ord and op = op and fn = fn and b = content], folded V E', OF P]
  note meta = simD [OF mgc.ReadFileMetadata_sim [where view = "view \<circ> cl_db" and M = "cluster_store M" and now = now and B = B
      and lib = lib and U = "ms_uuid M" and ord = ord and fn = fn], folded V E', OF P]
  obtain rc s where conn: "sw_connect frac getenv connect ping dial (peer_rpc (cluster_rpc M now fate)) database (w_ext w) = (rc, s)"
    by fastforce
  from sw_connect_same [OF conn] have s: "w\<lparr>w_ext := s\<rparr> = w" by simp
  show ?thesis
  proof (cases rc)
    case (Inl e)
    with run conn s show ?thesis by (auto simp: sw_run_def sw_main_def)
  next
    case (Inr i)
    show ?thesis
    proof (cases "GetUser E n pw w" rule: out_cases)
      case nothing
      with run conn s Inr show ?thesis by (simp add: sw_run_def)
    next
      case (failed e w1)
      with run conn s Inr get [of w] show ?thesis by (auto simp: sw_run_def sw_main_def)
    next
      case (done_ user w1)
      with get [of w] have g: "GetUser (ideal_of E) n pw (pr V w) = Some (Inr user, pr V w1)" "V (w_ext w1) = V (w_ext w)" by auto
      show ?thesis
      proof (cases "if barrier = [] then None else waitAtBarrier c barrier (rs_Worker (new_result name op))")
        case (Some e)
        with run conn s Inr done_ g show ?thesis by (auto simp: sw_run_def sw_main_def)
      next
        case None
        with run conn s Inr done_
        have work: "sw_work E t0 t1 user op fn content (new_result name op) w1 = Some (err, res, w')"
          by (simp add: sw_run_def)
        show ?thesis
        proof (cases "sw_operation E user op fn content w1" rule: out_cases)
          case nothing
          with work show ?thesis by (simp add: sw_work_def)
        next
          case (failed e w2)
          with work g opn [of w1 user] show ?thesis
            by (auto simp: sw_work_def sw_main_def sw_login_def bindE_def returnE_def)
        next
          case (done_ b w2)
          with opn [of w1 user] g
          have login: "sw_login (ideal_of E) n pw op fn content (pr V w) = Some (Inr (user, b), pr V w2)"
            by (auto simp: sw_login_def bindE_def returnE_def)
          show ?thesis
            using work done_ login meta [of w2 user]
            by (cases "ReadFileMetadata E user fn w2" rule: out_cases)
               (auto simp: sw_work_def sw_main_def sw_session_def bindE_def returnE_def pr_def)
        qed
      qed
    qed
  qed
qed

end
