(* ===== verification/Process_Main.thy ===== *)
theory Process_Main
  imports Process_Worker
begin

text \<open>
  The command line, the pause hook and the report of the one-shot worker process: the rest of
  \<open>cmd/saferworker/main.go\<close>. The report is one line of JSON on the standard output.
\<close>

section \<open>The command line\<close>

record sw_options =
  so_name :: string
  so_op :: string
  so_user :: string
  so_password :: string
  so_file :: string
  so_content :: string
  so_barrier :: string
  so_database :: string
  so_pauseAt :: string
  so_pauseSignal :: string
  so_stopRenewals :: bool
  so_disableFencing :: bool

definition sw_flags :: flags where
  "sw_flags =
     [(''name'', FString ''worker''), (''op'', FString []), (''user'', FString []), (''password'', FString []),
      (''file'', FString []), (''content'', FString []), (''barrier'', FString []), (''db'', FString []),
      (''pause-at'', FString []), (''pause-signal'', FString []), (''stop-renewals-on-pause'', FBool False),
      (''disable-fencing'', FBool False)]"

definition sw_options_of :: "flags \<Rightarrow> sw_options" where
  "sw_options_of fs = \<lparr>so_name = get_string fs ''name'', so_op = get_string fs ''op'', so_user = get_string fs ''user'',
     so_password = get_string fs ''password'', so_file = get_string fs ''file'', so_content = get_string fs ''content'',
     so_barrier = get_string fs ''barrier'', so_database = get_string fs ''db'', so_pauseAt = get_string fs ''pause-at'',
     so_pauseSignal = get_string fs ''pause-signal'', so_stopRenewals = get_bool fs ''stop-renewals-on-pause'',
     so_disableFencing = get_bool fs ''disable-fencing''\<rparr>"

definition sw_parse :: "(nat \<Rightarrow> nat \<Rightarrow> nat \<Rightarrow> nat) \<Rightarrow> string list \<Rightarrow> error + sw_options" where
  "sw_parse frac args = (case flag_Parse frac sw_flags args of Inl e \<Rightarrow> Inl e | Inr fs \<Rightarrow> Inr (sw_options_of fs))"

section \<open>The pause hook\<close>

text \<open>\<open>strings.Contains\<close>.\<close>

fun contains :: "string \<Rightarrow> string \<Rightarrow> bool" where
  "contains [] w \<longleftrightarrow> w = []"
| "contains (c # s) w \<longleftrightarrow> take (length w) (c # s) = w \<or> contains s w"

text \<open>
  The hook that \<open>installPauseHook\<close> installs: whether its \<open>sync.Once\<close> has run, whether heartbeats
  are suspended, and the tags announced. Each firing of a hook is one call.
\<close>

record pause_state =
  ps_done :: bool
  ps_suspended :: bool
  ps_announced :: "string list"

definition pause_hook :: "string \<Rightarrow> string \<Rightarrow> bool \<Rightarrow> string \<Rightarrow> pause_state \<Rightarrow> pause_state" where
  "pause_hook tag signalAddress stopRenewals fired p =
     (if \<not> contains fired tag \<or> ps_done p then p
      else p\<lparr>ps_done := True, ps_suspended := ps_suspended p \<or> stopRenewals,
             ps_announced := ps_announced p @ (if signalAddress = [] then [] else [fired])\<rparr>)"

lemma pause_hook_once:
  "length (ps_announced (fold (pause_hook tag addr stop) fires \<lparr>ps_done = False, ps_suspended = False, ps_announced = []\<rparr>)) \<le> 1"
proof -
  have "length (ps_announced (fold (pause_hook tag addr stop) fires p)) \<le> length (ps_announced p) + (if ps_done p then 0 else 1)"
    for p
  proof (induction fires arbitrary: p)
    case (Cons f fires)
    from Cons [of "pause_hook tag addr stop f p"] show ?case by (auto simp: pause_hook_def split: if_splits)
  qed simp
  from this [of "\<lparr>ps_done = False, ps_suspended = False, ps_announced = []\<rparr>"] show ?thesis by simp
qed

section \<open>The report\<close>

definition int_literal :: "int \<Rightarrow> string" where
  "int_literal x = (if x < 0 then CHR ''-'' # itoa (nat (- x)) else itoa (nat x))"

text \<open>An \<open>int64\<close>: an optional sign and digits, in range.\<close>

definition int64_of_literal :: "string \<Rightarrow> int option" where
  "int64_of_literal n =
     (let (neg, ds) = (case n of c # cs \<Rightarrow> if c = CHR ''-'' then (True, cs) else (False, n) | [] \<Rightarrow> (False, n));
          v = (if neg then - int (atoi ds) else int (atoi ds))
      in if list_all is_digit ds \<and> ds \<noteq> [] \<and> - (2 ^ 63) \<le> v \<and> v < 2 ^ 63 then Some v else None)"

definition int64_codec :: "int codec" where
  "int64_codec = (\<lambda>x. JNum (int_literal x),
     \<lambda>j old. case j of JNum n \<Rightarrow> int64_of_literal n | JNull \<Rightarrow> Some old | _ \<Rightarrow> None)"

definition result_fields :: "result field list" where
  "result_fields =
     [field ''worker'' string_codec rs_Worker rs_Worker_update, field ''op'' string_codec rs_Op rs_Op_update,
      field ''ok'' bool_codec rs_OK rs_OK_update, field ''error'' string_codec rs_Error rs_Error_update,
      field ''content'' string_codec rs_Content rs_Content_update, field ''version'' uint64_codec rs_Version rs_Version_update,
      field ''chunk_count'' uint64_codec rs_ChunkCount rs_ChunkCount_update,
      field ''started_at_unix_nano'' int64_codec rs_StartedAt rs_StartedAt_update,
      field ''ended_at_unix_nano'' int64_codec rs_EndedAt rs_EndedAt_update]"

text \<open>The \<open>omitempty\<close> of \<open>Error\<close>.\<close>

definition result_codec :: "result codec" where
  "result_codec =
     (\<lambda>r. JObj (map (\<lambda>f. (fst f, fst (snd f) r)) (filter (\<lambda>f. fst f = ''error'' \<longrightarrow> rs_Error r \<noteq> []) result_fields)),
      snd (struct_codec result_fields))"

text \<open>What \<open>main\<close> prints: the encoded result and a newline.\<close>

definition sw_report :: "error option \<Rightarrow> result \<Rightarrow> bytes" where
  "sw_report err res = json_Marshal result_codec (sw_main err res) @ [newline]"

text \<open>
  The whole process: \<open>getenv\<close> is its environment and \<open>client_of\<close> the client it runs, which may depend
  on the switches \<open>-pause-at\<close> and \<open>-disable-fencing\<close> of its command line. It ends with its exit status,
  or with what it printed; \<open>flag.Parse\<close> leaves the process on a bad command line.
\<close>

definition sw_process ::
  "(nat \<Rightarrow> nat \<Rightarrow> nat \<Rightarrow> nat) \<Rightarrow> (string \<Rightarrow> error option) \<Rightarrow> (string \<Rightarrow> error option) \<Rightarrow> (string \<Rightarrow> error option)
   \<Rightarrow> 's LockCoordinatorClient \<Rightarrow> (sw_options \<Rightarrow> mongo_open \<times> coord_backend \<Rightarrow> 's env) \<Rightarrow> conn \<Rightarrow> int \<Rightarrow> int
   \<Rightarrow> (string \<Rightarrow> string) \<Rightarrow> string list \<Rightarrow> 's world \<Rightarrow> ((error + bytes) \<times> 's world) option" where
  "sw_process frac connect ping dial R client_of c t0 t1 getenv args w =
     (case sw_parse frac args of
        Inl e \<Rightarrow> Some (Inl e, w)
      | Inr opts \<Rightarrow>
         (case sw_run frac getenv connect ping dial R (client_of opts) c t0 t1 (new_result (so_name opts) (so_op opts))
                 (so_op opts) (so_user opts) (so_password opts) (so_file opts) (so_content opts) (so_barrier opts)
                 (so_database opts) w of
            None \<Rightarrow> None
          | Some (err, res, w') \<Rightarrow> Some (Inr (sw_report err res), w')))"

section \<open>The report is one line\<close>

definition printable :: "bytes \<Rightarrow> bool" where
  "printable s \<longleftrightarrow> (\<forall>c \<in> set s. 32 \<le> byte c)"

lemma printable_simps [simp]:
  "printable []" "printable (c # s) \<longleftrightarrow> 32 \<le> byte c \<and> printable s" "printable (s @ t) \<longleftrightarrow> printable s \<and> printable t"
  by (auto simp: printable_def)

lemma utf8_wide_printable: "2 \<le> utf8_width s \<Longrightarrow> printable (take (utf8_width s) s)"
  by (cases s) (auto simp: utf8_width.simps is_cont_def split: list.splits if_splits)

lemma hex_digit_printable: "n < 16 \<Longrightarrow> 32 \<le> byte (hex_digit n)"
  by (simp add: hex_digit_def)

lemma escape_printable: "byte c < 128 \<Longrightarrow> printable (escape c)"
  by (auto simp: escape_def hex_digit_printable)

lemma quote_body_printable: "printable (quote_body s)"
proof (induction s rule: quote_body.induct)
  case (2 c cs)
  consider "utf8_width (c # cs) = 0" | "utf8_width (c # cs) = 1" | "2 \<le> utf8_width (c # cs)" by linarith
  then show ?case
  proof cases
    case 1
    with 2(1) [OF refl refl] show ?thesis by (simp add: backslash_u_def)
  next
    case 2
    then have "byte c < 128" using utf8_width_1 [of c cs] by blast
    with 2 "2.IH"(2) [OF refl refl] escape_printable [of c] show ?thesis by simp
  next
    case 3
    with utf8_wide_printable [OF 3] "2.IH"(3) [OF refl refl] show ?thesis
      by (simp add: Let_def backslash_u_def)
  qed
qed simp

lemma itoa_printable: "printable (itoa n)"
  unfolding printable_def
proof
  fix c assume "c \<in> set (itoa n)"
  from itoa_digits [OF this] show "32 \<le> byte c" by (simp add: is_digit_def)
qed

lemma print_printable:
  "nat_numbers j \<Longrightarrow> printable (print_json j)"
  "list_all nat_numbers js \<Longrightarrow> printable (print_elems js)"
  "list_all (\<lambda>(k, v). nat_numbers v) ms \<Longrightarrow> printable (print_members ms)"
proof (induction j and js and ms rule: print_json_print_elems_print_members.induct)
  case (3 n)
  then show ?case using itoa_printable [of "atoi n"] by simp
qed (auto simp: quote_def quote_body_printable)

section \<open>Reading the report back\<close>

definition clean_result :: "result \<Rightarrow> result" where
  "clean_result r = r\<lparr>rs_Worker := to_valid (rs_Worker r), rs_Op := to_valid (rs_Op r), rs_Error := to_valid (rs_Error r),
     rs_Content := to_valid (rs_Content r)\<rparr>"

definition timely :: "result \<Rightarrow> bool" where
  "timely r \<longleftrightarrow> 0 \<le> rs_StartedAt r \<and> rs_StartedAt r < 2 ^ 63 \<and> 0 \<le> rs_EndedAt r \<and> rs_EndedAt r < 2 ^ 63"

text \<open>The times of a report are readings of the clock, or zero.\<close>

lemma sw_run_timely:
  assumes "sw_run frac getenv connect ping dial R client_of c t0 t1 (new_result name op) op n pw fn content barrier database w =
      Some (err, res, w')"
    and "0 \<le> t0" "t0 < 2 ^ 63" "0 \<le> t1" "t1 < 2 ^ 63"
  shows "timely (sw_main err res)"
proof -
  have work: "timely r'" if "sw_work E t0 t1 user op fn content r v = Some (e, r', v')" for E user r v e r' v'
    using that assms(2-) unfolding sw_work_def Let_def
    by (auto simp: timely_def split: option.splits sum.splits prod.splits)
  have "timely (new_result name op)" by (simp add: timely_def new_result_def)
  with assms(1) work have "timely res"
    unfolding sw_run_def Let_def by (auto split: option.splits sum.splits prod.splits if_splits)
  then show ?thesis by (cases err) (simp_all add: timely_def sw_main_def)
qed

lemma to_valid_Nil_iff [simp]: "to_valid s = [] \<longleftrightarrow> s = []"
  by (cases s) (auto simp: RuneError_def)

lemma int64_literal: "0 \<le> x \<Longrightarrow> x < 2 ^ 63 \<Longrightarrow> int64_of_literal (int_literal x) = Some x"
proof -
  assume x: "0 \<le> x" "x < 2 ^ 63"
  obtain c cs where c: "itoa (nat x) = c # cs" by (cases "itoa (nat x)") simp_all
  with itoa_digits [of c "nat x"] have "c \<noteq> CHR ''-''" by (auto simp: is_digit_def)
  moreover have "list_all is_digit (itoa (nat x))" using itoa_digits by (auto simp: list_all_iff)
  moreover have "int (atoi (itoa (nat x))) = x" using x by simp
  ultimately show ?thesis using x unfolding int64_of_literal_def int_literal_def c by simp
qed

lemma result_names: "good_names (map fst result_fields)"
proof -
  have "good_names [''worker'', ''op'', ''ok'', ''error'', ''content'', ''version'', ''chunk_count'', ''started_at_unix_nano'',
     ''ended_at_unix_nano'']" by code_simp
  then show ?thesis by (simp add: result_fields_def field_def)
qed

lemma valid_literals [simp]: "ascii s \<Longrightarrow> to_valid s = s"
  using ascii_valid [of s] by (simp add: valid_utf8_def)

lemma result_json_clean: "clean_json (fst result_codec r) = fst result_codec (clean_result r)"
  by (simp add: result_codec_def result_fields_def field_def clean_result_def string_codec_def bool_codec_def uint64_codec_def
      int64_codec_def ascii_def)

lemma result_json_plain: "timely r \<Longrightarrow> nat_numbers (fst result_codec r) \<and> within_depth 1 (fst result_codec r)"
  by (simp add: result_codec_def result_fields_def field_def string_codec_def bool_codec_def uint64_codec_def
      int64_codec_def timely_def int_literal_def)

lemma result_decode: "timely r \<Longrightarrow> snd result_codec (fst result_codec r) (new_result [] []) = Some r"
  using set_members_copy [OF filter_is_subset result_names, of "new_result [] []" r "\<lambda>f. fst f = ''error'' \<longrightarrow> rs_Error r \<noteq> []"]
  by (simp add: result_codec_def struct_codec_def)
     (simp add: result_fields_def field_def timely_def codec_rt_parts int64_codec_def int64_literal string_codec_def
      new_result_def)

lemma report_roundtrip:
  assumes "timely r"
  shows "json_Unmarshal result_codec (json_Marshal result_codec r) (new_result [] []) = Some (clean_result r)"
  using Unmarshal_Marshal_gen [of result_codec r 1 "new_result [] []"] result_json_plain [OF assms] assms
    result_decode [of "clean_result r"]
  by (simp add: result_json_clean maxNestingDepth_def) (simp add: timely_def clean_result_def)

end
