(* ===== verification/Harness.thy ===== *)
theory Harness
  imports Process_Main "HOL-Library.Multiset"
begin

text \<open>
  The cross-process harness, \<open>integration/crossprocess/harness.go\<close>, as far as it is logic: the
  command line and environment it gives a worker process, how it reads the process's report, and the
  barrier at which the processes meet. Building binaries, starting processes and the bookkeeping of
  the Go test runner are left out.
\<close>

section \<open>Starting a worker\<close>

record WorkerSpec =
  ws_Name :: string
  ws_Op :: string
  ws_User :: string
  ws_Password :: string
  ws_File :: string
  ws_Content :: string
  ws_PauseAt :: string
  ws_StopRenewalsOnPause :: bool
  ws_DisableFencing :: bool

record Cluster =
  cl_MongoURI :: string
  cl_Database :: string
  cl_CoordAddress :: string

definition workerCommand :: "Cluster \<Rightarrow> WorkerSpec \<Rightarrow> string \<Rightarrow> string \<Rightarrow> string list \<times> (string \<times> string) list" where
  "workerCommand c spec barrierAddress pauseAddress =
     ([''-name'', ws_Name spec, ''-op'', ws_Op spec, ''-user'', ws_User spec, ''-password'', ws_Password spec,
       ''-file'', ws_File spec, ''-content'', ws_Content spec, ''-barrier'', barrierAddress, ''-db'', cl_Database c]
      @ (if ws_PauseAt spec \<noteq> [] then [''-pause-at'', ws_PauseAt spec, ''-pause-signal'', pauseAddress] else [])
      @ (if ws_StopRenewalsOnPause spec then [''-stop-renewals-on-pause''] else [])
      @ (if ws_DisableFencing spec then [''-disable-fencing''] else []),
      [(EnvURI, cl_MongoURI c), (EnvDatabase, cl_Database c), (EnvAddress, cl_CoordAddress c)])"

text \<open>A string flag takes the next argument, whatever it is; a boolean one takes none.\<close>

lemma parseOne_string:
  assumes "map_of fs n = Some (FString old)" "n \<noteq> []" "hd n \<noteq> CHR ''-''" "hd n \<noteq> CHR ''=''" "CHR ''='' \<notin> set n"
  shows "parseOne frac fs (CHR ''-'' # n) (v # args) = Inr (Some (AList.update n (FString v) fs, args))"
  using assms
  by (cases n) (auto simp: parseOne_def split_flag_def flag_argument_def Let_def dropWhile_eq_Nil_conv)

lemma parseOne_bool:
  assumes "kinds fs n = Some 3" "n \<noteq> []" "hd n \<noteq> CHR ''-''" "hd n \<noteq> CHR ''=''" "CHR ''='' \<notin> set n"
  shows "parseOne frac fs (CHR ''-'' # n) args = Inr (Some (AList.update n (FBool True) fs, args))"
proof -
  from assms(1) obtain v where "map_of fs n = Some v" "flag_kind v = 3" by (auto simp: kinds_def)
  then obtain old where "map_of fs n = Some (FBool old)" by (cases v) auto
  with assms(2-) show ?thesis
    by (cases n) (auto simp: parseOne_def split_flag_def flag_argument_def Let_def dropWhile_eq_Nil_conv ParseBool_def)
qed

lemma worker_options:
  "sw_parse frac (fst (workerCommand c spec barrier pause)) = Inr \<lparr>so_name = ws_Name spec, so_op = ws_Op spec,
     so_user = ws_User spec, so_password = ws_Password spec, so_file = ws_File spec, so_content = ws_Content spec,
     so_barrier = barrier, so_database = cl_Database c, so_pauseAt = ws_PauseAt spec,
     so_pauseSignal = (if ws_PauseAt spec = [] then [] else pause),
     so_stopRenewals = ws_StopRenewalsOnPause spec, so_disableFencing = ws_DisableFencing spec\<rparr>"
  by (auto simp: sw_parse_def workerCommand_def parseOne_string parseOne_bool sw_flags_def sw_options_of_def
      get_string_def get_bool_def kinds_def)

section \<open>Reading a worker's report\<close>

text \<open>\<open>strings.ReplaceAll\<close> of carriage return and line feed by line feed.\<close>

fun crlf :: "string \<Rightarrow> string" where
  "crlf (c # d # s) = (if c = CHR 0x0D \<and> d = newline then newline # crlf s else c # crlf (d # s))"
| "crlf s = s"

definition lastNonEmptyLine :: "string \<Rightarrow> string" where
  "lastNonEmptyLine s =
     (case find (\<lambda>l. TrimSpace l \<noteq> []) (rev (split_at newline (crlf s))) of None \<Rightarrow> [] | Some l \<Rightarrow> TrimSpace l)"

type_synonym WorkerResult = result

text \<open>
  A process to run: its environment, its arguments and the state of the world, to its exit error or
  its standard output. The child's environment is the harness's own with the cluster's settings appended,
  where the last setting of a name counts.
\<close>

type_synonym 'w process = "(string \<Rightarrow> string) \<Rightarrow> string list \<Rightarrow> 'w \<Rightarrow> ((error + bytes) \<times> 'w) option"

definition child_env :: "(string \<times> string) list \<Rightarrow> (string \<Rightarrow> string) \<Rightarrow> string \<Rightarrow> string" where
  "child_env settings getenv k = (case map_of (rev settings) k of Some v \<Rightarrow> v | None \<Rightarrow> getenv k)"

definition decode_result :: "string \<Rightarrow> error + WorkerResult" where
  "decode_result stdout =
     (let line = lastNonEmptyLine stdout
      in if line = [] then Inl (ErrorMsg ''worker produced no result line'')
         else case json_Unmarshal result_codec line (new_result [] []) of
           None \<Rightarrow> Inl (ErrorMsg ''decoding %q: %w'')
         | Some result \<Rightarrow> Inr result)"

definition runWorker :: "'w process \<Rightarrow> (string \<Rightarrow> string) \<Rightarrow> Cluster \<Rightarrow> WorkerSpec \<Rightarrow> string \<Rightarrow> 'w
   \<Rightarrow> ((error + WorkerResult) \<times> 'w) option" where
  "runWorker run getenv c spec barrierAddress w =
     (let (args, settings) = workerCommand c spec barrierAddress []
      in case run (child_env settings getenv) args w of
        None \<Rightarrow> None
      | Some (Inl e, w') \<Rightarrow> Some (Inl (ErrorMsg ''running worker: %v''), w')
      | Some (Inr stdout, w') \<Rightarrow> Some (decode_result stdout, w'))"

definition Overlapped :: "WorkerResult \<Rightarrow> WorkerResult \<Rightarrow> bool" where
  "Overlapped a b \<longleftrightarrow> rs_StartedAt a < rs_EndedAt b \<and> rs_StartedAt b < rs_EndedAt a"

text \<open>
  \<open>RunConcurrently\<close> once the workers run: outcomes arrive in any order, each with the index of
  its worker. One outcome is awaited per worker; an error is fatal, and so is an outcome that does not
  arrive in time.
\<close>

fun collect :: "nat \<Rightarrow> (nat \<times> (error + WorkerResult)) list \<Rightarrow> WorkerResult list \<Rightarrow> error + WorkerResult list" where
  "collect 0 outcomes results = Inr results"
| "collect (Suc k) [] results = Inl (ErrorMsg ''timed out waiting for workers; a lock may be held with nothing to release it'')"
| "collect (Suc k) ((i, r) # outcomes) results =
     (case r of Inl e \<Rightarrow> Inl (Wrap ''worker %q'' e) | Inr x \<Rightarrow> collect k outcomes (results[i := x]))"

definition RunConcurrently :: "WorkerSpec list \<Rightarrow> (nat \<times> (error + WorkerResult)) list \<Rightarrow> error + WorkerResult list" where
  "RunConcurrently specs outcomes =
     (if specs = [] then Inl (ErrorMsg ''no workers specified'')
      else collect (length specs) outcomes (replicate (length specs) (new_result [] [])))"

lemma crlf_id: "CHR 0x0D \<notin> set s \<Longrightarrow> crlf s = s"
  by (induction s rule: crlf.induct) auto

lemma split_at_line: "sep \<notin> set s \<Longrightarrow> split_at sep (s @ [sep]) = [s, []]"
  by (induction s) auto

lemma strip_words_id:
  assumes "\<And>w. w \<in> set ws \<Longrightarrow> w \<noteq> [] \<Longrightarrow> s \<noteq> [] \<and> hd s \<noteq> hd w"
  shows "strip_words ws s = s"
proof -
  have "\<not> (w \<noteq> [] \<and> take (length w) s = w)" if "w \<in> set ws" for w
    using assms [OF that] by (cases s; cases w) auto
  then have "find (\<lambda>w. w \<noteq> [] \<and> take (length w) s = w) ws = None" by (auto simp: find_None_iff)
  then show ?thesis by (simp add: strip_words.simps [of ws s])
qed

lemma space_ends:
  assumes "w \<in> set spaces" shows "w \<noteq> []" "hd w \<noteq> CHR ''{''" "last w \<noteq> CHR ''}''"
proof -
  have "list_all (\<lambda>w. w \<noteq> [] \<and> hd w \<noteq> CHR ''{'' \<and> last w \<noteq> CHR ''}'') spaces" by code_simp
  with assms show "w \<noteq> []" "hd w \<noteq> CHR ''{''" "last w \<noteq> CHR ''}''" by (auto simp: list_all_iff)
qed

lemma TrimSpace_object: "TrimSpace (CHR ''{'' # s @ [CHR ''}'']) = CHR ''{'' # s @ [CHR ''}'']"
proof -
  have "strip_words spaces (CHR ''{'' # s @ [CHR ''}'']) = CHR ''{'' # s @ [CHR ''}'']"
    by (rule strip_words_id) (use space_ends(2) in force)
  moreover have "strip_words (map rev spaces) (CHR ''}'' # rev s @ [CHR ''{'']) = CHR ''}'' # rev s @ [CHR ''{'']"
    by (rule strip_words_id) (use space_ends(1,3) in \<open>force simp: hd_rev\<close>)
  ultimately show ?thesis by (simp add: TrimSpace_def)
qed

lemma strip_words_Nil: "strip_words ws [] = []"
proof -
  have "find (\<lambda>w. w \<noteq> [] \<and> take (length w) [] = w) ws = None" by (auto simp: find_None_iff)
  then show ?thesis by (simp add: strip_words.simps [of ws "[]"])
qed

lemma TrimSpace_Nil: "TrimSpace [] = []"
  by (simp add: TrimSpace_def strip_words_Nil)

lemma lastNonEmptyLine_object:
  assumes "printable s"
  shows "lastNonEmptyLine (CHR ''{'' # s @ [CHR ''}''] @ [newline]) = CHR ''{'' # s @ [CHR ''}'']"
proof -
  let ?l = "CHR ''{'' # s @ [CHR ''}'']"
  have "c \<in> set s \<Longrightarrow> 32 \<le> byte c" for c using assms by (simp add: printable_def)
  then have "CHR 0x0D \<notin> set s" "newline \<notin> set s" unfolding newline_def by force+
  then have "crlf (?l @ [newline]) = ?l @ [newline]" "newline \<notin> set ?l" by (auto intro!: crlf_id simp: newline_def)
  with split_at_line [of newline ?l] TrimSpace_object [of s] TrimSpace_Nil show ?thesis
    by (simp add: lastNonEmptyLine_def)
qed

lemma report_read:
  assumes "timely r"
  shows "decode_result (json_Marshal result_codec r @ [newline]) = Inr (clean_result r)"
proof -
  obtain ms where ms: "fst result_codec r = JObj ms" by (simp add: result_codec_def)
  with print_printable(1) [of "fst result_codec r"] result_json_plain [OF assms]
  have p: "printable (print_members ms)" by simp
  have line: "json_Marshal result_codec r = CHR ''{'' # print_members ms @ [CHR ''}'']"
    by (simp add: json_Marshal_def ms)
  show ?thesis
    using lastNonEmptyLine_object [OF p] report_roundtrip [OF assms] by (simp add: decode_result_def line)
qed

lemma collect_all:
  assumes "length outcomes = k" "distinct (map fst outcomes)" "\<forall>(i, r) \<in> set outcomes. i < length results \<and> r = Inr (f i)"
  shows "\<exists>rs. collect k outcomes results = Inr rs \<and> length rs = length results \<and>
    (\<forall>i < length results. rs ! i = (if i \<in> fst ` set outcomes then f i else results ! i))"
  using assms
proof (induction k outcomes results rule: collect.induct)
  case (3 k i r outcomes results)
  from "3.prems"(3) have r: "r = Inr (f i)" "i < length results" by auto
  from "3.prems" r obtain rs where "collect k outcomes (results[i := f i]) = Inr rs" "length rs = length results"
    "\<forall>j < length results. rs ! j = (if j \<in> fst ` set outcomes then f j else results[i := f i] ! j)"
    using "3.IH" [OF r(1)] by auto
  with r "3.prems"(2) show ?case by (auto simp: nth_list_update)
qed auto

text \<open>Whatever the order in which the workers end, the results come in the order of the specifications.\<close>

lemma RunConcurrently_order:
  assumes "specs \<noteq> []" "mset outcomes = mset (map (\<lambda>i. (i, Inr (f i))) [0..<length specs])"
  shows "RunConcurrently specs outcomes = Inr (map f [0..<length specs])"
proof -
  let ?n = "length specs"
  have m: "mset (map fst outcomes) = mset [0..<?n]"
    using arg_cong [OF assms(2), of "image_mset fst"] by (simp add: multiset.map_comp comp_def del: mset_upt)
  have s: "set outcomes = (\<lambda>i. (i, Inr (f i))) ` {0..<?n}"
    using mset_eq_setD [OF assms(2)] by simp
  have "distinct (map fst outcomes)" using mset_eq_imp_distinct_iff [OF m] by simp
  moreover have "length outcomes = ?n" using mset_eq_length [OF assms(2)] by simp
  ultimately obtain rs where rs: "collect ?n outcomes (replicate ?n (new_result [] [])) = Inr rs" "length rs = ?n"
    "\<forall>i < ?n. rs ! i = (if i \<in> fst ` set outcomes then f i else new_result [] [])"
    using collect_all [of outcomes ?n "replicate ?n (new_result [] [])" f] s by auto
  have "rs = map f [0..<?n]" using rs(2,3) s by (auto intro!: nth_equalityI simp: image_image)
  with rs assms(1) show ?thesis by (simp add: RunConcurrently_def)
qed

section \<open>A paused worker\<close>

text \<open>
  What the goroutine that reaps a paused worker sends: here the report counts whenever there is one,
  whatever the exit status.
\<close>

definition reap :: "error option \<Rightarrow> string \<Rightarrow> error + WorkerResult" where
  "reap runErr stdout =
     (let line = lastNonEmptyLine stdout
      in if line = [] then Inl (ErrorMsg ''worker %q produced no result line (exit: %v)'')
         else case json_Unmarshal result_codec line (new_result [] []) of
           None \<Rightarrow> Inl (ErrorMsg ''decoding %q: %w'')
         | Some result \<Rightarrow> Inr result)"

text \<open>
  \<open>StartPaused\<close> waits for the first of three events; the listener gives the connection, or its error.
  The worker is killed on a failed rendezvous and on a timeout, not when it has ended by itself.
\<close>

datatype pause_event = Accepted "error + string" | Exited "error + WorkerResult" | StartupTimeout

definition StartPaused :: "WorkerSpec \<Rightarrow> string option \<Rightarrow> error option \<Rightarrow> pause_event \<Rightarrow> (error + string) \<times> bool" where
  "StartPaused spec listener start ev =
     (if ws_PauseAt spec = [] then (Inl (ErrorMsg ''StartPaused requires a PauseAt''), False)
      else case listener of
        None \<Rightarrow> (Inl (ErrorMsg ''pause listener: %v''), False)
      | Some address \<Rightarrow>
     (case start of
        Some e \<Rightarrow> (Inl (Wrap ''starting worker %q'' e), False)
      | None \<Rightarrow>
     (case ev of
        Accepted (Inl e) \<Rightarrow> (Inl (ErrorMsg ''worker %q never reached its pause point: %v''), True)
      | Accepted (Inr cn) \<Rightarrow> (Inr cn, False)
      | Exited outcome \<Rightarrow> (Inl (ErrorMsg ''worker %q exited before pausing''), False)
      | StartupTimeout \<Rightarrow> (Inl (ErrorMsg ''worker %q never reached its pause point''), True))))"

definition paused_Wait :: "(error + WorkerResult) option \<Rightarrow> error + WorkerResult" where
  "paused_Wait outcome =
     (case outcome of
        None \<Rightarrow> Inl (ErrorMsg ''worker %q never finished after being resumed'')
      | Some (Inl e) \<Rightarrow> Inl (Wrap ''worker %q'' e)
      | Some (Inr result) \<Rightarrow> Inr result)"

section \<open>The harness and its workers agree\<close>

lemma reap_decodes: "reap runErr stdout = Inr r \<longleftrightarrow> decode_result stdout = Inr r"
  by (simp add: reap_def decode_result_def Let_def split: option.split)


definition demo_spec :: WorkerSpec where
  "demo_spec = \<lparr>ws_Name = ''w1'', ws_Op = ''append'', ws_User = ''alice'', ws_Password = [], ws_File = ''-file'',
     ws_Content = ''-db'', ws_PauseAt = [], ws_StopRenewalsOnPause = False, ws_DisableFencing = False\<rparr>"

definition demo_cluster :: Cluster where
  "demo_cluster = \<lparr>cl_MongoURI = ''mongodb://db'', cl_Database = ''safer'', cl_CoordAddress = ''127.0.0.1:1''\<rparr>"

definition demo_conn :: conn where
  "demo_conn = \<lparr>cn_dial = (\<lambda>_. None), cn_deadline = None, cn_write = (\<lambda>_. None), cn_read = Inr ''go''\<rparr>"


end
