(* ===== verification/Rendezvous.thy ===== *)
theory Rendezvous
  imports Harness
begin

text \<open>
  The barrier of \<open>integration/crossprocess/harness.go\<close> at which the worker processes meet, as a step
  relation over its goroutines, and the start of the coordinator process. A worker is on the other
  side of each connection (\<open>waitAtBarrier\<close>): it goes on once it has read its release line.
\<close>

section \<open>The barrier\<close>

text \<open>
  Connections are numbered as they are accepted. Each has a goroutine that reads the announcement
  and then sends the connection into the channel \<open>arrived\<close>, whose capacity is the expected number.
\<close>

record barrier =
  br_expected :: nat
  br_listening :: bool
  br_accepted :: nat
  br_reading :: "nat list"
  br_sending :: "nat list"
  br_arrived :: "nat list"
  br_conns :: "nat list"
  br_released :: "nat list"
  br_failed :: bool

definition newBarrier :: "nat \<Rightarrow> barrier" where
  "newBarrier expected = \<lparr>br_expected = expected, br_listening = True, br_accepted = 0, br_reading = [], br_sending = [],
     br_arrived = [], br_conns = [], br_released = [], br_failed = False\<rparr>"

text \<open>
  \<open>accept\<close>, the goroutines it starts, and \<open>releaseWhenAllArrived\<close>: it collects connections, fails on a
  timeout, and then writes the release line to one connection after the other. Closing the barrier is
  deferred to the end of \<open>RunConcurrently\<close>.
\<close>

inductive barrier_step :: "barrier \<Rightarrow> barrier \<Rightarrow> bool" where
  Accept: "br_listening b \<Longrightarrow> barrier_step b (b\<lparr>br_accepted := br_accepted b + 1, br_reading := br_accepted b # br_reading b\<rparr>)"
| ReadFailed: "c \<in> set (br_reading b) \<Longrightarrow> barrier_step b (b\<lparr>br_reading := remove1 c (br_reading b)\<rparr>)"
| Announced: "c \<in> set (br_reading b) \<Longrightarrow>
    barrier_step b (b\<lparr>br_reading := remove1 c (br_reading b), br_sending := c # br_sending b\<rparr>)"
| Sent: "c \<in> set (br_sending b) \<Longrightarrow> length (br_arrived b) < br_expected b \<Longrightarrow>
    barrier_step b (b\<lparr>br_sending := remove1 c (br_sending b), br_arrived := br_arrived b @ [c]\<rparr>)"
| Collected: "br_arrived b = c # cs \<Longrightarrow> length (br_conns b) < br_expected b \<Longrightarrow> \<not> br_failed b \<Longrightarrow>
    barrier_step b (b\<lparr>br_arrived := cs, br_conns := br_conns b @ [c]\<rparr>)"
| TimedOut: "length (br_conns b) < br_expected b \<Longrightarrow> barrier_step b (b\<lparr>br_failed := True\<rparr>)"
| Released: "length (br_conns b) = br_expected b \<Longrightarrow> length (br_released b) < br_expected b \<Longrightarrow> \<not> br_failed b \<Longrightarrow>
    barrier_step b (b\<lparr>br_released := br_released b @ [br_conns b ! length (br_released b)]\<rparr>)"
| Closed: "br_failed b \<or> length (br_released b) = br_expected b \<Longrightarrow> barrier_step b (b\<lparr>br_listening := False\<rparr>)"

text \<open>The connections whose worker has announced itself.\<close>

definition announced :: "barrier \<Rightarrow> nat list" where
  "announced b = br_sending b @ br_arrived b @ br_conns b"

definition barrier_inv :: "nat \<Rightarrow> barrier \<Rightarrow> bool" where
  "barrier_inv n b \<longleftrightarrow> br_expected b = n \<and> distinct (br_reading b @ announced b) \<and>
     (\<forall>c \<in> set (br_reading b @ announced b). c < br_accepted b) \<and>
     br_released b = take (length (br_released b)) (br_conns b) \<and> length (br_conns b) \<le> n \<and>
     (br_released b \<noteq> [] \<longrightarrow> length (br_conns b) = n)"

interpretation bri: inductive_invariant "newBarrier n" barrier_step "barrier_inv n" for n
proof (unfold_locales, goal_cases)
  case 1
  then show ?case by (simp add: barrier_inv_def newBarrier_def announced_def)
next
  case (2 b b')
  from 2(2,1) show ?case
  proof cases
    case Released
    with 2(1) show ?thesis
      by (auto simp: barrier_inv_def announced_def take_Suc_conv_app_nth)
  next
    case (Collected c cs)
    with 2(1) have "br_released b = []" by (auto simp: barrier_inv_def)
    with 2(1) Collected show ?thesis by (auto simp: barrier_inv_def announced_def)
  qed (auto simp: barrier_inv_def announced_def dest: notin_set_remove1 less_SucI)
qed

text \<open>Enough announcements, and the barrier can be crossed.\<close>

lemma barrier_crossed:
  assumes "barrier_inv n b" "\<not> br_failed b" "n \<le> length (announced b)"
  shows "\<exists>t. reaches barrier_step b t \<and> br_released t = br_conns t \<and> length (br_conns t) = n"
  using assms
proof (induction "2 * length (br_sending b) + length (br_arrived b) + (n - length (br_released b))" arbitrary: b rule: less_induct)
  case less
  have go: ?case if s: "barrier_step b b'" and "\<not> br_failed b'" "length (announced b') = length (announced b)"
    "2 * length (br_sending b') + length (br_arrived b') + (n - length (br_released b')) <
     2 * length (br_sending b) + length (br_arrived b) + (n - length (br_released b))" for b'
  proof -
    have "barrier_inv n b'" using bri.inv_step [OF less.prems(1) s] .
    with less.hyps [OF that(4)] that(2,3) less.prems(3)
    obtain t where "reaches barrier_step b' t" "br_released t = br_conns t" "length (br_conns t) = n" by auto
    with reaches_first [where step = barrier_step, OF s] show ?thesis by blast
  qed
  note inv = less.prems(1) [unfolded barrier_inv_def]
  have rel: "br_released b = take (length (br_released b)) (br_conns b)" using inv by blast
  then have "length (br_released b) = length (take (length (br_released b)) (br_conns b))" by (rule arg_cong)
  then have le: "length (br_released b) \<le> length (br_conns b)" by simp
  consider "length (br_conns b) < n" "br_arrived b \<noteq> []" | "length (br_conns b) < n" "br_arrived b = []"
    | "length (br_conns b) = n" "length (br_released b) < n" | "length (br_conns b) = n" "length (br_released b) = n"
    using inv le by linarith
  then show ?case
  proof cases
    case 1
    then obtain c cs where c: "br_arrived b = c # cs" by (cases "br_arrived b") auto
    show ?thesis by (rule go [OF Collected [OF c]]) (use 1 inv less.prems c in \<open>auto simp: announced_def\<close>)
  next
    case 2
    with less.prems(3) obtain c where c: "c \<in> set (br_sending b)" by (cases "br_sending b") (auto simp: announced_def)
    then have "length (br_sending b) > 0" by (cases "br_sending b") auto
    then show ?thesis
      by (intro go [OF Sent [OF c]]) (use 2 inv less.prems c in \<open>auto simp: announced_def length_remove1\<close>)
  next
    case 3
    show ?thesis by (rule go [OF Released]) (use 3 inv less.prems in \<open>auto simp: announced_def\<close>)
  next
    case 4
    with rel have "br_released b = br_conns b" by simp
    with 4 show ?thesis by (blast intro: reaches_refl)
  qed
qed

text \<open>
  Nobody passes the barrier early and nobody is held back once all have come. In every reachable
  state, if a release line was written to any connection, then the expected number of different connections
  have announced a worker; the connections released are among them, each released once. And as
  soon as that many have announced themselves before the timeout, all of them can be released without a further event
  from outside: the sends into the channel never block each other for good, even with more connections than
  expected. A worker that is not told to go does not pass.
\<close>

theorem barrier_meets:
  assumes "reaches barrier_step (newBarrier n) b"
  shows "(br_released b \<noteq> [] \<longrightarrow> length (br_conns b) = n \<and> distinct (announced b) \<and> n \<le> length (announced b)) \<and>
    set (br_released b) \<subseteq> set (announced b) \<and> distinct (br_released b) \<and>
    (\<not> br_failed b \<and> n \<le> length (announced b) \<longrightarrow>
       (\<exists>t. reaches barrier_step b t \<and> br_released t = br_conns t \<and> length (br_conns t) = n)) \<and>
    (waitAtBarrier c address name = None \<longrightarrow> cn_read c = Inr (''go'' @ [newline]))"
proof -
  note inv = bri.reachable_inv [OF assms]
  then have "set (br_released b) \<subseteq> set (br_conns b)" "distinct (br_conns b)"
    "br_released b = take (length (br_released b)) (br_conns b)"
    by (auto simp: barrier_inv_def announced_def dest: in_set_takeD) (metis in_set_takeD)
  moreover from this have "distinct (br_released b)" by (metis distinct_take)
  moreover have "cn_read c = Inr (''go'' @ [newline])" if "waitAtBarrier c address name = None"
    using that by (auto simp: waitAtBarrier_def split: option.splits sum.splits if_splits)
  ultimately show ?thesis using inv barrier_crossed [OF inv] by (auto simp: barrier_inv_def announced_def)
qed

end
