(* ===== verification/Process_Edges.thy ===== *)
theory Process_Edges
  imports Rendezvous Loadgen_Thms
begin

text \<open>
  The edges of the processes. The load generator's own run (\<open>cmd/loadgen/main.go\<close>) with its dialling
  (\<open>dial.go\<close>); the start of the coordinator by the cross-process harness; and the administrative
  operations of the two MongoDB stores and of the coordinator client.
\<close>

section \<open>The load generator's run\<close>

text \<open>
  \<open>grpc.DialContext\<close> gets a target and, for a static set of addresses, the state of the manual resolver
  that is installed under its scheme.
\<close>

definition dialTarget :: "(string \<Rightarrow> string list option \<Rightarrow> error option) \<Rightarrow> string list \<Rightarrow> error option" where
  "dialTarget DialContext addresses =
     (if length addresses = 1
      then (case DialContext (addresses ! 0) None of
              Some e \<Rightarrow> Some (Wrap (''dialing '' @ addresses ! 0) e)
            | None \<Rightarrow> None)
      else (case DialContext (''loadgen-static'' @ '':///loadgen'') (Some addresses) of
              Some e \<Rightarrow> Some (Wrap ''dialing %v'' e)
            | None \<Rightarrow> None))"

datatype lg_effect = SetupTelemetry | OpenConn | RunWorkload | PrintReport | CloseConn | FlushSpans

text \<open>\<open>run\<close>, with the outcome of the workload as a parameter, and the deferred calls in the trace.\<close>

definition loadgen_run ::
  "(nat \<Rightarrow> nat \<Rightarrow> nat \<Rightarrow> nat) \<Rightarrow> (string \<Rightarrow> string list option \<Rightarrow> error option) \<Rightarrow> (loadgen_config \<Rightarrow> error + Report)
   \<Rightarrow> string list \<Rightarrow> (error + bool) \<times> lg_effect list" where
  "loadgen_run frac DialContext runWorkload args =
     (case loadgen_parseConfig frac args of
        Inl e \<Rightarrow> (Inl e, [])
      | Inr cfg \<Rightarrow>
     (case dialTarget DialContext (lc_Addresses cfg) of
        Some e \<Rightarrow> (Inl e, [SetupTelemetry, FlushSpans])
      | None \<Rightarrow>
     (case runWorkload cfg of
        Inl e \<Rightarrow> (Inl e, [SetupTelemetry, OpenConn, RunWorkload, CloseConn, FlushSpans])
      | Inr rep \<Rightarrow> (Inr (run_failed rep), [SetupTelemetry, OpenConn, RunWorkload, PrintReport, CloseConn, FlushSpans]))))"

text \<open>The exit status of \<open>main\<close>.\<close>

definition loadgen_exit :: "error + bool \<Rightarrow> nat" where
  "loadgen_exit r = (case r of Inl e \<Rightarrow> 1 | Inr failed \<Rightarrow> if failed then 1 else 0)"

text \<open>
  The process succeeds exactly when the configuration was accepted, every address was reached and
  the report shows no failure of any kind; spans are flushed whenever telemetry was set up, as the last effect.
\<close>

lemma loadgen_exit_zero:
  assumes "loadgen_run frac DialContext runWorkload args = (r, tr)"
  shows "loadgen_exit r = 0 \<longleftrightarrow>
      (\<exists>cfg rep. loadgen_parseConfig frac args = Inr cfg \<and> dialTarget DialContext (lc_Addresses cfg) = None \<and>
         runWorkload cfg = Inr rep \<and> rp_Failed rep \<le> 0 \<and> rp_OracleFailures rep = [] \<and> rp_VerificationErrors rep = [])"
    and "tr \<noteq> [] \<Longrightarrow> hd tr = SetupTelemetry \<and> last tr = FlushSpans"
  using assms
  by (auto simp: loadgen_run_def loadgen_exit_def run_failed_def split: sum.splits option.splits if_splits)

text \<open>Every configured address is dialled: alone as the target, or as the resolver's whole set.\<close>

lemma dialTarget_addresses:
  assumes "loadgen_parseConfig frac args = Inr cfg" "dialTarget DialContext (lc_Addresses cfg) = None"
  shows "(\<exists>a. lc_Addresses cfg = [a] \<and> a \<noteq> [] \<and> DialContext a None = None) \<or>
    (2 \<le> length (lc_Addresses cfg) \<and> DialContext ''loadgen-static:///loadgen'' (Some (lc_Addresses cfg)) = None)"
proof -
  from assms(1) have "lc_Addresses cfg \<noteq> [] \<and> list_all (\<lambda>a. a \<noteq> []) (lc_Addresses cfg)"
    by (auto simp: loadgen_parseConfig_def loadgen_addresses_def list_all_iff Let_def split: sum.splits if_splits)
  with assms(2) show ?thesis
    by (cases "lc_Addresses cfg" rule: remdups_adj.cases) (auto simp: dialTarget_def split: option.splits)
qed

section \<open>The coordinator of the harness\<close>

definition coordinator_args :: "string list" where
  "coordinator_args = [''-addr'', ''127.0.0.1:0'', ''-lease'', ''1s'', ''-sweep'', ''100ms'']"

definition coordinator_settings :: "Cluster \<Rightarrow> (string \<times> string) list" where
  "coordinator_settings c = [(EnvURI, cl_MongoURI c), (EnvDatabase, cl_Database c)]"

definition LeaseDuration :: int where "LeaseDuration = Second"

text \<open>
  The lines of its standard output: the address is what follows the first prefix \<open>listening\<close>. Later
  ones find the channel full or its reader gone.
\<close>

definition reported_address :: "string list \<Rightarrow> string option" where
  "reported_address ls =
     map_option (drop (length ''listening '')) (find (\<lambda>l. take (length ''listening '') l = ''listening '') ls)"

lemma parseOne_duration:
  assumes "kinds fs n = Some 2" "n \<noteq> []" "hd n \<noteq> CHR ''-''" "hd n \<noteq> CHR ''=''" "CHR ''='' \<notin> set n"
    and "ParseDuration frac v = Inr d"
  shows "parseOne frac fs (CHR ''-'' # n) (v # args) = Inr (Some (AList.update n (FDuration d) fs, args))"
proof -
  from assms(1) obtain x where "map_of fs n = Some x" "flag_kind x = 2" by (auto simp: kinds_def)
  then obtain old where "map_of fs n = Some (FDuration old)" by (cases x) auto
  with assms(2-) show ?thesis
    by (cases n) (auto simp: parseOne_def split_flag_def flag_argument_def Let_def dropWhile_eq_Nil_conv)
qed

lemma harness_durations: "ParseDuration frac ''1s'' = Inr Second" "ParseDuration frac ''100ms'' = Inr 100000000"
  by (simp_all add: ParseDuration_def duration_parts.simps [of frac] duration_part_def fraction_part_def is_digit_def
      digit_val_def unit_char_def unitMap_def Second_def wrap64_def Let_def)

text \<open>The harness's coordinator has the lease the tests count on, and requires fencing.\<close>

lemma harness_coordinator:
  "coordinator_parseConfig frac coordinator_args =
     Inr \<lparr>oc_Address = ''127.0.0.1:0'', oc_LeaseDuration = LeaseDuration, oc_SweepInterval = 100000000,
          oc_AllowUnfenced = False\<rparr>"
  by (simp add: coordinator_parseConfig_def coordinator_args_def parseOne_string parseOne_duration harness_durations
      coordinator_flags_def get_int_def get_string_def get_bool_def LeaseDuration_def Second_def kinds_def)

lemma reported_address_found:
  assumes "\<And>l. l \<in> set before \<Longrightarrow> take (length ''listening '') l \<noteq> ''listening ''"
  shows "reported_address (before @ (''listening '' @ a) # rest) = Some a"
  using assms by (induction before) (auto simp: reported_address_def)

section \<open>Administration\<close>

text \<open>\<open>ObjectIDs\<close>: \<open>listing\<close> is what \<open>Find\<close> returns, a cursor with its documents and its final error.\<close>

definition decode_id :: "bson_M \<Rightarrow> error + string" where
  "decode_id doc =
     (case map_of doc ''_id'' of
        Some (BString i) \<Rightarrow> Inr i
      | None \<Rightarrow> Inr []
      | _ \<Rightarrow> Inl (ErrorMsg ''error decoding key _id''))"

fun cursor_ids :: "uuid_lib \<Rightarrow> bson_M list \<Rightarrow> uuid list \<Rightarrow> error + uuid list" where
  "cursor_ids U [] ids = Inr ids"
| "cursor_ids U (doc # docs) ids =
     (case decode_id doc of
        Inl e \<Rightarrow> Inl (Wrap ''mongostore: list object ids'' e)
      | Inr i \<Rightarrow>
         (case uuid_Parse U i of
            None \<Rightarrow> Inl (ErrorMsg ''mongostore: list object ids: bad _id %q'')
          | Some u \<Rightarrow> cursor_ids U docs (ids @ [u])))"

definition ObjectIDs :: "uuid_lib \<Rightarrow> error + bson_M list \<times> error option \<Rightarrow> error + uuid list" where
  "ObjectIDs U listing =
     (case listing of
        Inl e \<Rightarrow> Inl (Wrap ''mongostore: list object ids'' e)
      | Inr (docs, fin) \<Rightarrow>
         (case cursor_ids U docs [] of
            Inl e \<Rightarrow> Inl e
          | Inr ids \<Rightarrow> (case fin of Some e \<Rightarrow> Inl (Wrap ''mongostore: list object ids'' e) | None \<Rightarrow> Inr ids)))"

text \<open>The others report what the driver reports; \<open>'d\<close> is the state behind it.\<close>

definition Store_Ping :: "('d \<Rightarrow> error option \<times> 'd) \<Rightarrow> 'd \<Rightarrow> error option \<times> 'd" where
  "Store_Ping ping s = (case ping s of (Some e, s') \<Rightarrow> (Some (Wrap ''mongostore: ping'' e), s') | (None, s') \<Rightarrow> (None, s'))"

definition DropDatabase :: "('d \<Rightarrow> error option \<times> 'd) \<Rightarrow> 'd \<Rightarrow> error option \<times> 'd" where
  "DropDatabase drp s = (case drp s of (Some e, s') \<Rightarrow> (Some (Wrap ''mongostore: drop database'' e), s') | (None, s') \<Rightarrow> (None, s'))"

definition Store_Close :: "('d \<Rightarrow> error option \<times> 'd) \<Rightarrow> 'd \<Rightarrow> error option \<times> 'd" where
  "Store_Close disconnect s =
     (case disconnect s of (Some e, s') \<Rightarrow> (Some (Wrap ''mongostore: disconnect'' e), s') | (None, s') \<Rightarrow> (None, s'))"

definition Backend_Close :: "('d \<Rightarrow> error option \<times> 'd) option \<Rightarrow> 'd \<Rightarrow> error option \<times> 'd" where
  "Backend_Close cn s = (case cn of None \<Rightarrow> (None, s) | Some close \<Rightarrow> close s)"

text \<open>Listing the documents that \<open>Put\<close> wrote gives their identifiers, in the order of the cursor.\<close>

lemma ObjectIDs_listed:
  assumes "uuid_ok U"
  shows "ObjectIDs U (Inr (map (\<lambda>(i, v). objectDocument U i v) objects, None)) = Inr (map fst objects)"
proof -
  have "uuid_Parse U (uuid_String U i) = Some i" for i using assms by (simp add: uuid_ok_def)
  then have "cursor_ids U (map (\<lambda>(i, v). objectDocument U i v) objects) ids = Inr (ids @ map fst objects)" for ids
    by (induction objects arbitrary: ids) (auto simp: objectDocument_def decode_id_def)
  then show ?thesis by (simp add: ObjectIDs_def)
qed

end
