(* ===== verification/Benchmark.thy ===== *)
theory Benchmark
  imports Process_Main Loadgen "HOL-Library.Signed_Division"
begin

text \<open>
  The benchmark command, \<open>cmd/benchmark/main.go\<close> and \<open>report.go\<close>, as far as its numbers go: the plan of
  its trials, the accounting of a repetition, the summary of a trial and the correctness findings of
  the report. A workload's concurrent run enters as what its operations returned; rates are a
  parameter with any linear order, since the source computes them as floating-point quotients.
\<close>

section \<open>Strategies and the plan\<close>

definition strategies :: "(string \<times> ConcurrencyStrategy) list" where
  "strategies = [(''NoCC'', StrategyNoCC), (''GlobalLock'', StrategyGlobalLock), (''SAFER-CC'', StrategySaferCC)]"

definition strategyName :: "ConcurrencyStrategy \<Rightarrow> string" where
  "strategyName s = (case find (\<lambda>sd. snd sd = s) strategies of Some sd \<Rightarrow> fst sd | None \<Rightarrow> ''unknown'')"

text \<open>The loops of \<open>main\<close>: workload, strategy and number of workers (for E of recipients) of each trial, in order.\<close>

definition bench_plan :: "(char \<times> string \<times> nat) list" where
  "bench_plan = concat (map (\<lambda>(l, ns). concat (map (\<lambda>s. map (\<lambda>n. (l, fst s, n)) ns) strategies))
     [(CHR ''A'', [1, 4, 16, 64]), (CHR ''B'', [1, 4, 16, 64]), (CHR ''C'', [16, 64]), (CHR ''D'', [64]), (CHR ''E'', [8])])"

definition totalTrials :: nat where
  "totalTrials = length strategies * (2 * length [1, 4, 16, 64 :: nat] + 2 + 1 + 1)"

section \<open>A repetition\<close>

record repResult =
  rr_ops :: int
  rr_errorsCount :: int
  rr_elapsed :: int
  rr_latencies :: "int list"
  rr_lostWrites :: int
  rr_versionOK :: bool
  rr_finalVersion :: uint64
  rr_expectedVersion :: uint64

text \<open>What one operation of a worker was and returned.\<close>

record bench_op =
  bo_append :: bool
  bo_err :: "error option"
  bo_latency :: int

definition successAppends :: "bench_op list \<Rightarrow> nat" where
  "successAppends os = length (filter (\<lambda>b. bo_append b \<and> bo_err b = None) os)"

definition lost_writes :: "uint64 \<Rightarrow> uint64 \<Rightarrow> int" where
  "lost_writes final expected = (if final < expected then sint (expected - final) else 0)"

text \<open>The end of \<open>workloadAppend\<close> and of \<open>workloadReadHeavy\<close>.\<close>

definition version_account :: "uint64 \<Rightarrow> uint64 \<Rightarrow> int \<Rightarrow> int \<Rightarrow> int \<Rightarrow> bench_op list \<Rightarrow> repResult" where
  "version_account initialVersion finalVersion workers opsPerWorker elapsed os =
     (let expectedVersion = initialVersion + of_nat (successAppends os)
      in \<lparr>rr_ops = workers * opsPerWorker, rr_errorsCount = int (length (filter (\<lambda>b. bo_err b \<noteq> None) os)),
          rr_elapsed = elapsed, rr_latencies = map bo_latency os, rr_lostWrites = lost_writes finalVersion expectedVersion,
          rr_versionOK = (finalVersion = expectedVersion), rr_finalVersion = finalVersion,
          rr_expectedVersion = expectedVersion\<rparr>)"

text \<open>The end of \<open>workloadIndependentFiles\<close>: each file with its final version and the operations on it.\<close>

definition files_account :: "(uint64 \<times> bench_op list) list \<Rightarrow> int \<Rightarrow> int \<Rightarrow> int \<Rightarrow> repResult" where
  "files_account files workers opsPerWorker elapsed =
     \<lparr>rr_ops = workers * opsPerWorker,
      rr_errorsCount = int (length (filter (\<lambda>b. bo_err b \<noteq> None) (concat (map snd files)))),
      rr_elapsed = elapsed, rr_latencies = [],
      rr_lostWrites = sum_list (map (\<lambda>(final, os). lost_writes final (1 + of_nat (successAppends os))) files),
      rr_versionOK = list_all (\<lambda>(final, os). final = 1 + of_nat (successAppends os)) files,
      rr_finalVersion = 0, rr_expectedVersion = 0\<rparr>"

section \<open>A trial\<close>

record 'r trialSummary =
  ts_Strategy :: string
  ts_Workers :: int
  ts_ExtraDim :: int
  ts_ExtraDimLabel :: string
  ts_Repetitions :: nat
  ts_OpsAttempted :: int
  ts_MedianOpsPerSec :: 'r
  ts_MinOpsPerSec :: 'r
  ts_MaxOpsPerSec :: 'r
  ts_P50LatencyMicros :: int
  ts_P95LatencyMicros :: int
  ts_TotalErrors :: int
  ts_TotalLostWrites :: int
  ts_AllRepsVersionOK :: bool

definition ops_per_sec :: "(int \<Rightarrow> int \<Rightarrow> 'r::{linorder, zero}) \<Rightarrow> repResult \<Rightarrow> 'r" where
  "ops_per_sec rate r = (if rr_elapsed r > 0 then rate (rr_ops r - rr_errorsCount r) (rr_elapsed r) else 0)"

definition summarize ::
  "(int \<Rightarrow> int \<Rightarrow> 'r::{linorder, zero}) \<Rightarrow> (nat \<Rightarrow> int) \<Rightarrow> (nat \<Rightarrow> int) \<Rightarrow> string \<Rightarrow> int \<Rightarrow> int \<Rightarrow> string \<Rightarrow> repResult list
   \<Rightarrow> 'r trialSummary" where
  "summarize rate i50 i95 strategy workers extraDim extraDimLabel reps =
     (let opsPerSecs = sort (map (ops_per_sec rate) reps); allLat = sort (concat (map rr_latencies reps));
          pick = (\<lambda>i. if opsPerSecs = [] then 0 else opsPerSecs ! i)
      in \<lparr>ts_Strategy = strategy, ts_Workers = workers, ts_ExtraDim = extraDim, ts_ExtraDimLabel = extraDimLabel,
          ts_Repetitions = length reps, ts_OpsAttempted = sum_list (map rr_ops reps),
          ts_MedianOpsPerSec = pick (length opsPerSecs div 2), ts_MinOpsPerSec = pick 0,
          ts_MaxOpsPerSec = pick (length opsPerSecs - 1),
          ts_P50LatencyMicros = percentile i50 allLat sdiv 1000, ts_P95LatencyMicros = percentile i95 allLat sdiv 1000,
          ts_TotalErrors = sum_list (map rr_errorsCount reps), ts_TotalLostWrites = sum_list (map rr_lostWrites reps),
          ts_AllRepsVersionOK = list_all rr_versionOK reps\<rparr>)"

section \<open>Authorization\<close>

definition expectedAuthErrorSubstrings :: "string list" where
  "expectedAuthErrorSubstrings =
     [''already in use'', ''not a direct share'', ''recipient does not exist'', ''invalid invitation'',
      ''invitation authentication failed'', ''invitation and AccessBox FileID mismatch'', ''stale access box'',
      ''file status'', ''access box'', ''required datastore object is missing'',
      ''datastore object authentication failed'', ''only the file owner can revoke access'', ''invalid'', ''mismatch'']"

definition isExpectedAuthError :: "error option \<Rightarrow> bool" where
  "isExpectedAuthError err =
     (case err of None \<Rightarrow> False | Some e \<Rightarrow> list_ex (contains (err_Error e)) expectedAuthErrorSubstrings)"

record authResult =
  au_Strategy :: string
  au_Attempts :: nat
  au_ExpectedRejects :: nat
  au_UnexpectedErrors :: nat
  au_InvariantViolation :: string

text \<open>\<open>record\<close>: one call per operation, in any order.\<close>

definition record_attempt :: "error option \<Rightarrow> authResult \<Rightarrow> authResult" where
  "record_attempt err a =
     (let a = a\<lparr>au_Attempts := au_Attempts a + 1\<rparr>
      in if err = None then a
         else if isExpectedAuthError err then a\<lparr>au_ExpectedRejects := au_ExpectedRejects a + 1\<rparr>
         else a\<lparr>au_UnexpectedErrors := au_UnexpectedErrors a + 1\<rparr>)"

definition auth_account :: "ConcurrencyStrategy \<Rightarrow> string \<Rightarrow> error option list \<Rightarrow> authResult" where
  "auth_account strategy violation errs =
     fold record_attempt errs \<lparr>au_Strategy = strategyName strategy, au_Attempts = 0, au_ExpectedRejects = 0,
       au_UnexpectedErrors = 0, au_InvariantViolation = violation\<rparr>"

section \<open>The findings of the report\<close>

definition findTrial :: "'r trialSummary list \<Rightarrow> string \<Rightarrow> int \<Rightarrow> 'r trialSummary option" where
  "findTrial trials strategy workers = find (\<lambda>t. ts_Strategy t = strategy \<and> ts_Workers t = workers) trials"

definition lost_under :: "string \<Rightarrow> 'r trialSummary list \<Rightarrow> int" where
  "lost_under strategy trials = sum_list (map ts_TotalLostWrites (filter (\<lambda>t. ts_Strategy t = strategy) trials))"

definition authAllClean :: "authResult list \<Rightarrow> bool" where
  "authAllClean as = list_all (\<lambda>a. \<not> ((au_UnexpectedErrors a > 0 \<or> au_InvariantViolation a \<noteq> []) \<and> au_Strategy a = ''SAFER-CC'')) as"

text \<open>
  What \<open>correctnessFindings\<close> says: whether lost updates were reproduced and how many, the
  two pairs of counts, and whether authorization under SAFER-CC was clean.
\<close>

definition correctnessFindings ::
  "'r trialSummary list \<Rightarrow> 'r trialSummary list \<Rightarrow> authResult list \<Rightarrow> bool \<times> int \<times> (int \<times> int) \<times> (int \<times> int) \<times> bool" where
  "correctnessFindings appends indep auth =
     (lost_under ''NoCC'' appends > 0, lost_under ''NoCC'' appends,
      (lost_under ''GlobalLock'' appends, lost_under ''SAFER-CC'' appends),
      (lost_under ''GlobalLock'' indep, lost_under ''SAFER-CC'' indep), authAllClean auth)"

section \<open>What the numbers mean\<close>

lemma strategyName_known: "strategyName s \<noteq> ''unknown'' \<and> (strategyName s = strategyName t \<longrightarrow> s = t)"
  by (cases s; cases t) (simp_all add: strategyName_def strategies_def)

text \<open>The progress display counts to the number of trials there are.\<close>

lemma bench_plan_total: "length bench_plan = totalTrials \<and> distinct bench_plan"
  by (simp add: bench_plan_def totalTrials_def strategies_def)

text \<open>
  The lost-write oracle is exact: when the version rose by the number of successful appends that
  were kept, the report is the number of those that were not, and the version is right exactly when none was lost.
\<close>

lemma lost_writes_exact:
  assumes final: "final = initial + of_nat kept" and kept: "kept \<le> successAppends os"
    and room: "unat initial + successAppends os < 2 ^ 63"
  shows "rr_lostWrites (version_account initial final workers n elapsed os) = int (successAppends os - kept)"
    and "rr_versionOK (version_account initial final workers n elapsed os) \<longleftrightarrow> kept = successAppends os"
proof -
  let ?s = "successAppends os"
  let ?e = "initial + of_nat ?s"
  have u: "unat (initial + of_nat m) = unat initial + m" if "m \<le> ?s" for m
    using that room by (simp add: unat_word_ariths unat_of_nat take_bit_nat_def)
  have diff: "?e - final = of_nat (?s - kept)" using kept by (simp add: final of_nat_diff)
  have "sint (of_nat (?s - kept) :: uint64) = int (?s - kept)"
    using room by (simp add: signed_of_nat signed_take_bit_int_eq_self)
  moreover have "final < ?e \<longleftrightarrow> kept < ?s" using u [OF kept] u [of ?s] by (simp add: word_less_nat_alt final)
  ultimately show "rr_lostWrites (version_account initial final workers n elapsed os) = int (?s - kept)"
    using kept by (auto simp: version_account_def lost_writes_def diff Let_def)
  have "final = ?e \<longleftrightarrow> kept = ?s" using u [OF kept] u [of ?s] by (metis final le_refl add_left_cancel)
  then show "rr_versionOK (version_account initial final workers n elapsed os) \<longleftrightarrow> kept = ?s"
    by (simp add: version_account_def Let_def)
qed

text \<open>The three rates of a trial are rates of its repetitions, in order.\<close>

lemma summarize_rates:
  assumes "reps \<noteq> []" "t = summarize rate i50 i95 strategy workers extraDim label reps"
  shows "ts_MinOpsPerSec t \<le> ts_MedianOpsPerSec t \<and> ts_MedianOpsPerSec t \<le> ts_MaxOpsPerSec t \<and>
    {ts_MinOpsPerSec t, ts_MedianOpsPerSec t, ts_MaxOpsPerSec t} \<subseteq> ops_per_sec rate ` set reps \<and>
    (\<forall>r \<in> set reps. ts_MinOpsPerSec t \<le> ops_per_sec rate r \<and> ops_per_sec rate r \<le> ts_MaxOpsPerSec t)"
proof -
  define xs where "xs = sort (map (ops_per_sec rate) reps)"
  have l: "length xs = length reps" "sorted xs" and s: "set xs = ops_per_sec rate ` set reps" by (simp_all add: xs_def)
  have n: "xs \<noteq> []" using l(1) assms(1) by auto
  have t: "ts_MinOpsPerSec t = xs ! 0" "ts_MedianOpsPerSec t = xs ! (length xs div 2)" "ts_MaxOpsPerSec t = xs ! (length xs - 1)"
    using n by (simp_all add: assms(2) summarize_def Let_def flip: xs_def)
  have lt: "0 < length xs" using n by simp
  have mono: "xs ! i \<le> xs ! j" if "i \<le> j" "j < length xs" for i j using sorted_nth_mono [OF l(2) that] .
  have mem: "xs ! i \<in> ops_per_sec rate ` set reps" if "i < length xs" for i using nth_mem [OF that] s by simp
  have "xs ! 0 \<le> ops_per_sec rate r \<and> ops_per_sec rate r \<le> xs ! (length xs - 1)" if "r \<in> set reps" for r
  proof -
    from that s obtain i where "i < length xs" "xs ! i = ops_per_sec rate r" by (metis imageI in_set_conv_nth)
    with mono [of 0 i] mono [of i "length xs - 1"] show ?thesis by simp
  qed
  moreover have "length xs div 2 \<le> length xs - 1" using lt by linarith
  ultimately show ?thesis using t mono mem lt by simp
qed

text \<open>Every attempt of the authorization workload is a success, an expected rejection or an unexpected error.\<close>

lemma auth_account_partition:
  "au_Attempts (auth_account s v errs) = length errs \<and>
   au_ExpectedRejects (auth_account s v errs) + au_UnexpectedErrors (auth_account s v errs) = length (filter (\<lambda>e. e \<noteq> None) errs)"
proof -
  have "au_Attempts (fold record_attempt errs a) = au_Attempts a + length errs \<and>
    au_ExpectedRejects (fold record_attempt errs a) + au_UnexpectedErrors (fold record_attempt errs a) =
      au_ExpectedRejects a + au_UnexpectedErrors a + length (filter (\<lambda>e. e \<noteq> None) errs)" for a
    by (induction errs arbitrary: a) (auto simp: record_attempt_def Let_def)
  then show ?thesis by (simp add: auth_account_def)
qed

end
