(* ===== verification/Spec2Isabelle.thy ===== *)
theory Spec2Isabelle
  imports Lock_Invariants Coordinator_Runs Coord_Background Storage_Thms Client_Integrity Deployment Worker_Thms
    Loadgen_Thms Telemetry Process_Edges Benchmark
begin

text \<open>
  SAFER is an end-to-end encrypted, shared file store. Its client (\<open>client/client.go\<close>) keeps
  accounts, files and invitations as protected objects in a store it does not trust. The
  distributed version runs the client in worker services that share one MongoDB; a lock
  coordinator serializes their transactions, leases the locks, and issues fencing tokens that
  MongoDB transactions check, so that a worker that lost its locks cannot commit. This
  development models the Go code of these parts and proves what they promise.

  \<^bold>\<open>The parts and their theories\<close>, from the bottom up.

  \<^item> \<open>Safer_Prelude\<close>: byte strings, errors as values (\<open>Wrap\<close> is \<open>%w\<close>, \<open>errors_Is\<close> follows it),
    \<open>context.Context\<close> as a record, association-list maps, and the locale \<open>inductive_invariant\<close>
    with the reachability every step relation uses. \<open>Third_Party\<close>: the UUID package and the
    MongoDB driver as records of functions, with their documented behaviour (\<open>uuid_ok\<close>,
    \<open>mongo_ok\<close>) and in-memory instances.
  \<^item> \<open>Go_Json\<close>, \<open>Go_Config\<close>: what the source uses of Go's library. JSON encoding and decoding as
    the client's records need it; \<open>time.ParseDuration\<close>, \<open>strconv\<close> and the \<open>flag\<close> package.
  \<^item> \<open>Lock_Manager\<close>, \<open>Lock_Invariants\<close>, \<open>Lock_Service\<close>: \<open>client/lockmanager/lockmanager.go\<close>. The
    state is the record \<open>LockManager\<close>; each critical section of a blocking \<open>AcquireContext\<close> is a
    definition, and \<open>lm_step\<close> interleaves them. Mutual exclusion, no lost wake-up, fairness towards
    queued writers, release, no leaked record, cancellation (C1, C2, C4, C6 to C8); the queue keeps
    its order and its head makes progress (\<open>lm_queue_position_monotone\<close>, \<open>lm_head_progress\<close>). The
    locale \<open>lock_service\<close> is what the callers rely on.
  \<^item> \<open>Fencing\<close>: \<open>client/fencing\<close> and \<open>mongofence/store.go\<close>, with the locale \<open>fence_store\<close>.
  \<^item> \<open>Registry\<close>, \<open>Coordinator\<close>, \<open>Coordinator_Steps\<close>, \<open>Coordinator_Inv\<close>, \<open>Coordinator_Thms\<close>,
    \<open>Coordinator_Runs\<close>: \<open>client/coordination/grpccoord/transactions.go\<close> and \<open>server.go\<close>. \<open>Acquire\<close> is
    cut at its critical sections; \<open>coord_step\<close> interleaves handlers, teardowns and sweeps. Fences are
    invalidated before locks are released, grants are fenced, failures hold nothing, retries are
    idempotent, ids are not recycled, tombstones refuse, sweeps spare live leases (C9 to C13 and
    C15 to C18). C19 is the interleaving in which a revoked transaction is sent a fresh token.
  \<^item> \<open>Coord_Background\<close>: the goroutines of \<open>server.go\<close> that sweep and retry, next to the handlers,
    and \<open>Server.Stop\<close>, which always completes and gives no lock away (C3).
  \<^item> \<open>Storage\<close>, \<open>Storage_Laws\<close>, \<open>Storage_Thms\<close>: \<open>client/storage\<close> with the userlib and the MongoDB
    backend. The locales \<open>object_store\<close>, \<open>key_store\<close> and \<open>write_service\<close> state what a backend owes,
    and both backends are interpreted as such. Atomic groups of writes and the exclusion of stale
    writers over any history (C20, C21).
  \<^item> \<open>Client_Env\<close>, \<open>Client_Data\<close>, \<open>Client\<close>, \<open>Client_Ops\<close>, \<open>Client_Share\<close>: \<open>client/client.go\<close>,
    \<open>client/coordination/coordination.go\<close> and \<open>client/diagnostics.go\<close>. An operation is a function
    of the environment \<open>env\<close> (the package globals, the libraries) on the \<open>world\<close> (counters, the
    state behind the backends); \<open>None\<close> is blocking forever, \<open>Inl\<close> an error.
  \<^item> \<open>Client_Ideal\<close>, \<open>Client_Files\<close>, \<open>Client_Update\<close>, \<open>Client_Sharing\<close>, \<open>Client_Revoke\<close>: the
    specification level, the same operations over two maps. \<open>Client_Refine\<close> is the simulation,
    stated for the locale \<open>client_backend\<close>; \<open>Client_Backends\<close> interprets it for the two
    deployments; \<open>Client_Instance\<close> has concrete functions for the witnesses.
  \<^item> \<open>Client_Thms\<close>, \<open>Client_Sessions\<close>, \<open>Client_Guarantees\<close>, \<open>Client_Integrity\<close>: edit, sharing and
    revocation sessions (C22 to C24), calls on MongoDB happen completely or not at all (C25),
    accounts (C26), a load believes only authenticated objects (C27), objects cannot be moved
    (C28), transaction ids never repeat or wrap (C30), the chunk-identifier loop ends
    (\<open>client_fresh_chunk_terminates\<close>).
  \<^item> \<open>Configs\<close>: \<open>mongostore/config.go\<close>, the configuration part of \<open>grpccoord/client.go\<close>, and the
    three \<open>config.go\<close> of \<open>cmd\<close>. Accepted configurations are well formed (C32).
  \<^item> \<open>Coord_Client\<close>, \<open>Coord_Guard\<close>: \<open>grpccoord/client.go\<close>, the worker's end of the lock protocol.
    \<open>guard_step\<close> interleaves callers, heartbeat and release of one guard: what it presents and
    sends (C33), a release does not deadlock (C34), a healthy worker keeps its lease (C35).
  \<^item> \<open>Deployment\<close>: the client, its remote guards, an unreliable transport, the coordinator's server
    and one MongoDB put together. Calls are all or nothing there too (C36); a revoked worker
    cannot commit (C37).
  \<^item> \<open>Worker\<close>, \<open>Worker_Thms\<close>: \<open>cmd/worker\<close>. The admission limiter bounds the expensive sections and
    loses no slot (C38); an RPC is the client's operation, whole or not at all (C39).
  \<^item> \<open>Startup\<close>: the \<open>run\<close> functions of \<open>cmd/worker/main.go\<close> and \<open>cmd/coordinator/main.go\<close> and the
    two \<open>Open\<close>, with the client's handles that \<open>UseStorage\<close> and \<open>UseCoordination\<close> install.
    Fail-closed start and complete clean-up (C29).
  \<^item> \<open>Telemetry\<close>: \<open>internal/telemetry/telemetry.go\<close> and the programs' \<open>setupTelemetry\<close>. Telemetry is
    set up completely or not at all, and no exporter is leaked (C5).
  \<^item> \<open>Process_Worker\<close>, \<open>Process_Main\<close>: \<open>cmd/saferworker/main.go\<close>. The one-shot process reports what
    the ideal store would show (\<open>process_reports_faithfully\<close>); its command line, pause hook and
    JSON report.
  \<^item> \<open>Harness\<close>, \<open>Rendezvous\<close>: \<open>integration/crossprocess\<close>, which runs such processes against each
    other. The harness and its workers agree on command line and report (C31); nobody passes the
    barrier before all have come, and nobody is held back then (\<open>barrier_meets\<close>).
  \<^item> \<open>Process_Edges\<close>: the run of \<open>cmd/loadgen/main.go\<close> with \<open>dial.go\<close> and its exit status, the
    coordinator as the harness starts it, and the administrative operations of the stores.
  \<^item> \<open>Benchmark\<close>: the numbers of \<open>cmd/benchmark\<close>. The lost-write oracle is exact
    (\<open>lost_writes_exact\<close>), and a trial's summary orders its rates.
  \<^item> \<open>Loadgen\<close>, \<open>Loadgen_Thms\<close>: \<open>cmd/loadgen/workload.go\<close>. The concurrent callers account for every
    operation (C14), and the report equals a reference report (C40).

  \<^bold>\<open>Conventions.\<close> Code outside the repository is a parameter: the userlib cryptography and
  store, the UUID and x509 packages, the MongoDB driver, the generated gRPC stubs and their
  transport, the OpenTelemetry SDK, \<open>net.Listen\<close>, the outcome of a
  process, the clock, random choices, map iteration order (\<open>ord\<close>), the rates of the benchmark, and the two
  floating-point products of the source (the fraction in \<open>ParseDuration\<close>, the index in
  \<open>percentile\<close>). What is assumed of it is a named hypothesis, and concrete instances
  satisfy it. A nil and an empty byte slice are one value, as the code treats them. Times are
  integers of nanoseconds; identifiers and counters that can overflow are words; durations
  that are multiplied wrap explicitly. An error text with a format keeps the format; the wrapped
  error is kept as a value.

  \<^bold>\<open>Bounds.\<close> \<open>acquire_run\<close> has fuel 10; C13 shows that a handler that is not interrupted ends or
  parks within it. JSON parsing has the length of its input plus one as fuel, enough because every
  step consumes input, and Go's own nesting limit of 10000. The search for a fresh chunk identifier
  takes a bound on its draws, and \<open>client_fresh_chunk_terminates\<close> shows one more than the number of old chunks is
  enough when the draws differ. All other recursions are structural or proved to terminate.

  \<^bold>\<open>Not modelled.\<close> Logging, spans and metrics, which have no effect on results, and the
  OpenTelemetry SDK behind \<open>internal/telemetry\<close>, which is a parameter; the client's test hooks; the
  generated code under \<open>proto\<close>; the gRPC resolver and balancer behind \<open>cmd/loadgen/dial.go\<close>; the
  textual form of the reports, and the running and the display of the benchmark's workloads; building
  binaries and starting, killing and skipping processes under \<open>integration\<close>, which is glue to the Go
  test runner and the operating system. Secrecy in a computational sense is
  out of scope: the cryptographic functions are characterised by their functional laws.
\<close>

end
